(* ===== verification/Prelude.thy ===== *)
theory Prelude
  imports Main "HOL-Library.Char_ord" "HOL-Library.List_Lexorder" "HOL-Library.Product_Lexorder"
begin

text \<open>
  Shared vocabulary of the development: the tables of the database as lists of rows, the few SQL
  shapes the services use on them (a keyed lookup, an ordered lookup, an update and a delete with
  a predicate, the number of affected rows), the spread of a JavaScript Set, and the lemmas on
  them that every component uses. Strings are character lists; with the imported orders \<open><\<close> on
  strings is JavaScript's comparison of strings by code units.
\<close>

named_theorems row_simps \<open>rewriting rules on tables\<close>

subsection \<open>Tables\<close>

text \<open>An SQL UPDATE: the rows that satisfy the predicate are rewritten, the others stay.\<close>

definition update_where :: "('r \<Rightarrow> bool) \<Rightarrow> ('r \<Rightarrow> 'r) \<Rightarrow> 'r list \<Rightarrow> 'r list" where
  "update_where P f rows = map (\<lambda>r. if P r then f r else r) rows"

definition delete_where :: "('r \<Rightarrow> bool) \<Rightarrow> 'r list \<Rightarrow> 'r list" where
  "delete_where P rows = filter (\<lambda>r. \<not> P r) rows"

definition affected :: "('r \<Rightarrow> bool) \<Rightarrow> 'r list \<Rightarrow> nat" where
  "affected P rows = length (filter P rows)"

text \<open>A SELECT with an ORDER BY whose first row is taken (findOne with an order).\<close>

definition find_first_by :: "('r \<Rightarrow> 'k::linorder) \<Rightarrow> ('r \<Rightarrow> bool) \<Rightarrow> 'r list \<Rightarrow> 'r option" where
  "find_first_by key P rows =
     (case sort_key key (filter P rows) of [] \<Rightarrow> None | r # _ \<Rightarrow> Some r)"

text \<open>\<open>[...new Set(xs)]\<close>: the first occurrences, in their order.\<close>

fun set_spread :: "'a list \<Rightarrow> 'a list" where
  "set_spread [] = []"
| "set_spread (x # xs) = x # filter (\<lambda>y. y \<noteq> x) (set_spread xs)"

text \<open>One page of an offset-paginated list: \<open>skip((page - 1) * pageSize).take(pageSize)\<close>.\<close>

definition page_of :: "nat \<Rightarrow> nat \<Rightarrow> 'a list \<Rightarrow> 'a list" where
  "page_of page n xs = take n (drop ((page - 1) * n) xs)"

subsection \<open>Operations that may fail\<close>

text \<open>
  A fallible operation returns \<open>Inl\<close> the error it throws or \<open>Inr\<close> its result.
  \<open>and_then\<close> continues after a success, \<open>require\<close> throws unless a condition holds, and
  \<open>or_throw\<close> throws when a lookup finds nothing.
\<close>

definition and_then :: "'e + 'a \<Rightarrow> ('a \<Rightarrow> 'e + 'b) \<Rightarrow> 'e + 'b" where
  "and_then x f = (case x of Inl e \<Rightarrow> Inl e | Inr v \<Rightarrow> f v)"

definition require :: "bool \<Rightarrow> 'e \<Rightarrow> 'e + unit" where
  "require c e = (if c then Inr () else Inl e)"

definition or_throw :: "'a option \<Rightarrow> 'e \<Rightarrow> 'e + 'a" where
  "or_throw x e = (case x of None \<Rightarrow> Inl e | Some v \<Rightarrow> Inr v)"

definition is_error :: "'e + 'a \<Rightarrow> bool" where
  "is_error x = (case x of Inl _ \<Rightarrow> True | Inr _ \<Rightarrow> False)"

lemma and_then_simps [simp]:
  "and_then (Inl e) f = Inl e" "and_then (Inr v) f = f v"
  by (simp_all add: and_then_def)

lemma require_simps [simp]:
  "require True e = Inr ()" "require False e = Inl e"
  by (simp_all add: require_def)

lemma or_throw_simps [simp]:
  "or_throw None e = Inl e" "or_throw (Some v) e = Inr v"
  by (simp_all add: or_throw_def)

lemma and_then_Inr_iff: "and_then x f = Inr r \<longleftrightarrow> (\<exists>v. x = Inr v \<and> f v = Inr r)"
  by (cases x) auto

lemma and_then_Inl_iff:
  "and_then x f = Inl e \<longleftrightarrow> x = Inl e \<or> (\<exists>v. x = Inr v \<and> f v = Inl e)"
  by (cases x) auto

lemma require_Inr_iff: "require c e = Inr u \<longleftrightarrow> c"
  by (cases c) auto

lemma require_Inl_iff: "require c e = Inl e' \<longleftrightarrow> \<not> c \<and> e' = e"
  by (cases c) auto

lemma or_throw_Inr_iff: "or_throw x e = Inr v \<longleftrightarrow> x = Some v"
  by (cases x) auto

lemma or_throw_Inl_iff: "or_throw x e = Inl e' \<longleftrightarrow> x = None \<and> e' = e"
  by (cases x) auto

lemmas step_simps = and_then_Inr_iff require_Inr_iff or_throw_Inr_iff

lemmas fail_simps = and_then_Inl_iff require_Inl_iff or_throw_Inl_iff

subsection \<open>Lemmas on tables\<close>

lemma set_update_where [row_simps]:
  "set (update_where P f rows) = {r \<in> set rows. \<not> P r} \<union> f ` {r \<in> set rows. P r}"
  by (auto simp: update_where_def)

lemma length_update_where [simp]: "length (update_where P f rows) = length rows"
  by (simp add: update_where_def)

lemma map_update_where:
  assumes "\<And>r. P r \<Longrightarrow> key (f r) = key r"
  shows "map key (update_where P f rows) = map key rows"
  using assms by (auto simp: update_where_def)

lemma map_update_key:
  "key s = i \<Longrightarrow> map key (update_where (\<lambda>r. key r = i) (\<lambda>_. s) rows) = map key rows"
  by (auto simp: update_where_def)

lemma update_where_id: "(\<And>r. r \<in> set rows \<Longrightarrow> \<not> P r) \<Longrightarrow> update_where P f rows = rows"
  by (induction rows) (auto simp: update_where_def)

lemma update_where_Nil [simp]: "update_where P f [] = []"
  by (simp add: update_where_def)

lemma update_where_Cons [simp]:
  "update_where P f (r # rows) = (if P r then f r else r) # update_where P f rows"
  by (simp add: update_where_def)

lemma set_delete_where [row_simps]: "set (delete_where P rows) = {r \<in> set rows. \<not> P r}"
  by (auto simp: delete_where_def)

lemma affected_pos_iff: "0 < affected P rows \<longleftrightarrow> (\<exists>r \<in> set rows. P r)"
  by (auto simp: affected_def filter_empty_conv)

lemma affected_zero_iff: "affected P rows = 0 \<longleftrightarrow> (\<forall>r \<in> set rows. \<not> P r)"
  by (auto simp: affected_def filter_empty_conv)

lemma find_SomeD: "List.find P rows = Some r \<Longrightarrow> r \<in> set rows \<and> P r"
  by (auto simp: find_Some_iff in_set_conv_nth)

lemma find_NoneD: "List.find P rows = None \<Longrightarrow> r \<in> set rows \<Longrightarrow> \<not> P r"
  by (auto simp: find_None_iff)

text \<open>A lookup by a key that is unique in its table.\<close>

lemma find_unique:
  assumes "distinct (map key rows)" and "r \<in> set rows"
  shows "List.find (\<lambda>x. key x = key r) rows = Some r"
  using assms by (induction rows) (auto simp: image_iff)

lemma distinct_key_eq:
  "distinct (map key rows) \<Longrightarrow> a \<in> set rows \<Longrightarrow> b \<in> set rows \<Longrightarrow> key a = key b \<Longrightarrow> a = b"
  by (auto simp: distinct_map inj_on_def)

text \<open>Replacing the row of a key keeps a column distinct when no other row has its new value.\<close>

lemma distinct_map_replace:
  assumes "distinct (map key rows)" "distinct (map f rows)"
    and "\<And>r. r \<in> set rows \<Longrightarrow> key r \<noteq> key s \<Longrightarrow> f r \<noteq> f s"
  shows "distinct (map f (update_where (\<lambda>r. key r = key s) (\<lambda>_. s) rows))"
  using assms
proof (induction rows)
  case (Cons a rows)
  have rest: "distinct (map f (update_where (\<lambda>r. key r = key s) (\<lambda>_. s) rows))" using Cons by simp
  show ?case
  proof (cases "key a = key s")
    case True
    have other: "key r \<noteq> key s" if "r \<in> set rows" for r
    proof -
      have "key r \<in> key ` set rows" using that by (rule imageI)
      moreover have "key a \<notin> key ` set rows" using Cons.prems(1) by simp
      ultimately show ?thesis using True by metis
    qed
    then have "update_where (\<lambda>r. key r = key s) (\<lambda>_. s) rows = rows" by (rule update_where_id)
    moreover have "f s \<notin> f ` set rows"
    proof
      assume "f s \<in> f ` set rows"
      then obtain r where "r \<in> set rows" "f r = f s" by (metis imageE)
      then show False using Cons.prems(3) [of r] other by simp
    qed
    ultimately show ?thesis using Cons.prems(2) True by simp
  next
    case False
    have "f a \<noteq> f s" using Cons.prems(3) [of a] False by simp
    moreover have "f a \<notin> f ` set rows" using Cons.prems(2) by simp
    ultimately show ?thesis using rest False by (auto simp: row_simps)
  qed
qed simp

lemma find_first_by_Some:
  assumes "find_first_by key P rows = Some r"
  shows "r \<in> set rows" and "P r" and "\<And>x. x \<in> set rows \<Longrightarrow> P x \<Longrightarrow> key r \<le> key x"
proof -
  from assms obtain rs where srt: "sort_key key (filter P rows) = r # rs"
    by (auto simp: find_first_by_def split: list.splits)
  then have st: "set (r # rs) = {x \<in> set rows. P x}"
    by (metis set_filter set_sort)
  then show "r \<in> set rows" and "P r" by auto
  have "sorted (map key (r # rs))" using srt sorted_sort_key [of key "filter P rows"] by simp
  then show "\<And>x. x \<in> set rows \<Longrightarrow> P x \<Longrightarrow> key r \<le> key x"
    using st by (metis (mono_tags, lifting) mem_Collect_eq image_eqI list.set_map list.simps(9) order_refl set_ConsD sorted_simps(2))
qed

lemma find_first_by_None [row_simps]:
  "find_first_by key P rows = None \<longleftrightarrow> (\<forall>r \<in> set rows. \<not> P r)"
proof -
  have "find_first_by key P rows = None \<longleftrightarrow> sort_key key (filter P rows) = []"
    by (simp add: find_first_by_def split: list.splits)
  also have "\<dots> \<longleftrightarrow> filter P rows = []"
    by (metis length_0_conv length_sort)
  also have "\<dots> \<longleftrightarrow> (\<forall>r \<in> set rows. \<not> P r)"
    by (simp add: filter_empty_conv)
  finally show ?thesis .
qed

lemma set_set_spread [simp]: "set (set_spread xs) = set xs"
  by (induction xs) auto

lemma distinct_set_spread [simp]: "distinct (set_spread xs)"
  by (induction xs) auto

lemma set_spread_distinct: "distinct xs \<Longrightarrow> set_spread xs = xs"
  by (induction xs) (auto simp: filter_id_conv)

lemma set_page_of: "set (page_of p n xs) \<subseteq> set xs"
  by (auto simp: page_of_def dest: in_set_takeD in_set_dropD)

lemma length_page_of: "length (page_of p n xs) \<le> n"
  by (simp add: page_of_def)

subsection \<open>Comparison of strings\<close>

lemma list_less_append_eq_length:
  fixes xs ys us vs :: "('a::linorder) list"
  assumes "length xs = length ys"
  shows "xs @ us < ys @ vs \<longleftrightarrow> xs < ys \<or> (xs = ys \<and> us < vs)"
  using assms by (induction xs ys rule: list_induct2) auto

lemma list_less_singleton [simp]:
  fixes a b :: "'a::linorder"
  shows "[a] < [b] \<longleftrightarrow> a < b"
  by auto

subsection \<open>Pages and searches\<close>

lemma find_append_None: "List.find P xs = None \<Longrightarrow> List.find P (xs @ ys) = List.find P ys"
  by (induction xs) (auto split: if_splits)

lemma pages_partition:
  assumes "length xs \<le> n * k"
  shows "concat (map (\<lambda>p. page_of p k xs) [1..<Suc n]) = xs"
proof -
  have "concat (map (\<lambda>p. page_of p k xs) [1..<Suc n]) = take (n * k) xs"
  proof (induction n)
    case (Suc n)
    have "take (Suc n * k) xs = take (n * k) xs @ page_of (Suc n) k xs"
      using take_add [of "n * k" k xs] by (simp add: page_of_def add.commute)
    with Suc show ?case by simp
  qed simp
  with assms show ?thesis by simp
qed

lemma map_filter_concat: "List.map_filter f (concat xss) = concat (map (List.map_filter f) xss)"
  by (induction xss) (simp_all add: List.map_filter_def)

end
