(* ===== verification/Hotel_Date.thy ===== *)
theory Hotel_Date
  imports Prelude
begin

text \<open>
  Hotel dates: calendar days written \<open>YYYY-MM-DD\<close>. The theory models the parts of the ECMAScript
  calendar that the sources use (\<open>Date.UTC\<close>, \<open>Date.parse\<close> of a day at UTC midnight,
  \<open>toISOString\<close>) on the proleptic Gregorian calendar, then \<open>parseHotelDate\<close> and
  \<open>assertBookingDates\<close> of bookings/booking-create.helpers.ts, \<open>hotelDateSpanDays\<close> of
  common/dates/hotel-date-span.ts and the strict pattern of
  common/constants/hotel-date.constants.ts. The lemmas show which strings are accepted, that the
  comparison of accepted strings by code units is the comparison of the days they name, and that
  the number of nights of an accepted stay is positive and exact. The current day in the hotel's
  timezone (\<open>hotelDateToday\<close>, read from the Intl timezone tables) is a parameter.
\<close>

type_synonym hotel_date = string

text \<open>Instants: database columns carry microseconds, JavaScript dates milliseconds.\<close>

type_synonym instant = int

subsection \<open>Decimal strings\<close>

definition digit_char :: "nat \<Rightarrow> char" where
  "digit_char d = char_of (48 + d)"

definition digit_value :: "char \<Rightarrow> nat" where
  "digit_value c = of_char c - 48"

definition is_digit :: "char \<Rightarrow> bool" where
  "is_digit c \<longleftrightarrow> 48 \<le> (of_char c :: nat) \<and> of_char c \<le> (57 :: nat)"

fun pad_decimal :: "nat \<Rightarrow> nat \<Rightarrow> string" where
  "pad_decimal 0 n = []"
| "pad_decimal (Suc k) n = pad_decimal k (n div 10) @ [digit_char (n mod 10)]"

definition decimal_value :: "string \<Rightarrow> nat" where
  "decimal_value s = foldl (\<lambda>n c. 10 * n + digit_value c) 0 s"

lemma of_char_digit_char [simp]: "d < 10 \<Longrightarrow> (of_char (digit_char d) :: nat) = 48 + d"
  by (simp add: digit_char_def of_char_of)

lemma is_digit_digit_char [simp]: "d < 10 \<Longrightarrow> is_digit (digit_char d)"
  by (simp add: is_digit_def)

lemma digit_value_digit_char [simp]: "d < 10 \<Longrightarrow> digit_value (digit_char d) = d"
  by (simp add: digit_value_def)

lemma digit_char_digit_value: "is_digit c \<Longrightarrow> digit_char (digit_value c) = c"
  by (simp add: is_digit_def digit_char_def digit_value_def)

lemma digit_value_bound: "is_digit c \<Longrightarrow> digit_value c < 10"
  unfolding is_digit_def digit_value_def by linarith

lemma digit_char_less_iff: "a < 10 \<Longrightarrow> b < 10 \<Longrightarrow> digit_char a < digit_char b \<longleftrightarrow> a < b"
  by (simp add: less_char_def)

lemma length_pad_decimal [simp]: "length (pad_decimal k n) = k"
  by (induction k arbitrary: n) auto

lemma pad_decimal_digits: "c \<in> set (pad_decimal k n) \<Longrightarrow> is_digit c"
  by (induction k arbitrary: n) auto

lemma decimal_value_snoc [simp]: "decimal_value (s @ [c]) = 10 * decimal_value s + digit_value c"
  by (simp add: decimal_value_def)

lemma decimal_value_Nil [simp]: "decimal_value [] = 0"
  by (simp add: decimal_value_def)

lemma decimal_value_pad: "n < 10 ^ k \<Longrightarrow> decimal_value (pad_decimal k n) = n"
proof (induction k arbitrary: n)
  case (Suc k)
  then have "n div 10 < 10 ^ k" by (simp add: less_mult_imp_div_less mult.commute)
  with Suc.IH show ?case by simp
qed simp

lemma pad_decimal_value: "\<forall>c \<in> set s. is_digit c \<Longrightarrow> pad_decimal (length s) (decimal_value s) = s"
proof (induction s rule: rev_induct)
  case (snoc c s)
  then have "digit_value c < 10" by (simp add: digit_value_bound)
  with snoc show ?case by (simp add: digit_char_digit_value)
qed simp

lemma decimal_value_bound: "\<forall>c \<in> set s. is_digit c \<Longrightarrow> decimal_value s < 10 ^ length s"
proof (induction s rule: rev_induct)
  case (snoc c s)
  then have "digit_value c < 10" by (simp add: digit_value_bound)
  with snoc show ?case by simp
qed simp

lemma div10_lex_iff:
  "(a::nat) < b \<longleftrightarrow> a div 10 < b div 10 \<or> (a div 10 = b div 10 \<and> a mod 10 < b mod 10)"
proof -
  have "a = 10 * (a div 10) + a mod 10" and "b = 10 * (b div 10) + b mod 10"
    and "a mod 10 < 10" and "b mod 10 < 10" by simp_all
  then show ?thesis by linarith
qed

lemma pad_decimal_less_iff:
  "a < 10 ^ k \<Longrightarrow> b < 10 ^ k \<Longrightarrow> pad_decimal k a < pad_decimal k b \<longleftrightarrow> a < b"
proof (induction k arbitrary: a b)
  case (Suc k)
  then have "a div 10 < 10 ^ k" and "b div 10 < 10 ^ k"
    by (simp_all add: less_mult_imp_div_less mult.commute)
  then have IH: "pad_decimal k (a div 10) < pad_decimal k (b div 10) \<longleftrightarrow> a div 10 < b div 10"
    and eq: "pad_decimal k (a div 10) = pad_decimal k (b div 10) \<longleftrightarrow> a div 10 = b div 10"
    using Suc.IH decimal_value_pad by metis+
  have "pad_decimal (Suc k) a < pad_decimal (Suc k) b \<longleftrightarrow>
    a div 10 < b div 10 \<or> (a div 10 = b div 10 \<and> a mod 10 < b mod 10)"
    by (simp add: list_less_append_eq_length IH eq digit_char_less_iff)
  also have "\<dots> \<longleftrightarrow> a < b" by (rule div10_lex_iff [symmetric])
  finally show ?case .
qed simp

lemma pad_decimal_inj: "a < 10 ^ k \<Longrightarrow> b < 10 ^ k \<Longrightarrow> pad_decimal k a = pad_decimal k b \<Longrightarrow> a = b"
  using decimal_value_pad by metis

subsection \<open>The ECMAScript calendar\<close>

definition is_leap :: "int \<Rightarrow> bool" where
  "is_leap y \<longleftrightarrow> y mod 4 = 0 \<and> (y mod 100 \<noteq> 0 \<or> y mod 400 = 0)"

text \<open>The number of the first day of a year, days being counted from 1970-01-01.\<close>

definition day_from_year :: "int \<Rightarrow> int" where
  "day_from_year y = 365 * (y - 1970) + (y - 1969) div 4 - (y - 1901) div 100 + (y - 1601) div 400"

text \<open>The first day of a month (from 0 for January) inside its year.\<close>

definition month_start :: "bool \<Rightarrow> int \<Rightarrow> int" where
  "month_start leap m =
     [0, 31, 59, 90, 120, 151, 181, 212, 243, 273, 304, 334] ! nat m
     + (if leap \<and> 2 \<le> m then 1 else 0)"

definition month_length :: "bool \<Rightarrow> int \<Rightarrow> int" where
  "month_length leap m =
     [31, if leap then 29 else 28, 31, 30, 31, 30, 31, 31, 30, 31, 30, 31] ! nat m"

definition make_day :: "int \<Rightarrow> int \<Rightarrow> int \<Rightarrow> int" where
  "make_day y m d =
     (let ym = y + m div 12; mn = m mod 12
      in day_from_year ym + month_start (is_leap ym) mn + d - 1)"

definition year_from_day :: "int \<Rightarrow> int" where
  "year_from_day t =
     (let y = 1970 + (t * 400) div 146097
      in if t < day_from_year y then y - 1 else if day_from_year (y + 1) \<le> t then y + 1 else y)"

definition day_in_year :: "int \<Rightarrow> int" where
  "day_in_year t = t - day_from_year (year_from_day t)"

definition month_from_day :: "int \<Rightarrow> int" where
  "month_from_day t =
     int (length (filter (\<lambda>m. month_start (is_leap (year_from_day t)) m \<le> day_in_year t) [1..11]))"

definition date_from_day :: "int \<Rightarrow> int" where
  "date_from_day t =
     day_in_year t - month_start (is_leap (year_from_day t)) (month_from_day t) + 1"

definition millisecondsPerDay :: int where
  "millisecondsPerDay = 86400000"

text \<open>\<open>Date.UTC(year, month, day)\<close> in milliseconds; a year from 0 to 99 means 1900 to 1999.\<close>

definition date_utc :: "int \<Rightarrow> int \<Rightarrow> int \<Rightarrow> int" where
  "date_utc y m d =
     make_day (if 0 \<le> y \<and> y \<le> 99 then 1900 + y else y) m d * millisecondsPerDay"

text \<open>The calendar part of \<open>toISOString\<close>; years outside 0000 to 9999 are signed with six digits.\<close>

definition iso_year :: "int \<Rightarrow> string" where
  "iso_year y =
     (if 0 \<le> y \<and> y \<le> 9999 then pad_decimal 4 (nat y)
      else (if y < 0 then CHR ''-'' else CHR ''+'') # pad_decimal 6 (nat \<bar>y\<bar>))"

definition iso_date :: "int \<Rightarrow> int \<Rightarrow> int \<Rightarrow> string" where
  "iso_date y m d =
     iso_year y @ ''-'' @ pad_decimal 2 (nat m) @ ''-'' @ pad_decimal 2 (nat d)"

definition toISOString :: "int \<Rightarrow> string" where
  "toISOString ms =
     (let day = ms div millisecondsPerDay; t = nat (ms mod millisecondsPerDay)
      in iso_date (year_from_day day) (month_from_day day + 1) (date_from_day day)
         @ ''T'' @ pad_decimal 2 (t div 3600000)
         @ '':'' @ pad_decimal 2 (t div 60000 mod 60)
         @ '':'' @ pad_decimal 2 (t div 1000 mod 60)
         @ ''.'' @ pad_decimal 3 (t mod 1000) @ ''Z'')"

subsection \<open>The functions of the sources\<close>

text \<open>\<open>/^(\d{4})-(\d{2})-(\d{2})$/\<close>\<close>

definition matches_date :: "string \<Rightarrow> bool" where
  "matches_date v \<longleftrightarrow>
     length v = 10 \<and> list_all is_digit (take 4 v) \<and> v ! 4 = CHR ''-''
     \<and> list_all is_digit (take 2 (drop 5 v)) \<and> v ! 7 = CHR ''-''
     \<and> list_all is_digit (drop 8 v)"

text \<open>\<open>/^[1-9][0-9]{3}-[0-9]{2}-[0-9]{2}$/\<close>\<close>

definition hotelDatePattern :: "string \<Rightarrow> bool" where
  "hotelDatePattern v \<longleftrightarrow> matches_date v \<and> v ! 0 \<noteq> CHR ''0''"

definition date_year :: "string \<Rightarrow> int" where
  "date_year v = int (decimal_value (take 4 v))"

definition date_month :: "string \<Rightarrow> int" where
  "date_month v = int (decimal_value (take 2 (drop 5 v)))"

definition date_day :: "string \<Rightarrow> int" where
  "date_day v = int (decimal_value (drop 8 v))"

definition parseHotelDate :: "string \<Rightarrow> int option" where
  "parseHotelDate v =
     (if matches_date v then
        let ms = date_utc (date_year v) (date_month v - 1) (date_day v)
        in if take 10 (toISOString ms) = v then Some ms else None
      else None)"

text \<open>
  \<open>Date.parse\<close> of a day followed by \<open>T00:00:00.000Z\<close>: \<open>None\<close> is NaN. The engine accepts
  a month from 1 to 12 and a day from 1 to 31 and carries a day past the end of its month over.
\<close>

definition date_parse :: "string \<Rightarrow> int option" where
  "date_parse v =
     (if matches_date v \<and> 1 \<le> date_month v \<and> date_month v \<le> 12
         \<and> 1 \<le> date_day v \<and> date_day v \<le> 31
      then Some (make_day (date_year v) (date_month v - 1) (date_day v) * millisecondsPerDay)
      else None)"

text \<open>Both operands are whole days, so the quotient under \<open>Math.round\<close> is exact.\<close>

definition hotelDateSpanDays :: "hotel_date \<Rightarrow> hotel_date \<Rightarrow> int option" where
  "hotelDateSpanDays from_date to_date =
     (case (date_parse to_date, date_parse from_date) of
        (Some b, Some a) \<Rightarrow> Some ((b - a) div millisecondsPerDay)
      | _ \<Rightarrow> None)"

definition assertBookingDates :: "hotel_date \<Rightarrow> hotel_date \<Rightarrow> hotel_date \<Rightarrow> int" where
  "assertBookingDates today checkIn checkOut =
     (case (parseHotelDate checkIn, parseHotelDate checkOut) of
        (Some a, Some b) \<Rightarrow>
          if a \<ge> b then 0
          else if checkIn < today then 0
          else (b - a) div millisecondsPerDay
      | _ \<Rightarrow> 0)"

subsection \<open>Reference notions\<close>

text \<open>The dates of the calendar and their order, year first.\<close>

definition valid_date :: "int \<Rightarrow> int \<Rightarrow> int \<Rightarrow> bool" where
  "valid_date y m d \<longleftrightarrow>
     1 \<le> m \<and> m \<le> 12 \<and> 1 \<le> d \<and> d \<le> month_length (is_leap y) (m - 1)"

definition ymd_less :: "int \<Rightarrow> int \<Rightarrow> int \<Rightarrow> int \<Rightarrow> int \<Rightarrow> int \<Rightarrow> bool" where
  "ymd_less y m d y' m' d' \<longleftrightarrow> y < y' \<or> (y = y' \<and> (m < m' \<or> (m = m' \<and> d < d')))"

subsection \<open>Years\<close>

lemma div_mod_split:
  fixes a k :: int
  assumes "0 < k"
  obtains q r where "a div k = q" "a mod k = r" "a = k * q + r" "0 \<le> r" "r < k"
  using assms by (metis mult_div_mod_eq pos_mod_bound pos_mod_sign)

lemma mod_diff_zero_iff: "(k::int) mod c = 0 \<Longrightarrow> (y - k) mod c = 0 \<longleftrightarrow> y mod c = 0"
  by (metis diff_zero mod_diff_right_eq)

lemma div_succ:
  fixes a k :: int
  assumes "0 < k"
  shows "(a + 1) div k = a div k + (if (a + 1) mod k = 0 then 1 else 0)"
proof -
  obtain q r where q: "a div k = q" and a: "a = k * q + r" and r: "0 \<le> r" "r < k"
    using div_mod_split [OF assms] .
  show ?thesis
  proof (cases "r + 1 = k")
    case True
    with a have e: "a + 1 = k * (q + 1) + 0" by (simp add: distrib_left)
    show ?thesis using int_div_pos_eq [OF e] int_mod_pos_eq [OF e] assms q by simp
  next
    case False
    with a have e: "a + 1 = k * q + (r + 1)" by simp
    show ?thesis using int_div_pos_eq [OF e] int_mod_pos_eq [OF e] False r q by simp
  qed
qed

lemma leap_count:
  "(c \<longrightarrow> b) \<Longrightarrow> (b \<longrightarrow> a) \<Longrightarrow>
   (if a then 1 else 0) - (if b then 1 else 0) + (if c then 1 else 0) =
   (if a \<and> (\<not> b \<or> c) then 1 else (0::int))"
  by (cases a; cases b; cases c) simp_all

lemma day_from_year_step:
  "day_from_year (y + 1) = day_from_year y + (if is_leap y then 366 else 365)"
proof -
  let ?A = "(y - 1969) div 4" and ?B = "(y - 1901) div 100" and ?C = "(y - 1601) div 400"
  have a: "(y + 1 - 1969) div 4 = ?A + (if y mod 4 = 0 then 1 else 0)"
    using div_succ [of 4 "y - 1969"] mod_diff_zero_iff [of 1968 4 y] by (simp split del: if_split)
  have b: "(y + 1 - 1901) div 100 = ?B + (if y mod 100 = 0 then 1 else 0)"
    using div_succ [of 100 "y - 1901"] mod_diff_zero_iff [of 1900 100 y] by (simp split del: if_split)
  have c: "(y + 1 - 1601) div 400 = ?C + (if y mod 400 = 0 then 1 else 0)"
    using div_succ [of 400 "y - 1601"] mod_diff_zero_iff [of 1600 400 y] by (simp split del: if_split)
  have dvd: "y mod 400 = 0 \<longrightarrow> y mod 100 = 0" "y mod 100 = 0 \<longrightarrow> y mod 4 = 0"
    unfolding mod_eq_0_iff_dvd using dvd_trans [of 4 100 y] dvd_trans [of 100 400 y] by simp_all
  have "(if y mod 4 = 0 then 1 else 0) - (if y mod 100 = 0 then 1 else 0)
      + (if y mod 400 = 0 then 1 else 0) = (if is_leap y then 1 else (0::int))"
    unfolding is_leap_def by (rule leap_count [OF dvd])
  moreover have "365 * (y + 1 - 1970) = 365 * (y - 1970) + 365" by simp
  moreover have "(if is_leap y then 366 else 365) = 365 + (if is_leap y then 1 else (0::int))" by simp
  ultimately show ?thesis unfolding day_from_year_def a b c by linarith
qed

lemma day_from_year_mono: "y \<le> z \<Longrightarrow> day_from_year y + 365 * (z - y) \<le> day_from_year z"
proof (induction z rule: int_ge_induct)
  case (step z)
  then show ?case using day_from_year_step [of z] by (simp only: right_diff_distrib) (simp split: if_splits)
qed simp

lemma day_from_year_linear:
  "146097 * y - 287812090 \<le> 400 * day_from_year y"
  "400 * day_from_year y \<le> 146097 * y - 287810090"
proof -
  obtain A r where A: "(y - 1969) div 4 = A" "y - 1969 = 4 * A + r" "0 \<le> r" "r < 4"
    by (rule div_mod_split [of 4 "y - 1969"]) auto
  obtain B s where B: "(y - 1901) div 100 = B" "y - 1901 = 100 * B + s" "0 \<le> s" "s < 100"
    by (rule div_mod_split [of 100 "y - 1901"]) auto
  obtain C u where C: "(y - 1601) div 400 = C" "y - 1601 = 400 * C + u" "0 \<le> u" "u < 400"
    by (rule div_mod_split [of 400 "y - 1601"]) auto
  have "day_from_year y = 365 * y - 719050 + A - B + C"
    by (simp add: day_from_year_def A(1) B(1) C(1))
  then show "146097 * y - 287812090 \<le> 400 * day_from_year y"
    "400 * day_from_year y \<le> 146097 * y - 287810090"
    using A(2-4) B(2-4) C(2-4) by linarith+
qed

lemma year_from_day_bounds:
  "day_from_year (year_from_day t) \<le> t" "t < day_from_year (year_from_day t + 1)"
proof -
  obtain q r where q: "(t * 400) div 146097 = q" "t * 400 = 146097 * q + r" "0 \<le> r" "r < 146097"
    by (rule div_mod_split [of 146097 "t * 400"]) auto
  have lo: "day_from_year (1969 + q) \<le> t" 
    using day_from_year_linear(2) [of "1969 + q"] q(2-4) by (simp add: distrib_left)
  have hi: "t < day_from_year (1972 + q)"
    using day_from_year_linear(1) [of "1972 + q"] q(2-4) by (simp add: distrib_left)
  have "1970 + q - 1 = 1969 + q" "1969 + q + 1 = 1970 + q" "1970 + q + 1 + 1 = 1972 + q" by simp_all
  then show "day_from_year (year_from_day t) \<le> t" "t < day_from_year (year_from_day t + 1)"
    using lo hi unfolding year_from_day_def q(1) Let_def by (auto split: if_splits)
qed

lemma year_from_day_eq: "day_from_year y \<le> t \<Longrightarrow> t < day_from_year (y + 1) \<Longrightarrow> year_from_day t = y"
  using year_from_day_bounds [of t] day_from_year_mono [of "y + 1" "year_from_day t"]
    day_from_year_mono [of "year_from_day t + 1" y]
  by (cases "year_from_day t" y rule: linorder_cases) simp_all

subsection \<open>Months\<close>

lemma month_cases:
  fixes m :: int
  assumes "0 \<le> m" and "m \<le> 11"
  shows "m = 0 \<or> m = 1 \<or> m = 2 \<or> m = 3 \<or> m = 4 \<or> m = 5 \<or> m = 6 \<or> m = 7 \<or> m = 8
    \<or> m = 9 \<or> m = 10 \<or> m = 11"
  using assms by presburger

lemma month_end:
  assumes "0 \<le> m" and "m \<le> 11"
  shows "month_start leap m + month_length leap m =
    (if m = 11 then (if leap then 366 else 365) else month_start leap (m + 1))"
  using month_cases [OF assms] by (elim disjE) (simp_all add: month_start_def month_length_def)

lemma month_bounds:
  assumes "0 \<le> m" and "m \<le> 11"
  shows "0 \<le> month_start leap m"
    and "month_start leap m + month_length leap m \<le> (if leap then 366 else 365)"
    and "28 \<le> month_length leap m" and "month_length leap m \<le> 31"
  using month_cases [OF assms] by (elim disjE; simp add: month_start_def month_length_def)+

lemma upto_1_11: "[1..11] = [1, 2, 3, 4, 5, 6, 7, 8, 9, 10, 11::int]"
  by (simp add: upto_rec1)

lemma month_count:
  assumes "0 \<le> m" and "m \<le> 11" and "month_start leap m \<le> n"
    and "n < month_start leap m + month_length leap m"
  shows "int (length (filter (\<lambda>k. month_start leap k \<le> n) [1..11])) = m"
  using month_cases [OF assms(1,2)] assms(3,4)
  by (elim disjE) (simp_all add: upto_1_11 month_start_def month_length_def split: if_splits)

lemma month_exists:
  assumes "0 \<le> n" and "n < (if leap then 366 else 365)"
  obtains m where "0 \<le> m" "m \<le> 11" "month_start leap m \<le> n"
    "n < month_start leap m + month_length leap m"
proof -
  have "\<exists>m. 0 \<le> m \<and> m \<le> 11 \<and> month_start leap m \<le> n \<and> n < month_start leap m + month_length leap m"
  proof (rule ccontr)
    assume none: "\<not> ?thesis"
    have "month_start leap m \<le> n" if "0 \<le> m" "m \<le> 11" for m
      using that
    proof (induction m rule: int_ge_induct)
      case base
      then show ?case using assms(1) by (simp add: month_start_def)
    next
      case (step m)
      then show ?case using none month_end [of m leap] by fastforce
    qed
    from this [of 11] show False using none month_end [of 11 leap] assms(2) by fastforce
  qed
  then show ?thesis using that by blast
qed

lemma decompose_day:
  assumes "0 \<le> m" and "m \<le> 11" and "month_start (is_leap y) m \<le> n"
    and "n < month_start (is_leap y) m + month_length (is_leap y) m"
  shows "year_from_day (day_from_year y + n) = y"
    and "month_from_day (day_from_year y + n) = m"
    and "date_from_day (day_from_year y + n) = n - month_start (is_leap y) m + 1"
proof -
  have "0 \<le> n" and "n < (if is_leap y then 366 else 365)"
    using assms(3,4) month_bounds [OF assms(1,2), of "is_leap y"] by linarith+
  then show y: "year_from_day (day_from_year y + n) = y"
    by (intro year_from_day_eq) (simp_all add: day_from_year_step)
  then show m: "month_from_day (day_from_year y + n) = m"
    by (simp add: month_from_day_def day_in_year_def month_count [OF assms])
  with y show "date_from_day (day_from_year y + n) = n - month_start (is_leap y) m + 1"
    by (simp add: date_from_day_def day_in_year_def)
qed

lemma valid_date_decompose:
  assumes "valid_date y m d"
  shows "year_from_day (make_day y (m - 1) d) = y"
    and "month_from_day (make_day y (m - 1) d) = m - 1"
    and "date_from_day (make_day y (m - 1) d) = d"
proof -
  let ?n = "month_start (is_leap y) (m - 1) + d - 1"
  from assms have m: "0 \<le> m - 1" "m - 1 \<le> 11" and d: "1 \<le> d" "d \<le> month_length (is_leap y) (m - 1)"
    by (auto simp: valid_date_def)
  have e: "make_day y (m - 1) d = day_from_year y + ?n"
    using m by (simp add: make_day_def Let_def)
  have n: "month_start (is_leap y) (m - 1) \<le> ?n"
    "?n < month_start (is_leap y) (m - 1) + month_length (is_leap y) (m - 1)"
    using d by simp_all
  show "year_from_day (make_day y (m - 1) d) = y"
    "month_from_day (make_day y (m - 1) d) = m - 1"
    "date_from_day (make_day y (m - 1) d) = d"
    unfolding e using decompose_day [OF m n] by simp_all
qed

lemma valid_date_of_day:
  "valid_date (year_from_day t) (month_from_day t + 1) (date_from_day t)"
  "make_day (year_from_day t) (month_from_day t) (date_from_day t) = t"
proof -
  let ?y = "year_from_day t" and ?n = "day_in_year t"
  have "0 \<le> ?n" "?n < (if is_leap ?y then 366 else 365)"
    using year_from_day_bounds [of t] day_from_year_step [of ?y] by (simp_all add: day_in_year_def)
  then obtain m where m: "0 \<le> m" "m \<le> 11" "month_start (is_leap ?y) m \<le> ?n"
    "?n < month_start (is_leap ?y) m + month_length (is_leap ?y) m"
    by (rule month_exists)
  have t: "day_from_year ?y + ?n = t" by (simp add: day_in_year_def)
  note dec = decompose_day [OF m, unfolded t]
  show "valid_date (year_from_day t) (month_from_day t + 1) (date_from_day t)"
    unfolding valid_date_def dec(2,3) using m by simp
  show "make_day (year_from_day t) (month_from_day t) (date_from_day t) = t"
    unfolding make_day_def dec(2,3) using m t by (simp add: Let_def)
qed

lemma month_start_mono:
  assumes "0 \<le> m" and "m \<le> k" and "k \<le> 11"
  shows "month_start leap m \<le> month_start leap k"
  using assms(2,3)
proof (induction k rule: int_ge_induct)
  case (step k)
  then show ?case
    using assms(1) month_end [of k leap] month_bounds(3) [of k leap] by simp
qed simp

lemma make_day_bounds:
  assumes "valid_date y m d"
  shows "day_from_year y \<le> make_day y (m - 1) d" and "make_day y (m - 1) d < day_from_year (y + 1)"
  using year_from_day_bounds [of "make_day y (m - 1) d"] valid_date_decompose(1) [OF assms] by simp_all

lemma make_day_less:
  assumes "valid_date y m d" and "valid_date y' m' d'" and "ymd_less y m d y' m' d'"
  shows "make_day y (m - 1) d < make_day y' (m' - 1) d'"
proof -
  consider "y < y'" | "y = y'" "m < m'" | "y = y'" "m = m'" "d < d'"
    using assms(3) by (auto simp: ymd_less_def)
  then show ?thesis
  proof cases
    case 1
    then have "day_from_year (y + 1) \<le> day_from_year y'"
      using day_from_year_mono [of "y + 1" y'] by simp
    then show ?thesis using make_day_bounds [OF assms(1)] make_day_bounds [OF assms(2)] by linarith
  next
    case 2
    with assms have b: "0 \<le> m - 1" "m - 1 \<le> 10" "m' - 1 \<le> 11" "0 \<le> m' - 1"
      and d: "d \<le> month_length (is_leap y) (m - 1)" "1 \<le> d'"
      by (auto simp: valid_date_def)
    have "month_start (is_leap y) (m - 1) + d \<le> month_start (is_leap y) m"
      using month_end [of "m - 1" "is_leap y"] b d by simp
    also have "\<dots> \<le> month_start (is_leap y) (m' - 1)"
      using month_start_mono [of m "m' - 1"] b 2 by simp
    finally show ?thesis using 2 b d by (simp add: make_day_def Let_def)
  next
    case 3
    then show ?thesis by (simp add: make_day_def Let_def)
  qed
qed

lemma make_day_less_iff:
  assumes "valid_date y m d" and "valid_date y' m' d'"
  shows "make_day y (m - 1) d < make_day y' (m' - 1) d' \<longleftrightarrow> ymd_less y m d y' m' d'"
proof
  assume l: "make_day y (m - 1) d < make_day y' (m' - 1) d'"
  show "ymd_less y m d y' m' d'"
  proof (rule ccontr)
    assume "\<not> ?thesis"
    then have "ymd_less y' m' d' y m d \<or> (y = y' \<and> m = m' \<and> d = d')" by (auto simp: ymd_less_def)
    then show False using l make_day_less [OF assms(2,1)] by auto
  qed
qed (rule make_day_less [OF assms])

subsection \<open>Which strings are accepted\<close>

lemma iso_date_length: "0 \<le> y \<Longrightarrow> y \<le> 9999 \<Longrightarrow> length (iso_date y m d) = 10"
  by (simp add: iso_date_def iso_year_def)

lemma valid_date_small: "valid_date y m d \<Longrightarrow> 1 \<le> m \<and> m \<le> 12 \<and> 1 \<le> d \<and> d \<le> 31"
  using month_bounds(4) [of "m - 1" "is_leap y"] by (auto simp: valid_date_def)

lemma take_toISOString:
  assumes "0 \<le> year_from_day t" and "year_from_day t \<le> 9999"
  shows "take 10 (toISOString (t * millisecondsPerDay)) =
    iso_date (year_from_day t) (month_from_day t + 1) (date_from_day t)"
  using iso_date_length [OF assms]
  by (simp add: toISOString_def Let_def millisecondsPerDay_def)

lemma matches_iso_date:
  assumes "0 \<le> y" and "y \<le> 9999" and "valid_date y m d"
  shows "matches_date (iso_date y m d)"
    and "date_year (iso_date y m d) = y"
    and "date_month (iso_date y m d) = m"
    and "date_day (iso_date y m d) = d"
proof -
  have md: "1 \<le> m" "m \<le> 12" "1 \<le> d" "d \<le> 31" using valid_date_small [OF assms(3)] by simp_all
  let ?a = "pad_decimal 4 (nat y)" and ?b = "pad_decimal 2 (nat m)" and ?c = "pad_decimal 2 (nat d)"
  have e: "iso_date y m d = ?a @ ''-'' @ ?b @ ''-'' @ ?c"
    using assms(1,2) by (simp add: iso_date_def iso_year_def)
  have t: "take 4 (iso_date y m d) = ?a" "take 2 (drop 5 (iso_date y m d)) = ?b"
    "drop 8 (iso_date y m d) = ?c" unfolding e by simp_all
  show "matches_date (iso_date y m d)"
    unfolding matches_date_def t using assms(1,2)
    by (auto simp: e nth_append list_all_iff dest: pad_decimal_digits)
  show "date_year (iso_date y m d) = y" "date_month (iso_date y m d) = m" "date_day (iso_date y m d) = d"
    unfolding date_year_def date_month_def date_day_def t
    using assms md by (simp_all add: decimal_value_pad)
qed

lemma matches_date_split:
  assumes "matches_date v"
  shows "v = iso_date (date_year v) (date_month v) (date_day v)"
    and "0 \<le> date_year v" "date_year v \<le> 9999"
proof -
  from assms have len: "length v = 10" and digits: "\<forall>c \<in> set (take 4 v). is_digit c"
    "\<forall>c \<in> set (take 2 (drop 5 v)). is_digit c" "\<forall>c \<in> set (drop 8 v). is_digit c"
    and sep: "v ! 4 = CHR ''-''" "v ! 7 = CHR ''-''"
    by (auto simp: matches_date_def list_all_iff)
  show y: "0 \<le> date_year v" "date_year v \<le> 9999"
    using decimal_value_bound [OF digits(1)] len by (simp_all add: date_year_def)
  have "v = take 4 v @ [v ! 4] @ take 2 (drop 5 v) @ [v ! 7] @ drop 8 v"
    using len by (auto simp: list_eq_iff_nth_eq nth_append nth_Cons' less_Suc_eq eval_nat_numeral)
  then show "v = iso_date (date_year v) (date_month v) (date_day v)"
    using pad_decimal_value [OF digits(1)] pad_decimal_value [OF digits(2)]
      pad_decimal_value [OF digits(3)] y len sep
    by (simp add: iso_date_def iso_year_def date_year_def date_month_def date_day_def)
qed

lemma parseHotelDate_iff:
  "parseHotelDate v = Some ms \<longleftrightarrow>
   (\<exists>y m d. 100 \<le> y \<and> y \<le> 9999 \<and> valid_date y m d \<and> v = iso_date y m d
      \<and> ms = make_day y (m - 1) d * millisecondsPerDay)"
proof
  assume p: "parseHotelDate v = Some ms"
  then have mt: "matches_date v" and ms: "ms = date_utc (date_year v) (date_month v - 1) (date_day v)"
    and iso: "take 10 (toISOString ms) = v"
    by (auto simp: parseHotelDate_def Let_def split: if_splits)
  define t where "t = ms div millisecondsPerDay"
  have t: "ms = t * millisecondsPerDay" unfolding t_def ms date_utc_def by simp
  let ?y = "year_from_day t" and ?m = "month_from_day t + 1" and ?d = "date_from_day t"
  have y: "0 \<le> ?y \<and> ?y \<le> 9999"
  proof (rule ccontr)
    assume n: "\<not> ?thesis"
    then have "v ! 0 = CHR ''-'' \<or> v ! 0 = CHR ''+''"
      unfolding iso [symmetric] t
      by (auto simp: toISOString_def Let_def iso_date_def iso_year_def millisecondsPerDay_def)
    moreover have "is_digit (v ! 0)" using mt by (auto simp: matches_date_def list_all_length)
    ultimately show False by (auto simp: is_digit_def)
  qed
  with iso t have v: "v = iso_date ?y ?m ?d" by (simp add: take_toISOString)
  note parts = matches_iso_date [OF conjunct1 [OF y] conjunct2 [OF y] valid_date_of_day(1) [of t], folded v]
  have "100 \<le> ?y"
  proof (rule ccontr)
    assume "\<not> ?thesis"
    with y have "make_day (1900 + ?y) (?m - 1) ?d = t"
      using t unfolding ms date_utc_def parts by (simp add: millisecondsPerDay_def)
    moreover have "day_from_year (1900 + ?y) \<le> make_day (1900 + ?y) (?m - 1) ?d"
      using valid_date_small [OF valid_date_of_day(1) [of t]]
        month_bounds(1) [of "?m - 1" "is_leap (1900 + ?y)"] by (simp add: make_day_def Let_def)
    moreover have "day_from_year (?y + 1) \<le> day_from_year (1900 + ?y)"
      using day_from_year_mono [of "?y + 1" "1900 + ?y"] by simp
    ultimately show False using year_from_day_bounds(2) [of t] by linarith
  qed
  then show "\<exists>y m d. 100 \<le> y \<and> y \<le> 9999 \<and> valid_date y m d \<and> v = iso_date y m d
      \<and> ms = make_day y (m - 1) d * millisecondsPerDay"
    using y v t valid_date_of_day [of t] by (intro exI [of _ ?y] exI [of _ ?m] exI [of _ ?d]) simp
next
  assume "\<exists>y m d. 100 \<le> y \<and> y \<le> 9999 \<and> valid_date y m d \<and> v = iso_date y m d
      \<and> ms = make_day y (m - 1) d * millisecondsPerDay"
  then obtain y m d where y: "100 \<le> y" "y \<le> 9999" and vd: "valid_date y m d"
    and v: "v = iso_date y m d" and ms: "ms = make_day y (m - 1) d * millisecondsPerDay" by blast
  have y0: "0 \<le> y" using y by simp
  note parts = matches_iso_date [OF y0 y(2) vd] and dec = valid_date_decompose [OF vd]
  have "take 10 (toISOString ms) = v"
    unfolding ms v using take_toISOString [of "make_day y (m - 1) d"] y dec by simp
  then show "parseHotelDate v = Some ms"
    using parts y unfolding v ms by (simp add: parseHotelDate_def date_utc_def Let_def)
qed

lemma iso_date_less_iff:
  assumes "0 \<le> y" "y \<le> 9999" "valid_date y m d" and "0 \<le> y'" "y' \<le> 9999" "valid_date y' m' d'"
  shows "iso_date y m d < iso_date y' m' d' \<longleftrightarrow> ymd_less y m d y' m' d'"
proof -
  have s: "1 \<le> m" "m \<le> 12" "1 \<le> d" "d \<le> 31" "1 \<le> m'" "m' \<le> 12" "1 \<le> d'" "d' \<le> 31"
    using valid_date_small assms by blast+
  have eq: "pad_decimal 4 (nat y) = pad_decimal 4 (nat y') \<longleftrightarrow> y = y'"
    "pad_decimal 2 (nat m) = pad_decimal 2 (nat m') \<longleftrightarrow> m = m'"
  proof -
    have "nat y < 10 ^ 4" "nat y' < 10 ^ 4" "nat m < 10 ^ 2" "nat m' < 10 ^ 2" using s assms by simp_all
    then show "pad_decimal 4 (nat y) = pad_decimal 4 (nat y') \<longleftrightarrow> y = y'"
      "pad_decimal 2 (nat m) = pad_decimal 2 (nat m') \<longleftrightarrow> m = m'"
      using pad_decimal_inj assms s by (metis eq_nat_nat_iff, metis eq_nat_nat_iff order_trans zero_le_one)
  qed
  show ?thesis
    using s assms
    by (auto simp: iso_date_def iso_year_def ymd_less_def list_less_append_eq_length pad_decimal_less_iff eq)
qed

lemma parseHotelDate_order:
  assumes "parseHotelDate a = Some x" and "parseHotelDate b = Some z"
  shows "a < b \<longleftrightarrow> x < z"
proof -
  obtain y m d where a: "100 \<le> y" "y \<le> 9999" "valid_date y m d" "a = iso_date y m d"
    "x = make_day y (m - 1) d * millisecondsPerDay" using assms(1) parseHotelDate_iff by auto
  obtain y' m' d' where b: "100 \<le> y'" "y' \<le> 9999" "valid_date y' m' d'" "b = iso_date y' m' d'"
    "z = make_day y' (m' - 1) d' * millisecondsPerDay" using assms(2) parseHotelDate_iff by auto
  have "a < b \<longleftrightarrow> ymd_less y m d y' m' d'" using iso_date_less_iff a b by simp
  also have "\<dots> \<longleftrightarrow> x < z"
    using make_day_less_iff [OF a(3) b(3)] by (simp add: a(5) b(5) millisecondsPerDay_def)
  finally show ?thesis .
qed

subsection \<open>Stays\<close>

lemma parseHotelDate_iso:
  assumes "100 \<le> y" "y \<le> 9999" "valid_date y m d"
  shows "parseHotelDate (iso_date y m d) = Some (make_day y (m - 1) d * millisecondsPerDay)"
  using assms parseHotelDate_iff by blast

lemma parseHotelDate_date_parse: "parseHotelDate v = Some t \<Longrightarrow> date_parse v = Some t"
  using parseHotelDate_iff [of v t] valid_date_small matches_iso_date
  by (auto simp: date_parse_def)

lemma parseHotelDate_days: "parseHotelDate v = Some t \<Longrightarrow> t mod millisecondsPerDay = 0"
  by (auto simp: parseHotelDate_iff)

lemma assertBookingDates_iff:
  "0 < assertBookingDates today a b \<longleftrightarrow>
   parseHotelDate a \<noteq> None \<and> parseHotelDate b \<noteq> None \<and> a < b \<and> today \<le> a"
proof (cases "parseHotelDate a"; cases "parseHotelDate b")
  fix x z assume p: "parseHotelDate a = Some x" "parseHotelDate b = Some z"
  then have o: "a < b \<longleftrightarrow> x < z" by (rule parseHotelDate_order)
  obtain i j where "x = i * millisecondsPerDay" "z = j * millisecondsPerDay"
    using p by (auto simp: parseHotelDate_iff)
  then have "z - x = (j - i) * millisecondsPerDay" and lt: "x < z \<longleftrightarrow> i < j"
    by (simp_all add: millisecondsPerDay_def)
  then have "(z - x) div millisecondsPerDay = j - i" by (simp add: millisecondsPerDay_def)
  then have "assertBookingDates today a b = (if i < j then if a < today then 0 else j - i else 0)"
    using p lt by (simp add: assertBookingDates_def not_less [symmetric])
  then show ?thesis using o p lt by (cases "a < today") auto
qed (simp_all add: assertBookingDates_def)

lemma assertBookingDates_span:
  assumes "0 < assertBookingDates today a b"
  shows "hotelDateSpanDays a b = Some (assertBookingDates today a b)"
proof -
  obtain x z where p: "parseHotelDate a = Some x" "parseHotelDate b = Some z"
    using assms by (auto simp: assertBookingDates_iff)
  then show ?thesis
    using assms parseHotelDate_date_parse by (auto simp: hotelDateSpanDays_def assertBookingDates_def split: if_splits)
qed
lemma assertBookingDates_nonneg: "0 \<le> assertBookingDates today a b"
  by (auto simp: assertBookingDates_def millisecondsPerDay_def pos_imp_zdiv_nonneg_iff split: option.split)

end
