(* ===== verification/Identifiers.thy ===== *)
theory Identifiers
  imports Hotel_Date
begin

text \<open>
  Identifiers and the patterns the boundary checks them with: public booking identifiers
  (bookings/booking-create.helpers.ts: a monotonic ULID kept in two module variables), decimal
  surrogate keys and quoted versions (common/constants/identifier.constants.ts,
  bookings/booking-version.ts, rooms/room-version.ts), idempotency keys
  (common/idempotency/idempotency.constants.ts) and the room lock order
  (bookings/booking-lock-order.ts). The lemmas show that the generator emits pairwise distinct,
  strictly increasing identifiers of the published pattern, and that a version header is accepted
  exactly when it quotes a canonical decimal number of at most twenty digits.
\<close>

unbundle bit_operations_syntax

subsection \<open>Errors\<close>

text \<open>
  The failures of an operation: an \<open>ApplicationException\<close> with its HTTP status and stable code
  (the translated message is presentation and left out), an error the database driver raises (a
  violated constraint, a missing row of \<open>findOneOrFail\<close>), and a plain \<open>Error\<close>.
\<close>

datatype error =
    ApplicationException nat string
  | DatabaseError string
  | PlainError string

definition bookingsErrors_versionRequired :: error where
  "bookingsErrors_versionRequired = ApplicationException 428 ''BOOKING_VERSION_REQUIRED''"

definition bookingsErrors_versionMalformed :: error where
  "bookingsErrors_versionMalformed = ApplicationException 400 ''BOOKING_VERSION_MALFORMED''"

definition roomsErrors_roomVersionRequired :: error where
  "roomsErrors_roomVersionRequired = ApplicationException 428 ''ROOM_VERSION_REQUIRED''"

definition roomsErrors_roomVersionMalformed :: error where
  "roomsErrors_roomVersionMalformed = ApplicationException 400 ''ROOM_VERSION_MALFORMED''"

subsection \<open>Decimal identifiers and versions\<close>

text \<open>The decimal notation of a natural number, as \<open>String(n)\<close> writes it.\<close>

fun show_nat :: "nat \<Rightarrow> string" where
  "show_nat n = (if n < 10 then [digit_char n] else show_nat (n div 10) @ [digit_char (n mod 10)])"

declare show_nat.simps [simp del]

text \<open>\<open>/^[1-9][0-9]{0,19}$/\<close>\<close>

definition decimalIdPattern :: "string \<Rightarrow> bool" where
  "decimalIdPattern v \<longleftrightarrow>
     v \<noteq> [] \<and> length v \<le> 20 \<and> list_all is_digit v \<and> hd v \<noteq> CHR ''0''"

definition maxUnsignedBigint :: nat where
  "maxUnsignedBigint = 18446744073709551615"

text \<open>\<open>/^"([1-9][0-9]{0,19})"$/\<close> and its capture group.\<close>

definition quotedVersion :: "string \<Rightarrow> string option" where
  "quotedVersion v =
     (let q = char_of (34 :: nat) in
      if 2 \<le> length v \<and> hd v = q \<and> last v = q \<and> decimalIdPattern (butlast (tl v))
      then Some (butlast (tl v)) else None)"

definition parseBookingVersionHeader :: "string option \<Rightarrow> error + string" where
  "parseBookingVersionHeader value =
     (case value of
        None \<Rightarrow> Inl bookingsErrors_versionRequired
      | Some v \<Rightarrow>
          if v = [] then Inl bookingsErrors_versionRequired
          else case quotedVersion v of
                 None \<Rightarrow> Inl bookingsErrors_versionMalformed
               | Some version \<Rightarrow> Inr version)"

definition parseRoomVersionHeader :: "string option \<Rightarrow> error + string" where
  "parseRoomVersionHeader value =
     (case value of
        None \<Rightarrow> Inl roomsErrors_roomVersionRequired
      | Some v \<Rightarrow>
          if v = [] then Inl roomsErrors_roomVersionRequired
          else case quotedVersion v of
                 None \<Rightarrow> Inl roomsErrors_roomVersionMalformed
               | Some version \<Rightarrow> Inr version)"

text \<open>\<open>/^[A-Za-z0-9._:-]{8,128}$/\<close>\<close>

definition in_range :: "char \<Rightarrow> char \<Rightarrow> char \<Rightarrow> bool" where
  "in_range a b c \<longleftrightarrow> (of_char a :: nat) \<le> of_char c \<and> (of_char c :: nat) \<le> of_char b"

definition idempotencyKeyPattern :: "string \<Rightarrow> bool" where
  "idempotencyKeyPattern v \<longleftrightarrow>
     8 \<le> length v \<and> length v \<le> 128
     \<and> list_all (\<lambda>c. in_range CHR ''A'' CHR ''Z'' c \<or> in_range CHR ''a'' CHR ''z'' c
          \<or> is_digit c \<or> c \<in> set ''._:-'') v"

text \<open>
  Rooms are locked in ascending order of their identifiers. Surrogate keys are the numbers of the
  BIGINT columns, so the comparison by \<open>BigInt\<close> is the comparison of the numbers.
\<close>

definition orderedUniqueRoomIds :: "nat list \<Rightarrow> nat list" where
  "orderedUniqueRoomIds roomIds = sort (set_spread roomIds)"

subsection \<open>Monotonic public identifiers\<close>

definition ulidAlphabet :: string where
  "ulidAlphabet = ''0123456789ABCDEFGHJKMNPQRSTVWXYZ''"

text \<open>\<open>/^[0-7][0-9A-HJKMNP-TV-Z]{25}$/\<close>\<close>

definition bookingPublicIdPattern :: "string \<Rightarrow> bool" where
  "bookingPublicIdPattern v \<longleftrightarrow>
     length v = 26 \<and> in_range CHR ''0'' CHR ''7'' (hd v)
     \<and> list_all (\<lambda>c. is_digit c \<or> in_range CHR ''A'' CHR ''H'' c
          \<or> c \<in> set ''JKMN'' \<or> in_range CHR ''P'' CHR ''T'' c \<or> in_range CHR ''V'' CHR ''Z'' c) (tl v)"

definition ulidRandomMaximum :: int where
  "ulidRandomMaximum = push_bit 80 1 - 1"

text \<open>The two module variables of the generator.\<close>

record ulid_state =
  lastTimestamp :: int
  lastRandom :: int

definition ulid_initial :: ulid_state where
  "ulid_initial = \<lparr>lastTimestamp = - 1, lastRandom = 0\<rparr>"

fun encodeUlid_loop :: "nat \<Rightarrow> int \<Rightarrow> string \<Rightarrow> string" where
  "encodeUlid_loop 0 remaining encoded = encoded"
| "encodeUlid_loop (Suc k) remaining encoded =
     encodeUlid_loop k (drop_bit 5 remaining) (ulidAlphabet ! nat (remaining AND 31) # encoded)"

definition encodeUlidPart :: "int \<Rightarrow> nat \<Rightarrow> string" where
  "encodeUlidPart value len = encodeUlid_loop len value []"

text \<open>The random bytes drawn when the clock has advanced are the argument \<open>random\<close>.\<close>

definition createMonotonicBookingId ::
  "int \<Rightarrow> int \<Rightarrow> ulid_state \<Rightarrow> error + string \<times> ulid_state" where
  "createMonotonicBookingId now random st =
     (if now > lastTimestamp st then
        Inr (encodeUlidPart now 10 @ encodeUlidPart random 16,
             \<lparr>lastTimestamp = now, lastRandom = random\<rparr>)
      else if lastRandom st = ulidRandomMaximum then
        Inl (PlainError ''ULID random component exhausted in one millisecond'')
      else
        let r = lastRandom st + 1
        in Inr (encodeUlidPart (lastTimestamp st) 10 @ encodeUlidPart r 16,
                st\<lparr>lastRandom := r\<rparr>))"

text \<open>The identifiers of a sequence of calls, a failed call emitting none.\<close>

fun ulid_run :: "(int \<times> int) list \<Rightarrow> ulid_state \<Rightarrow> string list" where
  "ulid_run [] st = []"
| "ulid_run ((now, random) # calls) st =
     (case createMonotonicBookingId now random st of
        Inl _ \<Rightarrow> ulid_run calls st
      | Inr (identifier, st') \<Rightarrow> identifier # ulid_run calls st')"

text \<open>The values the two variables take, and the identifier they stand for.\<close>

definition ulid_inv :: "ulid_state \<Rightarrow> bool" where
  "ulid_inv st \<longleftrightarrow> - 1 \<le> lastTimestamp st \<and> lastTimestamp st < 2 ^ 48
     \<and> 0 \<le> lastRandom st \<and> lastRandom st \<le> ulidRandomMaximum"

definition ulid_of :: "ulid_state \<Rightarrow> string" where
  "ulid_of st = encodeUlidPart (lastTimestamp st) 10 @ encodeUlidPart (lastRandom st) 16"

subsection \<open>Lemmas on decimal notation\<close>

lemma show_nat_digits: "\<forall>c \<in> set (show_nat n). is_digit c"
  by (induction n rule: show_nat.induct) (subst show_nat.simps, auto)

lemma show_nat_not_Nil [simp]: "show_nat n \<noteq> []"
  by (subst show_nat.simps) auto

lemma decimal_value_show_nat [simp]: "decimal_value (show_nat n) = n"
proof (induction n rule: show_nat.induct)
  case (1 n)
  then show ?case
    by (subst show_nat.simps) (auto simp: decimal_value_def)
qed

lemma show_nat_inj [simp]: "show_nat a = show_nat b \<longleftrightarrow> a = b"
  by (metis decimal_value_show_nat)

lemma digit_char_inj: "a < 10 \<Longrightarrow> b < 10 \<Longrightarrow> digit_char a = digit_char b \<longleftrightarrow> a = b"
  using digit_value_digit_char by metis

lemma digit_char_0: "CHR ''0'' = digit_char 0"
  unfolding digit_char_def by code_simp

lemma hd_show_nat: "0 < n \<Longrightarrow> hd (show_nat n) \<noteq> CHR ''0''"
proof (induction n rule: show_nat.induct)
  case (1 n)
  show ?case
  proof (cases "n < 10")
    case True
    with 1 show ?thesis
      by (subst show_nat.simps) (simp add: digit_char_0 digit_char_inj)
  next
    case False
    then have "0 < n div 10" by simp
    with 1 False show ?thesis by (subst show_nat.simps) simp
  qed
qed

lemma length_show_nat: "n < 10 ^ k \<Longrightarrow> 0 < k \<Longrightarrow> length (show_nat n) \<le> k"
proof (induction k arbitrary: n)
  case (Suc k)
  show ?case
  proof (cases "n < 10")
    case False
    with Suc.prems have "n div 10 < 10 ^ k" by (simp add: less_mult_imp_div_less mult.commute)
    moreover have "k \<noteq> 0" using False Suc.prems by (cases k) auto
    ultimately show ?thesis using Suc.IH [of "n div 10"] False by (subst show_nat.simps) simp
  qed (subst show_nat.simps, simp)
qed simp

lemma decimalIdPattern_show_nat: "0 < n \<Longrightarrow> n < 10 ^ 20 \<Longrightarrow> decimalIdPattern (show_nat n)"
  using show_nat_digits [of n] length_show_nat [of n 20]
  by (simp add: decimalIdPattern_def hd_show_nat list_all_iff)

lemma show_nat_decimal_value:
  "v \<noteq> [] \<Longrightarrow> \<forall>c \<in> set v. is_digit c \<Longrightarrow> hd v \<noteq> CHR ''0'' \<Longrightarrow>
    show_nat (decimal_value v) = v \<and> 0 < decimal_value v"
proof (induction v rule: rev_induct)
  case (snoc c v)
  then have c: "digit_value c < 10" "is_digit c" by (simp_all add: digit_value_bound)
  show ?case
  proof (cases "v = []")
    case True
    with snoc.prems c have "digit_value c \<noteq> 0"
      using digit_char_digit_value [of c] by (metis append_Nil digit_char_0 list.sel(1))
    then have "0 < digit_value c" by simp
    with True c show ?thesis
      using decimal_value_snoc [of "[]" c]
      by (subst show_nat.simps) (simp add: digit_char_digit_value)
  next
    case False
    with snoc have IH: "show_nat (decimal_value v) = v" "0 < decimal_value v" by auto
    with c show ?thesis
      by (subst show_nat.simps) (simp add: digit_char_digit_value)
  qed
qed simp

lemma decimalIdPattern_iff:
  "decimalIdPattern v \<longleftrightarrow> (\<exists>n. 0 < n \<and> n < 10 ^ 20 \<and> v = show_nat n)"
proof
  assume v: "decimalIdPattern v"
  then have "show_nat (decimal_value v) = v \<and> 0 < decimal_value v"
    by (intro show_nat_decimal_value) (auto simp: decimalIdPattern_def list_all_iff)
  moreover have "decimal_value v < 10 ^ 20"
    using v decimal_value_bound [of v] power_increasing [of "length v" 20 "10::nat"]
    by (simp add: decimalIdPattern_def list_all_iff)
  ultimately show "\<exists>n. 0 < n \<and> n < 10 ^ 20 \<and> v = show_nat n"
    by (intro exI [of _ "decimal_value v"]) simp
qed (auto simp: decimalIdPattern_show_nat)

lemma quotedVersion_iff:
  "quotedVersion v = Some w \<longleftrightarrow> v = [char_of (34::nat)] @ w @ [char_of (34::nat)] \<and> decimalIdPattern w"
proof -
  have "v = [hd v] @ butlast (tl v) @ [last v]" if "2 \<le> length v"
    using that by (cases v) (auto simp: append_butlast_last_id)
  moreover have "w \<noteq> []" if "decimalIdPattern w" using that by (simp add: decimalIdPattern_def)
  ultimately show ?thesis
    unfolding quotedVersion_def Let_def
    by (auto split: if_splits)
qed

lemma parseBookingVersionHeader_iff:
  "parseBookingVersionHeader h = Inr w \<longleftrightarrow>
   (\<exists>n. 0 < n \<and> n < 10 ^ 20 \<and> w = show_nat n
      \<and> h = Some ([char_of (34::nat)] @ show_nat n @ [char_of (34::nat)]))"
proof -
  have "parseBookingVersionHeader h = Inr w \<longleftrightarrow> (\<exists>v. h = Some v \<and> quotedVersion v = Some w)"
    using quotedVersion_iff [of "[]"]
    by (auto simp: parseBookingVersionHeader_def split: option.splits)
  then show ?thesis by (auto simp: quotedVersion_iff decimalIdPattern_iff)
qed

lemma parseRoomVersionHeader_iff:
  "parseRoomVersionHeader h = Inr w \<longleftrightarrow>
   (\<exists>n. 0 < n \<and> n < 10 ^ 20 \<and> w = show_nat n
      \<and> h = Some ([char_of (34::nat)] @ show_nat n @ [char_of (34::nat)]))"
proof -
  have "parseRoomVersionHeader h = Inr w \<longleftrightarrow> (\<exists>v. h = Some v \<and> quotedVersion v = Some w)"
    using quotedVersion_iff [of "[]"]
    by (auto simp: parseRoomVersionHeader_def split: option.splits)
  then show ?thesis by (auto simp: quotedVersion_iff decimalIdPattern_iff)
qed

lemma orderedUniqueRoomIds_sorted [simp]: "sorted (orderedUniqueRoomIds xs)"
  by (simp add: orderedUniqueRoomIds_def)
lemma orderedUniqueRoomIds_distinct [simp]: "distinct (orderedUniqueRoomIds xs)"
  by (simp add: orderedUniqueRoomIds_def)
lemma set_orderedUniqueRoomIds [simp]: "set (orderedUniqueRoomIds xs) = set xs"
  by (simp add: orderedUniqueRoomIds_def)

subsection \<open>Lemmas on public identifiers\<close>

text \<open>Base 32 with the most significant digit first.\<close>

lemma ulid_and: "(v::int) AND 31 = v mod 32"
  using take_bit_eq_mask [of 5 v] by (simp add: take_bit_eq_mod mask_eq_exp_minus_1)

lemma ulid_loop_append: "encodeUlid_loop k v e = encodeUlid_loop k v [] @ e"
proof (induction k arbitrary: v e)
  case (Suc k)
  show ?case
    using Suc [of "drop_bit 5 v" "ulidAlphabet ! nat (v AND 31) # e"]
      Suc [of "drop_bit 5 v" "[ulidAlphabet ! nat (v AND 31)]"] by simp
qed simp

lemma encodeUlidPart_0 [simp]: "encodeUlidPart v 0 = []"
  by (simp add: encodeUlidPart_def)

lemma encodeUlidPart_Suc:
  "encodeUlidPart v (Suc k) = encodeUlidPart (v div 32) k @ [ulidAlphabet ! nat (v mod 32)]"
  unfolding encodeUlidPart_def
  using ulid_loop_append [of k "drop_bit 5 v" "[ulidAlphabet ! nat (v AND 31)]"]
  by (simp add: ulid_and drop_bit_eq_div)

lemma length_encodeUlidPart [simp]: "length (encodeUlidPart v k) = k"
  by (induction k arbitrary: v) (simp_all add: encodeUlidPart_Suc)

lemma sorted_ulidAlphabet: "sorted_wrt (<) ulidAlphabet"
  unfolding ulidAlphabet_def by (simp add: less_char_def)

lemma ulidAlphabet_less:
  assumes "0 \<le> i" "i < 32" "0 \<le> j" "j < 32"
  shows "ulidAlphabet ! nat i < ulidAlphabet ! nat j \<longleftrightarrow> i < j"
proof -
  have len: "length ulidAlphabet = 32" by (simp add: ulidAlphabet_def)
  have lt: "ulidAlphabet ! a < ulidAlphabet ! b" if "a < b" "b < 32" for a b
    using sorted_wrt_nth_less [OF sorted_ulidAlphabet that(1)] that len by simp
  show ?thesis
  proof (cases i j rule: linorder_cases)
    case less
    then show ?thesis using lt [of "nat i" "nat j"] assms by simp
  next
    case greater
    then have "ulidAlphabet ! nat j < ulidAlphabet ! nat i" using lt [of "nat j" "nat i"] assms by simp
    then have "\<not> ulidAlphabet ! nat i < ulidAlphabet ! nat j" by (rule less_not_sym)
    with greater show ?thesis by simp
  qed simp
qed

lemma div32_lex_iff:
  "(a::int) < b \<longleftrightarrow> a div 32 < b div 32 \<or> (a div 32 = b div 32 \<and> a mod 32 < b mod 32)"
proof -
  have "a = 32 * (a div 32) + a mod 32" and "b = 32 * (b div 32) + b mod 32"
    and "0 \<le> a mod 32" "0 \<le> b mod 32" "a mod 32 < 32" and "b mod 32 < 32" by simp_all
  then show ?thesis by linarith
qed

lemma div32_less: "a < 32 * b \<Longrightarrow> (a::int) div 32 < b"
  by linarith

lemma encodeUlidPart_less_iff:
  "0 \<le> a \<Longrightarrow> a < 32 ^ k \<Longrightarrow> 0 \<le> b \<Longrightarrow> b < 32 ^ k \<Longrightarrow>
   encodeUlidPart a k < encodeUlidPart b k \<longleftrightarrow> a < b"
proof (induction k arbitrary: a b)
  case (Suc k)
  have ab: "0 \<le> a div 32" "a div 32 < 32 ^ k" "0 \<le> b div 32" "b div 32 < 32 ^ k"
    using Suc.prems by (simp_all add: pos_imp_zdiv_nonneg_iff div32_less)
  then have "encodeUlidPart (a div 32) k = encodeUlidPart (b div 32) k \<longleftrightarrow> a div 32 = b div 32"
    using Suc.IH by (metis antisym_conv3 order_less_irrefl)
  then show ?case
    using Suc.IH [OF ab] div32_lex_iff [of a b]
    by (simp add: encodeUlidPart_Suc list_less_append_eq_length ulidAlphabet_less)
qed simp

lemma ulidRandomMaximum_eq: "ulidRandomMaximum = 2 ^ 80 - 1"
  by (simp add: ulidRandomMaximum_def)

lemma ulid_of_less:
  assumes "ulid_inv a" "ulid_inv b" "0 \<le> lastTimestamp a" "0 \<le> lastTimestamp b"
  shows "ulid_of a < ulid_of b \<longleftrightarrow> lastTimestamp a < lastTimestamp b \<or>
    (lastTimestamp a = lastTimestamp b \<and> lastRandom a < lastRandom b)"
proof -
  have b: "lastTimestamp x < 32 ^ 10" "lastRandom x < 32 ^ 16" "0 \<le> lastRandom x" if "ulid_inv x" for x
    using that by (simp_all add: ulid_inv_def ulidRandomMaximum_eq)
  have "encodeUlidPart (lastTimestamp a) 10 = encodeUlidPart (lastTimestamp b) 10 \<longleftrightarrow>
      lastTimestamp a = lastTimestamp b"
    using encodeUlidPart_less_iff [of "lastTimestamp a" 10 "lastTimestamp b"]
      encodeUlidPart_less_iff [of "lastTimestamp b" 10 "lastTimestamp a"] b assms
    by (cases "lastTimestamp a" "lastTimestamp b" rule: linorder_cases) auto
  then show ?thesis
    unfolding ulid_of_def using b assms
    by (simp add: list_less_append_eq_length encodeUlidPart_less_iff)
qed

lemma create_ulid_step:
  assumes "ulid_inv st" "0 \<le> now" "now < 2 ^ 48" "0 \<le> random" "random \<le> ulidRandomMaximum"
    and "createMonotonicBookingId now random st = Inr (identifier, st')"
  shows "identifier = ulid_of st'" and "ulid_inv st'" and "0 \<le> lastTimestamp st'"
    and "0 \<le> lastTimestamp st \<Longrightarrow> ulid_of st < identifier"
proof -
  show i: "identifier = ulid_of st'" and v: "ulid_inv st'" and t: "0 \<le> lastTimestamp st'"
    using assms by (auto simp: createMonotonicBookingId_def Let_def ulid_of_def ulid_inv_def split: if_splits)
  assume "0 \<le> lastTimestamp st"
  then show "ulid_of st < identifier"
    using assms ulid_of_less [OF assms(1) v _ t]
    unfolding i by (auto simp: createMonotonicBookingId_def Let_def split: if_splits)
qed

lemma ulid_run_sorted:
  assumes "ulid_inv st"
    and "\<forall>(now, random) \<in> set calls. 0 \<le> now \<and> now < 2 ^ 48 \<and> 0 \<le> random \<and> random \<le> ulidRandomMaximum"
  shows "sorted_wrt (<) (ulid_run calls st) \<and>
    (0 \<le> lastTimestamp st \<longrightarrow> (\<forall>i \<in> set (ulid_run calls st). ulid_of st < i))"
  using assms
proof (induction calls st rule: ulid_run.induct)
  case (2 now random calls st)
  show ?case
  proof (cases "createMonotonicBookingId now random st")
    case (Inl e)
    with 2 show ?thesis by simp
  next
    case (Inr r)
    then obtain i st' where r: "createMonotonicBookingId now random st = Inr (i, st')" by (cases r) auto
    have pre: "0 \<le> now" "now < 2 ^ 48" "0 \<le> random" "random \<le> ulidRandomMaximum" using 2(4) by auto
    note step = create_ulid_step [OF 2(3) pre r]
    with 2 Inr r have "sorted_wrt (<) (ulid_run calls st') \<and> (\<forall>i \<in> set (ulid_run calls st'). ulid_of st' < i)"
      by auto
    then show ?thesis using r step by (auto intro: less_trans)
  qed
qed simp

lemma encodeUlidPart_set: "c \<in> set (encodeUlidPart v k) \<Longrightarrow> c \<in> set ulidAlphabet"
proof (induction k arbitrary: v)
  case (Suc k)
  have "v mod 32 < 32" "length ulidAlphabet = 32" by (simp_all add: ulidAlphabet_def)
  then have "ulidAlphabet ! nat (v mod 32) \<in> set ulidAlphabet" by (intro nth_mem) simp
  with Suc show ?case by (auto simp: encodeUlidPart_Suc)
qed simp

lemma hd_encodeUlidPart:
  "0 \<le> v \<Longrightarrow> v < 8 * 32 ^ k \<Longrightarrow> hd (encodeUlidPart v (Suc k)) \<in> set ''01234567''"
proof (induction k arbitrary: v)
  case 0
  then have "v = 0 \<or> v = 1 \<or> v = 2 \<or> v = 3 \<or> v = 4 \<or> v = 5 \<or> v = 6 \<or> v = 7" by auto
  then show ?case by (elim disjE) (simp_all add: encodeUlidPart_Suc ulidAlphabet_def)
next
  case (Suc k)
  then have "v div 32 < 8 * 32 ^ k" "0 \<le> v div 32" by (simp_all add: div32_less pos_imp_zdiv_nonneg_iff)
  then have "hd (encodeUlidPart (v div 32) (Suc k)) \<in> set ''01234567''" by (rule Suc.IH [rotated])
  moreover have "encodeUlidPart (v div 32) (Suc k) \<noteq> []" by (metis length_encodeUlidPart list.size(3) nat.distinct(1))
  ultimately show ?case by (subst encodeUlidPart_Suc) simp
qed

lemma ulid_of_pattern:
  assumes "ulid_inv st" "0 \<le> lastTimestamp st"
  shows "bookingPublicIdPattern (ulid_of st)"
proof -
  have "lastTimestamp st < 8 * 32 ^ 9" using assms by (simp add: ulid_inv_def)
  then have hd: "hd (ulid_of st) \<in> set ''01234567''"
    using hd_encodeUlidPart [of "lastTimestamp st" 9] assms(2) length_encodeUlidPart [of "lastTimestamp st" 10]
    by (auto simp: ulid_of_def hd_append simp del: length_encodeUlidPart)
  have all: "list_all (\<lambda>c. is_digit c \<or> in_range CHR ''A'' CHR ''H'' c
          \<or> c \<in> set ''JKMN'' \<or> in_range CHR ''P'' CHR ''T'' c \<or> in_range CHR ''V'' CHR ''Z'' c) ulidAlphabet"
    "list_all (in_range CHR ''0'' CHR ''7'') ''01234567''"
    by code_simp+
  have "set (ulid_of st) \<subseteq> set ulidAlphabet"
    using encodeUlidPart_set by (auto simp: ulid_of_def)
  then have "set (tl (ulid_of st)) \<subseteq> set ulidAlphabet"
    by (cases "ulid_of st") auto
  then show ?thesis
    using hd all by (auto simp: bookingPublicIdPattern_def list_all_iff ulid_of_def)
qed

lemma ulid_run_pattern:
  assumes "ulid_inv st"
    and "\<forall>(now, random) \<in> set calls. 0 \<le> now \<and> now < 2 ^ 48 \<and> 0 \<le> random \<and> random \<le> ulidRandomMaximum"
  shows "\<forall>i \<in> set (ulid_run calls st). bookingPublicIdPattern i"
  using assms
proof (induction calls st rule: ulid_run.induct)
  case (2 now random calls st)
  show ?case
  proof (cases "createMonotonicBookingId now random st")
    case (Inl e)
    then show ?thesis using 2 by simp
  next
    case (Inr r)
    obtain i st' where r: "r = (i, st')" by (cases r)
    have "0 \<le> now" "now < 2 ^ 48" "0 \<le> random" "random \<le> ulidRandomMaximum" using 2(4) by simp_all
    note step = create_ulid_step [OF 2(3) this Inr [unfolded r]]
    then show ?thesis using 2(2) [OF Inr r [symmetric]] 2(4) Inr r ulid_of_pattern [OF step(2,3)] by simp
  qed
qed simp

end
