(* ===== verification/Schema.thy ===== *)
theory Schema
  imports Identifiers
begin

text \<open>
  The database: one record per table row, with the columns of the entities under
  bookings/entities, rooms/entities, users/entities, common/idempotency and common/outbox, and one
  record \<open>hotel_db\<close> of all tables. A table is the list of its rows. Surrogate keys are numbers
  drawn from one counter (\<open>nextId\<close>); instants are microseconds since the epoch, as DATETIME(6)
  keeps them; hotel dates are strings. The constraints of the schema that a write can violate
  (unique keys, foreign keys, checks) are conditions of the insert operations here; the remaining
  ones are the well-formedness predicate \<open>wf_db\<close>.
\<close>

subsection \<open>JSON values\<close>

text \<open>
  \<open>JNum\<close> is an integer, \<open>JReal\<close> any other number, kept as its text; an object is the list of
  its fields.
\<close>

datatype json =
    JNull
  | JBool bool
  | JNum int
  | JReal string
  | JStr string
  | JArr "json list"
  | JObj "(string \<times> json) list"

text \<open>Property access \<open>value.key\<close>; \<open>None\<close> is \<open>undefined\<close>.\<close>

definition json_field :: "string \<Rightarrow> (string \<times> json) list \<Rightarrow> json option" where
  "json_field key entries = map_of entries key"

definition json_of_id :: "nat \<Rightarrow> json" where
  "json_of_id n = JStr (show_nat n)"

definition json_of_string_option :: "string option \<Rightarrow> json" where
  "json_of_string_option v = (case v of None \<Rightarrow> JNull | Some s \<Rightarrow> JStr s)"

definition number_max_safe_integer :: nat where
  "number_max_safe_integer = 9007199254740991"

text \<open>\<open>toISOString()\<close> of a DATETIME(6) column: the driver keeps the milliseconds.\<close>

definition iso_instant :: "instant \<Rightarrow> string" where
  "iso_instant t = toISOString (t div 1000)"

subsection \<open>Enumerations\<close>

datatype BookingStatus =
    Pending | Confirmed | Rejected | CancelledByUser | CancelledByAdmin | Completed

datatype BookingActorType = ActorUser | ActorAdmin | ActorSystem

datatype RoomStatus = RoomActive | RoomInactive | RoomMaintenance

datatype RoomTimeStatus = TimeActive | TimeInactive

datatype UserRole = RoleUser | RoleAdmin

datatype UserStatus = UserActive | UserInactive

datatype AttachmentObjectType = ObjectRoom | ObjectUser

datatype AttachmentAssociationType = Thumbnail | Album | Avatar

datatype StorageCleanupReason = UploadSafeguard | DetachedObject

datatype IdempotencyKeyStatus = KeyPending | KeyCompleted

datatype OutboxEventStatus = OutPending | OutProcessing | OutProcessed | OutFailed

fun show_BookingStatus :: "BookingStatus \<Rightarrow> string" where
  "show_BookingStatus Pending = ''PENDING''"
| "show_BookingStatus Confirmed = ''CONFIRMED''"
| "show_BookingStatus Rejected = ''REJECTED''"
| "show_BookingStatus CancelledByUser = ''CANCELLED_BY_USER''"
| "show_BookingStatus CancelledByAdmin = ''CANCELLED_BY_ADMIN''"
| "show_BookingStatus Completed = ''COMPLETED''"

definition all_BookingStatus :: "BookingStatus list" where
  "all_BookingStatus = [Pending, Confirmed, Rejected, CancelledByUser, CancelledByAdmin, Completed]"

fun show_BookingActorType :: "BookingActorType \<Rightarrow> string" where
  "show_BookingActorType ActorUser = ''USER''"
| "show_BookingActorType ActorAdmin = ''ADMIN''"
| "show_BookingActorType ActorSystem = ''SYSTEM''"

fun show_RoomTimeStatus :: "RoomTimeStatus \<Rightarrow> string" where
  "show_RoomTimeStatus TimeActive = ''ACTIVE''"
| "show_RoomTimeStatus TimeInactive = ''INACTIVE''"

fun show_UserStatus :: "UserStatus \<Rightarrow> string" where
  "show_UserStatus UserActive = ''ACTIVE''"
| "show_UserStatus UserInactive = ''INACTIVE''"

subsection \<open>Rows\<close>

record user_row =
  u_id :: nat
  u_email :: string
  u_displayName :: string
  u_role :: UserRole
  u_status :: UserStatus

record room_type_row =
  rt_id :: nat
  rt_name :: string
  rt_description :: "string option"
  rt_createdAt :: instant
  rt_updatedAt :: instant

record amenity_row =
  am_id :: nat
  am_code :: string
  am_name :: string
  am_createdAt :: instant
  am_updatedAt :: instant

record room_row =
  r_id :: nat
  r_roomTypeId :: nat
  r_roomNumber :: string
  r_bedCount :: nat
  r_viewCode :: "string option"
  r_basePriceAmount :: nat
  r_currency :: string
  r_status :: RoomStatus
  r_version :: nat
  r_createdAt :: instant
  r_updatedAt :: instant

record room_amenity_row =
  ra_roomId :: nat
  ra_amenityId :: nat

record room_time_row =
  w_id :: nat
  w_roomId :: nat
  w_availableFrom :: hotel_date
  w_availableTo :: hotel_date
  w_status :: RoomTimeStatus
  w_createdAt :: instant
  w_updatedAt :: instant

record booking_row =
  b_id :: nat
  b_publicId :: string
  b_userId :: nat
  b_roomTimeId :: nat
  b_checkIn :: hotel_date
  b_checkOut :: hotel_date
  b_status :: BookingStatus
  b_priceAmount :: nat
  b_currency :: string
  b_rejectionReason :: "string option"
  b_version :: nat
  b_createdAt :: instant
  b_updatedAt :: instant

record status_history_row =
  sh_id :: nat
  sh_bookingId :: nat
  sh_fromStatus :: "BookingStatus option"
  sh_toStatus :: BookingStatus
  sh_actorType :: BookingActorType
  sh_actorUserId :: "nat option"
  sh_reason :: "string option"
  sh_createdAt :: instant

record change_history_row =
  ch_id :: nat
  ch_bookingId :: nat
  ch_actorUserId :: nat
  ch_fromRoomTimeId :: nat
  ch_toRoomTimeId :: nat
  ch_fromCheckIn :: hotel_date
  ch_fromCheckOut :: hotel_date
  ch_toCheckIn :: hotel_date
  ch_toCheckOut :: hotel_date
  ch_reason :: string
  ch_createdAt :: instant

record idempotency_row =
  ik_id :: nat
  ik_actorUserId :: nat
  ik_operation :: string
  ik_idempotencyKey :: string
  ik_requestFingerprint :: string
  ik_status :: IdempotencyKeyStatus
  ik_responseStatus :: "nat option"
  ik_responseBody :: "json option"
  ik_expiresAt :: instant

record outbox_row =
  o_id :: string
  o_eventType :: string
  o_payload :: json
  o_availableAt :: instant
  o_status :: OutboxEventStatus
  o_idempotencyKey :: string
  o_lockedAt :: "instant option"
  o_lockExpiresAt :: "instant option"
  o_lockedBy :: "string option"
  o_processedAt :: "instant option"
  o_attempts :: nat
  o_lastErrorCode :: "string option"
  o_failedAt :: "instant option"
  o_createdAt :: instant
  o_updatedAt :: instant

record attachment_row =
  at_id :: string
  at_uploaderUserId :: nat
  at_objectType :: AttachmentObjectType
  at_objectId :: nat
  at_associationType :: AttachmentAssociationType
  at_position :: nat
  at_objectKey :: string
  at_mimeType :: string
  at_sizeBytes :: nat

record cleanup_row =
  cl_id :: string
  cl_objectKey :: string
  cl_reason :: StorageCleanupReason
  cl_availableAt :: instant
  cl_lockedAt :: "instant option"
  cl_lockExpiresAt :: "instant option"
  cl_lockedBy :: "string option"
  cl_attempts :: nat

record hotel_db =
  users :: "user_row list"
  roomTypes :: "room_type_row list"
  amenities :: "amenity_row list"
  rooms :: "room_row list"
  roomAmenities :: "room_amenity_row list"
  roomTimes :: "room_time_row list"
  bookings :: "booking_row list"
  statusHistories :: "status_history_row list"
  changeHistories :: "change_history_row list"
  idempotencyKeys :: "idempotency_row list"
  outboxEvents :: "outbox_row list"
  attachments :: "attachment_row list"
  cleanupTasks :: "cleanup_row list"
  nextId :: nat

definition empty_db :: hotel_db where
  "empty_db = \<lparr>users = [], roomTypes = [], amenities = [], rooms = [], roomAmenities = [],
     roomTimes = [], bookings = [], statusHistories = [], changeHistories = [],
     idempotencyKeys = [], outboxEvents = [], attachments = [], cleanupTasks = [], nextId = 1\<rparr>"

text \<open>
  What a transaction draws from outside: the clock of the database and the one of the process
  (microseconds), today's date in the hotel's timezone, the random UUIDs in the order they are
  drawn (\<open>drawUuid env n\<close> is the one after \<open>n\<close> others), and the state and random bytes of the
  identifier generator.
\<close>

record tx_env =
  dbNow :: instant
  jsNow :: instant
  hotelToday :: hotel_date
  drawUuid :: "nat \<Rightarrow> string"
  ulidState :: ulid_state
  ulidRandom :: int

subsection \<open>Lookups\<close>

definition find_user :: "hotel_db \<Rightarrow> nat \<Rightarrow> user_row option" where
  "find_user db i = List.find (\<lambda>u. u_id u = i) (users db)"

definition find_room_type :: "hotel_db \<Rightarrow> nat \<Rightarrow> room_type_row option" where
  "find_room_type db i = List.find (\<lambda>t. rt_id t = i) (roomTypes db)"

definition find_room :: "hotel_db \<Rightarrow> nat \<Rightarrow> room_row option" where
  "find_room db i = List.find (\<lambda>r. r_id r = i) (rooms db)"

definition find_room_time :: "hotel_db \<Rightarrow> nat \<Rightarrow> room_time_row option" where
  "find_room_time db i = List.find (\<lambda>w. w_id w = i) (roomTimes db)"

definition find_booking :: "hotel_db \<Rightarrow> string \<Rightarrow> booking_row option" where
  "find_booking db publicId = List.find (\<lambda>b. b_publicId b = publicId) (bookings db)"

text \<open>The physical room of a booking, through its window.\<close>

definition booking_room :: "hotel_db \<Rightarrow> booking_row \<Rightarrow> nat option" where
  "booking_room db b = map_option w_roomId (find_room_time db (b_roomTimeId b))"

subsection \<open>Writes\<close>

text \<open>The error codes of the driver for a violated unique key, foreign key and check.\<close>

definition ER_DUP_ENTRY :: error where
  "ER_DUP_ENTRY = DatabaseError ''ER_DUP_ENTRY''"

definition ER_NO_REFERENCED_ROW_2 :: error where
  "ER_NO_REFERENCED_ROW_2 = DatabaseError ''ER_NO_REFERENCED_ROW_2''"

definition ER_ROW_IS_REFERENCED_2 :: error where
  "ER_ROW_IS_REFERENCED_2 = DatabaseError ''ER_ROW_IS_REFERENCED_2''"

definition ER_CHECK_CONSTRAINT_VIOLATED :: error where
  "ER_CHECK_CONSTRAINT_VIOLATED = DatabaseError ''ER_CHECK_CONSTRAINT_VIOLATED''"

text \<open>\<open>findOneOrFail\<close> on no row.\<close>

definition EntityNotFoundError :: error where
  "EntityNotFoundError = DatabaseError ''EntityNotFoundError''"

definition insert_outbox :: "outbox_row \<Rightarrow> hotel_db \<Rightarrow> error + hotel_db" where
  "insert_outbox row db =
     (if \<exists>o' \<in> set (outboxEvents db). o_id o' = o_id row \<or> o_idempotencyKey o' = o_idempotencyKey row
      then Inl ER_DUP_ENTRY
      else Inr (db\<lparr>outboxEvents := outboxEvents db @ [row]\<rparr>))"

text \<open>A fresh pending event, as both outbox writers of the booking transactions insert it.\<close>

definition pending_event ::
  "string \<Rightarrow> string \<Rightarrow> json \<Rightarrow> string \<Rightarrow> tx_env \<Rightarrow> outbox_row" where
  "pending_event identifier eventType payload key env =
     \<lparr>o_id = identifier, o_eventType = eventType, o_payload = payload, o_availableAt = jsNow env,
      o_status = OutPending, o_idempotencyKey = key, o_lockedAt = None, o_lockExpiresAt = None,
      o_lockedBy = None, o_processedAt = None, o_attempts = 0, o_lastErrorCode = None,
      o_failedAt = None, o_createdAt = dbNow env, o_updatedAt = dbNow env\<rparr>"

definition user_exists :: "hotel_db \<Rightarrow> nat \<Rightarrow> bool" where
  "user_exists db i \<longleftrightarrow> (\<exists>u \<in> set (users db). u_id u = i)"

definition insert_status_history ::
  "nat \<Rightarrow> BookingStatus option \<Rightarrow> BookingStatus \<Rightarrow> BookingActorType \<Rightarrow> nat \<Rightarrow> string option \<Rightarrow> tx_env
   \<Rightarrow> hotel_db \<Rightarrow> error + hotel_db" where
  "insert_status_history bookingId fromStatus toStatus actorType actorUserId reason env db =
     (if \<not> user_exists db actorUserId \<or> (\<forall>b \<in> set (bookings db). b_id b \<noteq> bookingId)
      then Inl ER_NO_REFERENCED_ROW_2
      else Inr (db\<lparr>statusHistories := statusHistories db @
             [\<lparr>sh_id = nextId db, sh_bookingId = bookingId, sh_fromStatus = fromStatus,
               sh_toStatus = toStatus, sh_actorType = actorType, sh_actorUserId = Some actorUserId,
               sh_reason = reason, sh_createdAt = dbNow env\<rparr>],
           nextId := Suc (nextId db)\<rparr>))"

definition insert_change_history ::
  "change_history_row \<Rightarrow> tx_env \<Rightarrow> hotel_db \<Rightarrow> error + hotel_db" where
  "insert_change_history row env db =
     (if \<not> user_exists db (ch_actorUserId row)
         \<or> (\<forall>b \<in> set (bookings db). b_id b \<noteq> ch_bookingId row)
         \<or> find_room_time db (ch_fromRoomTimeId row) = None
         \<or> find_room_time db (ch_toRoomTimeId row) = None
      then Inl ER_NO_REFERENCED_ROW_2
      else Inr (db\<lparr>changeHistories := changeHistories db @
                   [row\<lparr>ch_id := nextId db, ch_createdAt := dbNow env\<rparr>],
                 nextId := Suc (nextId db)\<rparr>))"

text \<open>The checks \<open>chk_bookings_range\<close> and \<open>chk_bookings_price_safe_integer\<close>.\<close>

definition booking_checks :: "booking_row \<Rightarrow> bool" where
  "booking_checks b \<longleftrightarrow> b_checkIn b < b_checkOut b \<and> b_priceAmount b \<le> number_max_safe_integer"

definition booking_references :: "hotel_db \<Rightarrow> booking_row \<Rightarrow> bool" where
  "booking_references db b \<longleftrightarrow>
     user_exists db (b_userId b) \<and> find_room_time db (b_roomTimeId b) \<noteq> None"

text \<open>\<open>manager.save\<close> of a new booking: the key, the version and the audit columns are assigned.\<close>

definition insert_booking ::
  "booking_row \<Rightarrow> tx_env \<Rightarrow> hotel_db \<Rightarrow> error + booking_row \<times> hotel_db" where
  "insert_booking entity env db =
     (let b = entity\<lparr>b_id := nextId db, b_version := 1, b_createdAt := dbNow env,
                     b_updatedAt := dbNow env\<rparr>
      in if \<exists>b' \<in> set (bookings db). b_publicId b' = b_publicId b then Inl ER_DUP_ENTRY
         else if \<not> booking_checks b then Inl ER_CHECK_CONSTRAINT_VIOLATED
         else if \<not> booking_references db b then Inl ER_NO_REFERENCED_ROW_2
         else Inr (b, db\<lparr>bookings := bookings db @ [b], nextId := Suc (nextId db)\<rparr>))"

text \<open>
  \<open>manager.save\<close> of a loaded booking: when a column differs from the stored row, the row is
  updated by its key with the version increased by one and \<open>updated_at\<close> set; otherwise nothing is
  written.
\<close>

definition save_booking ::
  "booking_row \<Rightarrow> tx_env \<Rightarrow> hotel_db \<Rightarrow> error + booking_row \<times> hotel_db" where
  "save_booking entity env db =
     (if entity \<in> set (bookings db) then Inr (entity, db)
      else let b = entity\<lparr>b_version := Suc (b_version entity), b_updatedAt := dbNow env\<rparr>
           in if \<not> booking_checks b then Inl ER_CHECK_CONSTRAINT_VIOLATED
              else if \<not> booking_references db b then Inl ER_NO_REFERENCED_ROW_2
              else Inr (b, db\<lparr>bookings :=
                            update_where (\<lambda>r. b_id r = b_id entity) (\<lambda>_. b) (bookings db)\<rparr>))"

end
