(* ===== verification/Lifecycle.thy ===== *)
theory Lifecycle
  imports Schema
begin

text \<open>
  The booking lifecycle stream: the payload a booking transaction writes
  (bookings/booking-lifecycle-payload.ts: \<open>toBookingLifecyclePayload\<close>), the strict parser that
  guards the topic (\<open>parseBookingLifecyclePayload\<close>), the transition table
  (bookings/booking-lifecycle-event.constants.ts) and the recorder that inserts the outbox row
  (bookings/booking-lifecycle-recorder.ts). The ISO 4217 table of class-validator is the parameter
  \<open>iso4217\<close>. The lemmas show that the parser is the left inverse of the builder on every change a
  booking transaction can make, and that it accepts nothing else.
\<close>

subsection \<open>Payloads\<close>

record BookingLifecycleStay =
  ls_roomId :: string
  ls_roomTypeId :: string
  ls_checkIn :: hotel_date
  ls_checkOut :: hotel_date

record BookingLifecyclePayload =
  lp_bookingId :: string
  lp_bookingVersion :: int
  lp_fromStatus :: "BookingStatus option"
  lp_toStatus :: BookingStatus
  lp_stay :: BookingLifecycleStay
  lp_amount :: int
  lp_currency :: string
  lp_previousStay :: "BookingLifecycleStay option"

text \<open>What a transaction hands the recorder: the saved booking and the key and type of its room.\<close>

record BookingLifecycleChange =
  lc_booking :: booking_row
  lc_roomId :: nat
  lc_roomTypeId :: nat
  lc_fromStatus :: "BookingStatus option"
  lc_previousStay :: "BookingLifecycleStay option"

definition bookingLifecycleEventType :: string where
  "bookingLifecycleEventType = ''booking-lifecycle.recorded''"

definition bookingLifecycleEventSchemaVersion :: int where
  "bookingLifecycleEventSchemaVersion = 1"

definition bookingLifecycleTransitions :: "(BookingStatus option \<times> BookingStatus) list" where
  "bookingLifecycleTransitions =
     [(None, Pending),
      (Some Pending, CancelledByUser),
      (Some Pending, Confirmed),
      (Some Pending, Rejected),
      (Some Pending, CancelledByAdmin),
      (Some Confirmed, CancelledByAdmin),
      (Some Pending, Pending),
      (Some Confirmed, Confirmed)]"

definition toBookingLifecyclePayload :: "BookingLifecycleChange \<Rightarrow> BookingLifecyclePayload" where
  "toBookingLifecyclePayload change =
     (let booking = lc_booking change in
      \<lparr>lp_bookingId = b_publicId booking,
       lp_bookingVersion = int (b_version booking),
       lp_fromStatus = lc_fromStatus change,
       lp_toStatus = b_status booking,
       lp_stay = \<lparr>ls_roomId = show_nat (lc_roomId change),
                  ls_roomTypeId = show_nat (lc_roomTypeId change),
                  ls_checkIn = b_checkIn booking,
                  ls_checkOut = b_checkOut booking\<rparr>,
       lp_amount = int (b_priceAmount booking),
       lp_currency = b_currency booking,
       lp_previousStay = lc_previousStay change\<rparr>)"

text \<open>The object a payload is in the JSON column, field by field as the builder writes it.\<close>

definition stay_fields :: "BookingLifecycleStay \<Rightarrow> (string \<times> json) list" where
  "stay_fields s =
     [(''roomId'', JStr (ls_roomId s)), (''roomTypeId'', JStr (ls_roomTypeId s)),
      (''checkIn'', JStr (ls_checkIn s)), (''checkOut'', JStr (ls_checkOut s))]"

definition payload_fields :: "BookingLifecyclePayload \<Rightarrow> (string \<times> json) list" where
  "payload_fields p =
          [(''schemaVersion'', JNum bookingLifecycleEventSchemaVersion),
           (''bookingId'', JStr (lp_bookingId p)),
           (''bookingVersion'', JNum (lp_bookingVersion p)),
           (''fromStatus'', case lp_fromStatus p of None \<Rightarrow> JNull | Some s \<Rightarrow> JStr (show_BookingStatus s)),
           (''toStatus'', JStr (show_BookingStatus (lp_toStatus p))),
           (''booking'', JObj (stay_fields (lp_stay p) @
              [(''price'', JObj [(''amount'', JNum (lp_amount p)),
                                 (''currency'', JStr (lp_currency p))])])),
           (''previousStay'', case lp_previousStay p of
                                None \<Rightarrow> JNull | Some s \<Rightarrow> JObj (stay_fields s))]"

definition payload_json :: "BookingLifecyclePayload \<Rightarrow> json" where
  "payload_json p = JObj (payload_fields p)"

subsection \<open>The parser\<close>

text \<open>The error carries the path of the refused field and no value.\<close>

definition invalid :: "string \<Rightarrow> error" where
  "invalid path = PlainError (''Invalid booking lifecycle field: '' @ path)"

definition payloadKeys :: "string list" where
  "payloadKeys =
     [''schemaVersion'', ''bookingId'', ''bookingVersion'', ''fromStatus'', ''toStatus'',
      ''booking'', ''previousStay'']"

definition stayKeys :: "string list" where
  "stayKeys = [''roomId'', ''roomTypeId'', ''checkIn'', ''checkOut'']"

definition requireRecord ::
  "json option \<Rightarrow> string \<Rightarrow> string list \<Rightarrow> error + (string \<times> json) list" where
  "requireRecord input path keys =
     (case input of
        Some (JObj entries) \<Rightarrow>
          if sort (map fst entries) = sort keys then Inr entries else Inl (invalid path)
      | _ \<Rightarrow> Inl (invalid path))"

definition requireString ::
  "json option \<Rightarrow> string \<Rightarrow> (string \<Rightarrow> bool) \<Rightarrow> error + string" where
  "requireString value path pattern =
     (case value of
        Some (JStr s) \<Rightarrow> if pattern s then Inr s else Inl (invalid path)
      | _ \<Rightarrow> Inl (invalid path))"

definition parse_BookingStatus :: "string \<Rightarrow> BookingStatus option" where
  "parse_BookingStatus s = List.find (\<lambda>st. show_BookingStatus st = s) all_BookingStatus"

definition requireStatus :: "json option \<Rightarrow> string \<Rightarrow> error + BookingStatus" where
  "requireStatus value path =
     (case value of
        Some (JStr s) \<Rightarrow> or_throw (parse_BookingStatus s) (invalid path)
      | _ \<Rightarrow> Inl (invalid path))"

definition isSafeInteger :: "int \<Rightarrow> bool" where
  "isSafeInteger n \<longleftrightarrow> \<bar>n\<bar> \<le> int number_max_safe_integer"

text \<open>A safe integer of at least \<open>least\<close>.\<close>

definition requireInteger :: "json option \<Rightarrow> string \<Rightarrow> int \<Rightarrow> error + int" where
  "requireInteger value path least =
     (case value of
        Some (JNum n) \<Rightarrow> if isSafeInteger n \<and> least \<le> n then Inr n else Inl (invalid path)
      | _ \<Rightarrow> Inl (invalid path))"

definition requireHotelDate :: "json option \<Rightarrow> string \<Rightarrow> error + hotel_date" where
  "requireHotelDate value path =
     and_then (requireString value path hotelDatePattern) (\<lambda>date.
     case date_parse date of
       None \<Rightarrow> Inl (invalid path)
     | Some ms \<Rightarrow> if take 10 (toISOString ms) \<noteq> date then Inl (invalid path) else Inr date)"

definition requireStoredId :: "json option \<Rightarrow> string \<Rightarrow> error + string" where
  "requireStoredId value path =
     and_then (requireString value path decimalIdPattern) (\<lambda>i.
     if decimal_value i > maxUnsignedBigint then Inl (invalid path) else Inr i)"

definition requireStay :: "json option \<Rightarrow> string \<Rightarrow> error + BookingLifecycleStay" where
  "requireStay input path =
     and_then (requireRecord input path stayKeys) (\<lambda>value.
     and_then (requireHotelDate (json_field ''checkIn'' value) (path @ ''.checkIn'')) (\<lambda>checkIn.
     and_then (requireHotelDate (json_field ''checkOut'' value) (path @ ''.checkOut'')) (\<lambda>checkOut.
     if checkIn \<ge> checkOut then Inl (invalid (path @ ''.checkOut'')) else
     and_then (requireStoredId (json_field ''roomId'' value) (path @ ''.roomId'')) (\<lambda>roomId.
     and_then (requireStoredId (json_field ''roomTypeId'' value) (path @ ''.roomTypeId'')) (\<lambda>roomTypeId.
     Inr \<lparr>ls_roomId = roomId, ls_roomTypeId = roomTypeId,
          ls_checkIn = checkIn, ls_checkOut = checkOut\<rparr>)))))"

text \<open>The object literal with the named fields of a checked object.\<close>

definition pick_fields :: "string list \<Rightarrow> (string \<times> json) list \<Rightarrow> (string \<times> json) list" where
  "pick_fields keys entries =
     List.map_filter (\<lambda>k. map_option (Pair k) (json_field k entries)) keys"

text \<open>\<open>/^[A-Z]{3}$/\<close>\<close>

definition currencyPattern :: "string \<Rightarrow> bool" where
  "currencyPattern v \<longleftrightarrow> length v = 3 \<and> list_all (in_range CHR ''A'' CHR ''Z'') v"

definition parseBookingLifecyclePayload ::
  "(string \<Rightarrow> bool) \<Rightarrow> json \<Rightarrow> error + BookingLifecyclePayload" where
  "parseBookingLifecyclePayload iso4217 input =
     and_then (requireRecord (Some input) ''payload'' payloadKeys) (\<lambda>value.
     if json_field ''schemaVersion'' value \<noteq> Some (JNum bookingLifecycleEventSchemaVersion)
     then Inl (invalid ''schemaVersion'') else
     and_then (requireString (json_field ''bookingId'' value) ''bookingId'' bookingPublicIdPattern) (\<lambda>bookingId.
     and_then (requireInteger (json_field ''bookingVersion'' value) ''bookingVersion'' 1) (\<lambda>bookingVersion.
     and_then (if json_field ''fromStatus'' value = Some JNull then Inr None
               else and_then (requireStatus (json_field ''fromStatus'' value) ''fromStatus'')
                      (\<lambda>s. Inr (Some s))) (\<lambda>fromStatus.
     and_then (requireStatus (json_field ''toStatus'' value) ''toStatus'') (\<lambda>toStatus.
     and_then (requireRecord (json_field ''booking'' value) ''booking'' (stayKeys @ [''price''])) (\<lambda>booking.
     and_then (requireRecord (json_field ''price'' booking) ''booking.price'' [''amount'', ''currency'']) (\<lambda>price.
     and_then (requireInteger (json_field ''amount'' price) ''booking.price.amount'' 0) (\<lambda>amount.
     and_then (requireString (json_field ''currency'' price) ''booking.price.currency'' currencyPattern) (\<lambda>currency.
     if \<not> iso4217 currency then Inl (invalid ''booking.price.currency'') else
     and_then (if json_field ''previousStay'' value = Some JNull then Inr None
               else and_then (requireStay (json_field ''previousStay'' value) ''previousStay'')
                      (\<lambda>s. Inr (Some s))) (\<lambda>previousStay.
     if (fromStatus, toStatus) \<notin> set bookingLifecycleTransitions then Inl (invalid ''toStatus'')
     else if previousStay \<noteq> None \<and> fromStatus \<noteq> Some toStatus then Inl (invalid ''previousStay'')
     else if previousStay = None \<and> fromStatus = Some toStatus then Inl (invalid ''toStatus'')
     else and_then (requireStay (Some (JObj (pick_fields stayKeys booking))) ''booking'') (\<lambda>stay.
       Inr \<lparr>lp_bookingId = bookingId, lp_bookingVersion = bookingVersion,
            lp_fromStatus = fromStatus, lp_toStatus = toStatus, lp_stay = stay,
            lp_amount = amount, lp_currency = currency, lp_previousStay = previousStay\<rparr>)))))))))))"

subsection \<open>The recorder\<close>

definition event_key :: "string \<Rightarrow> string \<Rightarrow> nat \<Rightarrow> string" where
  "event_key eventType publicId version = eventType @ '':'' @ publicId @ '':'' @ show_nat version"

definition record_change ::
  "bool \<Rightarrow> BookingLifecycleChange \<Rightarrow> tx_env \<Rightarrow> hotel_db \<Rightarrow> error + hotel_db" where
  "record_change enabled change env db =
     (if \<not> enabled then Inr db
      else insert_outbox
             (pending_event (drawUuid env 0) bookingLifecycleEventType
                (payload_json (toBookingLifecyclePayload change))
                (event_key bookingLifecycleEventType (b_publicId (lc_booking change))
                   (b_version (lc_booking change))) env) db)"

subsection \<open>What the contract admits\<close>

definition strict_hotel_date :: "string \<Rightarrow> bool" where
  "strict_hotel_date v \<longleftrightarrow> hotelDatePattern v \<and> parseHotelDate v \<noteq> None"

definition stored_id :: "string \<Rightarrow> bool" where
  "stored_id v \<longleftrightarrow> decimalIdPattern v \<and> decimal_value v \<le> maxUnsignedBigint"

definition valid_stay :: "BookingLifecycleStay \<Rightarrow> bool" where
  "valid_stay s \<longleftrightarrow>
     strict_hotel_date (ls_checkIn s) \<and> strict_hotel_date (ls_checkOut s)
     \<and> ls_checkIn s < ls_checkOut s \<and> stored_id (ls_roomId s) \<and> stored_id (ls_roomTypeId s)"

definition valid_payload :: "(string \<Rightarrow> bool) \<Rightarrow> BookingLifecyclePayload \<Rightarrow> bool" where
  "valid_payload iso4217 p \<longleftrightarrow>
     bookingPublicIdPattern (lp_bookingId p)
     \<and> 1 \<le> lp_bookingVersion p \<and> isSafeInteger (lp_bookingVersion p)
     \<and> 0 \<le> lp_amount p \<and> isSafeInteger (lp_amount p)
     \<and> currencyPattern (lp_currency p) \<and> iso4217 (lp_currency p)
     \<and> valid_stay (lp_stay p)
     \<and> (lp_fromStatus p, lp_toStatus p) \<in> set bookingLifecycleTransitions
     \<and> (case lp_previousStay p of
          None \<Rightarrow> lp_fromStatus p \<noteq> Some (lp_toStatus p)
        | Some s \<Rightarrow> lp_fromStatus p = Some (lp_toStatus p) \<and> valid_stay s)"

subsection \<open>Lemmas\<close>

lemma strict_pattern_year: "hotelDatePattern v \<Longrightarrow> 1000 \<le> date_year v"
proof -
  assume h: "hotelDatePattern v"
  then have len: "length v = 10" and dig: "list_all is_digit (take 4 v)" and z: "v ! 0 \<noteq> CHR ''0''"
    by (auto simp: hotelDatePattern_def matches_date_def)
  obtain a b c d r where v: "v = a # b # c # d # r"
    using len by (auto simp: length_Suc_conv eval_nat_numeral)
  have "is_digit a" "a \<noteq> CHR ''0''" using dig z by (simp_all add: v)
  then have "0 < digit_value a"
    using digit_char_digit_value [of a] by (metis digit_char_0 gr0I)
  then show ?thesis by (simp add: v date_year_def decimal_value_def)
qed

lemma date_parse_strict:
  assumes "hotelDatePattern v"
  shows "(\<exists>ms. date_parse v = Some ms \<and> take 10 (toISOString ms) = v) \<longleftrightarrow> parseHotelDate v \<noteq> None"
proof -
  have "matches_date v" and y: "\<not> date_year v \<le> 99"
    using assms strict_pattern_year [OF assms] by (auto simp: hotelDatePattern_def)
  then have "date_parse v = Some ms \<Longrightarrow> ms = date_utc (date_year v) (date_month v - 1) (date_day v)" for ms
    by (simp add: date_parse_def date_utc_def split: if_splits)
  with \<open>matches_date v\<close> have "date_parse v = Some ms \<Longrightarrow> take 10 (toISOString ms) = v \<Longrightarrow> parseHotelDate v = Some ms" for ms
    by (simp add: parseHotelDate_def Let_def)
  moreover have "parseHotelDate v = Some ms \<Longrightarrow> take 10 (toISOString ms) = v" for ms
    unfolding parseHotelDate_def Let_def by (simp split: if_splits)
  ultimately show ?thesis using parseHotelDate_date_parse [of v] by (cases "parseHotelDate v") auto
qed

lemma requireString_Inr:
  "requireString v path pat = Inr s \<longleftrightarrow> v = Some (JStr s) \<and> pat s"
  by (auto simp: requireString_def split: option.splits json.splits)

lemma requireHotelDate_Inr:
  "requireHotelDate v path = Inr d \<longleftrightarrow> v = Some (JStr d) \<and> strict_hotel_date d"
proof -
  have "requireHotelDate v path = Inr d \<longleftrightarrow> v = Some (JStr d) \<and> hotelDatePattern d
      \<and> (\<exists>ms. date_parse d = Some ms \<and> take 10 (toISOString ms) = d)"
    unfolding requireHotelDate_def
    by (auto simp: step_simps requireString_Inr split: option.splits if_splits)
  then show ?thesis using date_parse_strict by (auto simp: strict_hotel_date_def)
qed

lemma requireStoredId_Inr:
  "requireStoredId v path = Inr i \<longleftrightarrow> v = Some (JStr i) \<and> stored_id i"
  by (cases "requireString v path decimalIdPattern")
    (auto simp: requireStoredId_def requireString_Inr stored_id_def requireString_def
      split: if_splits option.splits json.splits)

lemma requireInteger_Inr:
  "requireInteger v path k = Inr n \<longleftrightarrow> v = Some (JNum n) \<and> isSafeInteger n \<and> k \<le> n"
  by (auto simp: requireInteger_def split: option.splits json.splits)

lemma show_BookingStatus_inj: "show_BookingStatus a = show_BookingStatus b \<longleftrightarrow> a = b"
  by (cases a; cases b) simp_all

lemma parse_BookingStatus_iff: "parse_BookingStatus s = Some st \<longleftrightarrow> s = show_BookingStatus st"
proof -
  have "parse_BookingStatus (show_BookingStatus st) = Some st" for st
    by (cases st) (simp_all add: parse_BookingStatus_def all_BookingStatus_def)
  moreover have "parse_BookingStatus s = Some st \<Longrightarrow> s = show_BookingStatus st"
    by (auto simp: parse_BookingStatus_def dest: find_SomeD)
  ultimately show ?thesis by auto
qed

lemma requireStatus_Inr:
  "requireStatus v path = Inr st \<longleftrightarrow> v = Some (JStr (show_BookingStatus st))"
  by (auto simp: requireStatus_def step_simps parse_BookingStatus_iff split: option.splits json.splits)

lemma requireRecord_Inr:
  "requireRecord v path keys = Inr entries \<longleftrightarrow> v = Some (JObj entries) \<and> sort (map fst entries) = sort keys"
  by (auto simp: requireRecord_def split: option.splits json.splits)

lemmas require_Inr = requireString_Inr requireHotelDate_Inr requireStoredId_Inr requireInteger_Inr
  requireStatus_Inr requireRecord_Inr

lemma requireStay_valid: "requireStay v path = Inr s \<Longrightarrow> valid_stay s"
  unfolding requireStay_def
  by (auto simp: step_simps require_Inr valid_stay_def split: if_splits)

lemma requireStay_fields:
  "valid_stay s \<Longrightarrow> requireStay (Some (JObj (stay_fields s))) path = Inr s"
  unfolding requireStay_def
  by (simp add: step_simps require_Inr valid_stay_def stay_fields_def stayKeys_def json_field_def not_le)

lemma requireOptional_Inr:
  "(if v = Some JNull then Inr None else and_then x (\<lambda>s. Inr (Some s))) = Inr r \<longleftrightarrow>
   (v = Some JNull \<and> r = None) \<or> (v \<noteq> Some JNull \<and> (\<exists>s. r = Some s \<and> x = Inr s))"
  by (auto simp: step_simps)

lemma parse_payload_valid:
  assumes "parseBookingLifecyclePayload iso4217 j = Inr p"
  shows "valid_payload iso4217 p"
  using assms unfolding parseBookingLifecyclePayload_def
  by (auto simp: and_then_Inr_iff require_Inr requireOptional_Inr valid_payload_def
      simp del: sort_key_simps split: if_splits dest: requireStay_valid)

text \<open>The fields of a built payload and what the checks return on them.\<close>

lemma payload_lookup:
  "json_field ''schemaVersion'' (payload_fields p) = Some (JNum bookingLifecycleEventSchemaVersion)"
  "json_field ''bookingId'' (payload_fields p) = Some (JStr (lp_bookingId p))"
  "json_field ''bookingVersion'' (payload_fields p) = Some (JNum (lp_bookingVersion p))"
  "json_field ''fromStatus'' (payload_fields p) =
    Some (case lp_fromStatus p of None \<Rightarrow> JNull | Some s \<Rightarrow> JStr (show_BookingStatus s))"
  "json_field ''toStatus'' (payload_fields p) = Some (JStr (show_BookingStatus (lp_toStatus p)))"
  "json_field ''booking'' (payload_fields p) = Some (JObj (stay_fields (lp_stay p) @
    [(''price'', JObj [(''amount'', JNum (lp_amount p)), (''currency'', JStr (lp_currency p))])]))"
  "json_field ''previousStay'' (payload_fields p) =
    Some (case lp_previousStay p of None \<Rightarrow> JNull | Some s \<Rightarrow> JObj (stay_fields s))"
  "json_field ''price'' (stay_fields s @ [(''price'', x)]) = Some x"
  "json_field ''amount'' [(''amount'', a), (''currency'', c)] = Some a"
  "json_field ''currency'' [(''amount'', a), (''currency'', c)] = Some c"
  by (simp_all add: payload_fields_def stay_fields_def json_field_def)

lemma payload_records:
  "requireRecord (Some (JObj (payload_fields p))) path payloadKeys = Inr (payload_fields p)"
  "requireRecord (Some (JObj (stay_fields s @ [(''price'', x)]))) path (stayKeys @ [''price''])
    = Inr (stay_fields s @ [(''price'', x)])"
  "requireRecord (Some (JObj [(''amount'', a), (''currency'', c)])) path [''amount'', ''currency'']
    = Inr [(''amount'', a), (''currency'', c)]"
  "pick_fields stayKeys (stay_fields s @ rest) = stay_fields s"
  by (simp_all add: requireRecord_Inr payload_fields_def payloadKeys_def stay_fields_def stayKeys_def
      pick_fields_def json_field_def map_filter_simps)

lemma payload_from_status:
  "(if (case x of None \<Rightarrow> JNull | Some s \<Rightarrow> JStr (show_BookingStatus s)) = JNull
    then Inr None else and_then (requireStatus (Some (case x of None \<Rightarrow> JNull
      | Some s \<Rightarrow> JStr (show_BookingStatus s))) path) (\<lambda>s. Inr (Some s))) = Inr x"
  by (cases x) (simp_all add: requireStatus_def parse_BookingStatus_iff or_throw_Inr_iff and_then_Inr_iff)

lemma payload_previous_stay:
  "(case x of None \<Rightarrow> True | Some s \<Rightarrow> valid_stay s) \<Longrightarrow>
   (if (case x of None \<Rightarrow> JNull | Some s \<Rightarrow> JObj (stay_fields s)) = JNull
    then Inr None else and_then (requireStay (Some (case x of None \<Rightarrow> JNull
      | Some s \<Rightarrow> JObj (stay_fields s))) path) (\<lambda>s. Inr (Some s))) = Inr x"
  by (cases x) (simp_all add: requireStay_fields)

lemma parse_payload_json:
  assumes "valid_payload iso4217 p"
  shows "parseBookingLifecyclePayload iso4217 (payload_json p) = Inr p"
proof -
  from assms have pr: "iso4217 (lp_currency p)"
    "(lp_fromStatus p, lp_toStatus p) \<in> set bookingLifecycleTransitions"
    "\<not> (lp_previousStay p \<noteq> None \<and> lp_fromStatus p \<noteq> Some (lp_toStatus p))"
    "\<not> (lp_previousStay p = None \<and> lp_fromStatus p = Some (lp_toStatus p))"
    "requireStay (Some (JObj (stay_fields (lp_stay p)))) path = Inr (lp_stay p)" for path
    by (auto simp: valid_payload_def requireStay_fields split: option.splits)
  have prev: "case lp_previousStay p of None \<Rightarrow> True | Some s \<Rightarrow> valid_stay s"
    using assms by (auto simp: valid_payload_def split: option.splits)
  have vals: "requireString (Some (JStr (lp_bookingId p))) path bookingPublicIdPattern = Inr (lp_bookingId p)"
    "requireString (Some (JStr (lp_currency p))) path currencyPattern = Inr (lp_currency p)"
    "requireInteger (Some (JNum (lp_bookingVersion p))) path 1 = Inr (lp_bookingVersion p)"
    "requireInteger (Some (JNum (lp_amount p))) path 0 = Inr (lp_amount p)"
    "requireStatus (Some (JStr (show_BookingStatus (lp_toStatus p)))) path = Inr (lp_toStatus p)" for path
    using assms by (simp_all add: requireString_Inr requireInteger_Inr requireStatus_Inr valid_payload_def)
  show ?thesis
    unfolding parseBookingLifecyclePayload_def payload_json_def payload_records and_then_simps
      payload_lookup vals option.inject payload_from_status payload_previous_stay [OF prev]
    using pr by simp
qed

end
