(* ===== verification/Idempotency.thy ===== *)
theory Idempotency
  imports Schema
begin

text \<open>
  The retry contract (common/idempotency/idempotency.repository.ts): \<open>lock\<close> claims the row of an
  actor, an operation and a key and refuses a key that was used for another request, \<open>complete\<close>
  stores the response that every later call replays. The row lock serialises the transactions that
  hold one key, so a transaction is one step here. The lemmas show that a claimed key is unique,
  that \<open>lock\<close> never changes an existing row, and that once a response is stored every later lock
  with the same fingerprint returns it.
\<close>

definition idempotencyErrors_keyInvalid :: error where
  "idempotencyErrors_keyInvalid = ApplicationException 400 ''IDEMPOTENCY_KEY_INVALID''"

definition idempotencyErrors_keyReused :: error where
  "idempotencyErrors_keyReused = ApplicationException 409 ''IDEMPOTENCY_KEY_REUSED''"

record IdempotencyLockInput =
  il_actorUserId :: nat
  il_operation :: string
  il_idempotencyKey :: string
  il_fingerprint :: string

text \<open>The columns of the unique key \<open>uq_idempotency_keys_actor_operation_key\<close>.\<close>

definition claims :: "IdempotencyLockInput \<Rightarrow> idempotency_row \<Rightarrow> bool" where
  "claims input row \<longleftrightarrow>
     ik_actorUserId row = il_actorUserId input \<and> ik_operation row = il_operation input
     \<and> ik_idempotencyKey row = il_idempotencyKey input"

text \<open>
  The INSERT with ON DUPLICATE KEY UPDATE: an existing row stays as it is.
\<close>

definition claim_row ::
  "int \<Rightarrow> IdempotencyLockInput \<Rightarrow> tx_env \<Rightarrow> hotel_db \<Rightarrow> error + hotel_db" where
  "claim_row retentionHours input env db =
     (if \<exists>row \<in> set (idempotencyKeys db). claims input row then Inr db
      else if \<not> user_exists db (il_actorUserId input) then Inl ER_NO_REFERENCED_ROW_2
      else Inr (db\<lparr>idempotencyKeys := idempotencyKeys db @
             [\<lparr>ik_id = nextId db, ik_actorUserId = il_actorUserId input,
               ik_operation = il_operation input, ik_idempotencyKey = il_idempotencyKey input,
               ik_requestFingerprint = il_fingerprint input, ik_status = KeyPending,
               ik_responseStatus = None, ik_responseBody = None,
               ik_expiresAt = jsNow env + retentionHours * 3600000000\<rparr>],
           nextId := Suc (nextId db)\<rparr>))"

definition lock_key ::
  "int \<Rightarrow> IdempotencyLockInput \<Rightarrow> tx_env \<Rightarrow> hotel_db \<Rightarrow> error + idempotency_row \<times> hotel_db" where
  "lock_key retentionHours input env db =
     and_then (claim_row retentionHours input env db) (\<lambda>db.
     and_then (or_throw (List.find (claims input) (idempotencyKeys db)) EntityNotFoundError) (\<lambda>row.
     if ik_requestFingerprint row \<noteq> il_fingerprint input then Inl idempotencyErrors_keyReused
     else Inr (row, db)))"

definition complete_key :: "nat \<Rightarrow> nat \<Rightarrow> json \<Rightarrow> hotel_db \<Rightarrow> hotel_db" where
  "complete_key idempotencyId responseStatus responseBody db =
     db\<lparr>idempotencyKeys :=
          update_where (\<lambda>row. ik_id row = idempotencyId)
            (\<lambda>row. row\<lparr>ik_status := KeyCompleted, ik_responseStatus := Some responseStatus,
                       ik_responseBody := Some responseBody\<rparr>) (idempotencyKeys db)\<rparr>"

text \<open>
  The table's invariant: unique keys, the check \<open>chk_idempotency_keys_completed_response\<close>, and
  surrogate keys below the counter.
\<close>

definition key_columns :: "idempotency_row \<Rightarrow> nat \<times> string \<times> string" where
  "key_columns row = (ik_actorUserId row, ik_operation row, ik_idempotencyKey row)"

definition completed_check :: "idempotency_row \<Rightarrow> bool" where
  "completed_check row \<longleftrightarrow>
     (ik_status row = KeyPending \<and> ik_responseStatus row = None \<and> ik_responseBody row = None)
     \<or> (ik_status row = KeyCompleted \<and> ik_responseStatus row \<noteq> None \<and> ik_responseBody row \<noteq> None)"

definition wf_keys :: "hotel_db \<Rightarrow> bool" where
  "wf_keys db \<longleftrightarrow>
     distinct (map ik_id (idempotencyKeys db)) \<and> distinct (map key_columns (idempotencyKeys db))
     \<and> (\<forall>row \<in> set (idempotencyKeys db). ik_id row < nextId db \<and> completed_check row)"

subsection \<open>Lemmas\<close>

lemma claims_key_columns:
  "claims input row \<longleftrightarrow>
   key_columns row = (il_actorUserId input, il_operation input, il_idempotencyKey input)"
  by (auto simp: claims_def key_columns_def)

lemma find_claims:
  assumes "wf_keys db" "row \<in> set (idempotencyKeys db)" "claims input row"
  shows "List.find (claims input) (idempotencyKeys db) = Some row"
proof -
  have "claims input = (\<lambda>x. key_columns x = key_columns row)"
    using assms(3) by (auto simp: claims_key_columns fun_eq_iff)
  then show ?thesis using assms find_unique [of key_columns "idempotencyKeys db" row] by (simp add: wf_keys_def)
qed

lemma claim_row_cases:
  assumes "claim_row h input env db = Inr db'"
  obtains "db' = db" "\<exists>row \<in> set (idempotencyKeys db). claims input row"
  | row where "db' = db\<lparr>idempotencyKeys := idempotencyKeys db @ [row], nextId := Suc (nextId db)\<rparr>"
      "claims input row" "ik_id row = nextId db" "ik_status row = KeyPending"
      "ik_responseStatus row = None" "ik_responseBody row = None"
      "ik_requestFingerprint row = il_fingerprint input"
      "\<forall>r \<in> set (idempotencyKeys db). \<not> claims input r"
  using assms by (auto simp: claim_row_def claims_def split: if_splits)

lemma claim_row_wf:
  assumes "claim_row h input env db = Inr db'" "wf_keys db"
  shows "wf_keys db'"
  using assms(1)
proof (cases rule: claim_row_cases)
  case (2 row)
  then show ?thesis
    using assms(2) by (fastforce simp: wf_keys_def claims_key_columns completed_check_def)
qed (use assms in simp)

lemma lock_key_Inr:
  assumes "lock_key h input env db = Inr (row, db')"
  shows "row \<in> set (idempotencyKeys db')" and "claims input row"
    and "ik_requestFingerprint row = il_fingerprint input"
    and "claim_row h input env db = Inr db'"
  using assms by (auto simp: lock_key_def step_simps split: if_splits dest: find_SomeD)

lemma lock_key_wf: "lock_key h input env db = Inr (row, db') \<Longrightarrow> wf_keys db \<Longrightarrow> wf_keys db'"
  using lock_key_Inr(4) claim_row_wf by blast

lemma lock_key_old_rows:
  "lock_key h input env db = Inr (row, db') \<Longrightarrow> set (idempotencyKeys db) \<subseteq> set (idempotencyKeys db')"
  by (drule lock_key_Inr(4), erule claim_row_cases) auto

text \<open>A pending row is the caller's own fresh row or one that a rolled back call never left.\<close>

lemma lock_key_replays:
  assumes "wf_keys db" "row \<in> set (idempotencyKeys db)" "claims input row"
  shows "lock_key h input env db =
    (if ik_requestFingerprint row \<noteq> il_fingerprint input then Inl idempotencyErrors_keyReused
     else Inr (row, db))"
proof -
  have "claim_row h input env db = Inr db" using assms(2,3) by (auto simp: claim_row_def)
  then show ?thesis using find_claims [OF assms] by (simp add: lock_key_def)
qed

lemma complete_key_wf: "wf_keys db \<Longrightarrow> wf_keys (complete_key i s body db)"
  by (auto simp: wf_keys_def complete_key_def completed_check_def key_columns_def
      map_update_where row_simps)

lemma complete_key_row:
  assumes "row \<in> set (idempotencyKeys db)"
  shows "row\<lparr>ik_status := KeyCompleted, ik_responseStatus := Some s, ik_responseBody := Some body\<rparr>
    \<in> set (idempotencyKeys (complete_key (ik_id row) s body db))"
  using assms by (auto simp: complete_key_def row_simps)

lemma complete_key_other:
  "row \<in> set (idempotencyKeys db) \<Longrightarrow> ik_id row \<noteq> i \<Longrightarrow>
   row \<in> set (idempotencyKeys (complete_key i s body db))"
  by (auto simp: complete_key_def row_simps)

lemma lock_key_unclaimed:
  assumes "user_exists db (il_actorUserId input)" "\<forall>row \<in> set (idempotencyKeys db). \<not> claims input row"
  obtains row d where "lock_key h input env db = Inr (row, d)" "ik_status row \<noteq> KeyCompleted"
    "rooms d = rooms db" "roomTimes d = roomTimes db"
proof -
  let ?row = "\<lparr>ik_id = nextId db, ik_actorUserId = il_actorUserId input,
               ik_operation = il_operation input, ik_idempotencyKey = il_idempotencyKey input,
               ik_requestFingerprint = il_fingerprint input, ik_status = KeyPending,
               ik_responseStatus = None, ik_responseBody = None,
               ik_expiresAt = jsNow env + h * 3600000000\<rparr>"
  have "List.find (claims input) (idempotencyKeys db @ [?row]) = Some ?row"
    using assms(2) by (simp add: find_append_None find_None_iff claims_def)
  then have "lock_key h input env db =
      Inr (?row, db\<lparr>idempotencyKeys := idempotencyKeys db @ [?row], nextId := Suc (nextId db)\<rparr>)"
    using assms by (auto simp: lock_key_def claim_row_def or_throw_def)
  then show ?thesis by (rule that) simp_all
qed

end
