(* ===== verification/Bookings.thy ===== *)
theory Bookings
  imports Lifecycle Idempotency
begin

text \<open>
  bookings/bookings.service.ts, operation by operation: \<open>create\<close>, \<open>cancelOwn\<close>, \<open>approve\<close>,
  \<open>reject\<close>, \<open>updateAdmin\<close>, \<open>cancelAdmin\<close> and the reads \<open>listOwn\<close>, \<open>getOwn\<close>, \<open>listAdmin\<close>,
  \<open>getAdmin\<close>, with the helpers they call (bookings/booking-overlap.ts, rooms/room-lock.ts,
  bookings/room-time-usage.repository.ts). A transaction is a function from the database to an
  error, which rolls it back, or to its result and the committed database. \<open>approve\<close> and
  \<open>updateAdmin\<close> read a snapshot before their transaction; the argument \<open>others\<close> is what other
  requests commit in between. The row locks of the source serialise the transactions, so each is
  one step. Log lines are left out.
\<close>

subsection \<open>Errors\<close>

definition bookingsErrors_changeEmpty :: error where
  "bookingsErrors_changeEmpty = ApplicationException 400 ''BOOKING_CHANGE_EMPTY''"

definition bookingsErrors_notFound :: error where
  "bookingsErrors_notFound = ApplicationException 404 ''BOOKING_NOT_FOUND''"

definition bookingsErrors_statusConflict :: error where
  "bookingsErrors_statusConflict = ApplicationException 409 ''BOOKING_STATUS_CONFLICT''"

definition bookingsErrors_stateChanged :: error where
  "bookingsErrors_stateChanged = ApplicationException 409 ''BOOKING_STATE_CHANGED''"

definition bookingsErrors_roomAlreadyBooked :: error where
  "bookingsErrors_roomAlreadyBooked = ApplicationException 409 ''ROOM_ALREADY_BOOKED''"

definition bookingsErrors_roomNotFound :: error where
  "bookingsErrors_roomNotFound = ApplicationException 404 ''ROOM_NOT_FOUND''"

definition bookingsErrors_windowUnavailable :: error where
  "bookingsErrors_windowUnavailable = ApplicationException 409 ''BOOKING_WINDOW_UNAVAILABLE''"

definition bookingsErrors_versionConflict :: error where
  "bookingsErrors_versionConflict = ApplicationException 412 ''BOOKING_VERSION_CONFLICT''"

definition bookingsErrors_stayInvalid :: error where
  "bookingsErrors_stayInvalid = ApplicationException 400 ''BOOKING_STAY_INVALID''"

definition bookingsErrors_priceOutOfRange :: error where
  "bookingsErrors_priceOutOfRange = ApplicationException 422 ''BOOKING_PRICE_OUT_OF_RANGE''"

definition roomsErrors_roomNotFound :: error where
  "roomsErrors_roomNotFound = ApplicationException 404 ''ROOM_NOT_FOUND''"

text \<open>The configuration the service reads: the stream's flag and the retention of retry keys.\<close>

record bookings_config =
  streamEnabled :: bool
  retentionHours :: int

subsection \<open>Shared checks\<close>

definition lockRoom :: "hotel_db \<Rightarrow> nat \<Rightarrow> error + room_row" where
  "lockRoom db roomId = or_throw (find_room db roomId) roomsErrors_roomNotFound"

text \<open>The half-open comparison of confirmed stays; checkout is exclusive.\<close>

definition confirmedOverlapCondition :: "hotel_date \<Rightarrow> hotel_date \<Rightarrow> booking_row \<Rightarrow> bool" where
  "confirmedOverlapCondition checkIn checkOut b \<longleftrightarrow>
     b_status b = Confirmed \<and> b_checkIn b < checkOut \<and> b_checkOut b > checkIn"

definition assertNoConfirmedOverlap ::
  "hotel_db \<Rightarrow> nat \<Rightarrow> nat \<Rightarrow> hotel_date \<Rightarrow> hotel_date \<Rightarrow> error + unit" where
  "assertNoConfirmedOverlap db roomId bookingId checkIn checkOut =
     require
       (\<not> (\<exists>b \<in> set (bookings db). booking_room db b = Some roomId \<and> b_id b \<noteq> bookingId
            \<and> confirmedOverlapCondition checkIn checkOut b))
       bookingsErrors_roomAlreadyBooked"

text \<open>The first active window of a room that contains a stay, by start and key.\<close>

definition find_window ::
  "hotel_db \<Rightarrow> nat \<Rightarrow> hotel_date \<Rightarrow> hotel_date \<Rightarrow> room_time_row option" where
  "find_window db roomId checkIn checkOut =
     find_first_by (\<lambda>w. (w_availableFrom w, w_id w))
       (\<lambda>w. w_roomId w = roomId \<and> w_status w = TimeActive
          \<and> w_availableFrom w \<le> checkIn \<and> w_availableTo w \<ge> checkOut)
       (roomTimes db)"

text \<open>\<open>findOneOrFail\<close> of a window with its room.\<close>

definition room_of_window :: "hotel_db \<Rightarrow> nat \<Rightarrow> error + room_row" where
  "room_of_window db roomTimeId =
     (case find_room_time db roomTimeId of
        None \<Rightarrow> Inl EntityNotFoundError
      | Some w \<Rightarrow> or_throw (find_room db (w_roomId w)) EntityNotFoundError)"

subsection \<open>Mail intents\<close>

record BookingChangeOutboxDetail =
  before_roomId :: nat
  before_checkIn :: hotel_date
  before_checkOut :: hotel_date
  after_roomId :: nat
  after_checkIn :: hotel_date
  after_checkOut :: hotel_date

definition change_json :: "nat \<Rightarrow> hotel_date \<Rightarrow> hotel_date \<Rightarrow> json" where
  "change_json roomId checkIn checkOut =
     JObj [(''roomId'', json_of_id roomId), (''checkIn'', JStr checkIn), (''checkOut'', JStr checkOut)]"

definition mail_payload ::
  "booking_row \<Rightarrow> room_row \<Rightarrow> string option \<Rightarrow> BookingChangeOutboxDetail option \<Rightarrow> json" where
  "mail_payload booking room reason change =
     JObj ([(''schemaVersion'', JNum 1),
            (''bookingId'', JStr (b_publicId booking)),
            (''ownerUserId'', json_of_id (b_userId booking)),
            (''bookingVersion'', JNum (int (b_version booking))),
            (''booking'', JObj ([
               (''room'', JObj [(''id'', json_of_id (r_id room)), (''roomNumber'', JStr (r_roomNumber room))]),
               (''checkIn'', JStr (b_checkIn booking)),
               (''checkOut'', JStr (b_checkOut booking)),
               (''status'', JStr (show_BookingStatus (b_status booking))),
               (''price'', JObj [(''amount'', JNum (int (b_priceAmount booking))),
                                 (''currency'', JStr (b_currency booking))])]
               @ (case reason of None \<Rightarrow> [] | Some r \<Rightarrow> [(''reason'', JStr r)])))]
           @ (case change of
                None \<Rightarrow> []
              | Some d \<Rightarrow>
                  [(''before'', change_json (before_roomId d) (before_checkIn d) (before_checkOut d)),
                   (''after'', change_json (after_roomId d) (after_checkIn d) (after_checkOut d))]))"

definition insertOutbox ::
  "booking_row \<Rightarrow> string \<Rightarrow> room_row \<Rightarrow> string option \<Rightarrow> BookingChangeOutboxDetail option \<Rightarrow> string
   \<Rightarrow> tx_env \<Rightarrow> hotel_db \<Rightarrow> error + hotel_db" where
  "insertOutbox booking eventType room reason change uuid env db =
     insert_outbox
       (pending_event uuid eventType (mail_payload booking room reason change)
          (event_key eventType (b_publicId booking) (b_version booking)) env) db"

text \<open>
  The recorder draws its UUID only when the stream is enabled, so the mail intent that follows
  takes the second UUID then and the first one otherwise.
\<close>

definition mail_uuid :: "bookings_config \<Rightarrow> tx_env \<Rightarrow> string" where
  "mail_uuid cfg env = (if streamEnabled cfg then drawUuid env 1 else drawUuid env 0)"

definition appendTransitionAndOutbox ::
  "bookings_config \<Rightarrow> booking_row \<Rightarrow> nat \<Rightarrow> string option \<Rightarrow> string \<Rightarrow> room_row \<Rightarrow> tx_env \<Rightarrow> hotel_db
   \<Rightarrow> error + hotel_db" where
  "appendTransitionAndOutbox cfg booking actorUserId reason eventType room env db =
     and_then (insert_status_history (b_id booking) (Some Pending) (b_status booking) ActorAdmin
                 actorUserId reason env db) (\<lambda>db.
     and_then (record_change (streamEnabled cfg)
                 \<lparr>lc_booking = booking, lc_roomId = r_id room, lc_roomTypeId = r_roomTypeId room,
                  lc_fromStatus = Some Pending, lc_previousStay = None\<rparr> env db) (\<lambda>db.
     insertOutbox booking eventType room reason None (mail_uuid cfg env) env db))"

definition recordLifecycleByRoomTime ::
  "bookings_config \<Rightarrow> booking_row \<Rightarrow> BookingStatus \<Rightarrow> tx_env \<Rightarrow> hotel_db \<Rightarrow> error + hotel_db" where
  "recordLifecycleByRoomTime cfg booking fromStatus env db =
     (if \<not> streamEnabled cfg then Inr db
      else and_then (room_of_window db (b_roomTimeId booking)) (\<lambda>room.
           record_change (streamEnabled cfg)
             \<lparr>lc_booking = booking, lc_roomId = r_id room, lc_roomTypeId = r_roomTypeId room,
              lc_fromStatus = Some fromStatus, lc_previousStay = None\<rparr> env db))"

subsection \<open>Create\<close>

record BookingCreateInput =
  ci_roomId :: nat
  ci_checkIn :: hotel_date
  ci_checkOut :: hotel_date

text \<open>\<open>JSON.stringify\<close> of a string: quotes, backslashes and control characters are escaped.\<close>

definition hex_digit :: "nat \<Rightarrow> char" where
  "hex_digit n = ''0123456789abcdef'' ! n"

definition json_escape :: "char \<Rightarrow> string" where
  "json_escape c =
     (let n = (of_char c :: nat); backslash = char_of (92 :: nat) in
      if n = 34 \<or> n = 92 then [backslash, c]
      else if n = 8 then [backslash, CHR ''b'']
      else if n = 9 then [backslash, CHR ''t'']
      else if n = 10 then [backslash, CHR ''n'']
      else if n = 12 then [backslash, CHR ''f'']
      else if n = 13 then [backslash, CHR ''r'']
      else if n < 32 then [backslash, CHR ''u'', CHR ''0'', CHR ''0'', hex_digit (n div 16), hex_digit (n mod 16)]
      else [c])"

definition json_quote :: "string \<Rightarrow> string" where
  "json_quote s = [char_of (34 :: nat)] @ concat (map json_escape s) @ [char_of (34 :: nat)]"

definition fingerprint_text :: "nat \<Rightarrow> BookingCreateInput \<Rightarrow> string" where
  "fingerprint_text actorUserId input =
     ''{'' @ json_quote ''v'' @ '':1,'' @
     json_quote ''operation'' @ '':'' @ json_quote ''BOOKING_CREATE'' @ '','' @
     json_quote ''actorUserId'' @ '':'' @ json_quote (show_nat actorUserId) @ '','' @
     json_quote ''roomId'' @ '':'' @ json_quote (show_nat (ci_roomId input)) @ '','' @
     json_quote ''checkIn'' @ '':'' @ json_quote (ci_checkIn input) @ '','' @
     json_quote ''checkOut'' @ '':'' @ json_quote (ci_checkOut input) @ ''}''"

definition bookingCreateFingerprint ::
  "(string \<Rightarrow> string) \<Rightarrow> nat \<Rightarrow> BookingCreateInput \<Rightarrow> string" where
  "bookingCreateFingerprint sha256 actorUserId input = sha256 (fingerprint_text actorUserId input)"

definition lockBookingTarget ::
  "BookingCreateInput \<Rightarrow> hotel_db \<Rightarrow> error + room_row \<times> room_time_row" where
  "lockBookingTarget input db =
     and_then (lockRoom db (ci_roomId input)) (\<lambda>room.
     if r_status room \<noteq> RoomActive then Inl bookingsErrors_roomNotFound else
     and_then (or_throw (find_window db (r_id room) (ci_checkIn input) (ci_checkOut input))
                 bookingsErrors_windowUnavailable) (\<lambda>roomTime.
     Inr (room, roomTime)))"

definition createPendingBooking ::
  "nat \<Rightarrow> room_time_row \<Rightarrow> BookingCreateInput \<Rightarrow> nat \<Rightarrow> string \<Rightarrow> tx_env \<Rightarrow> hotel_db
   \<Rightarrow> error + booking_row \<times> hotel_db" where
  "createPendingBooking actorUserId roomTime input priceAmount currency env db =
     and_then (createMonotonicBookingId (jsNow env div 1000) (ulidRandom env) (ulidState env)) (\<lambda>(publicId, _).
     and_then (insert_booking
       \<lparr>b_id = 0, b_publicId = publicId, b_userId = actorUserId, b_roomTimeId = w_id roomTime,
        b_checkIn = ci_checkIn input, b_checkOut = ci_checkOut input, b_status = Pending,
        b_priceAmount = priceAmount, b_currency = currency, b_rejectionReason = None,
        b_version = 0, b_createdAt = 0, b_updatedAt = 0\<rparr> env db) (\<lambda>(booking, db).
     and_then (insert_status_history (b_id booking) None Pending ActorUser actorUserId None env db) (\<lambda>db.
     Inr (booking, db))))"

definition room_json :: "nat \<Rightarrow> string \<Rightarrow> nat \<Rightarrow> string \<Rightarrow> json" where
  "room_json roomId roomNumber roomTypeId roomTypeName =
     JObj [(''id'', json_of_id roomId), (''roomNumber'', JStr roomNumber),
           (''roomType'', JObj [(''id'', json_of_id roomTypeId), (''name'', JStr roomTypeName)])]"

definition price_json :: "booking_row \<Rightarrow> json" where
  "price_json b =
     JObj [(''amount'', JNum (int (b_priceAmount b))), (''currency'', JStr (b_currency b))]"

definition toCreateResponse :: "booking_row \<Rightarrow> room_row \<Rightarrow> room_type_row \<Rightarrow> int \<Rightarrow> json" where
  "toCreateResponse booking room roomType nights =
     JObj [(''id'', JStr (b_publicId booking)),
           (''room'', room_json (r_id room) (r_roomNumber room) (rt_id roomType) (rt_name roomType)),
           (''checkIn'', JStr (b_checkIn booking)),
           (''checkOut'', JStr (b_checkOut booking)),
           (''nights'', JNum nights),
           (''status'', JStr ''PENDING''),
           (''price'', price_json booking),
           (''rejectionReason'', JNull),
           (''version'', JNum (int (b_version booking))),
           (''createdAt'', JStr (iso_instant (b_createdAt booking))),
           (''updatedAt'', JStr (iso_instant (b_updatedAt booking)))]"

definition bookingCreateOperation :: string where
  "bookingCreateOperation = ''BOOKING_CREATE''"

text \<open>The result is the response and whether it was replayed.\<close>

definition createInTransaction ::
  "bookings_config \<Rightarrow> nat \<Rightarrow> string \<Rightarrow> string \<Rightarrow> BookingCreateInput \<Rightarrow> tx_env \<Rightarrow> hotel_db
   \<Rightarrow> error + (json \<times> bool) \<times> hotel_db" where
  "createInTransaction cfg actorUserId idempotencyKey fingerprint input env db =
     and_then (lock_key (retentionHours cfg)
                 \<lparr>il_actorUserId = actorUserId, il_operation = bookingCreateOperation,
                  il_idempotencyKey = idempotencyKey, il_fingerprint = fingerprint\<rparr> env db) (\<lambda>(key, db).
     if ik_status key = KeyCompleted
     then Inr ((case ik_responseBody key of None \<Rightarrow> JNull | Some body \<Rightarrow> body, True), db) else
     let nights = assertBookingDates (hotelToday env) (ci_checkIn input) (ci_checkOut input) in
     if nights = 0 then Inl bookingsErrors_stayInvalid else
     and_then (lockBookingTarget input db) (\<lambda>(room, roomTime).
     let priceAmount = r_basePriceAmount room * nat nights in
     if priceAmount > number_max_safe_integer then Inl bookingsErrors_priceOutOfRange else
     and_then (createPendingBooking actorUserId roomTime input priceAmount (r_currency room) env db) (\<lambda>(booking, db).
     and_then (record_change (streamEnabled cfg)
                 \<lparr>lc_booking = booking, lc_roomId = r_id room, lc_roomTypeId = r_roomTypeId room,
                  lc_fromStatus = None, lc_previousStay = None\<rparr> env db) (\<lambda>db.
     and_then (or_throw (find_room_type db (r_roomTypeId room)) EntityNotFoundError) (\<lambda>roomType.
     let response = toCreateResponse booking room roomType nights in
     Inr ((response, False), complete_key (ik_id key) 201 response db))))))"

definition create_booking ::
  "bookings_config \<Rightarrow> (string \<Rightarrow> string) \<Rightarrow> nat \<Rightarrow> string option \<Rightarrow> BookingCreateInput \<Rightarrow> tx_env
   \<Rightarrow> hotel_db \<Rightarrow> error + (json \<times> bool) \<times> hotel_db" where
  "create_booking cfg sha256 actorUserId idempotencyKey input env db =
     (case idempotencyKey of
        None \<Rightarrow> Inl idempotencyErrors_keyInvalid
      | Some key \<Rightarrow>
          if \<not> idempotencyKeyPattern key then Inl idempotencyErrors_keyInvalid
          else createInTransaction cfg actorUserId key
                 (bookingCreateFingerprint sha256 actorUserId input) input env db)"

subsection \<open>Transitions\<close>

text \<open>The results say whether the call replayed a transition that had already happened.\<close>

definition cancelOwn_tx ::
  "bookings_config \<Rightarrow> nat \<Rightarrow> string \<Rightarrow> tx_env \<Rightarrow> hotel_db \<Rightarrow> error + bool \<times> hotel_db" where
  "cancelOwn_tx cfg actorUserId bookingPublicId env db =
     and_then (or_throw (List.find (\<lambda>b. b_publicId b = bookingPublicId \<and> b_userId b = actorUserId)
                 (bookings db)) bookingsErrors_notFound) (\<lambda>booking.
     if b_status booking = CancelledByUser then Inr (True, db)
     else if b_status booking \<noteq> Pending then Inl bookingsErrors_statusConflict
     else
       and_then (save_booking (booking\<lparr>b_status := CancelledByUser\<rparr>) env db) (\<lambda>(saved, db).
       and_then (insert_status_history (b_id booking) (Some Pending) CancelledByUser ActorUser
                   actorUserId None env db) (\<lambda>db.
       and_then (recordLifecycleByRoomTime cfg saved Pending env db) (\<lambda>db.
       Inr (False, db)))))"

text \<open>The snapshot \<open>approve\<close> and \<open>updateAdmin\<close> read before they take a lock.\<close>

record booking_snapshot =
  sn_roomTimeId :: nat
  sn_version :: nat
  sn_roomId :: nat

definition bookingSourceSnapshot :: "string \<Rightarrow> hotel_db \<Rightarrow> error + booking_snapshot" where
  "bookingSourceSnapshot bookingPublicId db =
     and_then (or_throw (find_booking db bookingPublicId) bookingsErrors_notFound) (\<lambda>booking.
     case find_room_time db (b_roomTimeId booking) of
       None \<Rightarrow> Inl (PlainError ''TypeError'')
     | Some w \<Rightarrow> Inr \<lparr>sn_roomTimeId = b_roomTimeId booking, sn_version = b_version booking,
                      sn_roomId = w_roomId w\<rparr>)"

definition find_room_window :: "hotel_db \<Rightarrow> nat \<Rightarrow> nat \<Rightarrow> room_time_row option" where
  "find_room_window db roomTimeId roomId =
     List.find (\<lambda>w. w_id w = roomTimeId \<and> w_roomId w = roomId) (roomTimes db)"

definition approve_tx ::
  "bookings_config \<Rightarrow> booking_snapshot \<Rightarrow> nat \<Rightarrow> string \<Rightarrow> tx_env \<Rightarrow> hotel_db
   \<Rightarrow> error + bool \<times> hotel_db" where
  "approve_tx cfg snapshot actorUserId bookingPublicId env db =
     and_then (lockRoom db (sn_roomId snapshot)) (\<lambda>room.
     and_then (or_throw (find_booking db bookingPublicId) bookingsErrors_notFound) (\<lambda>booking.
     if b_status booking = Confirmed then Inr (True, db)
     else if b_roomTimeId booking \<noteq> sn_roomTimeId snapshot \<or> b_version booking \<noteq> sn_version snapshot
     then Inl bookingsErrors_stateChanged
     else if b_status booking \<noteq> Pending then Inl bookingsErrors_statusConflict
     else
       and_then (case find_room_window db (b_roomTimeId booking) (r_id room) of
                   None \<Rightarrow> Inl bookingsErrors_windowUnavailable
                 | Some w \<Rightarrow>
                     if w_status w \<noteq> TimeActive \<or> w_availableFrom w > b_checkIn booking
                        \<or> w_availableTo w < b_checkOut booking
                     then Inl bookingsErrors_windowUnavailable else Inr ()) (\<lambda>_.
       and_then (assertNoConfirmedOverlap db (r_id room) (b_id booking)
                   (b_checkIn booking) (b_checkOut booking)) (\<lambda>_.
       and_then (save_booking (booking\<lparr>b_status := Confirmed\<rparr>) env db) (\<lambda>(saved, db).
       and_then (appendTransitionAndOutbox cfg saved actorUserId None ''booking.confirmed'' room env db) (\<lambda>db.
       Inr (False, db)))))))"

definition reject_tx ::
  "bookings_config \<Rightarrow> nat \<Rightarrow> string \<Rightarrow> string \<Rightarrow> tx_env \<Rightarrow> hotel_db \<Rightarrow> error + bool \<times> hotel_db" where
  "reject_tx cfg actorUserId bookingPublicId reason env db =
     and_then (or_throw (find_booking db bookingPublicId) bookingsErrors_notFound) (\<lambda>booking.
     if b_status booking = Rejected then
       (if b_rejectionReason booking = Some reason then Inr (True, db)
        else Inl bookingsErrors_statusConflict)
     else if b_status booking \<noteq> Pending then Inl bookingsErrors_statusConflict
     else
       and_then (save_booking (booking\<lparr>b_status := Rejected, b_rejectionReason := Some reason\<rparr>) env db) (\<lambda>(saved, db).
       and_then (room_of_window db (b_roomTimeId booking)) (\<lambda>room.
       and_then (appendTransitionAndOutbox cfg saved actorUserId (Some reason) ''booking.rejected'' room env db) (\<lambda>db.
       Inr (False, db)))))"

definition latest_admin_cancellation :: "hotel_db \<Rightarrow> nat \<Rightarrow> status_history_row option" where
  "latest_admin_cancellation db bookingId =
     find_first_by (\<lambda>h. (- sh_createdAt h, - int (sh_id h)))
       (\<lambda>h. sh_bookingId h = bookingId \<and> sh_toStatus h = CancelledByAdmin) (statusHistories db)"

definition cancelAdmin_tx ::
  "bookings_config \<Rightarrow> nat \<Rightarrow> string \<Rightarrow> string \<Rightarrow> tx_env \<Rightarrow> hotel_db \<Rightarrow> error + bool \<times> hotel_db" where
  "cancelAdmin_tx cfg actorUserId bookingPublicId reason env db =
     and_then (or_throw (find_booking db bookingPublicId) bookingsErrors_notFound) (\<lambda>booking.
     if b_status booking = CancelledByAdmin then
       (case latest_admin_cancellation db (b_id booking) of
          Some latest \<Rightarrow> if sh_reason latest = Some reason then Inr (True, db)
                         else Inl bookingsErrors_statusConflict
        | None \<Rightarrow> Inl bookingsErrors_statusConflict)
     else if b_status booking \<notin> set [Pending, Confirmed] then Inl bookingsErrors_statusConflict
     else
       let fromStatus = b_status booking in
       and_then (save_booking (booking\<lparr>b_status := CancelledByAdmin\<rparr>) env db) (\<lambda>(saved, db).
       and_then (room_of_window db (b_roomTimeId booking)) (\<lambda>room.
       and_then (insert_status_history (b_id booking) (Some fromStatus) CancelledByAdmin ActorAdmin
                   actorUserId (Some reason) env db) (\<lambda>db.
       and_then (record_change (streamEnabled cfg)
                   \<lparr>lc_booking = saved, lc_roomId = r_id room, lc_roomTypeId = r_roomTypeId room,
                    lc_fromStatus = Some fromStatus, lc_previousStay = None\<rparr> env db) (\<lambda>db.
       and_then (insertOutbox saved ''booking.cancelled_by_admin'' room (Some reason) None
                   (mail_uuid cfg env) env db) (\<lambda>db.
       Inr (False, db)))))))"

subsection \<open>Admin change of room and dates\<close>

record UpdateBookingDto =
  ub_roomId :: "nat option"
  ub_checkIn :: "hotel_date option"
  ub_checkOut :: "hotel_date option"
  ub_reason :: string

text \<open>The loop that locks the rooms in order and keeps them in a Map.\<close>

fun lock_rooms :: "hotel_db \<Rightarrow> nat list \<Rightarrow> error + (nat \<rightharpoonup> room_row)" where
  "lock_rooms db [] = Inr Map.empty"
| "lock_rooms db (roomId # roomIds) =
     and_then (lockRoom db roomId) (\<lambda>room.
     and_then (lock_rooms db roomIds) (\<lambda>locked. Inr (locked(roomId \<mapsto> room))))"

definition updateAdmin_tx ::
  "bookings_config \<Rightarrow> booking_snapshot \<Rightarrow> nat \<Rightarrow> string \<Rightarrow> string \<Rightarrow> UpdateBookingDto \<Rightarrow> tx_env \<Rightarrow> hotel_db
   \<Rightarrow> error + unit \<times> hotel_db" where
  "updateAdmin_tx cfg snapshot actorUserId bookingPublicId expectedVersion body env db =
     (let sourceRoomId = sn_roomId snapshot;
          destinationRoomId = (case ub_roomId body of None \<Rightarrow> sourceRoomId | Some r \<Rightarrow> r) in
     and_then (lock_rooms db (orderedUniqueRoomIds [sourceRoomId, destinationRoomId])) (\<lambda>locked.
     and_then (or_throw (find_booking db bookingPublicId) bookingsErrors_notFound) (\<lambda>booking.
     if show_nat (b_version booking) \<noteq> expectedVersion then Inl bookingsErrors_versionConflict
     else if b_roomTimeId booking \<noteq> sn_roomTimeId snapshot then Inl bookingsErrors_stateChanged
     else if find_room_window db (b_roomTimeId booking) sourceRoomId = None
     then Inl bookingsErrors_stateChanged
     else if b_status booking \<notin> set [Pending, Confirmed] then Inl bookingsErrors_statusConflict
     else
     let checkIn = (case ub_checkIn body of None \<Rightarrow> b_checkIn booking | Some d \<Rightarrow> d);
         checkOut = (case ub_checkOut body of None \<Rightarrow> b_checkOut booking | Some d \<Rightarrow> d) in
     if destinationRoomId = sourceRoomId \<and> checkIn = b_checkIn booking \<and> checkOut = b_checkOut booking
     then Inl bookingsErrors_changeEmpty
     else if assertBookingDates (hotelToday env) checkIn checkOut = 0 then Inl bookingsErrors_stayInvalid
     else
     and_then (case locked destinationRoomId of
                 None \<Rightarrow> Inl bookingsErrors_roomNotFound
               | Some r \<Rightarrow> if r_status r \<noteq> RoomActive then Inl bookingsErrors_roomNotFound
                           else Inr r) (\<lambda>destinationRoom.
     and_then (or_throw (find_window db destinationRoomId checkIn checkOut)
                 bookingsErrors_windowUnavailable) (\<lambda>destinationWindow.
     and_then (if b_status booking = Confirmed
               then assertNoConfirmedOverlap db destinationRoomId (b_id booking) checkIn checkOut
               else Inr ()) (\<lambda>_.
     and_then (save_booking (booking\<lparr>b_roomTimeId := w_id destinationWindow, b_checkIn := checkIn,
                                      b_checkOut := checkOut\<rparr>) env db) (\<lambda>(saved, db).
     and_then (insert_change_history
                 \<lparr>ch_id = 0, ch_bookingId = b_id saved, ch_actorUserId = actorUserId,
                  ch_fromRoomTimeId = b_roomTimeId booking, ch_toRoomTimeId = w_id destinationWindow,
                  ch_fromCheckIn = b_checkIn booking, ch_fromCheckOut = b_checkOut booking,
                  ch_toCheckIn = checkIn, ch_toCheckOut = checkOut, ch_reason = ub_reason body,
                  ch_createdAt = 0\<rparr> env db) (\<lambda>db.
     and_then (or_throw (locked sourceRoomId) bookingsErrors_stateChanged) (\<lambda>sourceRoom.
     and_then (record_change (streamEnabled cfg)
                 \<lparr>lc_booking = saved, lc_roomId = r_id destinationRoom,
                  lc_roomTypeId = r_roomTypeId destinationRoom, lc_fromStatus = Some (b_status saved),
                  lc_previousStay = Some \<lparr>ls_roomId = show_nat sourceRoomId,
                    ls_roomTypeId = show_nat (r_roomTypeId sourceRoom),
                    ls_checkIn = b_checkIn booking, ls_checkOut = b_checkOut booking\<rparr>\<rparr> env db) (\<lambda>db.
     and_then (insertOutbox saved ''booking.changed'' destinationRoom (Some (ub_reason body))
                 (Some \<lparr>before_roomId = sourceRoomId, before_checkIn = b_checkIn booking,
                        before_checkOut = b_checkOut booking, after_roomId = destinationRoomId,
                        after_checkIn = checkIn, after_checkOut = checkOut\<rparr>)
                 (mail_uuid cfg env) env db) (\<lambda>db.
     Inr ((), db))))))))))))"

subsection \<open>Reads\<close>

text \<open>The inner joins of \<open>bookingSummaryQuery\<close>: the room and the room type of a booking.\<close>

definition bookingSummaryQuery :: "hotel_db \<Rightarrow> booking_row \<Rightarrow> (room_row \<times> room_type_row) option" where
  "bookingSummaryQuery db b =
     (case find_room_time db (b_roomTimeId b) of
        None \<Rightarrow> None
      | Some w \<Rightarrow>
          (case find_room db (w_roomId w) of
             None \<Rightarrow> None
           | Some r \<Rightarrow> map_option (Pair r) (find_room_type db (r_roomTypeId r))))"

definition toUserBookingResponse ::
  "booking_row \<Rightarrow> room_row \<times> room_type_row \<Rightarrow> (string \<times> json) list" where
  "toUserBookingResponse booking place =
     (case place of (room, roomType) \<Rightarrow>
     [(''id'', JStr (b_publicId booking)),
      (''room'', room_json (r_id room) (r_roomNumber room) (rt_id roomType) (rt_name roomType)),
      (''checkIn'', JStr (b_checkIn booking)),
      (''checkOut'', JStr (b_checkOut booking)),
      (''nights'', case hotelDateSpanDays (b_checkIn booking) (b_checkOut booking) of
                     None \<Rightarrow> JNull | Some n \<Rightarrow> JNum n),
      (''status'', JStr (show_BookingStatus (b_status booking))),
      (''price'', price_json booking),
      (''rejectionReason'', json_of_string_option (b_rejectionReason booking)),
      (''version'', JNum (int (b_version booking))),
      (''createdAt'', JStr (iso_instant (b_createdAt booking))),
      (''updatedAt'', JStr (iso_instant (b_updatedAt booking)))])"

definition toAdminBookingResponse ::
  "booking_row \<Rightarrow> room_row \<times> room_type_row \<Rightarrow> user_row \<Rightarrow> (string \<times> json) list" where
  "toAdminBookingResponse booking place owner =
     toUserBookingResponse booking place @
     [(''owner'', JObj [(''id'', json_of_id (u_id owner)), (''email'', JStr (u_email owner)),
                        (''displayName'', JStr (u_displayName owner)),
                        (''status'', JStr (show_UserStatus (u_status owner)))])]"

definition toHistoryResponse :: "hotel_db \<Rightarrow> status_history_row \<Rightarrow> json" where
  "toHistoryResponse db history =
     JObj ([(''fromStatus'', case sh_fromStatus history of
                               None \<Rightarrow> JNull | Some s \<Rightarrow> JStr (show_BookingStatus s)),
            (''toStatus'', JStr (show_BookingStatus (sh_toStatus history))),
            (''actorType'', JStr (show_BookingActorType (sh_actorType history)))]
           @ (case Option.bind (sh_actorUserId history) (find_user db) of
                None \<Rightarrow> []
              | Some u \<Rightarrow> [(''actor'', JObj [(''id'', json_of_id (u_id u)),
                                            (''displayName'', JStr (u_displayName u))])])
           @ [(''reason'', json_of_string_option (sh_reason history)),
              (''createdAt'', JStr (iso_instant (sh_createdAt history)))])"

definition statusHistory :: "hotel_db \<Rightarrow> nat \<Rightarrow> status_history_row list" where
  "statusHistory db bookingId =
     sort_key (\<lambda>h. (sh_createdAt h, sh_id h))
       (filter (\<lambda>h. sh_bookingId h = bookingId) (statusHistories db))"

definition changeHistory :: "hotel_db \<Rightarrow> nat \<Rightarrow> json list" where
  "changeHistory db bookingId =
     List.map_filter (\<lambda>c.
       case (find_user db (ch_actorUserId c), find_room_time db (ch_fromRoomTimeId c),
             find_room_time db (ch_toRoomTimeId c)) of
         (Some actor, Some fromTime, Some toTime) \<Rightarrow>
           (case (find_room db (w_roomId fromTime), find_room db (w_roomId toTime)) of
              (Some fromRoom, Some toRoom) \<Rightarrow> Some
                (JObj [(''actor'', JObj [(''id'', json_of_id (u_id actor)),
                                         (''displayName'', JStr (u_displayName actor))]),
                       (''from'', change_json (r_id fromRoom) (ch_fromCheckIn c) (ch_fromCheckOut c)),
                       (''to'', change_json (r_id toRoom) (ch_toCheckIn c) (ch_toCheckOut c)),
                       (''reason'', JStr (ch_reason c)),
                       (''createdAt'', JStr (iso_instant (ch_createdAt c)))])
            | _ \<Rightarrow> None)
       | _ \<Rightarrow> None)
     (sort_key (\<lambda>c. (ch_createdAt c, ch_id c))
       (filter (\<lambda>c. ch_bookingId c = bookingId) (changeHistories db)))"

definition getOwnDetail :: "hotel_db \<Rightarrow> nat \<Rightarrow> string \<Rightarrow> error + json" where
  "getOwnDetail db actorUserId bookingPublicId =
     (case List.find (\<lambda>b. b_userId b = actorUserId \<and> b_publicId b = bookingPublicId
                        \<and> bookingSummaryQuery db b \<noteq> None) (bookings db) of
        None \<Rightarrow> Inl bookingsErrors_notFound
      | Some booking \<Rightarrow>
          and_then (or_throw (bookingSummaryQuery db booking) bookingsErrors_notFound) (\<lambda>place.
          Inr (JObj (toUserBookingResponse booking place @
                 [(''history'', JArr (map (toHistoryResponse db) (statusHistory db (b_id booking))))]))))"

definition getAdmin :: "hotel_db \<Rightarrow> string \<Rightarrow> error + json" where
  "getAdmin db bookingPublicId =
     (case List.find (\<lambda>b. b_publicId b = bookingPublicId \<and> bookingSummaryQuery db b \<noteq> None
                        \<and> find_user db (b_userId b) \<noteq> None) (bookings db) of
        None \<Rightarrow> Inl bookingsErrors_notFound
      | Some booking \<Rightarrow>
          and_then (or_throw (bookingSummaryQuery db booking) bookingsErrors_notFound) (\<lambda>place.
          and_then (or_throw (find_user db (b_userId booking)) bookingsErrors_notFound) (\<lambda>owner.
          Inr (JObj (toAdminBookingResponse booking place owner @
                 [(''history'', JArr (map (toHistoryResponse db) (statusHistory db (b_id booking)))),
                  (''changes'', JArr (changeHistory db (b_id booking)))])))))"

record booking_query =
  q_status :: "BookingStatus option"
  q_from :: "hotel_date option"
  q_to :: "hotel_date option"
  q_roomId :: "nat option"
  q_roomTypeId :: "nat option"
  q_userId :: "nat option"
  q_page :: nat
  q_pageSize :: nat

definition assertBookingFilterRange :: "booking_query \<Rightarrow> error + unit" where
  "assertBookingFilterRange query =
     (if (q_from query = None) \<noteq> (q_to query = None) then Inl bookingsErrors_stayInvalid
      else case (q_from query, q_to query) of
             (Some a, Some b) \<Rightarrow> if a \<ge> b then Inl bookingsErrors_stayInvalid else Inr ()
           | _ \<Rightarrow> Inr ())"

definition matches_stay_filter :: "booking_query \<Rightarrow> booking_row \<Rightarrow> bool" where
  "matches_stay_filter query b \<longleftrightarrow>
     (case q_status query of None \<Rightarrow> True | Some s \<Rightarrow> b_status b = s)
     \<and> (case (q_from query, q_to query) of
          (Some f, Some t) \<Rightarrow> b_checkIn b < t \<and> b_checkOut b > f
        | _ \<Rightarrow> True)"

definition newest_first :: "booking_row list \<Rightarrow> booking_row list" where
  "newest_first = sort_key (\<lambda>b. (- b_createdAt b, - int (b_id b)))"

text \<open>The result of a list: the items of the page, and the total over all pages.\<close>

definition listOwn :: "hotel_db \<Rightarrow> nat \<Rightarrow> booking_query \<Rightarrow> error + json list \<times> nat" where
  "listOwn db actorUserId query =
     and_then (assertBookingFilterRange query) (\<lambda>_.
     let matching = newest_first (filter (\<lambda>b. b_userId b = actorUserId
                      \<and> bookingSummaryQuery db b \<noteq> None \<and> matches_stay_filter query b) (bookings db))
     in Inr (List.map_filter (\<lambda>b. map_option (\<lambda>place. JObj (toUserBookingResponse b place))
                 (bookingSummaryQuery db b)) (page_of (q_page query) (q_pageSize query) matching),
             length matching))"

definition matches_admin_filter :: "hotel_db \<Rightarrow> booking_query \<Rightarrow> booking_row \<Rightarrow> bool" where
  "matches_admin_filter db query b \<longleftrightarrow>
     matches_stay_filter query b
     \<and> (case (bookingSummaryQuery db b, find_user db (b_userId b)) of
          (Some (room, roomType), Some owner) \<Rightarrow>
            (case q_roomId query of None \<Rightarrow> True | Some i \<Rightarrow> r_id room = i)
            \<and> (case q_roomTypeId query of None \<Rightarrow> True | Some i \<Rightarrow> rt_id roomType = i)
            \<and> (case q_userId query of None \<Rightarrow> True | Some i \<Rightarrow> u_id owner = i)
        | _ \<Rightarrow> False)"

definition listAdmin :: "hotel_db \<Rightarrow> booking_query \<Rightarrow> error + json list \<times> nat" where
  "listAdmin db query =
     and_then (assertBookingFilterRange query) (\<lambda>_.
     let matching = newest_first (filter (matches_admin_filter db query) (bookings db))
     in Inr (List.map_filter (\<lambda>b.
                case (bookingSummaryQuery db b, find_user db (b_userId b)) of
                  (Some place, Some owner) \<Rightarrow> Some (JObj (toAdminBookingResponse b place owner))
                | _ \<Rightarrow> None) (page_of (q_page query) (q_pageSize query) matching),
             length matching))"

subsection \<open>The public operations\<close>

text \<open>
  An operation runs its transaction and then reads the response outside it, from the committed
  database: the pair is what the caller gets and the database afterwards.
\<close>

definition respond ::
  "(hotel_db \<Rightarrow> error + json) \<Rightarrow> error + 'r \<times> hotel_db \<Rightarrow> hotel_db \<Rightarrow> (error + json) \<times> hotel_db" where
  "respond answer outcome db =
     (case outcome of Inl e \<Rightarrow> (Inl e, db) | Inr (_, db') \<Rightarrow> (answer db', db'))"

definition cancelOwn ::
  "bookings_config \<Rightarrow> nat \<Rightarrow> string \<Rightarrow> tx_env \<Rightarrow> hotel_db \<Rightarrow> (error + json) \<times> hotel_db" where
  "cancelOwn cfg actorUserId bookingPublicId env db =
     respond (\<lambda>db. getOwnDetail db actorUserId bookingPublicId)
       (cancelOwn_tx cfg actorUserId bookingPublicId env db) db"

definition approve ::
  "bookings_config \<Rightarrow> nat \<Rightarrow> string \<Rightarrow> tx_env \<Rightarrow> (hotel_db \<Rightarrow> hotel_db) \<Rightarrow> hotel_db
   \<Rightarrow> (error + json) \<times> hotel_db" where
  "approve cfg actorUserId bookingPublicId env others db =
     (case bookingSourceSnapshot bookingPublicId db of
        Inl e \<Rightarrow> (Inl e, db)
      | Inr snapshot \<Rightarrow>
          respond (\<lambda>db. getAdmin db bookingPublicId)
            (approve_tx cfg snapshot actorUserId bookingPublicId env (others db)) (others db))"

definition reject ::
  "bookings_config \<Rightarrow> nat \<Rightarrow> string \<Rightarrow> string \<Rightarrow> tx_env \<Rightarrow> hotel_db \<Rightarrow> (error + json) \<times> hotel_db" where
  "reject cfg actorUserId bookingPublicId reason env db =
     respond (\<lambda>db. getAdmin db bookingPublicId)
       (reject_tx cfg actorUserId bookingPublicId reason env db) db"

definition updateAdmin ::
  "bookings_config \<Rightarrow> nat \<Rightarrow> string \<Rightarrow> string \<Rightarrow> UpdateBookingDto \<Rightarrow> tx_env \<Rightarrow> (hotel_db \<Rightarrow> hotel_db)
   \<Rightarrow> hotel_db \<Rightarrow> (error + json) \<times> hotel_db" where
  "updateAdmin cfg actorUserId bookingPublicId expectedVersion body env others db =
     (case bookingSourceSnapshot bookingPublicId db of
        Inl e \<Rightarrow> (Inl e, db)
      | Inr snapshot \<Rightarrow>
          if show_nat (sn_version snapshot) \<noteq> expectedVersion
          then (Inl bookingsErrors_versionConflict, db)
          else respond (\<lambda>db. getAdmin db bookingPublicId)
                 (updateAdmin_tx cfg snapshot actorUserId bookingPublicId expectedVersion body env
                    (others db)) (others db))"

definition cancelAdmin ::
  "bookings_config \<Rightarrow> nat \<Rightarrow> string \<Rightarrow> string \<Rightarrow> tx_env \<Rightarrow> hotel_db \<Rightarrow> (error + json) \<times> hotel_db" where
  "cancelAdmin cfg actorUserId bookingPublicId reason env db =
     respond (\<lambda>db. getAdmin db bookingPublicId)
       (cancelAdmin_tx cfg actorUserId bookingPublicId reason env db) db"

end
