(* ===== verification/Fingerprint.thy ===== *)
theory Fingerprint
  imports Bookings
begin

text \<open>
  The text that bookings/booking-create.helpers.ts hashes into the fingerprint of a request. The
  quoting of strings is a prefix code, so two requests with the same text are the same request.
\<close>

lemma hex_digit_inj: "a < 16 \<Longrightarrow> b < 16 \<Longrightarrow> hex_digit a = hex_digit b \<longleftrightarrow> a = b"
proof -
  assume "a < 16" "b < 16"
  moreover have "distinct ''0123456789abcdef''" by simp
  ultimately show ?thesis unfolding hex_digit_def by (subst nth_eq_iff_index_eq) simp_all
qed

lemma char_code: "(of_char c :: nat) = n \<longleftrightarrow> c = char_of n" if "n < 256"
  using that by (metis char_of_char of_char_of mod_less)

lemma char_codes:
  "char_of (34 :: nat) = CHR 0x22" "char_of (92 :: nat) = CHR 0x5C" "char_of (8 :: nat) = CHR 0x08"
  "char_of (9 :: nat) = CHR 0x09" "char_of (10 :: nat) = CHR 0x0A" "char_of (12 :: nat) = CHR 0x0C"
  "char_of (13 :: nat) = CHR 0x0D"
  by code_simp+

text \<open>The codes of the characters, by the class of the character.\<close>

lemma json_escape_hd: "hd (json_escape c) \<noteq> char_of (34 :: nat) \<and> json_escape c \<noteq> []"
  by (auto simp: json_escape_def Let_def)

lemma json_escape_prefix:
  assumes "json_escape c @ u = json_escape d @ v"
  shows "c = d \<and> u = v"
proof -
  have lt: "n < 32 \<Longrightarrow> n div 16 < 16 \<and> n mod 16 < 16" for n :: nat by auto
  have hex: "m < 32 \<Longrightarrow> n < 32 \<Longrightarrow> hex_digit (m div 16) = hex_digit (n div 16) \<Longrightarrow>
      hex_digit (m mod 16) = hex_digit (n mod 16) \<Longrightarrow> m = n" for m n :: nat
    using hex_digit_inj lt by (metis div_mult_mod_eq)
  have inj: "(of_char c :: nat) = of_char d \<Longrightarrow> c = d" by (metis char_of_char)
  show ?thesis
    using assms hex [of "of_char c" "of_char d"] inj
    by (auto simp: json_escape_def Let_def char_code char_codes split: if_splits)
qed

lemma json_escape_quote: "json_escape c @ u \<noteq> char_of (34 :: nat) # v"
  using json_escape_hd [of c] by (cases "json_escape c") auto

lemma json_quote_prefix:
  assumes "json_quote a @ u = json_quote b @ v"
  shows "a = b \<and> u = v"
proof -
  have "concat (map json_escape a) @ char_of (34 :: nat) # u = concat (map json_escape b) @ char_of (34 :: nat) # v
    \<Longrightarrow> a = b \<and> u = v"
  proof (induction a arbitrary: b)
    case Nil
    then show ?case using json_escape_quote by (cases b) (auto, metis)
  next
    case (Cons c a)
    then obtain d b' where b: "b = d # b'" using json_escape_quote [of c "concat (map json_escape a) @ char_of 34 # u" v]
      by (cases b) auto
    with Cons.prems have "json_escape c @ (concat (map json_escape a) @ char_of (34 :: nat) # u) =
      json_escape d @ (concat (map json_escape b') @ char_of (34 :: nat) # v)" by simp
    from json_escape_prefix [OF this] Cons.IH [of b'] b show ?case by simp
  qed
  with assms show ?thesis by (simp add: json_quote_def)
qed

lemma json_quote_cancel: "json_quote a @ u = json_quote b @ v \<longleftrightarrow> a = b \<and> u = v"
  using json_quote_prefix by blast

text \<open>Two requests with the same text are the same request.\<close>

lemma fingerprint_text_inj: "fingerprint_text actor a = fingerprint_text actor' b \<longleftrightarrow> actor = actor' \<and> a = b"
  using json_quote_cancel [of _ "[]" _ "[]"] by (auto simp: fingerprint_text_def json_quote_cancel)

end
