(* ===== verification/Room_Times.thy ===== *)
theory Room_Times
  imports Bookings
begin

text \<open>
  Availability windows: the policy (rooms/room-time-policy.ts), the service
  (rooms/room-times.service.ts), the port through which it asks how bookings use a window
  (rooms/room-time-usage.port.ts) and the booking side that answers
  (bookings/room-time-usage.repository.ts). The port is an argument of the service's operations;
  the locale \<open>usage_port\<close> states its contract, the client's lemmas are proved in it, and it is
  interpreted on the repository.
\<close>

subsection \<open>Errors\<close>

definition roomsErrors_roomTimeNotFound :: error where
  "roomsErrors_roomTimeNotFound = ApplicationException 404 ''ROOM_TIME_NOT_FOUND''"

definition roomsErrors_roomTimeRangeInvalid :: error where
  "roomsErrors_roomTimeRangeInvalid = ApplicationException 400 ''ROOM_TIME_RANGE_INVALID''"

definition roomsErrors_roomTimeOverlap :: error where
  "roomsErrors_roomTimeOverlap = ApplicationException 409 ''ROOM_TIME_OVERLAP''"

definition roomsErrors_roomTimeDatesImmutable :: error where
  "roomsErrors_roomTimeDatesImmutable = ApplicationException 409 ''ROOM_TIME_DATES_IMMUTABLE''"

definition roomsErrors_roomTimeInUse :: error where
  "roomsErrors_roomTimeInUse = ApplicationException 409 ''ROOM_TIME_IN_USE''"

definition roomsErrors_roomTimeHasHistory :: error where
  "roomsErrors_roomTimeHasHistory = ApplicationException 409 ''ROOM_TIME_HAS_HISTORY''"

definition roomsErrors_emptyUpdate :: error where
  "roomsErrors_emptyUpdate = ApplicationException 400 ''VALIDATION_FAILED''"

subsection \<open>The policy\<close>

record RoomTimeState =
  ts_availableFrom :: hotel_date
  ts_availableTo :: hotel_date
  ts_status :: RoomTimeStatus

record RoomTimeUsage =
  bookingCount :: nat
  activeBookingCount :: nat
  changeHistoryCount :: nat

definition emptyRoomTimeUsage :: RoomTimeUsage where
  "emptyRoomTimeUsage = \<lparr>bookingCount = 0, activeBookingCount = 0, changeHistoryCount = 0\<rparr>"

definition assertRoomTimeRange :: "RoomTimeState \<Rightarrow> error + unit" where
  "assertRoomTimeRange dates =
     (if ts_availableFrom dates \<ge> ts_availableTo dates then Inl roomsErrors_roomTimeRangeInvalid
      else Inr ())"

definition assertRoomTimeUpdateAllowed ::
  "RoomTimeState \<Rightarrow> RoomTimeState \<Rightarrow> RoomTimeUsage \<Rightarrow> error + unit" where
  "assertRoomTimeUpdateAllowed current nextState usage =
     and_then (assertRoomTimeRange nextState) (\<lambda>_.
     let datesChanged = (ts_availableFrom current \<noteq> ts_availableFrom nextState
                         \<or> ts_availableTo current \<noteq> ts_availableTo nextState) in
     if datesChanged \<and> (bookingCount usage > 0 \<or> changeHistoryCount usage > 0)
     then Inl roomsErrors_roomTimeDatesImmutable
     else
       let isDeactivation = (ts_status current = TimeActive \<and> ts_status nextState = TimeInactive) in
       if isDeactivation \<and> activeBookingCount usage > 0 then Inl roomsErrors_roomTimeInUse
       else Inr ())"

definition assertRoomTimeDeleteAllowed :: "RoomTimeUsage \<Rightarrow> error + unit" where
  "assertRoomTimeDeleteAllowed usage =
     (if bookingCount usage > 0 \<or> changeHistoryCount usage > 0
      then Inl roomsErrors_roomTimeHasHistory else Inr ())"

subsection \<open>The usage repository\<close>

type_synonym usage_query = "hotel_db \<Rightarrow> nat list \<Rightarrow> nat \<rightharpoonup> RoomTimeUsage"

text \<open>The rows of the grouped counts: key, total and active count.\<close>

definition countBookings :: "hotel_db \<Rightarrow> nat list \<Rightarrow> (nat \<times> nat \<times> nat) list" where
  "countBookings db ids =
     (let hits = filter (\<lambda>b. b_roomTimeId b \<in> set ids) (bookings db) in
      map (\<lambda>i. (i, length (filter (\<lambda>b. b_roomTimeId b = i) hits),
                length (filter (\<lambda>b. b_roomTimeId b = i \<and> b_status b \<in> set [Pending, Confirmed]) hits)))
        (set_spread (map b_roomTimeId hits)))"

definition countChanges ::
  "hotel_db \<Rightarrow> nat list \<Rightarrow> (change_history_row \<Rightarrow> nat) \<Rightarrow> bool \<Rightarrow> (nat \<times> nat) list" where
  "countChanges db ids column skipSameWindow =
     (let hits = filter (\<lambda>c. column c \<in> set ids
                   \<and> (skipSameWindow \<longrightarrow> ch_toRoomTimeId c \<noteq> ch_fromRoomTimeId c)) (changeHistories db) in
      map (\<lambda>i. (i, length (filter (\<lambda>c. column c = i) hits))) (set_spread (map column hits)))"

definition apply_booking_row ::
  "nat \<times> nat \<times> nat \<Rightarrow> (nat \<rightharpoonup> RoomTimeUsage) \<Rightarrow> nat \<rightharpoonup> RoomTimeUsage" where
  "apply_booking_row row usage =
     (case row of (i, n, live) \<Rightarrow>
       (case usage i of
          None \<Rightarrow> usage
        | Some entry \<Rightarrow> usage(i \<mapsto> entry\<lparr>bookingCount := n, activeBookingCount := live\<rparr>)))"

definition apply_change_row ::
  "nat \<times> nat \<Rightarrow> (nat \<rightharpoonup> RoomTimeUsage) \<Rightarrow> nat \<rightharpoonup> RoomTimeUsage" where
  "apply_change_row row usage =
     (case row of (i, n) \<Rightarrow>
       (case usage i of
          None \<Rightarrow> usage
        | Some entry \<Rightarrow> usage(i \<mapsto> entry\<lparr>changeHistoryCount := changeHistoryCount entry + n\<rparr>)))"

definition findByRoomTimeIds :: usage_query where
  "findByRoomTimeIds db roomTimeIds =
     (let ids = set_spread roomTimeIds;
          usage = map_of (map (\<lambda>i. (i, emptyRoomTimeUsage)) ids) in
      if ids = [] then usage
      else
        let usage = fold apply_booking_row (countBookings db ids) usage in
        fold apply_change_row
          (countChanges db ids ch_fromRoomTimeId False @ countChanges db ids ch_toRoomTimeId True) usage)"

subsection \<open>The service\<close>

text \<open>An absent entry is a failed contract, never an unused window.\<close>

definition requireUsage :: "(nat \<rightharpoonup> RoomTimeUsage) \<Rightarrow> nat \<Rightarrow> error + RoomTimeUsage" where
  "requireUsage usages roomTimeId =
     or_throw (usages roomTimeId)
       (PlainError (''Missing room-time usage for window '' @ show_nat roomTimeId))"

definition loadUsage :: "usage_query \<Rightarrow> hotel_db \<Rightarrow> nat \<Rightarrow> error + RoomTimeUsage" where
  "loadUsage usage_of db roomTimeId = requireUsage (usage_of db [roomTimeId]) roomTimeId"

definition findLockedRoomTime :: "hotel_db \<Rightarrow> nat \<Rightarrow> nat \<Rightarrow> error + room_time_row" where
  "findLockedRoomTime db roomId roomTimeId =
     or_throw (find_room_window db roomTimeId roomId) roomsErrors_roomTimeNotFound"

definition assertNoActiveOverlap ::
  "hotel_db \<Rightarrow> nat \<Rightarrow> RoomTimeState \<Rightarrow> nat option \<Rightarrow> error + unit" where
  "assertNoActiveOverlap db roomId candidate excludedRoomTimeId =
     (if ts_status candidate \<noteq> TimeActive then Inr ()
      else require
        (\<not> (\<exists>w \<in> set (roomTimes db). w_roomId w = roomId \<and> w_status w = TimeActive
              \<and> w_availableFrom w < ts_availableTo candidate
              \<and> w_availableTo w > ts_availableFrom candidate
              \<and> (case excludedRoomTimeId of None \<Rightarrow> True | Some i \<Rightarrow> w_id w \<noteq> i)))
        roomsErrors_roomTimeOverlap)"

definition room_time_state :: "room_time_row \<Rightarrow> RoomTimeState" where
  "room_time_state w =
     \<lparr>ts_availableFrom = w_availableFrom w, ts_availableTo = w_availableTo w, ts_status = w_status w\<rparr>"

text \<open>\<open>manager.save\<close> of a new window, with the check and the foreign key of its table.\<close>

definition insert_room_time ::
  "nat \<Rightarrow> RoomTimeState \<Rightarrow> tx_env \<Rightarrow> hotel_db \<Rightarrow> error + room_time_row \<times> hotel_db" where
  "insert_room_time roomId candidate env db =
     (if ts_availableFrom candidate \<ge> ts_availableTo candidate then Inl ER_CHECK_CONSTRAINT_VIOLATED
      else if find_room db roomId = None then Inl ER_NO_REFERENCED_ROW_2
      else let w = \<lparr>w_id = nextId db, w_roomId = roomId,
                    w_availableFrom = ts_availableFrom candidate,
                    w_availableTo = ts_availableTo candidate, w_status = ts_status candidate,
                    w_createdAt = dbNow env, w_updatedAt = dbNow env\<rparr>
           in Inr (w, db\<lparr>roomTimes := roomTimes db @ [w], nextId := Suc (nextId db)\<rparr>))"

text \<open>\<open>manager.save\<close> of a loaded window: nothing is written when no column differs.\<close>

definition save_room_time ::
  "room_time_row \<Rightarrow> tx_env \<Rightarrow> hotel_db \<Rightarrow> error + room_time_row \<times> hotel_db" where
  "save_room_time entity env db =
     (if entity \<in> set (roomTimes db) then Inr (entity, db)
      else if w_availableFrom entity \<ge> w_availableTo entity then Inl ER_CHECK_CONSTRAINT_VIOLATED
      else let w = entity\<lparr>w_updatedAt := dbNow env\<rparr>
           in Inr (w, db\<lparr>roomTimes :=
                update_where (\<lambda>r. w_id r = w_id entity) (\<lambda>_. w) (roomTimes db)\<rparr>))"

text \<open>The foreign keys of bookings and change rows restrict the removal of a window.\<close>

definition window_referenced :: "hotel_db \<Rightarrow> nat \<Rightarrow> bool" where
  "window_referenced db i \<longleftrightarrow>
     (\<exists>b \<in> set (bookings db). b_roomTimeId b = i)
     \<or> (\<exists>c \<in> set (changeHistories db). ch_fromRoomTimeId c = i \<or> ch_toRoomTimeId c = i)"

definition toAdminRoomTimeResponse :: "room_time_row \<Rightarrow> RoomTimeUsage \<Rightarrow> json" where
  "toAdminRoomTimeResponse w usage =
     JObj [(''id'', json_of_id (w_id w)), (''roomId'', json_of_id (w_roomId w)),
           (''availableFrom'', JStr (w_availableFrom w)), (''availableTo'', JStr (w_availableTo w)),
           (''status'', JStr (show_RoomTimeStatus (w_status w))),
           (''usage'', JObj [(''bookingCount'', JNum (int (bookingCount usage))),
                             (''activeBookingCount'', JNum (int (activeBookingCount usage))),
                             (''changeHistoryCount'', JNum (int (changeHistoryCount usage)))]),
           (''createdAt'', JStr (iso_instant (w_createdAt w))),
           (''updatedAt'', JStr (iso_instant (w_updatedAt w)))]"

record CreateRoomTimeDto =
  cw_availableFrom :: hotel_date
  cw_availableTo :: hotel_date
  cw_status :: "RoomTimeStatus option"

record UpdateRoomTimeDto =
  uw_availableFrom :: "hotel_date option"
  uw_availableTo :: "hotel_date option"
  uw_status :: "RoomTimeStatus option"

definition create_room_time ::
  "nat \<Rightarrow> CreateRoomTimeDto \<Rightarrow> tx_env \<Rightarrow> hotel_db \<Rightarrow> error + json \<times> hotel_db" where
  "create_room_time roomId body env db =
     (let candidate = \<lparr>ts_availableFrom = cw_availableFrom body, ts_availableTo = cw_availableTo body,
                       ts_status = (case cw_status body of None \<Rightarrow> TimeActive | Some s \<Rightarrow> s)\<rparr> in
      and_then (assertRoomTimeRange candidate) (\<lambda>_.
      and_then (lockRoom db roomId) (\<lambda>_.
      and_then (assertNoActiveOverlap db roomId candidate None) (\<lambda>_.
      and_then (insert_room_time roomId candidate env db) (\<lambda>(w, db).
      Inr (toAdminRoomTimeResponse w emptyRoomTimeUsage, db))))))"

fun map_throw :: "('a \<Rightarrow> error + 'b) \<Rightarrow> 'a list \<Rightarrow> error + 'b list" where
  "map_throw f [] = Inr []"
| "map_throw f (x # xs) =
     and_then (f x) (\<lambda>y. and_then (map_throw f xs) (\<lambda>ys. Inr (y # ys)))"

definition list_room_times :: "usage_query \<Rightarrow> nat \<Rightarrow> hotel_db \<Rightarrow> error + json list" where
  "list_room_times usage_of roomId db =
     (if find_room db roomId = None then Inl roomsErrors_roomNotFound
      else
        let windows = sort_key (\<lambda>w. (w_availableFrom w, w_id w))
                        (filter (\<lambda>w. w_roomId w = roomId) (roomTimes db)) in
        if windows = [] then Inr []
        else
          let usages = usage_of db (map w_id windows) in
          map_throw (\<lambda>w. and_then (requireUsage usages (w_id w)) (\<lambda>u.
             Inr (toAdminRoomTimeResponse w u))) windows)"

definition update_room_time ::
  "usage_query \<Rightarrow> nat \<Rightarrow> nat \<Rightarrow> UpdateRoomTimeDto \<Rightarrow> tx_env \<Rightarrow> hotel_db \<Rightarrow> error + json \<times> hotel_db" where
  "update_room_time usage_of roomId roomTimeId body env db =
     (if uw_availableFrom body = None \<and> uw_availableTo body = None \<and> uw_status body = None
      then Inl roomsErrors_emptyUpdate
      else
      and_then (lockRoom db roomId) (\<lambda>_.
      and_then (findLockedRoomTime db roomId roomTimeId) (\<lambda>roomTime.
      and_then (loadUsage usage_of db roomTimeId) (\<lambda>usage.
      let nextState =
        \<lparr>ts_availableFrom = (case uw_availableFrom body of None \<Rightarrow> w_availableFrom roomTime | Some d \<Rightarrow> d),
         ts_availableTo = (case uw_availableTo body of None \<Rightarrow> w_availableTo roomTime | Some d \<Rightarrow> d),
         ts_status = (case uw_status body of None \<Rightarrow> w_status roomTime | Some s \<Rightarrow> s)\<rparr> in
      and_then (assertRoomTimeUpdateAllowed (room_time_state roomTime) nextState usage) (\<lambda>_.
      and_then (assertNoActiveOverlap db roomId nextState (Some (w_id roomTime))) (\<lambda>_.
      and_then (save_room_time (roomTime\<lparr>w_availableFrom := ts_availableFrom nextState,
                                  w_availableTo := ts_availableTo nextState,
                                  w_status := ts_status nextState\<rparr>) env db) (\<lambda>(saved, db).
      Inr (toAdminRoomTimeResponse saved usage, db))))))))"

definition delete_room_time ::
  "usage_query \<Rightarrow> nat \<Rightarrow> nat \<Rightarrow> hotel_db \<Rightarrow> error + unit \<times> hotel_db" where
  "delete_room_time usage_of roomId roomTimeId db =
     and_then (lockRoom db roomId) (\<lambda>_.
     and_then (findLockedRoomTime db roomId roomTimeId) (\<lambda>roomTime.
     and_then (loadUsage usage_of db roomTimeId) (\<lambda>usage.
     and_then (assertRoomTimeDeleteAllowed usage) (\<lambda>_.
     if window_referenced db (w_id roomTime) then Inl roomsErrors_roomTimeHasHistory
     else Inr ((), db\<lparr>roomTimes := delete_where (\<lambda>w. w_id w = w_id roomTime) (roomTimes db)\<rparr>)))))"

subsection \<open>What the repository counts\<close>

lemma fold_booking_rows:
  "distinct (map fst rows) \<Longrightarrow>
   fold apply_booking_row rows usage i =
     map_option (\<lambda>e. case map_of rows i of
        None \<Rightarrow> e | Some (n, l) \<Rightarrow> e\<lparr>bookingCount := n, activeBookingCount := l\<rparr>) (usage i)"
proof (induction rows arbitrary: usage)
  case Nil
  then show ?case by (cases "usage i") simp_all
next
  case (Cons row rows)
  obtain k n l where row: "row = (k, n, l)" by (cases row) auto
  from Cons.prems have "k \<notin> fst ` set rows" by (simp add: row)
  then have "map_of rows k = None" by (simp add: map_of_eq_None_iff)
  then show ?case
    using Cons by (cases "usage i") (auto simp: row apply_booking_row_def split: option.splits)
qed

lemma fold_change_rows:
  "fold apply_change_row rows usage i =
     map_option (\<lambda>e. e\<lparr>changeHistoryCount := changeHistoryCount e +
        sum_list (map snd (filter (\<lambda>r. fst r = i) rows))\<rparr>) (usage i)"
proof (induction rows arbitrary: usage)
  case Nil
  then show ?case by (cases "usage i") simp_all
next
  case (Cons row rows)
  then show ?case
    by (cases row; cases "usage i") (auto simp: apply_change_row_def split: option.splits)
qed

text \<open>The group of a key in a table of counts computed by a function of the key.\<close>

lemma grouped_row:
  assumes "distinct ks"
  shows "filter (\<lambda>r. fst r = i) (map (\<lambda>k. (k, f k)) ks) = (if i \<in> set ks then [(i, f i)] else [])"
  using assms by (induction ks) auto

lemma length_filter_or:
  "length (filter P xs) + length (filter (\<lambda>x. Q x \<and> \<not> P x) xs) = length (filter (\<lambda>x. P x \<or> Q x) xs)"
  by (induction xs) auto

lemma sum_countChanges:
  assumes "i \<in> set ids"
  shows "sum_list (map snd (filter (\<lambda>r. fst r = i) (countChanges db ids column skip))) =
    length (filter (\<lambda>c. column c = i \<and> (skip \<longrightarrow> ch_toRoomTimeId c \<noteq> ch_fromRoomTimeId c))
      (changeHistories db))"
proof -
  let ?hits = "filter (\<lambda>c. column c \<in> set ids
    \<and> (skip \<longrightarrow> ch_toRoomTimeId c \<noteq> ch_fromRoomTimeId c)) (changeHistories db)"
  have e: "length (filter (\<lambda>c. column c = i) ?hits) =
    length (filter (\<lambda>c. column c = i \<and> (skip \<longrightarrow> ch_toRoomTimeId c \<noteq> ch_fromRoomTimeId c))
      (changeHistories db))"
    using assms by (auto intro!: arg_cong [where f = length] filter_cong)
  have "i \<notin> set (map column ?hits) \<Longrightarrow> filter (\<lambda>c. column c = i) ?hits = []"
    by (auto simp: filter_empty_conv)
  then show ?thesis
    unfolding countChanges_def Let_def
    by (simp add: grouped_row e [symmetric])
qed

lemma countBookings_row:
  assumes "i \<in> set ids"
  shows "(case map_of (countBookings db ids) i of None \<Rightarrow> (0, 0) | Some r \<Rightarrow> r) =
    (length (filter (\<lambda>b. b_roomTimeId b = i) (bookings db)),
     length (filter (\<lambda>b. b_roomTimeId b = i \<and> b_status b \<in> {Pending, Confirmed}) (bookings db)))"
proof -
  let ?hits = "filter (\<lambda>b. b_roomTimeId b \<in> set ids) (bookings db)"
  have e: "length (filter (\<lambda>b. b_roomTimeId b = i \<and> P b) ?hits) =
    length (filter (\<lambda>b. b_roomTimeId b = i \<and> P b) (bookings db))" for P
    using assms by (auto intro!: arg_cong [where f = length] filter_cong)
  have none: "i \<notin> b_roomTimeId ` set ?hits \<Longrightarrow>
      filter (\<lambda>b. b_roomTimeId b = i \<and> P b) (bookings db) = []" for P
    using assms by (auto simp: filter_empty_conv)
  have "map_of (map (\<lambda>k. (k, g k)) ks) i = (if i \<in> set ks then Some (g i) else None)"
    for g :: "nat \<Rightarrow> nat \<times> nat" and ks by (induction ks) auto
  then show ?thesis
    using e [of "\<lambda>_. True"] e [of "\<lambda>b. b_status b \<in> {Pending, Confirmed}"]
      none [of "\<lambda>_. True"] none [of "\<lambda>b. b_status b \<in> {Pending, Confirmed}"]
    unfolding countBookings_def Let_def by simp
qed

lemma distinct_countBookings: "distinct (map fst (countBookings db ids))"
  by (simp add: countBookings_def Let_def comp_def)

subsection \<open>The contract of the port\<close>

locale usage_port =
  fixes usage_of :: usage_query
  assumes entry: "i \<in> set ids \<Longrightarrow> \<exists>u. usage_of db ids i = Some u"
    and bookings_counted: "i \<in> set ids \<Longrightarrow> usage_of db ids i = Some u \<Longrightarrow>
      bookingCount u = length (filter (\<lambda>b. b_roomTimeId b = i) (bookings db))"
    and active_counted: "i \<in> set ids \<Longrightarrow> usage_of db ids i = Some u \<Longrightarrow>
      activeBookingCount u =
        length (filter (\<lambda>b. b_roomTimeId b = i \<and> b_status b \<in> {Pending, Confirmed}) (bookings db))"
    and changes_counted: "i \<in> set ids \<Longrightarrow> usage_of db ids i = Some u \<Longrightarrow>
      changeHistoryCount u =
        length (filter (\<lambda>c. ch_fromRoomTimeId c = i \<or> ch_toRoomTimeId c = i) (changeHistories db))"
begin

lemma loadUsage_total: "\<exists>u. loadUsage usage_of db i = Inr u"
  using entry [of i "[i]" db] by (auto simp: loadUsage_def requireUsage_def)

lemma loadUsage_counts:
  assumes "loadUsage usage_of db i = Inr u"
  shows "0 < bookingCount u \<longleftrightarrow> (\<exists>b \<in> set (bookings db). b_roomTimeId b = i)"
    and "0 < activeBookingCount u \<longleftrightarrow>
      (\<exists>b \<in> set (bookings db). b_roomTimeId b = i \<and> b_status b \<in> {Pending, Confirmed})"
    and "0 < changeHistoryCount u \<longleftrightarrow>
      (\<exists>c \<in> set (changeHistories db). ch_fromRoomTimeId c = i \<or> ch_toRoomTimeId c = i)"
proof -
  have u: "usage_of db [i] i = Some u"
    using assms by (simp add: loadUsage_def requireUsage_def or_throw_Inr_iff)
  show "0 < bookingCount u \<longleftrightarrow> (\<exists>b \<in> set (bookings db). b_roomTimeId b = i)"
    using bookings_counted [OF _ u] by (auto simp: filter_empty_conv)
  show "0 < activeBookingCount u \<longleftrightarrow>
      (\<exists>b \<in> set (bookings db). b_roomTimeId b = i \<and> b_status b \<in> {Pending, Confirmed})"
    using active_counted [OF _ u] by (auto simp: filter_empty_conv)
  show "0 < changeHistoryCount u \<longleftrightarrow>
      (\<exists>c \<in> set (changeHistories db). ch_fromRoomTimeId c = i \<or> ch_toRoomTimeId c = i)"
    using changes_counted [OF _ u] by (auto simp: filter_empty_conv)
qed

text \<open>The usage check refuses exactly what the foreign keys would refuse.\<close>

lemma delete_allowed_iff:
  "loadUsage usage_of db i = Inr u \<Longrightarrow>
   assertRoomTimeDeleteAllowed u = Inr () \<longleftrightarrow> \<not> window_referenced db i"
  using loadUsage_counts [of db i u] by (auto simp: assertRoomTimeDeleteAllowed_def window_referenced_def)

lemma delete_room_time_Inr:
  "delete_room_time usage_of roomId i db = Inr (r, db') \<longleftrightarrow>
   find_room db roomId \<noteq> None \<and> find_room_window db i roomId \<noteq> None \<and> \<not> window_referenced db i
   \<and> db' = db\<lparr>roomTimes := delete_where (\<lambda>w. w_id w = i) (roomTimes db)\<rparr>"
proof -
  obtain u where u: "loadUsage usage_of db i = Inr u" using loadUsage_total by blast
  have wid: "find_room_window db i roomId = Some w \<Longrightarrow> w_id w = i" for w
    by (auto simp: find_room_window_def dest: find_SomeD)
  show ?thesis
    unfolding delete_room_time_def lockRoom_def findLockedRoomTime_def u and_then_Inr_iff or_throw_Inr_iff
    using wid delete_allowed_iff [OF u] by (auto split: if_splits)
qed

lemma update_room_time_Inr:
  assumes "update_room_time usage_of roomId i body env db = Inr (r, db')"
  obtains w s where "find_room_window db i roomId = Some w" "s = w\<lparr>
      w_availableFrom := (case uw_availableFrom body of None \<Rightarrow> w_availableFrom w | Some d \<Rightarrow> d),
      w_availableTo := (case uw_availableTo body of None \<Rightarrow> w_availableTo w | Some d \<Rightarrow> d),
      w_status := (case uw_status body of None \<Rightarrow> w_status w | Some s \<Rightarrow> s)\<rparr>"
    "w_availableFrom s < w_availableTo s"
    "window_referenced db i \<Longrightarrow> w_availableFrom s = w_availableFrom w \<and> w_availableTo s = w_availableTo w"
    "(\<exists>b \<in> set (bookings db). b_roomTimeId b = i \<and> b_status b \<in> {Pending, Confirmed}) \<Longrightarrow>
      w_status w = TimeActive \<Longrightarrow> w_status s = TimeActive"
    "assertNoActiveOverlap db roomId (room_time_state s) (Some i) = Inr ()"
    "\<exists>s'. save_room_time s env db = Inr (s', db')"
proof -
  obtain u where u: "loadUsage usage_of db i = Inr u" using loadUsage_total by blast
  from assms obtain w where w: "find_room_window db i roomId = Some w"
    by (auto simp: update_room_time_def findLockedRoomTime_def step_simps split: if_splits)
  define s where "s = w\<lparr>
      w_availableFrom := (case uw_availableFrom body of None \<Rightarrow> w_availableFrom w | Some d \<Rightarrow> d),
      w_availableTo := (case uw_availableTo body of None \<Rightarrow> w_availableTo w | Some d \<Rightarrow> d),
      w_status := (case uw_status body of None \<Rightarrow> w_status w | Some s \<Rightarrow> s)\<rparr>"
  have wid: "w_id w = i" using w by (auto simp: find_room_window_def dest: find_SomeD)
  from assms have "assertRoomTimeUpdateAllowed (room_time_state w) (room_time_state s) u = Inr ()"
    and o: "assertNoActiveOverlap db roomId (room_time_state s) (Some i) = Inr ()"
    and sv: "\<exists>s'. save_room_time s env db = Inr (s', db')"
    by (auto simp: update_room_time_def findLockedRoomTime_def and_then_Inr_iff w u Let_def
        room_time_state_def s_def wid split: if_splits)
  then have "w_availableFrom s < w_availableTo s"
    "window_referenced db i \<Longrightarrow> w_availableFrom s = w_availableFrom w \<and> w_availableTo s = w_availableTo w"
    "(\<exists>b \<in> set (bookings db). b_roomTimeId b = i \<and> b_status b \<in> {Pending, Confirmed}) \<Longrightarrow>
      w_status w = TimeActive \<Longrightarrow> w_status s = TimeActive"
    using loadUsage_counts [OF u] RoomTimeStatus.exhaust [of "w_status s"]
    unfolding assertRoomTimeUpdateAllowed_def assertRoomTimeRange_def and_then_Inr_iff
    by (auto simp: room_time_state_def window_referenced_def Let_def split: if_splits)
  then show ?thesis using that [OF w s_def] o sv by blast
qed
end

lemma findByRoomTimeIds_entry:
  assumes i: "i \<in> set ids"
  shows "findByRoomTimeIds db ids i = Some
    \<lparr>bookingCount = length (filter (\<lambda>b. b_roomTimeId b = i) (bookings db)),
     activeBookingCount =
       length (filter (\<lambda>b. b_roomTimeId b = i \<and> b_status b \<in> {Pending, Confirmed}) (bookings db)),
     changeHistoryCount =
       length (filter (\<lambda>c. ch_fromRoomTimeId c = i \<or> ch_toRoomTimeId c = i) (changeHistories db))\<rparr>"
proof -
  let ?ids = "set_spread ids"
  have seed: "map_of (map (\<lambda>k. (k, emptyRoomTimeUsage)) ?ids) i = Some emptyRoomTimeUsage"
    using i by (simp add: map_of_map_restrict)
  have ne: "?ids \<noteq> []" and i': "i \<in> set ?ids" using i by (metis empty_iff empty_set set_set_spread, simp)
  let ?changes = "countChanges db ?ids ch_fromRoomTimeId False @ countChanges db ?ids ch_toRoomTimeId True"
  obtain n l where nl: "(case map_of (countBookings db ?ids) i of None \<Rightarrow> (0, 0) | Some r \<Rightarrow> r) = (n, l)"
    by fastforce
  have eq: "findByRoomTimeIds db ids i = Some \<lparr>bookingCount = n, activeBookingCount = l,
      changeHistoryCount = sum_list (map snd (filter (\<lambda>r. fst r = i) ?changes))\<rparr>"
    using nl unfolding findByRoomTimeIds_def Let_def if_not_P [OF ne] fold_change_rows
      fold_booking_rows [OF distinct_countBookings] seed
    by (auto simp: emptyRoomTimeUsage_def split: option.splits)
  have pred: "(\<lambda>c. ch_toRoomTimeId c = i \<and> ch_toRoomTimeId c \<noteq> ch_fromRoomTimeId c) =
      (\<lambda>c. ch_toRoomTimeId c = i \<and> ch_fromRoomTimeId c \<noteq> i)" by auto
  have "sum_list (map snd (filter (\<lambda>r. fst r = i) ?changes)) =
      length (filter (\<lambda>c. ch_fromRoomTimeId c = i) (changeHistories db)) +
      length (filter (\<lambda>c. ch_toRoomTimeId c = i \<and> ch_fromRoomTimeId c \<noteq> i) (changeHistories db))"
    using sum_countChanges [OF i', of db ch_fromRoomTimeId False]
      sum_countChanges [OF i', of db ch_toRoomTimeId True]
    by (simp add: pred)
  with eq nl countBookings_row [OF i', of db] show ?thesis
    using length_filter_or [of "\<lambda>c. ch_fromRoomTimeId c = i" "changeHistories db" "\<lambda>c. ch_toRoomTimeId c = i"]
    by simp
qed

interpretation booking_usage: usage_port findByRoomTimeIds
  by unfold_locales (auto simp: findByRoomTimeIds_entry)

end
