(* ===== verification/Room_Catalog.thy ===== *)
theory Room_Catalog
  imports Room_Times
begin

text \<open>
  The catalogue: room types and amenities (rooms/reference-catalog.service.ts) and physical rooms
  (rooms/rooms.service.ts). The columns with unique keys have the collation
  \<open>utf8mb4_0900_ai_ci\<close>; the parameter \<open>collate\<close> maps a text to its collation key, so that two texts
  are the same key value exactly when their images are equal. The operations return the rows from
  which the response objects are built; the response objects themselves, which add presigned image
  links, and the paged lists with their LIKE filter are left out.
\<close>

subsection \<open>Errors\<close>

definition roomsErrors_roomTypeNotFound :: error where
  "roomsErrors_roomTypeNotFound = ApplicationException 404 ''ROOM_TYPE_NOT_FOUND''"

definition roomsErrors_roomTypeNameConflict :: error where
  "roomsErrors_roomTypeNameConflict = ApplicationException 409 ''ROOM_TYPE_NAME_CONFLICT''"

definition roomsErrors_roomTypeInUse :: error where
  "roomsErrors_roomTypeInUse = ApplicationException 409 ''ROOM_TYPE_IN_USE''"

definition roomsErrors_amenityNotFound :: error where
  "roomsErrors_amenityNotFound = ApplicationException 404 ''AMENITY_NOT_FOUND''"

definition roomsErrors_amenityCodeConflict :: error where
  "roomsErrors_amenityCodeConflict = ApplicationException 409 ''AMENITY_CODE_CONFLICT''"

definition roomsErrors_amenityInUse :: error where
  "roomsErrors_amenityInUse = ApplicationException 409 ''AMENITY_IN_USE''"

definition roomsErrors_roomReferenceNotFound :: error where
  "roomsErrors_roomReferenceNotFound = ApplicationException 404 ''ROOM_REFERENCE_NOT_FOUND''"

definition roomsErrors_roomNumberConflict :: error where
  "roomsErrors_roomNumberConflict = ApplicationException 409 ''ROOM_NUMBER_CONFLICT''"

definition roomsErrors_roomVersionConflict :: error where
  "roomsErrors_roomVersionConflict = ApplicationException 412 ''ROOM_VERSION_CONFLICT''"

definition roomsErrors_roomHasHistory :: error where
  "roomsErrors_roomHasHistory = ApplicationException 409 ''ROOM_HAS_HISTORY''"

definition isDatabaseError :: "error \<Rightarrow> error \<Rightarrow> bool" where
  "isDatabaseError e code \<longleftrightarrow> e = code"

text \<open>The \<open>catch\<close> that turns one database error into the error of the contract.\<close>

definition catch_database :: "error \<Rightarrow> error \<Rightarrow> error + 'a \<Rightarrow> error + 'a" where
  "catch_database code thrown outcome =
     (case outcome of
        Inl e \<Rightarrow> if isDatabaseError e code then Inl thrown else Inl e
      | Inr v \<Rightarrow> Inr v)"

subsection \<open>Room types\<close>

text \<open>\<open>value || null\<close> on an optional text.\<close>

definition or_null :: "string option \<Rightarrow> string option" where
  "or_null v = (case v of None \<Rightarrow> None | Some s \<Rightarrow> if s = [] then None else Some s)"

definition createRoomType ::
  "(string \<Rightarrow> string) \<Rightarrow> string \<Rightarrow> string option \<Rightarrow> tx_env \<Rightarrow> hotel_db \<Rightarrow> error + room_type_row \<times> hotel_db" where
  "createRoomType collate name description env db =
     (if \<exists>t \<in> set (roomTypes db). collate (rt_name t) = collate name
      then Inl roomsErrors_roomTypeNameConflict
      else let t = \<lparr>rt_id = nextId db, rt_name = name, rt_description = or_null description,
                    rt_createdAt = dbNow env, rt_updatedAt = dbNow env\<rparr>
           in Inr (t, db\<lparr>roomTypes := roomTypes db @ [t], nextId := Suc (nextId db)\<rparr>))"

text \<open>A patch field is \<open>None\<close> when it is undefined; a nullable one carries \<open>Some None\<close> for null.\<close>

definition updateRoomType ::
  "(string \<Rightarrow> string) \<Rightarrow> nat \<Rightarrow> string option \<Rightarrow> string option option \<Rightarrow> tx_env \<Rightarrow> hotel_db
   \<Rightarrow> error + room_type_row \<times> hotel_db" where
  "updateRoomType collate roomTypeId name description env db =
     (if name = None \<and> description = None then Inl roomsErrors_emptyUpdate
      else
      and_then (or_throw (find_room_type db roomTypeId) roomsErrors_roomTypeNotFound) (\<lambda>roomType.
      let entity = roomType\<lparr>rt_name := (case name of None \<Rightarrow> rt_name roomType | Some n \<Rightarrow> n),
                            rt_description := (case description of None \<Rightarrow> rt_description roomType
                                                                 | Some d \<Rightarrow> or_null d)\<rparr> in
      if entity = roomType then Inr (entity, db)
      else if \<exists>t \<in> set (roomTypes db). rt_id t \<noteq> roomTypeId \<and> collate (rt_name t) = collate (rt_name entity)
      then Inl roomsErrors_roomTypeNameConflict
      else let saved = entity\<lparr>rt_updatedAt := dbNow env\<rparr>
           in Inr (saved, db\<lparr>roomTypes :=
                update_where (\<lambda>t. rt_id t = roomTypeId) (\<lambda>_. saved) (roomTypes db)\<rparr>)))"

definition deleteRoomType :: "nat \<Rightarrow> hotel_db \<Rightarrow> error + unit \<times> hotel_db" where
  "deleteRoomType roomTypeId db =
     and_then (or_throw (find_room_type db roomTypeId) roomsErrors_roomTypeNotFound) (\<lambda>_.
     if 0 < affected (\<lambda>r. r_roomTypeId r = roomTypeId) (rooms db) then Inl roomsErrors_roomTypeInUse
     else Inr ((), db\<lparr>roomTypes := delete_where (\<lambda>t. rt_id t = roomTypeId) (roomTypes db)\<rparr>))"

subsection \<open>Amenities\<close>

definition find_amenity :: "hotel_db \<Rightarrow> nat \<Rightarrow> amenity_row option" where
  "find_amenity db i = List.find (\<lambda>a. am_id a = i) (amenities db)"

definition createAmenity ::
  "(string \<Rightarrow> string) \<Rightarrow> string \<Rightarrow> string \<Rightarrow> tx_env \<Rightarrow> hotel_db \<Rightarrow> error + amenity_row \<times> hotel_db" where
  "createAmenity collate code name env db =
     (if \<exists>a \<in> set (amenities db). collate (am_code a) = collate code
      then Inl roomsErrors_amenityCodeConflict
      else let a = \<lparr>am_id = nextId db, am_code = code, am_name = name,
                    am_createdAt = dbNow env, am_updatedAt = dbNow env\<rparr>
           in Inr (a, db\<lparr>amenities := amenities db @ [a], nextId := Suc (nextId db)\<rparr>))"

definition updateAmenity ::
  "(string \<Rightarrow> string) \<Rightarrow> nat \<Rightarrow> string option \<Rightarrow> string option \<Rightarrow> tx_env \<Rightarrow> hotel_db
   \<Rightarrow> error + amenity_row \<times> hotel_db" where
  "updateAmenity collate amenityId code name env db =
     (if code = None \<and> name = None then Inl roomsErrors_emptyUpdate
      else
      and_then (or_throw (find_amenity db amenityId) roomsErrors_amenityNotFound) (\<lambda>amenity.
      let entity = amenity\<lparr>am_code := (case code of None \<Rightarrow> am_code amenity | Some c \<Rightarrow> c),
                           am_name := (case name of None \<Rightarrow> am_name amenity | Some n \<Rightarrow> n)\<rparr> in
      if entity = amenity then Inr (entity, db)
      else if \<exists>a \<in> set (amenities db). am_id a \<noteq> amenityId \<and> collate (am_code a) = collate (am_code entity)
      then Inl roomsErrors_amenityCodeConflict
      else let saved = entity\<lparr>am_updatedAt := dbNow env\<rparr>
           in Inr (saved, db\<lparr>amenities :=
                update_where (\<lambda>a. am_id a = amenityId) (\<lambda>_. saved) (amenities db)\<rparr>)))"

definition deleteAmenity :: "nat \<Rightarrow> hotel_db \<Rightarrow> error + unit \<times> hotel_db" where
  "deleteAmenity amenityId db =
     and_then (or_throw (find_amenity db amenityId) roomsErrors_amenityNotFound) (\<lambda>_.
     if 0 < affected (\<lambda>ra. ra_amenityId ra = amenityId) (roomAmenities db) then Inl roomsErrors_amenityInUse
     else Inr ((), db\<lparr>amenities := delete_where (\<lambda>a. am_id a = amenityId) (amenities db)\<rparr>))"

definition findLockedReferences ::
  "hotel_db \<Rightarrow> nat \<Rightarrow> nat list \<Rightarrow> error + room_type_row \<times> amenity_row list" where
  "findLockedReferences db roomTypeId amenityIds =
     and_then (or_throw (find_room_type db roomTypeId) roomsErrors_roomReferenceNotFound) (\<lambda>roomType.
     let found = sort_key am_id (filter (\<lambda>a. am_id a \<in> set amenityIds) (amenities db)) in
     if length found \<noteq> length amenityIds then Inl roomsErrors_roomReferenceNotFound
     else Inr (roomType, found))"

subsection \<open>Rooms\<close>

record CreateRoomDto =
  cr_roomNumber :: string
  cr_roomTypeId :: nat
  cr_bedCount :: nat
  cr_viewCode :: "string option"
  cr_basePriceAmount :: nat
  cr_currency :: string
  cr_status :: RoomStatus
  cr_amenityIds :: "nat list"

record UpdateRoomDto =
  ur_roomNumber :: "string option"
  ur_roomTypeId :: "nat option"
  ur_bedCount :: "nat option"
  ur_viewCode :: "string option option"
  ur_basePriceAmount :: "nat option"
  ur_currency :: "string option"
  ur_status :: "RoomStatus option"
  ur_amenityIds :: "nat list option"

text \<open>The checks \<open>chk_rooms_bed_count\<close> and \<open>chk_rooms_price_safe_integer\<close>.\<close>

definition room_checks :: "room_row \<Rightarrow> bool" where
  "room_checks r \<longleftrightarrow>
     1 \<le> r_bedCount r \<and> r_bedCount r \<le> 20 \<and> r_basePriceAmount r \<le> number_max_safe_integer"

text \<open>What a write to \<open>rooms\<close> must satisfy besides: the unique number and the type's foreign key.\<close>

definition write_room_checks :: "(string \<Rightarrow> string) \<Rightarrow> hotel_db \<Rightarrow> room_row \<Rightarrow> error + unit" where
  "write_room_checks collate db room =
     (if \<exists>r \<in> set (rooms db). r_id r \<noteq> r_id room \<and> collate (r_roomNumber r) = collate (r_roomNumber room)
      then Inl ER_DUP_ENTRY
      else if \<not> room_checks room then Inl ER_CHECK_CONSTRAINT_VIOLATED
      else if find_room_type db (r_roomTypeId room) = None then Inl ER_NO_REFERENCED_ROW_2
      else Inr ())"

text \<open>The primary key of \<open>room_amenities\<close> refuses a repeated pair.\<close>

definition replaceAmenityAssignments :: "nat \<Rightarrow> nat list \<Rightarrow> hotel_db \<Rightarrow> error + hotel_db" where
  "replaceAmenityAssignments roomId amenityIds db =
     (let kept = delete_where (\<lambda>ra. ra_roomId ra = roomId) (roomAmenities db) in
      if amenityIds = [] then Inr (db\<lparr>roomAmenities := kept\<rparr>)
      else if \<not> distinct amenityIds then Inl ER_DUP_ENTRY
      else if \<exists>i \<in> set amenityIds. find_amenity db i = None then Inl ER_NO_REFERENCED_ROW_2
      else Inr (db\<lparr>roomAmenities := kept @
             map (\<lambda>i. \<lparr>ra_roomId = roomId, ra_amenityId = i\<rparr>) amenityIds\<rparr>))"

definition create_room ::
  "(string \<Rightarrow> string) \<Rightarrow> CreateRoomDto \<Rightarrow> tx_env \<Rightarrow> hotel_db
   \<Rightarrow> error + (room_row \<times> room_type_row \<times> amenity_row list) \<times> hotel_db" where
  "create_room collate body env db =
     catch_database ER_DUP_ENTRY roomsErrors_roomNumberConflict
     (and_then (findLockedReferences db (cr_roomTypeId body) (cr_amenityIds body)) (\<lambda>(roomType, found).
      let room = \<lparr>r_id = nextId db, r_roomTypeId = rt_id roomType, r_roomNumber = cr_roomNumber body,
                  r_bedCount = cr_bedCount body, r_viewCode = cr_viewCode body,
                  r_basePriceAmount = cr_basePriceAmount body, r_currency = cr_currency body,
                  r_status = cr_status body, r_version = 1,
                  r_createdAt = dbNow env, r_updatedAt = dbNow env\<rparr> in
      and_then (write_room_checks collate db room) (\<lambda>_.
      and_then (replaceAmenityAssignments (r_id room) (cr_amenityIds body)
                  (db\<lparr>rooms := rooms db @ [room], nextId := Suc (nextId db)\<rparr>)) (\<lambda>db.
      Inr ((room, roomType, found), db)))))"

text \<open>The amenities of a room in the order of \<open>loadAmenitiesByRoom\<close>.\<close>

definition loadAmenities :: "hotel_db \<Rightarrow> nat \<Rightarrow> amenity_row list" where
  "loadAmenities db roomId =
     List.map_filter (\<lambda>ra. find_amenity db (ra_amenityId ra))
       (sort_key ra_amenityId (filter (\<lambda>ra. ra_roomId ra = roomId) (roomAmenities db)))"

definition patch :: "'a option \<Rightarrow> 'a \<Rightarrow> 'a" where
  "patch v current = (case v of None \<Rightarrow> current | Some x \<Rightarrow> x)"

definition patched_room :: "UpdateRoomDto \<Rightarrow> room_row \<Rightarrow> room_row" where
  "patched_room body room =
     room\<lparr>r_roomNumber := patch (ur_roomNumber body) (r_roomNumber room),
          r_roomTypeId := patch (ur_roomTypeId body) (r_roomTypeId room),
          r_bedCount := patch (ur_bedCount body) (r_bedCount room),
          r_viewCode := patch (ur_viewCode body) (r_viewCode room),
          r_basePriceAmount := patch (ur_basePriceAmount body) (r_basePriceAmount room),
          r_currency := patch (ur_currency body) (r_currency room),
          r_status := patch (ur_status body) (r_status room)\<rparr>"

definition hasDefinedUpdate :: "UpdateRoomDto \<Rightarrow> bool" where
  "hasDefinedUpdate body \<longleftrightarrow>
     ur_roomNumber body \<noteq> None \<or> ur_roomTypeId body \<noteq> None \<or> ur_bedCount body \<noteq> None
     \<or> ur_viewCode body \<noteq> None \<or> ur_basePriceAmount body \<noteq> None \<or> ur_currency body \<noteq> None
     \<or> ur_status body \<noteq> None \<or> ur_amenityIds body \<noteq> None"

definition update_room ::
  "(string \<Rightarrow> string) \<Rightarrow> nat \<Rightarrow> string \<Rightarrow> UpdateRoomDto \<Rightarrow> tx_env \<Rightarrow> hotel_db
   \<Rightarrow> error + (room_row \<times> room_type_row \<times> amenity_row list) \<times> hotel_db" where
  "update_room collate roomId expectedVersion body env db =
     (if \<not> hasDefinedUpdate body then Inl roomsErrors_emptyUpdate
      else catch_database ER_DUP_ENTRY roomsErrors_roomNumberConflict
      (and_then (lockRoom db roomId) (\<lambda>room.
       if show_nat (r_version room) \<noteq> expectedVersion then Inl roomsErrors_roomVersionConflict
       else
       and_then (findLockedReferences db (patch (ur_roomTypeId body) (r_roomTypeId room))
                   (patch (ur_amenityIds body) [])) (\<lambda>(roomType, found).
       and_then (case ur_amenityIds body of
                   None \<Rightarrow> Inr db
                 | Some ids \<Rightarrow>
                     let currentIds = set_spread (map ra_amenityId
                           (filter (\<lambda>ra. ra_roomId ra = roomId) (roomAmenities db))) in
                     if length currentIds \<noteq> length ids \<or> (\<exists>i \<in> set ids. i \<notin> set currentIds)
                     then replaceAmenityAssignments (r_id room) ids db else Inr db) (\<lambda>db.
       let saved = (patched_room body room)\<lparr>r_version := Suc (r_version room), r_updatedAt := dbNow env\<rparr> in
       and_then (write_room_checks collate db saved) (\<lambda>_.
       let db = db\<lparr>rooms := update_where (\<lambda>r. r_id r = r_id room) (\<lambda>_. saved) (rooms db)\<rparr> in
       Inr ((saved, roomType, if ur_amenityIds body \<noteq> None then found else loadAmenities db (r_id room)),
            db)))))))"

definition cleanup_tasks :: "attachment_row list \<Rightarrow> tx_env \<Rightarrow> cleanup_row list" where
  "cleanup_tasks detached env =
     map (\<lambda>(n, a). \<lparr>cl_id = drawUuid env n, cl_objectKey = at_objectKey a, cl_reason = DetachedObject,
                    cl_availableAt = jsNow env, cl_lockedAt = None, cl_lockExpiresAt = None,
                    cl_lockedBy = None, cl_attempts = 0\<rparr>) (enumerate 0 detached)"

text \<open>The unique keys of \<open>storage_cleanup_tasks\<close>.\<close>

definition insert_cleanup_tasks :: "cleanup_row list \<Rightarrow> hotel_db \<Rightarrow> error + hotel_db" where
  "insert_cleanup_tasks tasks db =
     (let all_tasks = cleanupTasks db @ tasks in
      if \<not> distinct (map cl_id all_tasks) \<or> \<not> distinct (map cl_objectKey all_tasks)
      then Inl ER_DUP_ENTRY else Inr (db\<lparr>cleanupTasks := all_tasks\<rparr>))"

definition delete_room :: "nat \<Rightarrow> tx_env \<Rightarrow> hotel_db \<Rightarrow> error + unit \<times> hotel_db" where
  "delete_room roomId env db =
     catch_database ER_ROW_IS_REFERENCED_2 roomsErrors_roomHasHistory
     (and_then (lockRoom db roomId) (\<lambda>room.
      let targets = (\<lambda>a. at_objectType a = ObjectRoom \<and> at_objectId a = roomId);
          detached = filter targets (attachments db) in
      and_then (if detached = [] then Inr db
                else insert_cleanup_tasks (cleanup_tasks detached env)
                       (db\<lparr>attachments := delete_where targets (attachments db)\<rparr>)) (\<lambda>db.
      if \<exists>w \<in> set (roomTimes db). w_roomId w = roomId \<and> window_referenced db (w_id w)
      then Inl ER_ROW_IS_REFERENCED_2
      else Inr ((), db\<lparr>roomTimes := delete_where (\<lambda>w. w_roomId w = roomId) (roomTimes db),
                       roomAmenities := delete_where (\<lambda>ra. ra_roomId ra = roomId) (roomAmenities db),
                       rooms := delete_where (\<lambda>r. r_id r = r_id room) (rooms db)\<rparr>))))"

end
