(* ===== verification/Booking_Effects.thy ===== *)
theory Booking_Effects
  imports Room_Catalog
begin

text \<open>
  What the transactions of bookings/bookings.service.ts do to the database. \<open>wf_db\<close> collects the
  constraints of the schema on the catalogue and the bookings; one lemma per transaction says which
  row it replaced or inserted, under which guards, and which audit row and outbox events it
  appended. The proofs about invariants, transitions, retries and events rest on these lemmas only.
\<close>

subsection \<open>Well-formed databases\<close>

definition wf_catalogue :: "hotel_db \<Rightarrow> bool" where
  "wf_catalogue db \<longleftrightarrow>
     distinct (map rt_id (roomTypes db)) \<and> distinct (map r_id (rooms db)) \<and> distinct (map w_id (roomTimes db))
     \<and> (\<forall>t \<in> set (roomTypes db). rt_id t < nextId db)
     \<and> (\<forall>r \<in> set (rooms db). r_id r < nextId db \<and> room_checks r \<and> find_room_type db (r_roomTypeId r) \<noteq> None)
     \<and> (\<forall>w \<in> set (roomTimes db). w_id w < nextId db \<and> w_availableFrom w < w_availableTo w
          \<and> find_room db (w_roomId w) \<noteq> None)"

definition wf_bookings :: "hotel_db \<Rightarrow> bool" where
  "wf_bookings db \<longleftrightarrow>
     distinct (map b_id (bookings db)) \<and> distinct (map b_publicId (bookings db))
     \<and> (\<forall>b \<in> set (bookings db). b_id b < nextId db \<and> booking_checks b \<and> booking_references db b)
     \<and> (\<forall>c \<in> set (changeHistories db). find_room_time db (ch_fromRoomTimeId c) \<noteq> None
          \<and> find_room_time db (ch_toRoomTimeId c) \<noteq> None)"

definition wf_db :: "hotel_db \<Rightarrow> bool" where
  "wf_db db \<longleftrightarrow> wf_catalogue db \<and> wf_bookings db"

definition same_catalogue :: "hotel_db \<Rightarrow> hotel_db \<Rightarrow> bool" where
  "same_catalogue db db' \<longleftrightarrow>
     users db' = users db \<and> roomTypes db' = roomTypes db \<and> rooms db' = rooms db
     \<and> roomTimes db' = roomTimes db \<and> amenities db' = amenities db
     \<and> roomAmenities db' = roomAmenities db \<and> attachments db' = attachments db
     \<and> cleanupTasks db' = cleanupTasks db \<and> nextId db \<le> nextId db'"

definition saved_row :: "booking_row \<Rightarrow> tx_env \<Rightarrow> booking_row" where
  "saved_row e env = e\<lparr>b_version := Suc (b_version e), b_updatedAt := dbNow env\<rparr>"

text \<open>One booking row is replaced; the catalogue and the retry keys stay.\<close>

definition booking_saved :: "hotel_db \<Rightarrow> booking_row \<Rightarrow> hotel_db \<Rightarrow> bool" where
  "booking_saved db s db' \<longleftrightarrow>
     bookings db' = update_where (\<lambda>r. b_id r = b_id s) (\<lambda>_. s) (bookings db)
     \<and> booking_checks s \<and> booking_references db s
     \<and> same_catalogue db db' \<and> idempotencyKeys db' = idempotencyKeys db"

text \<open>The audit row and the events a transition appends.\<close>

definition history_appended ::
  "hotel_db \<Rightarrow> nat \<Rightarrow> BookingStatus option \<Rightarrow> BookingStatus \<Rightarrow> BookingActorType \<Rightarrow> nat \<Rightarrow> string option \<Rightarrow> tx_env
   \<Rightarrow> hotel_db \<Rightarrow> bool" where
  "history_appended db bookingId fromStatus toStatus actorType actorUserId reason env db' \<longleftrightarrow>
     changeHistories db' = changeHistories db
     \<and> (\<exists>i. nextId db \<le> i \<and> i < nextId db' \<and> statusHistories db' = statusHistories db @
          [\<lparr>sh_id = i, sh_bookingId = bookingId, sh_fromStatus = fromStatus, sh_toStatus = toStatus,
            sh_actorType = actorType, sh_actorUserId = Some actorUserId, sh_reason = reason,
            sh_createdAt = dbNow env\<rparr>])"

definition lifecycle_event :: "booking_row \<Rightarrow> BookingLifecycleChange \<Rightarrow> tx_env \<Rightarrow> outbox_row" where
  "lifecycle_event s change env =
     pending_event (drawUuid env 0) bookingLifecycleEventType
       (payload_json (toBookingLifecyclePayload change))
       (event_key bookingLifecycleEventType (b_publicId s) (b_version s)) env"

definition mail_event ::
  "bookings_config \<Rightarrow> booking_row \<Rightarrow> string \<Rightarrow> room_row \<Rightarrow> string option \<Rightarrow> BookingChangeOutboxDetail option
   \<Rightarrow> tx_env \<Rightarrow> outbox_row" where
  "mail_event cfg s eventType room reason change env =
     pending_event (mail_uuid cfg env) eventType (mail_payload s room reason change)
       (event_key eventType (b_publicId s) (b_version s)) env"

text \<open>The lifecycle event of a change with its room, when the stream is enabled.\<close>

definition stream_events ::
  "bookings_config \<Rightarrow> booking_row \<Rightarrow> room_row \<Rightarrow> BookingStatus option \<Rightarrow> BookingLifecycleStay option \<Rightarrow> tx_env
   \<Rightarrow> outbox_row list" where
  "stream_events cfg s room fromStatus previousStay env =
     (if streamEnabled cfg
      then [lifecycle_event s \<lparr>lc_booking = s, lc_roomId = r_id room, lc_roomTypeId = r_roomTypeId room,
              lc_fromStatus = fromStatus, lc_previousStay = previousStay\<rparr> env]
      else [])"

text \<open>The row a successful create inserts.\<close>

definition new_booking ::
  "nat \<Rightarrow> BookingCreateInput \<Rightarrow> room_row \<Rightarrow> room_time_row \<Rightarrow> int \<Rightarrow> string \<Rightarrow> nat \<Rightarrow> tx_env \<Rightarrow> booking_row" where
  "new_booking actor input room w nights publicId i env =
     \<lparr>b_id = i, b_publicId = publicId, b_userId = actor, b_roomTimeId = w_id w,
      b_checkIn = ci_checkIn input, b_checkOut = ci_checkOut input, b_status = Pending,
      b_priceAmount = r_basePriceAmount room * nat nights, b_currency = r_currency room,
      b_rejectionReason = None, b_version = 1, b_createdAt = dbNow env, b_updatedAt = dbNow env\<rparr>"

subsection \<open>Effects of the writes\<close>

lemma insert_outbox_Inr:
  "insert_outbox row db = Inr db' \<longleftrightarrow>
   (\<forall>o' \<in> set (outboxEvents db). o_id o' \<noteq> o_id row \<and> o_idempotencyKey o' \<noteq> o_idempotencyKey row)
   \<and> db' = db\<lparr>outboxEvents := outboxEvents db @ [row]\<rparr>"
  by (auto simp: insert_outbox_def)

lemma record_change_Inr:
  assumes "record_change enabled change env db = Inr db'"
  shows "db' = db\<lparr>outboxEvents := outboxEvents db @
    (if enabled then [lifecycle_event (lc_booking change) change env] else [])\<rparr>"
  using assms by (auto simp: record_change_def insert_outbox_Inr lifecycle_event_def split: if_splits)

lemma insertOutbox_Inr:
  assumes "insertOutbox s eventType room reason change (mail_uuid cfg env) env db = Inr db'"
  shows "db' = db\<lparr>outboxEvents := outboxEvents db @ [mail_event cfg s eventType room reason change env]\<rparr>"
  using assms by (simp add: insertOutbox_def insert_outbox_Inr mail_event_def)

lemma insert_status_history_Inr:
  assumes "insert_status_history i f t a u r env db = Inr db'"
  shows "db' = db\<lparr>statusHistories := statusHistories db @
      [\<lparr>sh_id = nextId db, sh_bookingId = i, sh_fromStatus = f, sh_toStatus = t, sh_actorType = a,
        sh_actorUserId = Some u, sh_reason = r, sh_createdAt = dbNow env\<rparr>],
      nextId := Suc (nextId db)\<rparr>"
    and "user_exists db u"
  using assms by (auto simp: insert_status_history_def split: if_splits)

lemma insert_change_history_Inr:
  assumes "insert_change_history row env db = Inr db'"
  shows "db' = db\<lparr>changeHistories := changeHistories db @ [row\<lparr>ch_id := nextId db, ch_createdAt := dbNow env\<rparr>],
      nextId := Suc (nextId db)\<rparr>"
    and "find_room_time db (ch_fromRoomTimeId row) \<noteq> None"
    and "find_room_time db (ch_toRoomTimeId row) \<noteq> None"
  using assms by (auto simp: insert_change_history_def split: if_splits)

lemma save_booking_Inr:
  assumes "save_booking e env db = Inr (s, db')" "e \<notin> set (bookings db)"
  shows "s = saved_row e env" "booking_checks s" "booking_references db s"
    "db' = db\<lparr>bookings := update_where (\<lambda>r. b_id r = b_id e) (\<lambda>_. s) (bookings db)\<rparr>"
  using assms by (auto simp: save_booking_def saved_row_def Let_def split: if_splits)

lemma unsaved_entity:
  assumes "wf_db db" "b \<in> set (bookings db)" "b_id e = b_id b" "e \<noteq> b"
  shows "e \<notin> set (bookings db)"
  using assms distinct_key_eq [of b_id "bookings db" e b] by (auto simp: wf_db_def wf_bookings_def)

lemma find_booking_Some:
  assumes "find_booking db pid = Some b"
  shows "b \<in> set (bookings db)" and "b_publicId b = pid"
  using assms by (auto simp: find_booking_def dest: find_SomeD)

lemma appendTransitionAndOutbox_Inr:
  assumes "appendTransitionAndOutbox cfg s actor reason ty room env db = Inr db'"
  shows "db' = db\<lparr>statusHistories := statusHistories db @
      [\<lparr>sh_id = nextId db, sh_bookingId = b_id s, sh_fromStatus = Some Pending, sh_toStatus = b_status s,
        sh_actorType = ActorAdmin, sh_actorUserId = Some actor, sh_reason = reason, sh_createdAt = dbNow env\<rparr>],
      outboxEvents := outboxEvents db @ stream_events cfg s room (Some Pending) None env
        @ [mail_event cfg s ty room reason None env],
      nextId := Suc (nextId db)\<rparr>"
proof -
  from assms obtain d1 d2 where
    1: "insert_status_history (b_id s) (Some Pending) (b_status s) ActorAdmin actor reason env db = Inr d1" and
    2: "record_change (streamEnabled cfg) \<lparr>lc_booking = s, lc_roomId = r_id room, lc_roomTypeId = r_roomTypeId room,
          lc_fromStatus = Some Pending, lc_previousStay = None\<rparr> env d1 = Inr d2" and
    3: "insertOutbox s ty room reason None (mail_uuid cfg env) env d2 = Inr db'"
    by (auto simp: appendTransitionAndOutbox_def step_simps)
  show ?thesis
    unfolding insertOutbox_Inr [OF 3] record_change_Inr [OF 2] insert_status_history_Inr(1) [OF 1] stream_events_def
    by simp
qed

subsection \<open>Effects of the transactions\<close>

text \<open>
  Each lemma says what a successful transaction did: it replayed and changed nothing, or it
  replaced one row and appended the audit row and the events of that change.
\<close>

lemma room_of_window_cong:
  "roomTimes d = roomTimes db \<Longrightarrow> rooms d = rooms db \<Longrightarrow> room_of_window d i = room_of_window db i"
  by (simp add: room_of_window_def find_room_time_def find_room_def split: option.split)

lemma cancelOwn_effect:
  assumes "wf_db db" "cancelOwn_tx cfg actor pid env db = Inr (replayed, db')"
  obtains b where "b \<in> set (bookings db)" "b_publicId b = pid" "b_userId b = actor"
    "replayed" "b_status b = CancelledByUser" "db' = db"
  | b s where "b \<in> set (bookings db)" "b_publicId b = pid" "b_userId b = actor" "\<not> replayed"
    "b_status b = Pending" "s = saved_row (b\<lparr>b_status := CancelledByUser\<rparr>) env"
    "booking_saved db s db'"
    "history_appended db (b_id b) (Some Pending) CancelledByUser ActorUser actor None env db'"
    "\<exists>room. outboxEvents db' = outboxEvents db @ stream_events cfg s room (Some Pending) None env"
proof -
  obtain b where f: "List.find (\<lambda>b. b_publicId b = pid \<and> b_userId b = actor) (bookings db) = Some b"
    using assms(2) by (auto simp: cancelOwn_tx_def step_simps)
  then have b: "b \<in> set (bookings db)" "b_publicId b = pid" "b_userId b = actor" by (auto dest: find_SomeD)
  show ?thesis
  proof (cases "b_status b = CancelledByUser")
    case True
    then have "replayed" "db' = db" using assms(2) by (simp_all add: cancelOwn_tx_def f)
    then show ?thesis using that(1) b True by blast
  next
    case False
    let ?e = "b\<lparr>b_status := CancelledByUser\<rparr>"
    from False assms(2) obtain s d1 d2 where st: "b_status b = Pending" and r: "\<not> replayed"
      and 1: "save_booking ?e env db = Inr (s, d1)"
      and 2: "insert_status_history (b_id b) (Some Pending) CancelledByUser ActorUser actor None env d1 = Inr d2"
      and 3: "recordLifecycleByRoomTime cfg s Pending env d2 = Inr db'"
      by (auto simp: cancelOwn_tx_def f and_then_Inr_iff split: if_splits)
    have "?e \<notin> set (bookings db)" by (rule unsaved_entity [OF assms(1) b(1)]) (use st in \<open>auto dest: arg_cong [where f = b_status]\<close>)
    note s = save_booking_Inr [OF 1 this]
    obtain room where 4: "db' = d2\<lparr>outboxEvents := outboxEvents d2 @ stream_events cfg s room (Some Pending) None env\<rparr>"
      using 3 by (auto simp: recordLifecycleByRoomTime_def stream_events_def step_simps dest!: record_change_Inr split: if_splits)
    show ?thesis
      by (rule that(2) [OF b r st, of s])
        (use s insert_status_history_Inr(1) [OF 2] 4 in
          \<open>auto simp: booking_saved_def same_catalogue_def history_appended_def saved_row_def\<close>)
  qed
qed

lemma approve_effect:
  assumes "wf_db db" "approve_tx cfg sn actor pid env db = Inr (replayed, db')"
  obtains b where "find_booking db pid = Some b" "replayed" "b_status b = Confirmed" "db' = db"
  | b s room where "find_booking db pid = Some b" "\<not> replayed" "b_status b = Pending"
    "find_room db (sn_roomId sn) = Some room"
    "b_roomTimeId b = sn_roomTimeId sn" "b_version b = sn_version sn"
    "\<exists>w. find_room_window db (b_roomTimeId b) (r_id room) = Some w \<and> w_status w = TimeActive
      \<and> w_availableFrom w \<le> b_checkIn b \<and> b_checkOut b \<le> w_availableTo w"
    "assertNoConfirmedOverlap db (r_id room) (b_id b) (b_checkIn b) (b_checkOut b) = Inr ()"
    "s = saved_row (b\<lparr>b_status := Confirmed\<rparr>) env" "booking_saved db s db'"
    "history_appended db (b_id b) (Some Pending) Confirmed ActorAdmin actor None env db'"
    "outboxEvents db' = outboxEvents db @ stream_events cfg s room (Some Pending) None env
      @ [mail_event cfg s ''booking.confirmed'' room None None env]"
proof -
  obtain b room where f: "find_booking db pid = Some b" and room: "find_room db (sn_roomId sn) = Some room"
    using assms(2) by (auto simp: approve_tx_def lockRoom_def step_simps)
  note b = find_booking_Some [OF f]
  show ?thesis
  proof (cases "b_status b = Confirmed")
    case True
    then have "replayed" "db' = db" using assms(2) by (simp_all add: approve_tx_def lockRoom_def f room)
    then show ?thesis using that(1) f True by blast
  next
    case False
    let ?e = "b\<lparr>b_status := Confirmed\<rparr>"
    from False assms(2) obtain s d1 w where st: "b_status b = Pending" and r: "\<not> replayed"
      and sn: "b_roomTimeId b = sn_roomTimeId sn" "b_version b = sn_version sn"
      and w: "find_room_window db (b_roomTimeId b) (r_id room) = Some w" "w_status w = TimeActive"
        "w_availableFrom w \<le> b_checkIn b" "b_checkOut b \<le> w_availableTo w"
      and o: "assertNoConfirmedOverlap db (r_id room) (b_id b) (b_checkIn b) (b_checkOut b) = Inr ()"
      and 1: "save_booking ?e env db = Inr (s, d1)"
      and 2: "appendTransitionAndOutbox cfg s actor None ''booking.confirmed'' room env d1 = Inr db'"
      by (auto simp: approve_tx_def lockRoom_def f room and_then_Inr_iff not_less split: if_splits option.splits)
    have "?e \<notin> set (bookings db)"
      by (rule unsaved_entity [OF assms(1) b(1)]) (use st in \<open>auto dest: arg_cong [where f = b_status]\<close>)
    note s = save_booking_Inr [OF 1 this]
    show ?thesis
      by (rule that(2) [OF f r st room sn _ o, of s])
        (use s w appendTransitionAndOutbox_Inr [OF 2] in
          \<open>auto simp: booking_saved_def same_catalogue_def history_appended_def saved_row_def\<close>)
  qed
qed

lemma reject_effect:
  assumes "wf_db db" "reject_tx cfg actor pid reason env db = Inr (replayed, db')"
  obtains b where "find_booking db pid = Some b" "replayed" "b_status b = Rejected"
      "b_rejectionReason b = Some reason" "db' = db"
  | b s room where "find_booking db pid = Some b" "\<not> replayed" "b_status b = Pending"
    "room_of_window db (b_roomTimeId b) = Inr room"
    "s = saved_row (b\<lparr>b_status := Rejected, b_rejectionReason := Some reason\<rparr>) env" "booking_saved db s db'"
    "history_appended db (b_id b) (Some Pending) Rejected ActorAdmin actor (Some reason) env db'"
    "outboxEvents db' = outboxEvents db @ stream_events cfg s room (Some Pending) None env
      @ [mail_event cfg s ''booking.rejected'' room (Some reason) None env]"
proof -
  obtain b where f: "find_booking db pid = Some b"
    using assms(2) by (auto simp: reject_tx_def step_simps)
  note b = find_booking_Some [OF f]
  show ?thesis
  proof (cases "b_status b = Rejected")
    case True
    then have "replayed" "db' = db" "b_rejectionReason b = Some reason"
      using assms(2) by (simp_all add: reject_tx_def f split: if_splits)
    then show ?thesis using that(1) f True by blast
  next
    case False
    let ?e = "b\<lparr>b_status := Rejected, b_rejectionReason := Some reason\<rparr>"
    from False assms(2) obtain s d1 room where st: "b_status b = Pending" and r: "\<not> replayed"
      and 1: "save_booking ?e env db = Inr (s, d1)" and room: "room_of_window d1 (b_roomTimeId b) = Inr room"
      and 2: "appendTransitionAndOutbox cfg s actor (Some reason) ''booking.rejected'' room env d1 = Inr db'"
      by (auto simp: reject_tx_def f and_then_Inr_iff split: if_splits)
    have "?e \<notin> set (bookings db)"
      by (rule unsaved_entity [OF assms(1) b(1)]) (use st in \<open>auto dest: arg_cong [where f = b_status]\<close>)
    note s = save_booking_Inr [OF 1 this]
    have "room_of_window db (b_roomTimeId b) = Inr room"
      using room s room_of_window_cong [of d1 db] by simp
    then show ?thesis
      by (rule that(2) [OF f r st, of room s])
        (use s appendTransitionAndOutbox_Inr [OF 2] in
          \<open>auto simp: booking_saved_def same_catalogue_def history_appended_def saved_row_def\<close>)
  qed
qed

lemma cancelAdmin_effect:
  assumes "wf_db db" "cancelAdmin_tx cfg actor pid reason env db = Inr (replayed, db')"
  obtains b where "find_booking db pid = Some b" "replayed" "b_status b = CancelledByAdmin" "db' = db"
    "\<exists>h. latest_admin_cancellation db (b_id b) = Some h \<and> sh_reason h = Some reason"
  | b s room where "find_booking db pid = Some b" "\<not> replayed" "b_status b \<in> {Pending, Confirmed}"
    "room_of_window db (b_roomTimeId b) = Inr room"
    "s = saved_row (b\<lparr>b_status := CancelledByAdmin\<rparr>) env" "booking_saved db s db'"
    "history_appended db (b_id b) (Some (b_status b)) CancelledByAdmin ActorAdmin actor (Some reason) env db'"
    "outboxEvents db' = outboxEvents db @ stream_events cfg s room (Some (b_status b)) None env
      @ [mail_event cfg s ''booking.cancelled_by_admin'' room (Some reason) None env]"
proof -
  obtain b where f: "find_booking db pid = Some b"
    using assms(2) by (auto simp: cancelAdmin_tx_def step_simps)
  note b = find_booking_Some [OF f]
  show ?thesis
  proof (cases "b_status b = CancelledByAdmin")
    case True
    then have "replayed" "db' = db"
      "\<exists>h. latest_admin_cancellation db (b_id b) = Some h \<and> sh_reason h = Some reason"
      using assms(2) by (auto simp: cancelAdmin_tx_def f split: if_splits option.splits)
    then show ?thesis using that(1) f True by blast
  next
    case False
    let ?e = "b\<lparr>b_status := CancelledByAdmin\<rparr>"
    from False assms(2) obtain s d1 room d2 d3 where st: "b_status b \<in> {Pending, Confirmed}" and r: "\<not> replayed"
      and 1: "save_booking ?e env db = Inr (s, d1)" and room: "room_of_window d1 (b_roomTimeId b) = Inr room"
      and 2: "insert_status_history (b_id b) (Some (b_status b)) CancelledByAdmin ActorAdmin actor (Some reason) env d1 = Inr d2"
      and 3: "record_change (streamEnabled cfg) \<lparr>lc_booking = s, lc_roomId = r_id room,
        lc_roomTypeId = r_roomTypeId room, lc_fromStatus = Some (b_status b), lc_previousStay = None\<rparr> env d2 = Inr d3"
      and 4: "insertOutbox s ''booking.cancelled_by_admin'' room (Some reason) None (mail_uuid cfg env) env d3 = Inr db'"
      by (auto simp: cancelAdmin_tx_def f and_then_Inr_iff Let_def split: if_splits)
    have "?e \<notin> set (bookings db)"
      by (rule unsaved_entity [OF assms(1) b(1)]) (use st in \<open>auto dest: arg_cong [where f = b_status]\<close>)
    note s = save_booking_Inr [OF 1 this]
    have "room_of_window db (b_roomTimeId b) = Inr room"
      using room s room_of_window_cong [of d1 db] by simp
    then show ?thesis
      by (rule that(2) [OF f r st, of room s])
        (use s insert_status_history_Inr(1) [OF 2] record_change_Inr [OF 3] insertOutbox_Inr [OF 4] in
          \<open>auto simp: booking_saved_def same_catalogue_def history_appended_def saved_row_def stream_events_def\<close>)
  qed
qed

lemma find_window_Some:
  assumes "find_window db roomId a z = Some w"
  shows "w \<in> set (roomTimes db)" "w_roomId w = roomId" "w_status w = TimeActive"
    "w_availableFrom w \<le> a" "z \<le> w_availableTo w"
  using find_first_by_Some(1,2) [OF assms [unfolded find_window_def]] by auto

lemma lock_rooms_Inr:
  "lock_rooms db ids = Inr locked \<Longrightarrow> i \<in> set ids \<Longrightarrow> \<exists>r. locked i = Some r \<and> find_room db i = Some r"
  by (induction ids arbitrary: locked) (auto simp: step_simps lockRoom_def)

lemma find_room_Some: "find_room db i = Some r \<Longrightarrow> r \<in> set (rooms db) \<and> r_id r = i"
  by (auto simp: find_room_def dest: find_SomeD)

lemma moved_entity:
  assumes "wf_db db" "b \<in> set (bookings db)" and w: "find_window db dest_id ci co = Some w"
    and source: "find_room_window db (b_roomTimeId b) source_id \<noteq> None"
    and moved: "\<not> (dest_id = source_id \<and> ci = b_checkIn b \<and> co = b_checkOut b)"
  shows "b\<lparr>b_roomTimeId := w_id w, b_checkIn := ci, b_checkOut := co\<rparr> \<notin> set (bookings db)" (is "?e \<notin> _")
proof (rule unsaved_entity [OF assms(1,2)])
  show "b_id ?e = b_id b" by simp
  show "?e \<noteq> b"
  proof
    assume e: "?e = b"
    from arg_cong [OF e, of b_checkIn] arg_cong [OF e, of b_checkOut] arg_cong [OF e, of b_roomTimeId]
    have "ci = b_checkIn b" "co = b_checkOut b" "w_id w = b_roomTimeId b" by simp_all
    with source moved obtain w' where "dest_id \<noteq> source_id" "w' \<in> set (roomTimes db)" "w_id w' = w_id w"
      "w_roomId w' = source_id" by (auto simp: find_room_window_def dest: find_SomeD)
    moreover have "w \<in> set (roomTimes db)" "w_roomId w = dest_id" using find_window_Some [OF w] by auto
    ultimately show False using assms(1) distinct_key_eq [of w_id "roomTimes db" w w']
      by (auto simp: wf_db_def wf_catalogue_def)
  qed
qed

lemma updateAdmin_effect:
  assumes "wf_db db" "updateAdmin_tx cfg sn actor pid version body env db = Inr (u, db')"
  obtains b s dest source w dest_id where "find_booking db pid = Some b" "b_status b \<in> {Pending, Confirmed}"
    "show_nat (b_version b) = version" "b_roomTimeId b = sn_roomTimeId sn"
    "find_room_window db (b_roomTimeId b) (sn_roomId sn) \<noteq> None"
    "dest_id = (case ub_roomId body of None \<Rightarrow> sn_roomId sn | Some r \<Rightarrow> r)"
    "find_room db dest_id = Some dest" "r_status dest = RoomActive" "find_room db (sn_roomId sn) = Some source"
    "s = saved_row (b\<lparr>b_roomTimeId := w_id w,
        b_checkIn := (case ub_checkIn body of None \<Rightarrow> b_checkIn b | Some d \<Rightarrow> d),
        b_checkOut := (case ub_checkOut body of None \<Rightarrow> b_checkOut b | Some d \<Rightarrow> d)\<rparr>) env"
    "\<not> (dest_id = sn_roomId sn \<and> b_checkIn s = b_checkIn b \<and> b_checkOut s = b_checkOut b)"
    "assertBookingDates (hotelToday env) (b_checkIn s) (b_checkOut s) \<noteq> 0"
    "find_window db dest_id (b_checkIn s) (b_checkOut s) = Some w"
    "b_status b = Confirmed \<Longrightarrow>
       assertNoConfirmedOverlap db dest_id (b_id b) (b_checkIn s) (b_checkOut s) = Inr ()"
    "booking_saved db s db'" "statusHistories db' = statusHistories db"
    "\<exists>i. nextId db \<le> i \<and> i < nextId db' \<and> changeHistories db' = changeHistories db @
      [\<lparr>ch_id = i, ch_bookingId = b_id b, ch_actorUserId = actor,
        ch_fromRoomTimeId = b_roomTimeId b, ch_toRoomTimeId = w_id w, ch_fromCheckIn = b_checkIn b,
        ch_fromCheckOut = b_checkOut b, ch_toCheckIn = b_checkIn s, ch_toCheckOut = b_checkOut s,
        ch_reason = ub_reason body, ch_createdAt = dbNow env\<rparr>]"
    "outboxEvents db' = outboxEvents db @ stream_events cfg s dest (Some (b_status s))
        (Some \<lparr>ls_roomId = show_nat (sn_roomId sn), ls_roomTypeId = show_nat (r_roomTypeId source),
               ls_checkIn = b_checkIn b, ls_checkOut = b_checkOut b\<rparr>) env
      @ [mail_event cfg s ''booking.changed'' dest (Some (ub_reason body))
          (Some \<lparr>before_roomId = sn_roomId sn, before_checkIn = b_checkIn b, before_checkOut = b_checkOut b,
                 after_roomId = dest_id, after_checkIn = b_checkIn s, after_checkOut = b_checkOut s\<rparr>) env]"
proof -
  define dest_id where "dest_id = (case ub_roomId body of None \<Rightarrow> sn_roomId sn | Some r \<Rightarrow> r)"
  obtain locked b where l: "lock_rooms db (orderedUniqueRoomIds [sn_roomId sn, dest_id]) = Inr locked"
    and f: "find_booking db pid = Some b"
    using assms(2) by (auto simp: updateAdmin_tx_def Let_def dest_id_def step_simps)
  note b = find_booking_Some [OF f]
  obtain dest source where dest: "locked dest_id = Some dest" "find_room db dest_id = Some dest"
    and source: "locked (sn_roomId sn) = Some source" "find_room db (sn_roomId sn) = Some source"
    using lock_rooms_Inr [OF l, of dest_id] lock_rooms_Inr [OF l, of "sn_roomId sn"] by auto
  define ci where "ci = (case ub_checkIn body of None \<Rightarrow> b_checkIn b | Some d \<Rightarrow> d)"
  define co where "co = (case ub_checkOut body of None \<Rightarrow> b_checkOut b | Some d \<Rightarrow> d)"
  note unf = assms(2) [unfolded updateAdmin_tx_def Let_def, folded dest_id_def, unfolded l and_then_simps
      f or_throw_simps, folded ci_def co_def, unfolded dest source option.case or_throw_simps and_then_simps]
  then have g: "show_nat (b_version b) = version" "b_roomTimeId b = sn_roomTimeId sn"
    "find_room_window db (b_roomTimeId b) (sn_roomId sn) \<noteq> None" "b_status b \<in> {Pending, Confirmed}"
    "\<not> (dest_id = sn_roomId sn \<and> ci = b_checkIn b \<and> co = b_checkOut b)"
    "assertBookingDates (hotelToday env) ci co \<noteq> 0" "r_status dest = RoomActive"
    by (auto split: if_splits)
  have ng: "(b_status b \<notin> set [Pending, Confirmed]) = False" using g(4) by simp
  obtain w s d1 d2 d3 where w: "find_window db dest_id ci co = Some w"
    and o: "b_status b = Confirmed \<Longrightarrow> assertNoConfirmedOverlap db dest_id (b_id b) ci co = Inr ()"
    and 1: "save_booking (b\<lparr>b_roomTimeId := w_id w, b_checkIn := ci, b_checkOut := co\<rparr>) env db = Inr (s, d1)"
    and 2: "insert_change_history \<lparr>ch_id = 0, ch_bookingId = b_id s, ch_actorUserId = actor,
        ch_fromRoomTimeId = b_roomTimeId b, ch_toRoomTimeId = w_id w, ch_fromCheckIn = b_checkIn b,
        ch_fromCheckOut = b_checkOut b, ch_toCheckIn = ci, ch_toCheckOut = co,
        ch_reason = ub_reason body, ch_createdAt = 0\<rparr> env d1 = Inr d2"
    and 3: "record_change (streamEnabled cfg) \<lparr>lc_booking = s, lc_roomId = r_id dest,
        lc_roomTypeId = r_roomTypeId dest, lc_fromStatus = Some (b_status s),
        lc_previousStay = Some \<lparr>ls_roomId = show_nat (sn_roomId sn),
          ls_roomTypeId = show_nat (r_roomTypeId source), ls_checkIn = b_checkIn b,
          ls_checkOut = b_checkOut b\<rparr>\<rparr> env d2 = Inr d3"
    and 4: "insertOutbox s ''booking.changed'' dest (Some (ub_reason body))
        (Some \<lparr>before_roomId = sn_roomId sn, before_checkIn = b_checkIn b, before_checkOut = b_checkOut b,
               after_roomId = dest_id, after_checkIn = ci, after_checkOut = co\<rparr>) (mail_uuid cfg env) env d3 = Inr db'"
    using unf g by (auto simp: and_then_Inr_iff or_throw_Inr_iff split: if_splits)
  have "b\<lparr>b_roomTimeId := w_id w, b_checkIn := ci, b_checkOut := co\<rparr> \<notin> set (bookings db)"
    by (rule moved_entity [OF assms(1) b(1) w g(3,5)])
  note s = save_booking_Inr [OF 1 this]
  have sd: "b_checkIn s = ci" "b_checkOut s = co" "b_id s = b_id b" using s(1) by (simp_all add: saved_row_def)
  show ?thesis
    by (rule that [OF f g(4,1,2,3) dest_id_def dest(2) g(7) source(2), of s w])
      (use s w o g sd insert_change_history_Inr(1) [OF 2] record_change_Inr [OF 3] insertOutbox_Inr [OF 4] in
        \<open>auto simp: booking_saved_def same_catalogue_def stream_events_def ci_def co_def\<close>)
qed

lemma createPendingBooking_Inr:
  assumes "createPendingBooking actor w input (r_basePriceAmount room * nat nights) (r_currency room) env db = Inr (b, db')"
  shows "\<exists>publicId st. createMonotonicBookingId (jsNow env div 1000) (ulidRandom env) (ulidState env) = Inr (publicId, st)
      \<and> b = new_booking actor input room w nights publicId (nextId db) env"
    and "\<forall>b' \<in> set (bookings db). b_publicId b' \<noteq> b_publicId b"
    and "booking_checks b" "booking_references db b"
    and "db' = db\<lparr>bookings := bookings db @ [b], statusHistories := statusHistories db @
      [\<lparr>sh_id = Suc (nextId db), sh_bookingId = b_id b, sh_fromStatus = None, sh_toStatus = Pending,
        sh_actorType = ActorUser, sh_actorUserId = Some actor, sh_reason = None, sh_createdAt = dbNow env\<rparr>],
      nextId := Suc (Suc (nextId db))\<rparr>"
  using assms
  by (auto simp: createPendingBooking_def and_then_Inr_iff insert_booking_def Let_def new_booking_def
      dest!: insert_status_history_Inr(1) split: if_splits)

lemma create_effect:
  assumes "wf_keys db"
    and "createInTransaction cfg actor key fp input env db = Inr ((response, replayed), db')"
  defines "li \<equiv> \<lparr>il_actorUserId = actor, il_operation = bookingCreateOperation,
                 il_idempotencyKey = key, il_fingerprint = fp\<rparr>"
  obtains row where "replayed" "db' = db" "row \<in> set (idempotencyKeys db)" "claims li row"
    "ik_requestFingerprint row = fp" "ik_status row = KeyCompleted" "ik_responseBody row = Some response"
  | row d0 room w nights b roomType where "\<not> replayed"
    "lock_key (retentionHours cfg) li env db = Inr (row, d0)" "ik_status row = KeyPending"
    "nights = assertBookingDates (hotelToday env) (ci_checkIn input) (ci_checkOut input)" "0 < nights"
    "find_room db (ci_roomId input) = Some room" "r_status room = RoomActive"
    "find_window db (ci_roomId input) (ci_checkIn input) (ci_checkOut input) = Some w"
    "find_room_type db (r_roomTypeId room) = Some roomType"
    "\<exists>publicId st. createMonotonicBookingId (jsNow env div 1000) (ulidRandom env) (ulidState env) = Inr (publicId, st)
      \<and> b = new_booking actor input room w nights publicId (nextId d0) env"
    "\<forall>b' \<in> set (bookings db). b_publicId b' \<noteq> b_publicId b"
    "booking_checks b" "booking_references db b" "bookings db' = bookings db @ [b]" "same_catalogue db db'"
    "history_appended db (b_id b) None Pending ActorUser actor None env db'"
    "outboxEvents db' = outboxEvents db @ stream_events cfg b room None None env"
    "response = toCreateResponse b room roomType nights"
    "idempotencyKeys db' = idempotencyKeys (complete_key (ik_id row) 201 response d0)"
    "nextId d0 < nextId db'"
proof -
  obtain row d0 where lock: "lock_key (retentionHours cfg) li env db = Inr (row, d0)"
    using assms(2) by (auto simp: createInTransaction_def li_def and_then_Inr_iff)
  note row = lock_key_Inr [OF lock]
  have d0: "same_catalogue db d0" "bookings d0 = bookings db" "statusHistories d0 = statusHistories db"
    "changeHistories d0 = changeHistories db" "outboxEvents d0 = outboxEvents db"
    by (rule claim_row_cases [OF row(4)]; simp add: same_catalogue_def)+
  have look: "find_room d0 i = find_room db i" "find_room_type d0 i = find_room_type db i"
    "find_window d0 i x y = find_window db i x y" "booking_references d0 b = booking_references db b" for i x y b
    using d0(1) by (simp_all add: same_catalogue_def find_room_def find_room_type_def find_window_def
        booking_references_def user_exists_def find_room_time_def)
  show ?thesis
  proof (cases "ik_status row = KeyCompleted")
    case True
    have "d0 = db"
      using row(4) by (cases rule: claim_row_cases) (use True row(1,2) in auto)
    then have "row \<in> set (idempotencyKeys db)" "d0 = db" using row(1) by simp_all
    moreover have "\<exists>body. ik_responseBody row = Some body"
      using calculation(1) assms(1) True by (auto simp: wf_keys_def completed_check_def)
    ultimately show ?thesis
      using True assms(2) lock row that(1) by (auto simp: createInTransaction_def li_def)
  next
    case False
    then have pending: "ik_status row = KeyPending" by (cases "ik_status row") auto
    define nights where "nights = assertBookingDates (hotelToday env) (ci_checkIn input) (ci_checkOut input)"
    obtain room w b d1 d2 roomType where n: "nights \<noteq> 0" and r: "\<not> replayed"
      and t: "lockBookingTarget input d0 = Inr (room, w)"
      and 1: "createPendingBooking actor w input (r_basePriceAmount room * nat nights) (r_currency room) env d0 = Inr (b, d1)"
      and 2: "record_change (streamEnabled cfg) \<lparr>lc_booking = b, lc_roomId = r_id room,
        lc_roomTypeId = r_roomTypeId room, lc_fromStatus = None, lc_previousStay = None\<rparr> env d1 = Inr d2"
      and rt: "find_room_type d2 (r_roomTypeId room) = Some roomType"
      and resp: "response = toCreateResponse b room roomType nights"
      and db': "db' = complete_key (ik_id row) 201 response d2"
      using assms(2) lock pending
      by (auto simp: createInTransaction_def li_def nights_def Let_def and_then_Inr_iff or_throw_Inr_iff split: if_splits)
    note c = createPendingBooking_Inr [OF 1] and d2 = record_change_Inr [OF 2]
    have "0 < nights" using n assertBookingDates_nonneg by (simp add: nights_def less_le)
    moreover have "find_room db (ci_roomId input) = Some room" "r_status room = RoomActive"
      "find_window db (ci_roomId input) (ci_checkIn input) (ci_checkOut input) = Some w"
      using t look find_room_Some [of d0 "ci_roomId input" room]
      by (auto simp: lockBookingTarget_def lockRoom_def step_simps split: if_splits)
    moreover have "find_room_type db (r_roomTypeId room) = Some roomType"
      using rt look(2) d2 c(5) by (simp add: find_room_type_def)
    ultimately show ?thesis
      using that(2) [OF r lock pending nights_def _ _ _ _ _ c(1)] c(2-5) d2 d0 look resp db'
      by (simp add: complete_key_def same_catalogue_def history_appended_def stream_events_def)
  qed
qed

text \<open>The order of the checks of a create, as a specification.\<close>

definition create_refusal :: "tx_env \<Rightarrow> BookingCreateInput \<Rightarrow> hotel_db \<Rightarrow> error option" where
  "create_refusal env input db =
     (let nights = assertBookingDates (hotelToday env) (ci_checkIn input) (ci_checkOut input) in
      if nights = 0 then Some bookingsErrors_stayInvalid
      else case find_room db (ci_roomId input) of
             None \<Rightarrow> Some bookingsErrors_roomNotFound
           | Some room \<Rightarrow>
               if r_status room \<noteq> RoomActive then Some bookingsErrors_roomNotFound
               else if find_window db (r_id room) (ci_checkIn input) (ci_checkOut input) = None
               then Some bookingsErrors_windowUnavailable
               else if number_max_safe_integer < r_basePriceAmount room * nat nights
               then Some bookingsErrors_priceOutOfRange
               else None)"

lemma create_stored:
  assumes "wf_keys db" "createInTransaction cfg actor key fp input env db = Inr ((response, replayed), db')"
  obtains row where "row \<in> set (idempotencyKeys db')"
    "claims \<lparr>il_actorUserId = actor, il_operation = bookingCreateOperation, il_idempotencyKey = key, il_fingerprint = fp\<rparr> row"
    "ik_requestFingerprint row = fp" "ik_status row = KeyCompleted" "ik_responseBody row = Some response"
  using assms
proof (cases rule: create_effect)
  case (2 row d0 room w nights b roomType)
  note row = lock_key_Inr [OF 2(2)]
  let ?r = "row\<lparr>ik_status := KeyCompleted, ik_responseStatus := Some 201, ik_responseBody := Some response\<rparr>"
  have "?r \<in> set (idempotencyKeys db')" using complete_key_row [OF row(1)] 2(19) by simp
  then show ?thesis by (rule that) (use row in \<open>simp_all add: claims_def\<close>)
qed (use that in blast)

end
