(* ===== verification/Inventory.thy ===== *)
theory Inventory
  imports Booking_Effects
begin

text \<open>
  The inventory invariant: the active windows of a room do not overlap, every pending or confirmed
  booking lies inside an active window of its room, and no two confirmed stays of a room meet. Every
  transaction of bookings/bookings.service.ts, rooms/room-times.service.ts, rooms/rooms.service.ts
  and rooms/reference-catalog.service.ts keeps it, whatever the database was when a snapshot was read.
\<close>

subsection \<open>The invariants\<close>

definition live :: "booking_row \<Rightarrow> bool" where
  "live b \<longleftrightarrow> b_status b \<in> {Pending, Confirmed}"

text \<open>Half-open stays do not meet: one ends on or before the day the other begins.\<close>

definition stays_disjoint :: "booking_row \<Rightarrow> booking_row \<Rightarrow> bool" where
  "stays_disjoint a b \<longleftrightarrow> b_checkOut a \<le> b_checkIn b \<or> b_checkOut b \<le> b_checkIn a"

definition no_double_booking :: "hotel_db \<Rightarrow> bool" where
  "no_double_booking db \<longleftrightarrow>
     (\<forall>a \<in> set (bookings db). \<forall>b \<in> set (bookings db).
        b_id a \<noteq> b_id b \<and> b_status a = Confirmed \<and> b_status b = Confirmed
        \<and> booking_room db a = booking_room db b \<longrightarrow> stays_disjoint a b)"

definition windows_disjoint :: "hotel_db \<Rightarrow> bool" where
  "windows_disjoint db \<longleftrightarrow>
     (\<forall>v \<in> set (roomTimes db). \<forall>w \<in> set (roomTimes db).
        w_id v \<noteq> w_id w \<and> w_roomId v = w_roomId w \<and> w_status v = TimeActive \<and> w_status w = TimeActive
        \<longrightarrow> w_availableTo v \<le> w_availableFrom w \<or> w_availableTo w \<le> w_availableFrom v)"

text \<open>A window that still carries a booking.\<close>

definition holds :: "room_time_row \<Rightarrow> booking_row \<Rightarrow> bool" where
  "holds w b \<longleftrightarrow>
     w_id w = b_roomTimeId b \<and> w_status w = TimeActive
     \<and> w_availableFrom w \<le> b_checkIn b \<and> b_checkOut b \<le> w_availableTo w"

definition live_in_window :: "hotel_db \<Rightarrow> bool" where
  "live_in_window db \<longleftrightarrow>
     (\<forall>b \<in> set (bookings db). live b \<longrightarrow> (\<exists>w \<in> set (roomTimes db). holds w b))"

definition inventory :: "hotel_db \<Rightarrow> bool" where
  "inventory db \<longleftrightarrow>
     wf_db db \<and> windows_disjoint db \<and> live_in_window db \<and> no_double_booking db"

text \<open>What the writes of windows and of the catalogue leave alone, and what the catalogue must satisfy.\<close>

definition windows_written :: "hotel_db \<Rightarrow> hotel_db \<Rightarrow> bool" where
  "windows_written db db' \<longleftrightarrow>
     users db' = users db \<and> roomTypes db' = roomTypes db \<and> rooms db' = rooms db
     \<and> bookings db' = bookings db \<and> changeHistories db' = changeHistories db \<and> nextId db \<le> nextId db'"

definition bookings_untouched :: "hotel_db \<Rightarrow> hotel_db \<Rightarrow> bool" where
  "bookings_untouched db db' \<longleftrightarrow>
     users db' = users db \<and> roomTimes db' = roomTimes db \<and> bookings db' = bookings db
     \<and> changeHistories db' = changeHistories db \<and> nextId db \<le> nextId db'"

definition wf_rooms :: "hotel_db \<Rightarrow> bool" where
  "wf_rooms db \<longleftrightarrow>
     distinct (map rt_id (roomTypes db)) \<and> distinct (map r_id (rooms db))
     \<and> (\<forall>i \<in> rt_id ` set (roomTypes db). i < nextId db)
     \<and> (\<forall>r \<in> set (rooms db). r_id r < nextId db \<and> room_checks r
          \<and> r_roomTypeId r \<in> rt_id ` set (roomTypes db))
     \<and> (\<forall>w \<in> set (roomTimes db). w_roomId w \<in> r_id ` set (rooms db))"

subsection \<open>Writes of bookings\<close>

lemma same_catalogue_lookups:
  assumes "same_catalogue db db'"
  shows "find_room_time db' = find_room_time db" "find_room db' = find_room db"
    "find_room_type db' = find_room_type db" "booking_room db' = booking_room db"
    "booking_references db' = booking_references db" "user_exists db' = user_exists db"
  using assms by (auto simp: same_catalogue_def find_room_time_def find_room_def find_room_type_def
      booking_room_def booking_references_def user_exists_def fun_eq_iff)

lemma bookings_inventory:
  assumes "inventory db" "same_catalogue db db'"
    and "distinct (map b_id (bookings db'))" "distinct (map b_publicId (bookings db'))"
    and "\<And>b. b \<in> set (bookings db') \<Longrightarrow> b_id b < nextId db' \<and> booking_checks b \<and> booking_references db b
      \<and> (live b \<longrightarrow> (\<exists>w \<in> set (roomTimes db). holds w b))"
    and "\<And>c. c \<in> set (changeHistories db') \<Longrightarrow> find_room_time db (ch_fromRoomTimeId c) \<noteq> None
          \<and> find_room_time db (ch_toRoomTimeId c) \<noteq> None"
    and "\<And>a b. a \<in> set (bookings db') \<Longrightarrow> b \<in> set (bookings db') \<Longrightarrow> b_id a \<noteq> b_id b \<Longrightarrow>
      b_status a = Confirmed \<Longrightarrow> b_status b = Confirmed \<Longrightarrow> booking_room db a = booking_room db b \<Longrightarrow>
      stays_disjoint a b"
  shows "inventory db'"
proof -
  note look = same_catalogue_lookups [OF assms(2)]
  have eq: "roomTypes db' = roomTypes db" "rooms db' = rooms db" "roomTimes db' = roomTimes db"
    "nextId db \<le> nextId db'" using assms(2) by (simp_all add: same_catalogue_def)
  have "wf_catalogue db'"
    using assms(1) eq unfolding inventory_def wf_db_def wf_catalogue_def look by (auto dest: order_less_le_trans)
  moreover have "wf_bookings db'"
    using assms(3,4,5,6) by (simp add: wf_bookings_def look)
  moreover have "windows_disjoint db'" using assms(1) by (simp add: inventory_def windows_disjoint_def eq)
  moreover have "live_in_window db'" using assms(5) by (simp add: live_in_window_def eq)
  moreover have "no_double_booking db'" using assms(7) by (auto simp: no_double_booking_def look)
  ultimately show ?thesis by (simp add: inventory_def wf_db_def)
qed

lemma inventoryD:
  assumes "inventory db"
  shows "wf_db db" "distinct (map b_id (bookings db))" "distinct (map b_publicId (bookings db))"
    "distinct (map w_id (roomTimes db))" "distinct (map r_id (rooms db))"
    "\<And>b. b \<in> set (bookings db) \<Longrightarrow> b_id b < nextId db \<and> booking_checks b \<and> booking_references db b"
    "\<And>b. b \<in> set (bookings db) \<Longrightarrow> live b \<Longrightarrow> \<exists>w \<in> set (roomTimes db). holds w b"
    "\<And>c. c \<in> set (changeHistories db) \<Longrightarrow> find_room_time db (ch_fromRoomTimeId c) \<noteq> None
          \<and> find_room_time db (ch_toRoomTimeId c) \<noteq> None"
    "\<And>a b. a \<in> set (bookings db) \<Longrightarrow> b \<in> set (bookings db) \<Longrightarrow> b_id a \<noteq> b_id b \<Longrightarrow>
      b_status a = Confirmed \<Longrightarrow> b_status b = Confirmed \<Longrightarrow> booking_room db a = booking_room db b \<Longrightarrow>
      stays_disjoint a b"
  using assms unfolding inventory_def wf_db_def wf_catalogue_def wf_bookings_def live_in_window_def
    no_double_booking_def by blast+

lemma find_room_time_unique:
  "distinct (map w_id (roomTimes db)) \<Longrightarrow> w \<in> set (roomTimes db) \<Longrightarrow> find_room_time db (w_id w) = Some w"
  unfolding find_room_time_def by (rule find_unique)

lemma stays_disjoint_sym: "stays_disjoint a b \<Longrightarrow> stays_disjoint b a"
  by (auto simp: stays_disjoint_def)

text \<open>A replaced row keeps the inventory when it is held by a window and, once confirmed, meets no other.\<close>

lemma booking_saved_inventory:
  assumes inv: "inventory db" and b: "b \<in> set (bookings db)" and saved: "booking_saved db s db'"
    and ids: "b_id s = b_id b" "b_publicId s = b_publicId b"
    and changes: "\<And>c. c \<in> set (changeHistories db') \<Longrightarrow> find_room_time db (ch_fromRoomTimeId c) \<noteq> None
          \<and> find_room_time db (ch_toRoomTimeId c) \<noteq> None"
    and window: "live s \<Longrightarrow> \<exists>w \<in> set (roomTimes db). holds w s"
    and apart: "\<And>c. b_status s = Confirmed \<Longrightarrow> c \<in> set (bookings db) \<Longrightarrow> b_id c \<noteq> b_id s \<Longrightarrow>
      b_status c = Confirmed \<Longrightarrow> booking_room db c = booking_room db s \<Longrightarrow> stays_disjoint c s"
  shows "inventory db'"
proof -
  note I = inventoryD [OF inv]
  have cat: "same_catalogue db db'" and checks: "booking_checks s" "booking_references db s"
    and rows: "bookings db' = update_where (\<lambda>r. b_id r = b_id s) (\<lambda>_. s) (bookings db)"
    using saved by (simp_all add: booking_saved_def)
  have nxt: "nextId db \<le> nextId db'" using cat by (simp add: same_catalogue_def)
  have mem: "x \<in> set (bookings db') \<Longrightarrow> x = s \<or> (x \<in> set (bookings db) \<and> b_id x \<noteq> b_id s)" for x
    by (auto simp: rows row_simps)
  have pub: "r \<in> set (bookings db) \<Longrightarrow> b_id r = b_id s \<Longrightarrow> b_publicId s = b_publicId r" for r
    using distinct_key_eq [OF I(2) _ b] ids by auto
  show ?thesis
  proof (rule bookings_inventory [OF inv cat])
    have "map b_id (bookings db') = map b_id (bookings db)" unfolding rows update_where_def by auto
    then show "distinct (map b_id (bookings db'))" using I(2) by simp
    have "map b_publicId (bookings db') = map b_publicId (bookings db)"
      unfolding rows update_where_def using pub by auto
    then show "distinct (map b_publicId (bookings db'))" using I(3) by simp
  next
    fix x assume "x \<in> set (bookings db')"
    then show "b_id x < nextId db' \<and> booking_checks x \<and> booking_references db x
      \<and> (live x \<longrightarrow> (\<exists>w \<in> set (roomTimes db). holds w x))"
      using mem I(6,7) checks window ids b nxt by (metis order_less_le_trans)
  next
    fix x y assume "x \<in> set (bookings db')" "y \<in> set (bookings db')" "b_id x \<noteq> b_id y" "b_status x = Confirmed"
      "b_status y = Confirmed" "booking_room db x = booking_room db y"
    then show "stays_disjoint x y"
      using mem [of x] mem [of y] I(9) apart stays_disjoint_sym by metis
  qed (rule changes)
qed

lemma no_overlap_disjoint:
  assumes "assertNoConfirmedOverlap db roomId i ci co = Inr ()"
    and "c \<in> set (bookings db)" "b_id c \<noteq> i" "b_status c = Confirmed" "booking_room db c = Some roomId"
    and "b_checkIn s = ci" "b_checkOut s = co"
  shows "stays_disjoint c s"
  using assms
  by (auto simp: assertNoConfirmedOverlap_def require_Inr_iff confirmedOverlapCondition_def
      stays_disjoint_def not_less)

text \<open>A transition out of the live statuses keeps the inventory.\<close>

lemma terminal_inventory:
  assumes "inventory db" "b \<in> set (bookings db)" "booking_saved db s db'" "b_id s = b_id b"
    "b_publicId s = b_publicId b" "changeHistories db' = changeHistories db" "\<not> live s"
  shows "inventory db'"
  by (rule booking_saved_inventory [OF assms(1-5)])
    (use assms inventoryD(8) [OF assms(1)] in \<open>auto simp: live_def\<close>)

lemma cancelOwn_inventory:
  assumes "inventory db" "cancelOwn_tx cfg actor pid env db = Inr (r, db')"
  shows "inventory db'"
proof (rule cancelOwn_effect [OF inventoryD(1) [OF assms(1)] assms(2)])
  fix b s assume "b \<in> set (bookings db)" "s = saved_row (b\<lparr>b_status := CancelledByUser\<rparr>) env"
    "booking_saved db s db'"
    "history_appended db (b_id b) (Some Pending) CancelledByUser ActorUser actor None env db'"
  then show ?thesis
    by (intro terminal_inventory [OF assms(1), of b s]) (auto simp: saved_row_def live_def history_appended_def)
qed (use assms in auto)

lemma reject_inventory:
  assumes "inventory db" "reject_tx cfg actor pid reason env db = Inr (r, db')"
  shows "inventory db'"
proof (rule reject_effect [OF inventoryD(1) [OF assms(1)] assms(2)])
  fix b s assume "find_booking db pid = Some b"
    "s = saved_row (b\<lparr>b_status := Rejected, b_rejectionReason := Some reason\<rparr>) env" "booking_saved db s db'"
    "history_appended db (b_id b) (Some Pending) Rejected ActorAdmin actor (Some reason) env db'"
  then show ?thesis
    by (intro terminal_inventory [OF assms(1), of b s])
      (auto simp: saved_row_def live_def history_appended_def dest: find_booking_Some)
qed (use assms in auto)

lemma cancelAdmin_inventory:
  assumes "inventory db" "cancelAdmin_tx cfg actor pid reason env db = Inr (r, db')"
  shows "inventory db'"
proof (rule cancelAdmin_effect [OF inventoryD(1) [OF assms(1)] assms(2)])
  fix b s assume "find_booking db pid = Some b"
    "s = saved_row (b\<lparr>b_status := CancelledByAdmin\<rparr>) env" "booking_saved db s db'"
    "history_appended db (b_id b) (Some (b_status b)) CancelledByAdmin ActorAdmin actor (Some reason) env db'"
  then show ?thesis
    by (intro terminal_inventory [OF assms(1), of b s])
      (auto simp: saved_row_def live_def history_appended_def dest: find_booking_Some)
qed (use assms in auto)

lemma room_window_room:
  assumes "distinct (map w_id (roomTimes db))" "find_room_window db (b_roomTimeId b) roomId = Some w"
  shows "booking_room db b = Some roomId" "w \<in> set (roomTimes db)" "w_id w = b_roomTimeId b"
  using assms find_room_time_unique [of db w]
  by (auto simp: booking_room_def find_room_window_def dest: find_SomeD)

lemma approve_inventory:
  assumes "inventory db" "approve_tx cfg sn actor pid env db = Inr (r, db')"
  shows "inventory db'"
proof (rule approve_effect [OF inventoryD(1) [OF assms(1)] assms(2)])
  fix b s room assume f: "find_booking db pid = Some b"
    and w: "\<exists>w. find_room_window db (b_roomTimeId b) (r_id room) = Some w \<and> w_status w = TimeActive
      \<and> w_availableFrom w \<le> b_checkIn b \<and> b_checkOut b \<le> w_availableTo w"
    and o: "assertNoConfirmedOverlap db (r_id room) (b_id b) (b_checkIn b) (b_checkOut b) = Inr ()"
    and s: "s = saved_row (b\<lparr>b_status := Confirmed\<rparr>) env" "booking_saved db s db'"
    and h: "history_appended db (b_id b) (Some Pending) Confirmed ActorAdmin actor None env db'"
  obtain w where w: "find_room_window db (b_roomTimeId b) (r_id room) = Some w" "w_status w = TimeActive"
    "w_availableFrom w \<le> b_checkIn b" "b_checkOut b \<le> w_availableTo w" using w by blast
  note rw = room_window_room [OF inventoryD(4) [OF assms(1)] w(1)]
  have room: "booking_room db s = Some (r_id room)" using rw(1) by (simp add: s saved_row_def booking_room_def)
  have "holds w s" using rw w by (simp add: s saved_row_def holds_def)
  then show ?thesis
    using s h rw room no_overlap_disjoint [OF o, of _ s] inventoryD(8) [OF assms(1)]
    by (intro booking_saved_inventory [OF assms(1) find_booking_Some(1) [OF f] s(2)])
      (auto simp: saved_row_def history_appended_def)
qed (use assms in auto)

lemma updateAdmin_inventory:
  assumes "inventory db" "updateAdmin_tx cfg sn actor pid version body env db = Inr (u, db')"
  shows "inventory db'"
proof (rule updateAdmin_effect [OF inventoryD(1) [OF assms(1)] assms(2)])
  fix b s w dest_id
  assume f: "find_booking db pid = Some b"
    and s: "s = saved_row (b\<lparr>b_roomTimeId := w_id w,
        b_checkIn := (case ub_checkIn body of None \<Rightarrow> b_checkIn b | Some d \<Rightarrow> d),
        b_checkOut := (case ub_checkOut body of None \<Rightarrow> b_checkOut b | Some d \<Rightarrow> d)\<rparr>) env"
    and win: "find_window db dest_id (b_checkIn s) (b_checkOut s) = Some w"
    and o: "b_status b = Confirmed \<Longrightarrow>
       assertNoConfirmedOverlap db dest_id (b_id b) (b_checkIn s) (b_checkOut s) = Inr ()"
    and saved: "booking_saved db s db'"
    and c: "\<exists>i. nextId db \<le> i \<and> i < nextId db' \<and> changeHistories db' = changeHistories db @
      [\<lparr>ch_id = i, ch_bookingId = b_id b, ch_actorUserId = actor,
        ch_fromRoomTimeId = b_roomTimeId b, ch_toRoomTimeId = w_id w, ch_fromCheckIn = b_checkIn b,
        ch_fromCheckOut = b_checkOut b, ch_toCheckIn = b_checkIn s, ch_toCheckOut = b_checkOut s,
        ch_reason = ub_reason body, ch_createdAt = dbNow env\<rparr>]"
  note I = inventoryD [OF assms(1)] and b = find_booking_Some(1) [OF f] and w = find_window_Some [OF win]
  have fields: "b_id s = b_id b" "b_publicId s = b_publicId b" "b_status s = b_status b" "b_roomTimeId s = w_id w"
    by (simp_all add: s saved_row_def)
  have tw: "find_room_time db (w_id w) = Some w" by (rule find_room_time_unique [OF I(4) w(1)])
  then have room: "booking_room db s = Some dest_id" using w(2) fields(4) by (simp add: booking_room_def)
  have "holds w s" using w fields by (simp add: holds_def)
  show ?thesis
  proof (rule booking_saved_inventory [OF assms(1) b saved fields(1,2)])
    fix x assume "x \<in> set (changeHistories db')"
    then show "find_room_time db (ch_fromRoomTimeId x) \<noteq> None \<and> find_room_time db (ch_toRoomTimeId x) \<noteq> None"
      using c I(8) [of x] I(6) [OF b] tw by (auto simp: booking_references_def)
  qed (use \<open>holds w s\<close> w room fields o no_overlap_disjoint [of db dest_id "b_id b" _ _ _ s] in auto)
qed

lemma create_inventory:
  assumes "inventory db" "wf_keys db"
    and "createInTransaction cfg actor key fp input env db = Inr ((response, r), db')"
  shows "inventory db'"
  using assms(2,3)
proof (cases rule: create_effect)
  case (2 row d0 room w nights b roomType)
  note I = inventoryD [OF assms(1)] and w = find_window_Some [OF 2(8)]
  obtain pid where b: "b = new_booking actor input room w nights pid (nextId d0) env" using 2(10) by blast
  have d0: "nextId db \<le> nextId d0"
    by (rule claim_row_cases [OF lock_key_Inr(4) [OF 2(2)]]) auto
  have "holds w b" using w by (simp add: b new_booking_def holds_def)
  have fresh: "x \<in> set (bookings db) \<Longrightarrow> b_id x < b_id b" for x
    using I(6) [of x] d0 by (simp add: b new_booking_def)
  have st: "b_status b = Pending" "b_id b < nextId db'" using 2(20) by (simp_all add: b new_booking_def)
  have nx: "nextId db \<le> nextId db'" using 2(15) by (simp add: same_catalogue_def)
  show ?thesis
  proof (rule bookings_inventory [OF assms(1) 2(15)])
    show "distinct (map b_id (bookings db'))" using I(2) fresh 2(14) by fastforce
    show "distinct (map b_publicId (bookings db'))" using I(3) 2(11,14) by fastforce
  next
    fix x assume "x \<in> set (bookings db')"
    then consider "x \<in> set (bookings db)" | "x = b" using 2(14) by auto
    then show "b_id x < nextId db' \<and> booking_checks x \<and> booking_references db x
      \<and> (live x \<longrightarrow> (\<exists>w \<in> set (roomTimes db). holds w x))"
      using I(6,7) [of x] nx st 2(12,13) \<open>holds w b\<close> w(1) by cases auto
  next
    fix x y assume "x \<in> set (bookings db')" "y \<in> set (bookings db')" "b_id x \<noteq> b_id y" "b_status x = Confirmed"
      "b_status y = Confirmed" "booking_room db x = booking_room db y"
    then show "stays_disjoint x y" using I(9) 2(14) st by auto
  next
    fix c assume "c \<in> set (changeHistories db')"
    then show "find_room_time db (ch_fromRoomTimeId c) \<noteq> None \<and> find_room_time db (ch_toRoomTimeId c) \<noteq> None"
      using I(8) [of c] 2(16) by (simp add: history_appended_def)
  qed
qed (use assms in auto)

subsection \<open>Writes of windows\<close>

lemma windows_inventory:
  assumes inv: "inventory db" and same: "windows_written db db'"
    and dist: "distinct (map w_id (roomTimes db'))"
    and rows: "\<And>w. w \<in> set (roomTimes db') \<Longrightarrow> w_id w < nextId db' \<and> w_availableFrom w < w_availableTo w
      \<and> find_room db (w_roomId w) \<noteq> None"
    and disj: "windows_disjoint db'"
    and kept: "\<And>w. w \<in> set (roomTimes db) \<Longrightarrow> window_referenced db (w_id w) \<Longrightarrow>
      \<exists>w' \<in> set (roomTimes db'). w_id w' = w_id w \<and> w_roomId w' = w_roomId w"
    and held: "\<And>b. b \<in> set (bookings db) \<Longrightarrow> live b \<Longrightarrow> \<exists>w \<in> set (roomTimes db'). holds w b"
  shows "inventory db'"
proof -
  note I = inventoryD [OF inv]
  have look: "find_room db' = find_room db" "find_room_type db' = find_room_type db" "user_exists db' = user_exists db"
    using same by (auto simp: windows_written_def find_room_def find_room_type_def user_exists_def fun_eq_iff)
  have time: "\<exists>w'. find_room_time db' i = Some w' \<and> w_roomId w' = w_roomId w"
    if r: "window_referenced db i" and t: "find_room_time db i = Some w" for i w
  proof -
    from t have "w \<in> set (roomTimes db)" "w_id w = i" by (auto simp: find_room_time_def dest: find_SomeD)
    then obtain w' where "w' \<in> set (roomTimes db')" "w_id w' = i" "w_roomId w' = w_roomId w"
      using kept [of w] r by blast
    then show ?thesis using find_room_time_unique [OF dist] by auto
  qed
  have ref: "window_referenced db (b_roomTimeId b)" if "b \<in> set (bookings db)" for b
    using that by (auto simp: window_referenced_def)
  have room: "booking_room db' b = booking_room db b" if b: "b \<in> set (bookings db)" for b
  proof -
    obtain w where "find_room_time db (b_roomTimeId b) = Some w"
      using I(6) [OF b] by (auto simp: booking_references_def)
    then show ?thesis using time [OF ref [OF b]] by (fastforce simp: booking_room_def)
  qed
  have "wf_catalogue db'"
    using inv same dist rows unfolding inventory_def wf_db_def wf_catalogue_def look windows_written_def
    by (auto dest: order_less_le_trans)
  moreover have "wf_bookings db'"
  proof -
    have "booking_references db' b" if "b \<in> set (bookings db)" for b
      using I(6) [OF that] time [OF ref [OF that]] by (fastforce simp: booking_references_def look)
    moreover have "find_room_time db' (ch_fromRoomTimeId c) \<noteq> None \<and> find_room_time db' (ch_toRoomTimeId c) \<noteq> None"
      if c: "c \<in> set (changeHistories db)" for c
    proof -
      have "window_referenced db (ch_fromRoomTimeId c)" "window_referenced db (ch_toRoomTimeId c)"
        using c by (auto simp: window_referenced_def)
      then show ?thesis using I(8) [OF c] time by fastforce
    qed
    ultimately show ?thesis
      using I(2,3,6) same by (fastforce simp: wf_bookings_def windows_written_def)
  qed
  moreover have "live_in_window db'" using held same by (simp add: live_in_window_def windows_written_def)
  moreover have "no_double_booking db'"
    using I(9) room same by (auto simp: no_double_booking_def windows_written_def)
  ultimately show ?thesis using disj by (simp add: inventory_def wf_db_def)
qed

lemma inventory_windows:
  assumes "inventory db"
  shows "windows_disjoint db"
    "\<And>w. w \<in> set (roomTimes db) \<Longrightarrow> w_id w < nextId db \<and> w_availableFrom w < w_availableTo w
      \<and> find_room db (w_roomId w) \<noteq> None"
  using assms by (auto simp: inventory_def wf_db_def wf_catalogue_def)

lemma no_active_overlap:
  assumes "assertNoActiveOverlap db roomId (room_time_state s) x = Inr ()" "w_status s = TimeActive"
    "w \<in> set (roomTimes db)" "w_roomId w = roomId" "w_status w = TimeActive"
    "case x of None \<Rightarrow> True | Some i \<Rightarrow> w_id w \<noteq> i"
  shows "w_availableTo s \<le> w_availableFrom w \<or> w_availableTo w \<le> w_availableFrom s"
  using assms
  by (auto simp: assertNoActiveOverlap_def room_time_state_def require_Inr_iff not_less split: if_splits)

lemma create_room_time_inventory:
  assumes "inventory db" "create_room_time roomId body env db = Inr (r, db')"
  shows "inventory db'"
proof -
  note I = inventoryD [OF assms(1)] and W = inventory_windows [OF assms(1)]
  define candidate where "candidate = \<lparr>ts_availableFrom = cw_availableFrom body, ts_availableTo = cw_availableTo body,
    ts_status = (case cw_status body of None \<Rightarrow> TimeActive | Some s \<Rightarrow> s)\<rparr>"
  obtain w where o: "assertNoActiveOverlap db roomId candidate None = Inr ()"
    and ins: "insert_room_time roomId candidate env db = Inr (w, db')"
    using assms(2) by (auto simp: create_room_time_def candidate_def Let_def and_then_Inr_iff)
  have w: "w_id w = nextId db" "w_roomId w = roomId" "w_availableFrom w < w_availableTo w"
    "find_room db roomId \<noteq> None" "room_time_state w = candidate"
    and db': "db' = db\<lparr>roomTimes := roomTimes db @ [w], nextId := Suc (nextId db)\<rparr>"
    using ins by (auto simp: insert_room_time_def room_time_state_def Let_def not_le split: if_splits)
  have fresh: "v \<in> set (roomTimes db) \<Longrightarrow> w_id v \<noteq> w_id w" for v using W(2) [of v] w(1) by auto
  show ?thesis
  proof (rule windows_inventory [OF assms(1)])
    show "windows_written db db'" by (simp add: db' windows_written_def)
    show "distinct (map w_id (roomTimes db'))" using I(4) fresh unfolding db' by fastforce
    show "windows_disjoint db'"
      unfolding windows_disjoint_def
    proof (intro ballI impI, elim conjE)
      fix u v assume uv: "u \<in> set (roomTimes db')" "v \<in> set (roomTimes db')" "w_id u \<noteq> w_id v"
        "w_roomId u = w_roomId v" "w_status u = TimeActive" "w_status v = TimeActive"
      then show "w_availableTo u \<le> w_availableFrom v \<or> w_availableTo v \<le> w_availableFrom u"
        using W(1) no_active_overlap [OF o [folded w(5)], of u] no_active_overlap [OF o [folded w(5)], of v] w(2)
        by (auto simp: db' windows_disjoint_def)
    qed
  qed (use W w I(7) in \<open>auto simp: db' less_Suc_eq\<close>)
qed

lemma update_room_time_inventory:
  assumes "inventory db" "update_room_time findByRoomTimeIds roomId i body env db = Inr (r, db')"
  shows "inventory db'"
proof (rule booking_usage.update_room_time_Inr [OF assms(2)])
  fix w s
  assume f: "find_room_window db i roomId = Some w"
    and s: "s = w\<lparr>w_availableFrom := (case uw_availableFrom body of None \<Rightarrow> w_availableFrom w | Some d \<Rightarrow> d),
      w_availableTo := (case uw_availableTo body of None \<Rightarrow> w_availableTo w | Some d \<Rightarrow> d),
      w_status := (case uw_status body of None \<Rightarrow> w_status w | Some s \<Rightarrow> s)\<rparr>"
    and range: "w_availableFrom s < w_availableTo s"
    and dates: "window_referenced db i \<Longrightarrow> w_availableFrom s = w_availableFrom w \<and> w_availableTo s = w_availableTo w"
    and status: "(\<exists>b \<in> set (bookings db). b_roomTimeId b = i \<and> b_status b \<in> {Pending, Confirmed}) \<Longrightarrow>
      w_status w = TimeActive \<Longrightarrow> w_status s = TimeActive"
    and o: "assertNoActiveOverlap db roomId (room_time_state s) (Some i) = Inr ()"
    and save: "\<exists>s'. save_room_time s env db = Inr (s', db')"
  note I = inventoryD [OF assms(1)] and W = inventory_windows [OF assms(1)]
  have w: "w \<in> set (roomTimes db)" "w_id w = i" "w_roomId w = roomId"
    using f by (auto simp: find_room_window_def dest: find_SomeD)
  show ?thesis
  proof (cases "s \<in> set (roomTimes db)")
    case True
    then show ?thesis using save assms(1) by (simp add: save_room_time_def)
  next
    case False
    define t where "t = s\<lparr>w_updatedAt := dbNow env\<rparr>"
    have t: "w_id t = i" "w_roomId t = roomId" "w_availableFrom t = w_availableFrom s"
      "w_availableTo t = w_availableTo s" "w_status t = w_status s" "room_time_state t = room_time_state s"
      using w by (simp_all add: t_def s room_time_state_def)
    have db': "db' = db\<lparr>roomTimes := update_where (\<lambda>r. w_id r = i) (\<lambda>_. t) (roomTimes db)\<rparr>"
      using save False w(2) by (auto simp: save_room_time_def t_def s Let_def split: if_splits)
    have mem: "x \<in> set (roomTimes db') \<longleftrightarrow> x = t \<or> (x \<in> set (roomTimes db) \<and> w_id x \<noteq> i)" for x
      using w by (auto simp: db' row_simps)
    show ?thesis
    proof (rule windows_inventory [OF assms(1)])
      show "windows_written db db'" by (simp add: db' windows_written_def)
      have "map w_id (roomTimes db') = map w_id (roomTimes db)" using t(1) by (auto simp: db' update_where_def)
      then show "distinct (map w_id (roomTimes db'))" using I(4) by simp
      show "windows_disjoint db'"
        unfolding windows_disjoint_def
      proof (intro ballI impI, elim conjE)
        fix u v assume uv: "u \<in> set (roomTimes db')" "v \<in> set (roomTimes db')" "w_id u \<noteq> w_id v"
          "w_roomId u = w_roomId v" "w_status u = TimeActive" "w_status v = TimeActive"
        then show "w_availableTo u \<le> w_availableFrom v \<or> w_availableTo v \<le> w_availableFrom u"
          using W(1) no_active_overlap [OF o [folded t(6)], of u] no_active_overlap [OF o [folded t(6)], of v] t(1,2)
          by (auto simp: mem windows_disjoint_def)
      qed
    next
      fix b assume b: "b \<in> set (bookings db)" "live b"
      then obtain x where x: "x \<in> set (roomTimes db)" "holds x b" using I(7) by blast
      show "\<exists>w \<in> set (roomTimes db'). holds w b"
      proof (cases "w_id x = i")
        case True
        then have "x = w" using distinct_key_eq [OF I(4) x(1) w(1)] w(2) by simp
        moreover have "window_referenced db i" using b True x(2) by (auto simp: window_referenced_def holds_def)
        ultimately have "holds t b" using x(2) t w dates status b by (auto simp: holds_def live_def)
        then show ?thesis using mem by blast
      qed (use x mem in blast)
    next
      fix x assume "x \<in> set (roomTimes db')"
      then show "w_id x < nextId db' \<and> w_availableFrom x < w_availableTo x \<and> find_room db (w_roomId x) \<noteq> None"
        using mem [of x] W(2) [of x] W(2) [OF w(1)] w t range by (auto simp: db')
    next
      fix x assume "x \<in> set (roomTimes db)"
      then show "\<exists>w' \<in> set (roomTimes db'). w_id w' = w_id x \<and> w_roomId w' = w_roomId x"
        using mem t w distinct_key_eq [OF I(4) _ w(1), of x] by (cases "w_id x = i") auto
    qed
  qed
qed

lemma delete_windows_inventory:
  assumes "inventory db" "windows_written db db'" "roomTimes db' = delete_where P (roomTimes db)"
    and unused: "\<And>w. w \<in> set (roomTimes db) \<Longrightarrow> P w \<Longrightarrow> \<not> window_referenced db (w_id w)"
  shows "inventory db'"
proof -
  note I = inventoryD [OF assms(1)] and W = inventory_windows [OF assms(1)]
  have mem: "x \<in> set (roomTimes db') \<longleftrightarrow> x \<in> set (roomTimes db) \<and> \<not> P x" for x
    by (simp add: assms(3) row_simps)
  show ?thesis
  proof (rule windows_inventory [OF assms(1,2)])
    show "distinct (map w_id (roomTimes db'))"
      unfolding assms(3) delete_where_def using I(4) by (rule distinct_map_filter)
    show "windows_disjoint db'" using W(1) by (auto simp: windows_disjoint_def mem)
    fix b assume b: "b \<in> set (bookings db)" "live b"
    then obtain x where x: "x \<in> set (roomTimes db)" "holds x b" using I(7) by blast
    then have "window_referenced db (w_id x)" using b by (auto simp: window_referenced_def holds_def)
    then show "\<exists>w \<in> set (roomTimes db'). holds w b" using x unused mem by blast
  next
    fix w assume "w \<in> set (roomTimes db')"
    then show "w_id w < nextId db' \<and> w_availableFrom w < w_availableTo w \<and> find_room db (w_roomId w) \<noteq> None"
      using W(2) mem assms(2) by (auto simp: windows_written_def dest: order_less_le_trans)
  qed (use unused mem in blast)
qed

lemma delete_room_time_inventory:
  assumes "inventory db" "delete_room_time findByRoomTimeIds roomId i db = Inr (r, db')"
  shows "inventory db'"
  by (rule delete_windows_inventory [OF assms(1), of db' "\<lambda>w. w_id w = i"])
    (use assms(2) in \<open>auto simp: booking_usage.delete_room_time_Inr windows_written_def\<close>)

subsection \<open>Writes of the catalogue\<close>

lemma find_key_iff: "List.find (\<lambda>x. key x = i) rows \<noteq> None \<longleftrightarrow> i \<in> key ` set rows"
  by (auto simp: find_None_iff)

lemma wf_rooms_wf_catalogue:
  "wf_catalogue db \<longleftrightarrow> wf_rooms db \<and> distinct (map w_id (roomTimes db))
   \<and> (\<forall>w \<in> set (roomTimes db). w_id w < nextId db \<and> w_availableFrom w < w_availableTo w)"
  unfolding wf_catalogue_def wf_rooms_def find_room_type_def find_room_def find_key_iff by blast

lemma inventory_wf_rooms: "inventory db \<Longrightarrow> wf_rooms db"
  by (simp add: inventory_def wf_db_def wf_rooms_wf_catalogue)

lemma catalogue_inventory:
  assumes inv: "inventory db" and same: "bookings_untouched db db'" and wf: "wf_rooms db'"
  shows "inventory db'"
proof -
  have eq: "users db' = users db" "roomTimes db' = roomTimes db" "bookings db' = bookings db"
    "changeHistories db' = changeHistories db" "nextId db \<le> nextId db'"
    using same by (simp_all add: bookings_untouched_def)
  have look: "find_room_time db' = find_room_time db" "booking_room db' = booking_room db"
    "booking_references db' = booking_references db"
    by (auto simp: eq find_room_time_def booking_room_def booking_references_def user_exists_def fun_eq_iff)
  have "wf_catalogue db'"
    using inv wf eq by (auto simp: inventory_def wf_db_def wf_rooms_wf_catalogue dest: order_less_le_trans)
  moreover have "wf_bookings db'"
    using inv eq by (auto simp: inventory_def wf_db_def wf_bookings_def look dest: order_less_le_trans)
  ultimately show ?thesis
    using inv by (simp add: inventory_def wf_db_def windows_disjoint_def live_in_window_def
        no_double_booking_def eq look)
qed

lemma createRoomType_inventory:
  assumes "inventory db" "createRoomType collate name description env db = Inr (t, db')"
  shows "inventory db'"
  by (rule catalogue_inventory [OF assms(1)])
    (use assms(2) inventory_wf_rooms [OF assms(1)] in
      \<open>fastforce simp: createRoomType_def bookings_untouched_def wf_rooms_def Let_def less_Suc_eq split: if_splits\<close>)+

lemma updateRoomType_inventory:
  assumes "inventory db" "updateRoomType collate i name description env db = Inr (t, db')"
  shows "inventory db'"
proof -
  from assms(2) obtain v where v: "find_room_type db i = Some v"
    by (auto simp: updateRoomType_def step_simps split: if_splits)
  then have id: "rt_id v = i" by (auto simp: find_room_type_def dest: find_SomeD)
  have t: "rt_id t = i \<and> (db' = db \<or>
    db' = db\<lparr>roomTypes := update_where (\<lambda>t. rt_id t = i) (\<lambda>_. t) (roomTypes db)\<rparr>)"
    using assms(2) v id by (auto simp: updateRoomType_def Let_def split: if_splits)
  then consider "db' = db" | "rt_id t = i"
    "db' = db\<lparr>roomTypes := update_where (\<lambda>t. rt_id t = i) (\<lambda>_. t) (roomTypes db)\<rparr>" by blast
  then show ?thesis
  proof cases
    case 2
    have m: "map rt_id (roomTypes db') = map rt_id (roomTypes db)"
      using 2 map_update_key [of rt_id t i] by simp
    then have e: "rt_id ` set (roomTypes db') = rt_id ` set (roomTypes db)" by (metis list.set_map)
    have "wf_rooms db'"
      using inventory_wf_rooms [OF assms(1)] unfolding wf_rooms_def m e by (simp add: 2(2))
    then show ?thesis by (rule catalogue_inventory [OF assms(1), rotated]) (simp add: 2 bookings_untouched_def)
  qed (use assms in simp)
qed

lemma deleteRoomType_inventory:
  assumes "inventory db" "deleteRoomType i db = Inr (u, db')"
  shows "inventory db'"
  by (rule catalogue_inventory [OF assms(1)])
    (use assms(2) inventory_wf_rooms [OF assms(1)] in
      \<open>fastforce simp: deleteRoomType_def bookings_untouched_def wf_rooms_def step_simps affected_zero_iff
        row_simps delete_where_def distinct_map_filter split: if_splits\<close>)+

lemma write_room_checks_Inr:
  "write_room_checks collate db room = Inr u \<longleftrightarrow>
   (\<forall>r \<in> set (rooms db). r_id r \<noteq> r_id room \<longrightarrow> collate (r_roomNumber r) \<noteq> collate (r_roomNumber room))
   \<and> room_checks room \<and> r_roomTypeId room \<in> rt_id ` set (roomTypes db)"
  using find_key_iff [of rt_id "r_roomTypeId room" "roomTypes db"]
  by (auto simp: write_room_checks_def find_room_type_def)

lemma replaceAmenityAssignments_Inr:
  "replaceAmenityAssignments roomId ids db = Inr db' \<Longrightarrow> \<exists>rows. db' = db\<lparr>roomAmenities := rows\<rparr>"
  by (auto simp: replaceAmenityAssignments_def Let_def split: if_splits)

lemma catch_database_Inr [simp]: "catch_database code thrown x = Inr v \<longleftrightarrow> x = Inr v"
  by (cases x) (auto simp: catch_database_def)

lemma create_room_inventory:
  assumes "inventory db" "create_room collate body env db = Inr (r, db')"
  shows "inventory db'"
proof -
  obtain room rt ams where r: "r = (room, rt, ams)" by (cases r) auto
  have room: "r_id room = nextId db" "write_room_checks collate db room = Inr ()"
    and "\<exists>rows. db' = db\<lparr>rooms := rooms db @ [room], nextId := Suc (nextId db), roomAmenities := rows\<rparr>"
    using assms(2)
    by (auto simp: create_room_def and_then_Inr_iff Let_def r dest!: replaceAmenityAssignments_Inr)
  then obtain rows
    where db': "db' = db\<lparr>rooms := rooms db @ [room], nextId := Suc (nextId db), roomAmenities := rows\<rparr>"
    by blast
  have "nextId db \<notin> r_id ` set (rooms db)"
    using inventory_wf_rooms [OF assms(1)] by (auto simp: wf_rooms_def)
  then have "wf_rooms db'"
    using room inventory_wf_rooms [OF assms(1)]
    by (simp add: db' wf_rooms_def write_room_checks_Inr less_Suc_eq)
  then show ?thesis by (rule catalogue_inventory [OF assms(1), rotated]) (simp add: db' bookings_untouched_def)
qed

lemma update_room_Inr:
  assumes "update_room collate i version body env db = Inr ((saved, roomType, ams), db')"
  obtains room rows where "find_room db i = Some room" "show_nat (r_version room) = version"
    "saved = (patched_room body room)\<lparr>r_version := Suc (r_version room), r_updatedAt := dbNow env\<rparr>"
    "write_room_checks collate db saved = Inr ()"
    "db' = db\<lparr>roomAmenities := rows, rooms := update_where (\<lambda>r. r_id r = i) (\<lambda>_. saved) (rooms db)\<rparr>"
proof -
  obtain room d1 where f: "find_room db i = Some room" "show_nat (r_version room) = version"
    and a: "(case ur_amenityIds body of
                   None \<Rightarrow> Inr db
                 | Some ids \<Rightarrow>
                     let currentIds = set_spread (map ra_amenityId
                           (filter (\<lambda>ra. ra_roomId ra = i) (roomAmenities db))) in
                     if length currentIds \<noteq> length ids \<or> (\<exists>i \<in> set ids. i \<notin> set currentIds)
                     then replaceAmenityAssignments (r_id room) ids db else Inr db) = Inr d1"
    and w: "write_room_checks collate d1 saved = Inr ()"
    and s: "saved = (patched_room body room)\<lparr>r_version := Suc (r_version room), r_updatedAt := dbNow env\<rparr>"
    and db': "db' = d1\<lparr>rooms := update_where (\<lambda>r. r_id r = r_id room) (\<lambda>_. saved) (rooms d1)\<rparr>"
    using assms by (auto simp: update_room_def lockRoom_def step_simps Let_def split: if_splits)
  have id: "r_id room = i" using find_room_Some [OF f(1)] by simp
  obtain rows where d1: "d1 = db\<lparr>roomAmenities := rows\<rparr>"
  proof (cases "d1 = db")
    case False
    then obtain ids where "replaceAmenityAssignments (r_id room) ids db = Inr d1"
      using a by (auto simp: Let_def split: option.splits if_splits)
    then show ?thesis using replaceAmenityAssignments_Inr that by blast
  qed (use that [of "roomAmenities db"] in simp)
  have "write_room_checks collate db saved = Inr ()" using w by (simp add: d1 write_room_checks_Inr)
  then show ?thesis using that [OF f s] db' d1 id by simp
qed

lemma update_room_inventory:
  assumes "inventory db" "update_room collate i version body env db = Inr (r, db')"
  shows "inventory db'"
proof -
  obtain saved rt ams where "r = (saved, rt, ams)" by (cases r) auto
  with assms(2) have u: "update_room collate i version body env db = Inr ((saved, rt, ams), db')" by simp
  show ?thesis
    using u
  proof (rule update_room_Inr)
    fix room rows assume f: "find_room db i = Some room"
      and s: "saved = (patched_room body room)\<lparr>r_version := Suc (r_version room), r_updatedAt := dbNow env\<rparr>"
      and w: "write_room_checks collate db saved = Inr ()"
      and db': "db' = db\<lparr>roomAmenities := rows, rooms := update_where (\<lambda>r. r_id r = i) (\<lambda>_. saved) (rooms db)\<rparr>"
    have id: "r_id saved = i" using find_room_Some [OF f] by (simp add: s patched_room_def)
    have m: "map r_id (rooms db') = map r_id (rooms db)" using map_update_key [of r_id saved i] id by (simp add: db')
    then have i: "r_id ` set (rooms db') = r_id ` set (rooms db)" by (metis list.set_map)
    have "wf_rooms db'"
      using inventory_wf_rooms [OF assms(1)] m i w find_room_Some [OF f] id unfolding wf_rooms_def
      by (auto simp: db' row_simps write_room_checks_Inr)
    then show ?thesis by (rule catalogue_inventory [OF assms(1), rotated]) (simp add: db' bookings_untouched_def)
  qed
qed

lemma delete_room_Inr:
  assumes "delete_room roomId env db = Inr (u, db')"
  shows "find_room db roomId \<noteq> None"
    and "\<forall>w \<in> set (roomTimes db). w_roomId w = roomId \<longrightarrow> \<not> window_referenced db (w_id w)"
    and "\<exists>as cs ras. db' = db\<lparr>attachments := as, cleanupTasks := cs,
      roomTimes := delete_where (\<lambda>w. w_roomId w = roomId) (roomTimes db), roomAmenities := ras,
      rooms := delete_where (\<lambda>r. r_id r = roomId) (rooms db)\<rparr>"
proof -
  obtain room d1 where f: "find_room db roomId = Some room"
    and d1: "(let targets = (\<lambda>a. at_objectType a = ObjectRoom \<and> at_objectId a = roomId) in
      if filter targets (attachments db) = [] then Inr db
      else insert_cleanup_tasks (cleanup_tasks (filter targets (attachments db)) env)
        (db\<lparr>attachments := delete_where targets (attachments db)\<rparr>)) = Inr d1"
    and n: "\<not> (\<exists>w \<in> set (roomTimes d1). w_roomId w = roomId \<and> window_referenced d1 (w_id w))"
    and db': "db' = d1\<lparr>roomTimes := delete_where (\<lambda>w. w_roomId w = roomId) (roomTimes d1),
       roomAmenities := delete_where (\<lambda>ra. ra_roomId ra = roomId) (roomAmenities d1),
       rooms := delete_where (\<lambda>r. r_id r = r_id room) (rooms d1)\<rparr>"
    using assms by (auto simp: delete_room_def lockRoom_def step_simps Let_def split: if_splits)
  have "\<exists>as cs. d1 = db\<lparr>attachments := as, cleanupTasks := cs\<rparr>"
  proof (cases "d1 = db")
    case True
    then show ?thesis by (intro exI [of _ "attachments db"] exI [of _ "cleanupTasks db"]) simp
  qed (use d1 in \<open>auto simp: insert_cleanup_tasks_def Let_def split: if_splits\<close>)
  then obtain as cs where d: "d1 = db\<lparr>attachments := as, cleanupTasks := cs\<rparr>" by blast
  show "find_room db roomId \<noteq> None" using f by simp
  show "\<forall>w \<in> set (roomTimes db). w_roomId w = roomId \<longrightarrow> \<not> window_referenced db (w_id w)"
    using n by (simp add: d window_referenced_def)
  show "\<exists>as cs ras. db' = db\<lparr>attachments := as, cleanupTasks := cs,
      roomTimes := delete_where (\<lambda>w. w_roomId w = roomId) (roomTimes db), roomAmenities := ras,
      rooms := delete_where (\<lambda>r. r_id r = roomId) (rooms db)\<rparr>"
    using find_room_Some [OF f] by (auto simp: db' d)
qed

lemma delete_room_inventory:
  assumes "inventory db" "delete_room roomId env db = Inr (u, db')"
  shows "inventory db'"
proof -
  note D = delete_room_Inr [OF assms(2)]
  obtain as cs ras where db': "db' = db\<lparr>attachments := as, cleanupTasks := cs,
      roomTimes := delete_where (\<lambda>w. w_roomId w = roomId) (roomTimes db), roomAmenities := ras,
      rooms := delete_where (\<lambda>r. r_id r = roomId) (rooms db)\<rparr>" using D(3) by blast
  define d where "d = db'\<lparr>rooms := rooms db\<rparr>"
  have d: "inventory d"
    by (rule delete_windows_inventory [OF assms(1), of d "\<lambda>w. w_roomId w = roomId"])
      (use D(2) in \<open>simp_all add: d_def db' windows_written_def\<close>)
  have "wf_rooms db'"
    using inventory_wf_rooms [OF d]
    by (auto simp: d_def db' wf_rooms_def delete_where_def distinct_map_filter)
  then show ?thesis
    by (rule catalogue_inventory [OF d, rotated]) (simp add: d_def bookings_untouched_def)
qed

text \<open>Writes that touch neither rooms, windows nor bookings.\<close>

lemma unrelated_inventory:
  assumes "inventory db" "bookings_untouched db db'" "rooms db' = rooms db" "roomTypes db' = roomTypes db"
  shows "inventory db'"
  using inventory_wf_rooms [OF assms(1)] assms(2-4)
  by (intro catalogue_inventory [OF assms(1)])
    (auto simp: wf_rooms_def bookings_untouched_def dest: order_less_le_trans)

lemma createAmenity_inventory:
  "inventory db \<Longrightarrow> createAmenity collate code name env db = Inr (a, db') \<Longrightarrow> inventory db'"
  by (rule unrelated_inventory [of db])
    (auto simp: createAmenity_def bookings_untouched_def Let_def split: if_splits)

lemma updateAmenity_inventory:
  "inventory db \<Longrightarrow> updateAmenity collate i code name env db = Inr (a, db') \<Longrightarrow> inventory db'"
  by (rule unrelated_inventory [of db])
    (auto simp: updateAmenity_def bookings_untouched_def step_simps Let_def split: if_splits)

lemma deleteAmenity_inventory:
  "inventory db \<Longrightarrow> deleteAmenity i db = Inr (a, db') \<Longrightarrow> inventory db'"
  by (rule unrelated_inventory [of db])
    (auto simp: deleteAmenity_def bookings_untouched_def step_simps split: if_splits)

end
