(* ===== verification/Transition_Systems.thy ===== *)
theory Transition_Systems
  imports Main
begin

text \<open>
  The interfaces of the step relations: what a proof over reachable states needs
  (\<open>transition_system\<close>) and what a simulation between two systems needs (\<open>simulation\<close>). They are
  interpreted on the ledger, on the hotel system, on authentication, on the relays of booking events, on the
  poll loop, on the scheduled runs, on the consumer of statistics and on the mail system.
\<close>

subsection \<open>Reachable states and simulations\<close>

locale transition_system =
  fixes step :: "'s \<Rightarrow> 's \<Rightarrow> bool" and inv :: "'s \<Rightarrow> bool" and init :: 's
  assumes init_inv: "inv init"
    and step_inv: "inv s \<Longrightarrow> step s s' \<Longrightarrow> inv s'"
begin

lemma steps_inv: "step\<^sup>*\<^sup>* s s' \<Longrightarrow> inv s \<Longrightarrow> inv s'"
  by (induction rule: rtranclp_induct) (auto intro: step_inv)

lemma reachable_inv: "step\<^sup>*\<^sup>* init s \<Longrightarrow> inv s"
  using steps_inv init_inv by blast

text \<open>A reflexive and transitive relation that every step satisfies holds along every run.\<close>

lemma steps_relation:
  assumes "step\<^sup>*\<^sup>* s s'" "inv s" "\<And>x. R x x" "\<And>x y z. R x y \<Longrightarrow> R y z \<Longrightarrow> R x z"
    and "\<And>x y. inv x \<Longrightarrow> step x y \<Longrightarrow> R x y"
  shows "R s s'"
  using assms(1)
proof (induction rule: rtranclp_induct)
  case (step y z)
  then have "inv y" using steps_inv assms(2) by blast
  then show ?case using step assms(4,5) by blast
qed (rule assms(3))

end

locale simulation = transition_system step inv init
  for step :: "'s \<Rightarrow> 's \<Rightarrow> bool" and inv :: "'s \<Rightarrow> bool" and init :: 's +
  fixes abstract :: "'s \<Rightarrow> 'a" and astep :: "'a \<Rightarrow> 'a \<Rightarrow> bool"
  assumes simulated: "inv s \<Longrightarrow> step s s' \<Longrightarrow> abstract s' = abstract s \<or> astep (abstract s) (abstract s')"
begin

lemma simulated_steps: "step\<^sup>*\<^sup>* s s' \<Longrightarrow> inv s \<Longrightarrow> astep\<^sup>*\<^sup>* (abstract s) (abstract s')"
proof (induction rule: rtranclp_induct)
  case (step y z)
  then have "abstract z = abstract y \<or> astep (abstract y) (abstract z)" using steps_inv simulated by blast
  then show ?case using step by auto
qed simp

lemma simulated_reachable: "step\<^sup>*\<^sup>* init s \<Longrightarrow> astep\<^sup>*\<^sup>* (abstract init) (abstract s)"
  using simulated_steps init_inv by blast

end

end
