(* ===== verification/Ledger.thy ===== *)
theory Ledger
  imports Inventory Transition_Systems
begin

text \<open>
  The contract of the booking subsystem, stated without tables: a ledger maps a public identifier
  to who booked which room for which dates, at which price, in which state and version. The step
  relation says what may happen to it; its lemmas show that confirmed stays of a room never meet,
  that a settled booking never changes again, and that what a booking was made for (owner, price,
  currency) never changes. The locale \<open>transition_system\<close> is interpreted on the ledger
  here and, with \<open>simulation\<close>, on the hotel system in its own theory.
\<close>

subsection \<open>The ledger\<close>

record ledger_booking =
  lb_owner :: nat
  lb_room :: nat
  lb_checkIn :: hotel_date
  lb_checkOut :: hotel_date
  lb_status :: BookingStatus
  lb_price :: nat
  lb_currency :: string
  lb_version :: nat

type_synonym ledger = "string \<rightharpoonup> ledger_booking"

text \<open>Whether another confirmed booking of the room meets the dates.\<close>

definition clashes :: "ledger \<Rightarrow> string \<Rightarrow> nat \<Rightarrow> hotel_date \<Rightarrow> hotel_date \<Rightarrow> bool" where
  "clashes L publicId room checkIn checkOut \<longleftrightarrow>
     (\<exists>p a. L p = Some a \<and> p \<noteq> publicId \<and> lb_room a = room \<and> lb_status a = Confirmed
        \<and> lb_checkIn a < checkOut \<and> checkIn < lb_checkOut a)"

definition settlements :: "(BookingStatus \<times> BookingStatus) set" where
  "settlements = {(Pending, CancelledByUser), (Pending, Rejected), (Pending, CancelledByAdmin),
                  (Confirmed, CancelledByAdmin)}"

inductive ledger_step :: "ledger \<Rightarrow> ledger \<Rightarrow> bool" where
  requested: "L p = None \<Longrightarrow> lb_checkIn a < lb_checkOut a \<Longrightarrow> lb_status a = Pending \<Longrightarrow> lb_version a = 1 \<Longrightarrow>
    ledger_step L (L(p \<mapsto> a))"
| settled: "L p = Some a \<Longrightarrow> (lb_status a, s) \<in> settlements \<Longrightarrow>
    ledger_step L (L(p \<mapsto> a\<lparr>lb_status := s, lb_version := Suc (lb_version a)\<rparr>))"
| confirmed: "L p = Some a \<Longrightarrow> lb_status a = Pending \<Longrightarrow>
    \<not> clashes L p (lb_room a) (lb_checkIn a) (lb_checkOut a) \<Longrightarrow>
    ledger_step L (L(p \<mapsto> a\<lparr>lb_status := Confirmed, lb_version := Suc (lb_version a)\<rparr>))"
| moved: "L p = Some a \<Longrightarrow> lb_status a \<in> {Pending, Confirmed} \<Longrightarrow> checkIn < checkOut \<Longrightarrow>
    (lb_status a = Confirmed \<Longrightarrow> \<not> clashes L p room checkIn checkOut) \<Longrightarrow>
    ledger_step L (L(p \<mapsto> a\<lparr>lb_room := room, lb_checkIn := checkIn, lb_checkOut := checkOut,
                           lb_version := Suc (lb_version a)\<rparr>))"

definition confirmed_apart :: "ledger \<Rightarrow> bool" where
  "confirmed_apart L \<longleftrightarrow>
     (\<forall>p q a b. L p = Some a \<and> L q = Some b \<and> p \<noteq> q \<and> lb_room a = lb_room b
        \<and> lb_status a = Confirmed \<and> lb_status b = Confirmed
        \<longrightarrow> lb_checkOut a \<le> lb_checkIn b \<or> lb_checkOut b \<le> lb_checkIn a)"

text \<open>How a booking may look after any number of steps.\<close>

definition evolved :: "ledger_booking \<Rightarrow> ledger_booking \<Rightarrow> bool" where
  "evolved a b \<longleftrightarrow>
     lb_owner b = lb_owner a \<and> lb_price b = lb_price a \<and> lb_currency b = lb_currency a
     \<and> (b = a \<or> lb_version a < lb_version b \<and> lb_status a \<in> {Pending, Confirmed}
          \<and> (lb_status a = Confirmed \<longrightarrow> lb_status b \<in> {Confirmed, CancelledByAdmin}))"

definition evolves :: "ledger \<Rightarrow> ledger \<Rightarrow> bool" where
  "evolves L L' \<longleftrightarrow> (\<forall>p a. L p = Some a \<longrightarrow> (\<exists>b. L' p = Some b \<and> evolved a b))"

subsection \<open>Lemmas\<close>

lemma clashes_apart:
  "\<not> clashes L p (lb_room b) (lb_checkIn b) (lb_checkOut b) \<Longrightarrow> L q = Some a \<Longrightarrow> q \<noteq> p \<Longrightarrow>
   lb_room a = lb_room b \<Longrightarrow> lb_status a = Confirmed \<Longrightarrow>
   lb_checkOut a \<le> lb_checkIn b \<or> lb_checkOut b \<le> lb_checkIn a"
  by (auto simp: clashes_def not_less)

lemma confirmed_apart_update:
  assumes "confirmed_apart L"
    and "lb_status b = Confirmed \<Longrightarrow> \<not> clashes L p (lb_room b) (lb_checkIn b) (lb_checkOut b)"
  shows "confirmed_apart (L(p \<mapsto> b))"
  unfolding confirmed_apart_def
proof (intro allI impI, elim conjE)
  fix q r x y
  assume h: "(L(p \<mapsto> b)) q = Some x" "(L(p \<mapsto> b)) r = Some y" "q \<noteq> r" "lb_room x = lb_room y"
    "lb_status x = Confirmed" "lb_status y = Confirmed"
  show "lb_checkOut x \<le> lb_checkIn y \<or> lb_checkOut y \<le> lb_checkIn x"
  proof (cases "q = p \<or> r = p")
    case False
    with h assms(1) show ?thesis by (auto simp: confirmed_apart_def)
  next
    case True
    with h clashes_apart [OF assms(2)] show ?thesis by fastforce
  qed
qed

lemma ledger_step_apart: "ledger_step L L' \<Longrightarrow> confirmed_apart L \<Longrightarrow> confirmed_apart L'"
proof (induction rule: ledger_step.induct)
  case (settled L p a s)
  then show ?case by (intro confirmed_apart_update) (auto simp: settlements_def)
qed (auto intro: confirmed_apart_update)

lemma ledger_step_evolves: "ledger_step L L' \<Longrightarrow> evolves L L'"
  by (induction rule: ledger_step.induct) (auto simp: evolves_def evolved_def settlements_def)

lemma evolved_trans:
  assumes "evolved a b" "evolved b c"
  shows "evolved a c"
proof (cases "b = a \<or> c = b")
  case False
  then have "lb_version a < lb_version c" "lb_status a \<in> {Pending, Confirmed}"
    "lb_status a = Confirmed \<Longrightarrow> lb_status b = Confirmed" "lb_status b = Confirmed \<Longrightarrow> lb_status c \<in> {Confirmed, CancelledByAdmin}"
    using assms by (auto simp: evolved_def)
  then show ?thesis using assms by (simp add: evolved_def)
qed (use assms in auto)

lemma evolves_trans: "evolves L M \<Longrightarrow> evolves M N \<Longrightarrow> evolves L N"
  unfolding evolves_def using evolved_trans by blast

lemma evolves_refl: "evolves L L"
  by (simp add: evolves_def evolved_def)

interpretation ledger: transition_system ledger_step confirmed_apart Map.empty
proof
  show "confirmed_apart Map.empty" by (simp add: confirmed_apart_def)
qed (rule ledger_step_apart)

lemma ledger_steps_evolve: "ledger_step\<^sup>*\<^sup>* L M \<Longrightarrow> evolves L M"
  by (induction rule: rtranclp_induct) (blast intro: evolves_refl evolves_trans ledger_step_evolves)+

end
