(* ===== verification/Hotel_System.thy ===== *)
theory Hotel_System imports Ledger begin

text \<open>The whole hotel as one transition system over the database: every transaction of the booking, window, catalogue
and room services is a step, users and the outbox change under their own rules, and steps interleave freely.  The
theory holds the invariant of the reachable databases and the simulation of the booking ledger.\<close>

subsection \<open>The system\<close>

inductive hotel_step :: "bookings_config \<Rightarrow> (string \<Rightarrow> string) \<Rightarrow> hotel_db \<Rightarrow> hotel_db \<Rightarrow> bool"
  for cfg :: bookings_config and collate :: "string \<Rightarrow> string" where
  create: "createInTransaction cfg actor key fingerprint input env db = Inr (result, db') \<Longrightarrow>
    hotel_step cfg collate db db'"
| cancel_own: "cancelOwn_tx cfg actor publicId env db = Inr (replayed, db') \<Longrightarrow> hotel_step cfg collate db db'"
| approve: "approve_tx cfg snapshot actor publicId env db = Inr (replayed, db') \<Longrightarrow>
    hotel_step cfg collate db db'"
| reject: "reject_tx cfg actor publicId reason env db = Inr (replayed, db') \<Longrightarrow> hotel_step cfg collate db db'"
| change: "updateAdmin_tx cfg snapshot actor publicId version body env db = Inr (unit, db') \<Longrightarrow>
    hotel_step cfg collate db db'"
| cancel_admin: "cancelAdmin_tx cfg actor publicId reason env db = Inr (replayed, db') \<Longrightarrow>
    hotel_step cfg collate db db'"
| create_window: "create_room_time roomId window env db = Inr (response, db') \<Longrightarrow> hotel_step cfg collate db db'"
| update_window: "update_room_time findByRoomTimeIds roomId roomTimeId windowPatch env db = Inr (response, db') \<Longrightarrow>
    hotel_step cfg collate db db'"
| delete_window: "delete_room_time findByRoomTimeIds roomId roomTimeId db = Inr (unit, db') \<Longrightarrow>
    hotel_step cfg collate db db'"
| create_type: "createRoomType collate name description env db = Inr (roomType, db') \<Longrightarrow>
    hotel_step cfg collate db db'"
| update_type: "updateRoomType collate roomTypeId newName newDescription env db = Inr (roomType, db') \<Longrightarrow>
    hotel_step cfg collate db db'"
| delete_type: "deleteRoomType roomTypeId db = Inr (unit, db') \<Longrightarrow> hotel_step cfg collate db db'"
| create_amenity: "createAmenity collate code name env db = Inr (amenity, db') \<Longrightarrow> hotel_step cfg collate db db'"
| update_amenity: "updateAmenity collate amenityId newCode newName env db = Inr (amenity, db') \<Longrightarrow>
    hotel_step cfg collate db db'"
| delete_amenity: "deleteAmenity amenityId db = Inr (unit, db') \<Longrightarrow> hotel_step cfg collate db db'"
| create_room: "create_room collate body env db = Inr (room, db') \<Longrightarrow> hotel_step cfg collate db db'"
| update_room: "update_room collate roomId version roomPatch env db = Inr (room, db') \<Longrightarrow>
    hotel_step cfg collate db db'"
| delete_room: "delete_room roomId env db = Inr (unit, db') \<Longrightarrow> hotel_step cfg collate db db'"
| users_saved: "u_id ` set (users db) \<subseteq> u_id ` set us \<Longrightarrow> hotel_step cfg collate db (db\<lparr>users := us\<rparr>)"
| outbox_worked: "\<forall>o' \<in> set os. \<exists>o1 \<in> set (outboxEvents db). o_id o' = o_id o1
      \<and> o_idempotencyKey o' = o_idempotencyKey o1 \<Longrightarrow>
    hotel_step cfg collate db (db\<lparr>outboxEvents := os\<rparr>)"
| keys_purged: "hotel_step cfg collate db (db\<lparr>idempotencyKeys := filter kept (idempotencyKeys db)\<rparr>)"

text \<open>The databases the system can reach from an empty one, in any interleaving.\<close>

definition hotel_reachable :: "bookings_config \<Rightarrow> (string \<Rightarrow> string) \<Rightarrow> hotel_db \<Rightarrow> bool" where
  "hotel_reachable cfg collate db \<longleftrightarrow> (hotel_step cfg collate)\<^sup>*\<^sup>* empty_db db"

inductive_simps hotel_step_iff: "hotel_step cfg collate db db'"

subsection \<open>The invariant\<close>

definition changes_of :: "hotel_db \<Rightarrow> nat \<Rightarrow> nat" where
  "changes_of db i =
     length (filter (\<lambda>h. sh_bookingId h = i) (statusHistories db))
     + length (filter (\<lambda>c. ch_bookingId c = i) (changeHistories db))"

text \<open>The version of a booking counts the rows of its two histories.\<close>

definition versions_counted :: "hotel_db \<Rightarrow> bool" where
  "versions_counted db \<longleftrightarrow>
     (\<forall>b \<in> set (bookings db). b_version b = changes_of db (b_id b))
     \<and> (\<forall>h \<in> set (statusHistories db). sh_bookingId h < nextId db)
     \<and> (\<forall>c \<in> set (changeHistories db). ch_bookingId c < nextId db)"

definition bookingEventTypes :: "string list" where
  "bookingEventTypes =
     [bookingLifecycleEventType, ''booking.confirmed'', ''booking.rejected'', ''booking.changed'',
      ''booking.cancelled_by_admin'']"

text \<open>Every event of a booking was written at a version the booking has reached.\<close>

definition event_keys_known :: "hotel_db \<Rightarrow> bool" where
  "event_keys_known db \<longleftrightarrow>
     (\<forall>o' \<in> set (outboxEvents db). \<forall>ty \<in> set bookingEventTypes. \<forall>p v.
        o_idempotencyKey o' = event_key ty p v \<longrightarrow>
        (\<exists>b \<in> set (bookings db). b_publicId b = p \<and> v \<le> b_version b))"

definition system_inv :: "hotel_db \<Rightarrow> bool" where
  "system_inv db \<longleftrightarrow> inventory db \<and> wf_keys db \<and> versions_counted db \<and> event_keys_known db"

text \<open>The ledger a database implements.\<close>

definition ledger_row :: "booking_row \<Rightarrow> nat \<Rightarrow> ledger_booking" where
  "ledger_row b room =
     \<lparr>lb_owner = b_userId b, lb_room = room, lb_checkIn = b_checkIn b, lb_checkOut = b_checkOut b,
      lb_status = b_status b, lb_price = b_priceAmount b, lb_currency = b_currency b,
      lb_version = b_version b\<rparr>"

definition ledger_of :: "hotel_db \<Rightarrow> ledger" where
  "ledger_of db publicId =
     (case find_booking db publicId of
        None \<Rightarrow> None
      | Some b \<Rightarrow> map_option (ledger_row b) (booking_room db b))"

text \<open>A step that leaves the bookings, their histories and the retry keys alone.\<close>

definition quiet :: "hotel_db \<Rightarrow> hotel_db \<Rightarrow> bool" where
  "quiet db db' \<longleftrightarrow>
     bookings db' = bookings db \<and> statusHistories db' = statusHistories db
     \<and> changeHistories db' = changeHistories db \<and> idempotencyKeys db' = idempotencyKeys db
     \<and> nextId db \<le> nextId db'
     \<and> (\<forall>o' \<in> set (outboxEvents db'). \<exists>o1 \<in> set (outboxEvents db).
          o_id o' = o_id o1 \<and> o_idempotencyKey o' = o_idempotencyKey o1)
     \<and> (\<forall>w \<in> set (roomTimes db). \<forall>w' \<in> set (roomTimes db'). w_id w' = w_id w \<longrightarrow> w_roomId w' = w_roomId w)"

subsection \<open>Lemmas\<close>

lemma users_inventory:
  assumes "inventory db" "u_id ` set (users db) \<subseteq> u_id ` set us"
  shows "inventory (db\<lparr>users := us\<rparr>)"
proof -
  have u: "user_exists db i \<Longrightarrow> user_exists (db\<lparr>users := us\<rparr>) i" for i
  proof -
    assume "user_exists db i"
    then have "i \<in> u_id ` set us" using assms(2) by (auto simp: user_exists_def)
    then show "user_exists (db\<lparr>users := us\<rparr>) i" by (auto simp: user_exists_def)
  qed
  have look: "find_room_time (db\<lparr>users := us\<rparr>) = find_room_time db" "find_room (db\<lparr>users := us\<rparr>) = find_room db"
    "find_room_type (db\<lparr>users := us\<rparr>) = find_room_type db" "booking_room (db\<lparr>users := us\<rparr>) = booking_room db"
    by (simp_all add: find_room_time_def find_room_def find_room_type_def booking_room_def fun_eq_iff)
  show ?thesis
    using assms(1) u unfolding inventory_def wf_db_def wf_catalogue_def wf_bookings_def
      windows_disjoint_def live_in_window_def no_double_booking_def look booking_references_def by simp
qed

lemma wf_keys_cong:
  "idempotencyKeys db' = idempotencyKeys db \<Longrightarrow> nextId db \<le> nextId db' \<Longrightarrow> wf_keys db \<Longrightarrow> wf_keys db'"
  by (auto simp: wf_keys_def dest: order_less_le_trans)

lemma quiet_refl: "inventory db \<Longrightarrow> quiet db db"
  using distinct_key_eq [OF inventoryD(4)] by (auto simp: quiet_def)

lemma quiet_same_windows:
  assumes "inventory db" "roomTimes db' = roomTimes db" "bookings db' = bookings db"
    "statusHistories db' = statusHistories db" "changeHistories db' = changeHistories db"
    "idempotencyKeys db' = idempotencyKeys db" "nextId db \<le> nextId db'"
    "\<forall>o' \<in> set (outboxEvents db'). \<exists>o1 \<in> set (outboxEvents db).
          o_id o' = o_id o1 \<and> o_idempotencyKey o' = o_idempotencyKey o1"
  shows "quiet db db'"
  using assms distinct_key_eq [OF inventoryD(4) [OF assms(1)]] by (auto simp: quiet_def)

lemma insert_room_time_Inr:
  "insert_room_time roomId c env db = Inr (w, db') \<Longrightarrow>
   w_id w = nextId db \<and> w_roomId w = roomId \<and>
   db' = db\<lparr>roomTimes := roomTimes db @ [w], nextId := Suc (nextId db)\<rparr>"
  by (auto simp: insert_room_time_def Let_def split: if_splits)

lemma quiet_create_window:
  assumes "inventory db" "create_room_time roomId body env db = Inr (r, db')"
  shows "quiet db db'"
proof -
  have "\<exists>w. w_id w = nextId db \<and> db' = db\<lparr>roomTimes := roomTimes db @ [w], nextId := Suc (nextId db)\<rparr>"
    using assms(2) by (auto simp: create_room_time_def and_then_Inr_iff Let_def dest: insert_room_time_Inr)
  then show ?thesis
    using inventory_windows(2) [OF assms(1)] distinct_key_eq [OF inventoryD(4) [OF assms(1)]]
    by (fastforce simp: quiet_def)
qed

lemma quiet_update_window:
  assumes "inventory db" "update_room_time findByRoomTimeIds roomId i body env db = Inr (r, db')"
  shows "quiet db db'"
proof (rule booking_usage.update_room_time_Inr [OF assms(2)])
  fix w s
  assume f: "find_room_window db i roomId = Some w"
    and s: "s = w\<lparr>w_availableFrom := (case uw_availableFrom body of None \<Rightarrow> w_availableFrom w | Some d \<Rightarrow> d),
      w_availableTo := (case uw_availableTo body of None \<Rightarrow> w_availableTo w | Some d \<Rightarrow> d),
      w_status := (case uw_status body of None \<Rightarrow> w_status w | Some s \<Rightarrow> s)\<rparr>"
    and save: "\<exists>s'. save_room_time s env db = Inr (s', db')"
  have w: "w \<in> set (roomTimes db)" "w_id w = i" "w_roomId w = roomId"
    using f by (auto simp: find_room_window_def dest: find_SomeD)
  have "db' = db \<or> (\<exists>t. w_id t = i \<and> w_roomId t = roomId \<and>
      db' = db\<lparr>roomTimes := update_where (\<lambda>r. w_id r = i) (\<lambda>_. t) (roomTimes db)\<rparr>)"
  proof (cases "db' = db")
    case False
    have "w_id (s\<lparr>w_updatedAt := dbNow env\<rparr>) = i \<and> w_roomId (s\<lparr>w_updatedAt := dbNow env\<rparr>) = roomId \<and>
      db' = db\<lparr>roomTimes := update_where (\<lambda>r. w_id r = i) (\<lambda>_. s\<lparr>w_updatedAt := dbNow env\<rparr>) (roomTimes db)\<rparr>"
      using save w False by (auto simp: save_room_time_def s Let_def split: if_splits)
    then show ?thesis by blast
  qed simp
  then consider "db' = db" | t where "w_id t = i" "w_roomId t = roomId"
    "db' = db\<lparr>roomTimes := update_where (\<lambda>r. w_id r = i) (\<lambda>_. t) (roomTimes db)\<rparr>" by blast
  then show ?thesis
  proof cases
    case 2
    have "w_roomId y = w_roomId x"
      if "x \<in> set (roomTimes db)" "y \<in> set (roomTimes db')" "w_id y = w_id x" for x y
    proof (cases "w_id x = i")
      case True
      then have "x = w" using that(1) w distinct_key_eq [OF inventoryD(4) [OF assms(1)]] by auto
      moreover have "y = t" using that True 2 by (auto simp: row_simps)
      ultimately show ?thesis using 2 w by simp
    next
      case False
      then have "y \<in> set (roomTimes db)" using that 2 by (auto simp: row_simps)
      then show ?thesis using that distinct_key_eq [OF inventoryD(4) [OF assms(1)]] by auto
    qed
    then show ?thesis by (auto simp: quiet_def 2(3))
  qed (use quiet_refl [OF assms(1)] in simp)
qed

lemma quiet_delete_windows:
  "inventory db \<Longrightarrow> roomTimes db' = delete_where P (roomTimes db) \<Longrightarrow> bookings db' = bookings db \<Longrightarrow>
    statusHistories db' = statusHistories db \<Longrightarrow> changeHistories db' = changeHistories db \<Longrightarrow>
    idempotencyKeys db' = idempotencyKeys db \<Longrightarrow> nextId db \<le> nextId db' \<Longrightarrow>
    outboxEvents db' = outboxEvents db \<Longrightarrow> quiet db db'"
  using distinct_key_eq [OF inventoryD(4)] by (fastforce simp: quiet_def row_simps)

lemma quiet_delete_window:
  "inventory db \<Longrightarrow> delete_room_time findByRoomTimeIds roomId i db = Inr (u, db') \<Longrightarrow> quiet db db'"
  by (rule quiet_delete_windows [of db _ "\<lambda>w. w_id w = i"]) (auto simp: booking_usage.delete_room_time_Inr)

lemma quiet_delete_room: "inventory db \<Longrightarrow> delete_room roomId env db = Inr (u, db') \<Longrightarrow> quiet db db'"
  by (rule quiet_delete_windows [of db _ "\<lambda>w. w_roomId w = roomId"]) (auto dest!: delete_room_Inr(3))

lemma quiet_create_room: 
  assumes "inventory db" "create_room collate body env db = Inr (r, db')"
  shows "quiet db db'"
  by (rule quiet_same_windows [OF assms(1)])
    (use assms(2) in \<open>auto simp: create_room_def and_then_Inr_iff Let_def dest!: replaceAmenityAssignments_Inr\<close>)

lemma quiet_update_room: 
  assumes "inventory db" "update_room collate i version body env db = Inr (r, db')"
  shows "quiet db db'"
proof -
  obtain saved rt ams where r: "r = (saved, rt, ams)" by (cases r) auto
  show ?thesis
    by (rule update_room_Inr [OF assms(2) [unfolded r]]) (rule quiet_same_windows [OF assms(1)], auto)
qed

lemma quiet_catalogue:
  assumes "inventory db"
  shows "createRoomType collate name desc env db = Inr (t, db') \<Longrightarrow> quiet db db'"
    and "updateRoomType collate i name' desc' env db = Inr (t, db') \<Longrightarrow> quiet db db'"
    and "deleteRoomType i db = Inr (u, db') \<Longrightarrow> quiet db db'"
    and "createAmenity collate code name env db = Inr (a, db') \<Longrightarrow> quiet db db'"
    and "updateAmenity collate i code' name' env db = Inr (a, db') \<Longrightarrow> quiet db db'"
    and "deleteAmenity i db = Inr (u, db') \<Longrightarrow> quiet db db'"
  by (rule quiet_same_windows [OF assms];
      auto simp: createRoomType_def updateRoomType_def deleteRoomType_def createAmenity_def updateAmenity_def
        deleteAmenity_def step_simps Let_def split: if_splits)+

lemma booking_room_stable:
  assumes "quiet db db'" "inventory db" "inventory db'" "b \<in> set (bookings db)"
  shows "booking_room db' b = booking_room db b"
proof -
  obtain w w' where "find_room_time db (b_roomTimeId b) = Some w" "find_room_time db' (b_roomTimeId b) = Some w'"
    using inventoryD(6) [OF assms(2), of b] inventoryD(6) [OF assms(3), of b] assms(1,4)
    by (auto simp: booking_references_def quiet_def)
  moreover from this have "w \<in> set (roomTimes db)" "w' \<in> set (roomTimes db')" "w_id w' = w_id w"
    by (auto simp: find_room_time_def dest!: find_SomeD)
  ultimately show ?thesis using assms(1) by (simp add: booking_room_def quiet_def)
qed

lemma find_booking_iff:
  assumes "inventory db"
  shows "find_booking db p = Some b \<longleftrightarrow> b \<in> set (bookings db) \<and> b_publicId b = p"
proof
  assume "find_booking db p = Some b"
  then show "b \<in> set (bookings db) \<and> b_publicId b = p" using find_booking_Some by blast
next
  assume "b \<in> set (bookings db) \<and> b_publicId b = p"
  then show "find_booking db p = Some b"
    using find_unique [OF inventoryD(3) [OF assms], of b] by (simp add: find_booking_def)
qed

lemma booking_room_Some:
  assumes "inventory db" "b \<in> set (bookings db)"
  shows "\<exists>room. booking_room db b = Some room"
  using inventoryD(6) [OF assms] by (auto simp: booking_room_def booking_references_def)

lemma ledger_row_simps [simp]:
  "lb_owner (ledger_row b r) = b_userId b" "lb_room (ledger_row b r) = r"
  "lb_checkIn (ledger_row b r) = b_checkIn b" "lb_checkOut (ledger_row b r) = b_checkOut b"
  "lb_status (ledger_row b r) = b_status b" "lb_price (ledger_row b r) = b_priceAmount b"
  "lb_currency (ledger_row b r) = b_currency b" "lb_version (ledger_row b r) = b_version b"
  by (simp_all add: ledger_row_def)

lemma ledger_of_iff:
  assumes "inventory db"
  shows "ledger_of db p = Some a \<longleftrightarrow>
    (\<exists>b \<in> set (bookings db). b_publicId b = p \<and> (\<exists>room. booking_room db b = Some room \<and> a = ledger_row b room))"
proof -
  have "ledger_of db p = Some a \<longleftrightarrow>
      (\<exists>b. find_booking db p = Some b \<and> (\<exists>room. booking_room db b = Some room \<and> a = ledger_row b room))"
    by (auto simp: ledger_of_def split: option.splits)
  then show ?thesis unfolding find_booking_iff [OF assms] by blast
qed

lemma ledger_of_None: "inventory db \<Longrightarrow> ledger_of db p = None \<longleftrightarrow> (\<forall>b \<in> set (bookings db). b_publicId b \<noteq> p)"
  using ledger_of_iff [of db p] booking_room_Some [of db] by (metis not_None_eq)

lemma ledger_of_quiet:
  assumes "quiet db db'" "inventory db" "inventory db'"
  shows "ledger_of db' = ledger_of db"
proof
  fix p
  have "find_booking db' p = find_booking db p" using assms(1) by (simp add: find_booking_def quiet_def)
  then show "ledger_of db' p = ledger_of db p"
    using booking_room_stable [OF assms] find_booking_Some(1)
    by (auto simp: ledger_of_def split: option.split)
qed

lemma ledger_of_saved:
  assumes "inventory db" "inventory db'" "b \<in> set (bookings db)" "booking_saved db s db'" "b_id s = b_id b"
    "b_publicId s = b_publicId b" "booking_room db s = Some room"
  shows "ledger_of db' = (ledger_of db)(b_publicId b \<mapsto> ledger_row s room)"
proof
  fix p
  have rows: "bookings db' = update_where (\<lambda>r. b_id r = b_id s) (\<lambda>_. s) (bookings db)"
    and cat: "same_catalogue db db'" using assms(4) by (simp_all add: booking_saved_def)
  note look = same_catalogue_lookups(4) [OF cat]
  have mem: "x \<in> set (bookings db') \<longleftrightarrow> x = s \<or> (x \<in> set (bookings db) \<and> b_id x \<noteq> b_id b)" for x
    using assms(3,5) by (auto simp: rows row_simps)
  have other: "x \<in> set (bookings db) \<Longrightarrow> b_publicId x \<noteq> b_publicId b \<longleftrightarrow> b_id x \<noteq> b_id b" for x
    using distinct_key_eq [OF inventoryD(2) [OF assms(1)] _ assms(3)]
      distinct_key_eq [OF inventoryD(3) [OF assms(1)] _ assms(3)] by blast
  show "ledger_of db' p = ((ledger_of db)(b_publicId b \<mapsto> ledger_row s room)) p"
  proof (cases "p = b_publicId b")
    case True
    then have "ledger_of db' p = Some (ledger_row s room)"
      using ledger_of_iff [OF assms(2)] mem assms(6,7) look by auto
    then show ?thesis using True by simp
  next
    case False
    have "x \<in> set (bookings db') \<and> b_publicId x = p \<longleftrightarrow> x \<in> set (bookings db) \<and> b_publicId x = p" for x
      using mem other False assms(6) by auto
    then have "ledger_of db' p = Some a \<longleftrightarrow> ledger_of db p = Some a" for a
      unfolding ledger_of_iff [OF assms(1)] ledger_of_iff [OF assms(2)] look by blast
    then have "ledger_of db' p = ledger_of db p" by (cases "ledger_of db p"; cases "ledger_of db' p") auto
    then show ?thesis using False by simp
  qed
qed

lemma clashes_iff:
  assumes "inventory db" "b \<in> set (bookings db)"
  shows "clashes (ledger_of db) (b_publicId b) room ci co \<longleftrightarrow>
    assertNoConfirmedOverlap db room (b_id b) ci co \<noteq> Inr ()"
proof -
  have other: "x \<in> set (bookings db) \<Longrightarrow> b_publicId x \<noteq> b_publicId b \<longleftrightarrow> b_id x \<noteq> b_id b" for x
    using distinct_key_eq [OF inventoryD(2) [OF assms(1)] _ assms(2)]
      distinct_key_eq [OF inventoryD(3) [OF assms(1)] _ assms(2)] by blast
  have "clashes (ledger_of db) (b_publicId b) room ci co \<longleftrightarrow>
    (\<exists>x \<in> set (bookings db). b_publicId x \<noteq> b_publicId b \<and> booking_room db x = Some room
       \<and> confirmedOverlapCondition ci co x)"
    unfolding clashes_def ledger_of_iff [OF assms(1)]
    by (auto simp: confirmedOverlapCondition_def) fastforce
  also have "\<dots> \<longleftrightarrow> assertNoConfirmedOverlap db room (b_id b) ci co \<noteq> Inr ()"
    unfolding assertNoConfirmedOverlap_def require_Inr_iff using other by blast
  finally show ?thesis .
qed

subsection \<open>What a step does to the bookings\<close>

definition events_appended :: "hotel_db \<Rightarrow> booking_row \<Rightarrow> hotel_db \<Rightarrow> bool" where
  "events_appended db s db' \<longleftrightarrow>
     (\<exists>os. outboxEvents db' = outboxEvents db @ os \<and> (\<forall>o' \<in> set os. \<exists>ty \<in> set bookingEventTypes.
        o_idempotencyKey o' = event_key ty (b_publicId s) (b_version s)))"

definition booking_inserted :: "hotel_db \<Rightarrow> booking_row \<Rightarrow> hotel_db \<Rightarrow> bool" where
  "booking_inserted db b db' \<longleftrightarrow>
     bookings db' = bookings db @ [b] \<and> (\<forall>x \<in> set (bookings db). b_publicId x \<noteq> b_publicId b)
     \<and> b_status b = Pending \<and> b_version b = 1 \<and> booking_checks b \<and> booking_references db b
     \<and> same_catalogue db db' \<and> nextId db \<le> b_id b \<and> b_id b < nextId db'
     \<and> (\<exists>actor env. history_appended db (b_id b) None Pending ActorUser actor None env db')
     \<and> events_appended db b db' \<and> wf_keys db'"

text \<open>What a change may never touch.\<close>

definition same_contract :: "booking_row \<Rightarrow> booking_row \<Rightarrow> bool" where
  "same_contract b s \<longleftrightarrow>
     b_id s = b_id b \<and> b_publicId s = b_publicId b \<and> b_userId s = b_userId b
     \<and> b_priceAmount s = b_priceAmount b \<and> b_currency s = b_currency b \<and> b_createdAt s = b_createdAt b"

definition booking_transitioned :: "hotel_db \<Rightarrow> booking_row \<Rightarrow> booking_row \<Rightarrow> hotel_db \<Rightarrow> bool" where
  "booking_transitioned db b s db' \<longleftrightarrow>
     b \<in> set (bookings db) \<and> booking_saved db s db' \<and> same_contract b s \<and> b_version s = Suc (b_version b)
     \<and> b_roomTimeId s = b_roomTimeId b \<and> b_checkIn s = b_checkIn b \<and> b_checkOut s = b_checkOut b
     \<and> ((b_status b, b_status s) \<in> settlements
        \<or> (b_status b = Pending \<and> b_status s = Confirmed \<and> (\<exists>room. booking_room db b = Some room
             \<and> assertNoConfirmedOverlap db room (b_id b) (b_checkIn b) (b_checkOut b) = Inr ())))
     \<and> (\<exists>actorType actor reason env.
          history_appended db (b_id b) (Some (b_status b)) (b_status s) actorType actor reason env db')
     \<and> events_appended db s db'"

definition booking_moved :: "hotel_db \<Rightarrow> booking_row \<Rightarrow> booking_row \<Rightarrow> hotel_db \<Rightarrow> bool" where
  "booking_moved db b s db' \<longleftrightarrow>
     b \<in> set (bookings db) \<and> booking_saved db s db' \<and> same_contract b s \<and> b_version s = Suc (b_version b)
     \<and> live b \<and> b_status s = b_status b
     \<and> (\<exists>room. booking_room db s = Some room \<and> (b_status b = Confirmed \<longrightarrow>
          assertNoConfirmedOverlap db room (b_id b) (b_checkIn s) (b_checkOut s) = Inr ()))
     \<and> statusHistories db' = statusHistories db
     \<and> (\<exists>c. changeHistories db' = changeHistories db @ [c] \<and> ch_bookingId c = b_id b)
     \<and> events_appended db s db'"

lemma stream_events_keys:
  "o' \<in> set (stream_events cfg s room f p env) \<Longrightarrow>
   o_idempotencyKey o' = event_key bookingLifecycleEventType (b_publicId s) (b_version s)"
  by (auto simp: stream_events_def lifecycle_event_def pending_event_def split: if_splits)

lemma mail_event_key:
  "o_idempotencyKey (mail_event cfg s ty room reason change env) = event_key ty (b_publicId s) (b_version s)"
  by (simp add: mail_event_def pending_event_def)

lemma events_appendedI:
  assumes "outboxEvents db' = outboxEvents db @ stream_events cfg s room f p env @
    (if ty = [] then [] else [mail_event cfg s ty mroom reason change env])" "ty \<in> set ([] # bookingEventTypes)"
  shows "events_appended db s db'"
proof -
  have "bookingLifecycleEventType \<in> set bookingEventTypes" by (simp add: bookingEventTypes_def)
  then show ?thesis
    unfolding events_appended_def assms(1)
    using assms(2) by (auto dest!: stream_events_keys simp: mail_event_key split: if_splits)
qed

lemma cancelOwn_step:
  assumes "inventory db" "cancelOwn_tx cfg actor pid env db = Inr (r, db')"
  shows "db' = db \<or> (\<exists>b s. booking_transitioned db b s db')"
  using inventoryD(1) [OF assms(1)] assms(2)
proof (cases rule: cancelOwn_effect)
  case (2 b s)
  then have "events_appended db s db'" using events_appendedI [of db' db cfg s _ _ _ env "[]"] by auto
  then have "booking_transitioned db b s db'"
    using 2 by (auto simp: booking_transitioned_def same_contract_def saved_row_def settlements_def)
  then show ?thesis by blast
qed simp

lemma reject_step:
  assumes "inventory db" "reject_tx cfg actor pid reason env db = Inr (r, db')"
  shows "db' = db \<or> (\<exists>b s. booking_transitioned db b s db')"
  using inventoryD(1) [OF assms(1)] assms(2)
proof (cases rule: reject_effect)
  case (2 b s room)
  then have "events_appended db s db'"
    using events_appendedI [of db' db cfg s room _ _ env "''booking.rejected''"] by (auto simp: bookingEventTypes_def)
  then have "booking_transitioned db b s db'"
    using 2 by (auto simp: booking_transitioned_def same_contract_def saved_row_def settlements_def dest: find_booking_Some)
  then show ?thesis by blast
qed simp

lemma cancelAdmin_step:
  assumes "inventory db" "cancelAdmin_tx cfg actor pid reason env db = Inr (r, db')"
  shows "db' = db \<or> (\<exists>b s. booking_transitioned db b s db')"
  using inventoryD(1) [OF assms(1)] assms(2)
proof (cases rule: cancelAdmin_effect)
  case (2 b s room)
  then have "events_appended db s db'"
    using events_appendedI [of db' db cfg s room _ _ env "''booking.cancelled_by_admin''"] by (auto simp: bookingEventTypes_def)
  then have "booking_transitioned db b s db'"
    using 2 by (auto simp: booking_transitioned_def same_contract_def saved_row_def settlements_def dest: find_booking_Some)
  then show ?thesis by blast
qed simp

lemma approve_step:
  assumes "inventory db" "approve_tx cfg sn actor pid env db = Inr (r, db')"
  shows "db' = db \<or> (\<exists>b s. booking_transitioned db b s db')"
  using inventoryD(1) [OF assms(1)] assms(2)
proof (cases rule: approve_effect)
  case (2 b s room)
  then have "events_appended db s db'"
    using events_appendedI [of db' db cfg s room _ _ env "''booking.confirmed''"] by (auto simp: bookingEventTypes_def)
  moreover have "booking_room db b = Some (r_id room)"
    using 2(7) room_window_room(1) [OF inventoryD(4) [OF assms(1)]] by blast
  ultimately have "booking_transitioned db b s db'"
    using 2 by (auto simp: booking_transitioned_def same_contract_def saved_row_def dest: find_booking_Some)
  then show ?thesis by blast
qed simp

lemma change_step:
  assumes "inventory db" "updateAdmin_tx cfg sn actor pid version body env db = Inr (u, db')"
  shows "\<exists>b s. booking_moved db b s db'"
  using inventoryD(1) [OF assms(1)] assms(2)
proof (cases rule: updateAdmin_effect)
  case (1 b s dest source w dest_id)
  have w: "find_room_time db (w_id w) = Some w" "w_roomId w = dest_id"
    using find_window_Some [OF 1(13)] find_room_time_unique [OF inventoryD(4) [OF assms(1)]] by auto
  have "events_appended db s db'"
    using 1(18) events_appendedI [of db' db cfg s dest _ _ env "''booking.changed''"] by (auto simp: bookingEventTypes_def)
  moreover have "booking_room db s = Some dest_id" using w 1(10) by (simp add: booking_room_def saved_row_def)
  ultimately have "booking_moved db b s db'"
    using 1 by (auto simp: booking_moved_def same_contract_def saved_row_def live_def dest: find_booking_Some)
  then show ?thesis by blast
qed

lemma create_wf_keys:
  assumes "wf_keys db" "createInTransaction cfg actor key fp input env db = Inr (r, db')"
  shows "wf_keys db'"
proof -
  obtain response replayed where r: "r = (response, replayed)" by (cases r) auto
  show ?thesis
    using assms(1) assms(2) [unfolded r]
  proof (cases rule: create_effect)
    case (2 row d0 room w nights b roomType)
    have "wf_keys (complete_key (ik_id row) 201 response d0)"
      by (rule complete_key_wf [OF lock_key_wf [OF 2(2) assms(1)]])
    then show ?thesis
      using 2(19,20) wf_keys_cong [of db' "complete_key (ik_id row) 201 response d0"]
      by (simp add: complete_key_def)
  qed (use assms in simp)
qed

lemma create_step:
  assumes "inventory db" "wf_keys db" "createInTransaction cfg actor key fp input env db = Inr (r, db')"
  shows "db' = db \<or> (\<exists>b. booking_inserted db b db')"
proof -
  obtain response replayed where r: "r = (response, replayed)" by (cases r) auto
  show ?thesis
    using assms(2) assms(3) [unfolded r]
  proof (cases rule: create_effect)
    case (2 row d0 room w nights b roomType)
    obtain p where b: "b = new_booking actor input room w nights p (nextId d0) env" using 2(10) by blast
    have "nextId db \<le> nextId d0"
      by (rule claim_row_cases [OF lock_key_Inr(4) [OF 2(2)]]) auto
    moreover have "events_appended db b db'"
      using 2(17) events_appendedI [of db' db cfg b room _ _ env "[]"] by auto
    ultimately have "booking_inserted db b db'"
      using 2 create_wf_keys [OF assms(2,3)] by (auto simp: booking_inserted_def b new_booking_def)
    then show ?thesis by blast
  qed simp
qed

definition keys_kept :: "(idempotency_row \<Rightarrow> bool) \<Rightarrow> hotel_db \<Rightarrow> hotel_db" where
  "keys_kept kept db = db\<lparr>idempotencyKeys := filter kept (idempotencyKeys db)\<rparr>"

text \<open>Every step is quiet, inserts a booking, makes a transition, moves a stay or purges retry keys.\<close>

definition step_outcome :: "hotel_db \<Rightarrow> hotel_db \<Rightarrow> bool" where
  "step_outcome db db' \<longleftrightarrow>
     quiet db db' \<or> (\<exists>b. booking_inserted db b db') \<or> (\<exists>b s. booking_transitioned db b s db')
     \<or> (\<exists>b s. booking_moved db b s db') \<or> (\<exists>kept. db' = keys_kept kept db)"

lemma hotel_step_outcome:
  assumes inv: "inventory db" and keys: "wf_keys db" and step: "hotel_step cfg collate db db'"
  shows "step_outcome db db'"
  using step
proof cases
  case create then show ?thesis using create_step [OF inv keys] quiet_refl [OF inv] unfolding step_outcome_def by blast
next
  case cancel_own then show ?thesis using cancelOwn_step [OF inv] quiet_refl [OF inv] unfolding step_outcome_def by blast
next
  case approve then show ?thesis using approve_step [OF inv] quiet_refl [OF inv] unfolding step_outcome_def by blast
next
  case reject then show ?thesis using reject_step [OF inv] quiet_refl [OF inv] unfolding step_outcome_def by blast
next
  case change then show ?thesis using change_step [OF inv] unfolding step_outcome_def by blast
next
  case cancel_admin then show ?thesis using cancelAdmin_step [OF inv] quiet_refl [OF inv] unfolding step_outcome_def by blast
next
  case create_window then show ?thesis using quiet_create_window [OF inv] unfolding step_outcome_def by blast
next
  case update_window then show ?thesis using quiet_update_window [OF inv] unfolding step_outcome_def by blast
next
  case delete_window then show ?thesis using quiet_delete_window [OF inv] unfolding step_outcome_def by blast
next
  case create_type then show ?thesis using quiet_catalogue(1) [OF inv] unfolding step_outcome_def by blast
next
  case update_type then show ?thesis using quiet_catalogue(2) [OF inv] unfolding step_outcome_def by blast
next
  case delete_type then show ?thesis using quiet_catalogue(3) [OF inv] unfolding step_outcome_def by blast
next
  case create_amenity then show ?thesis using quiet_catalogue(4) [OF inv] unfolding step_outcome_def by blast
next
  case update_amenity then show ?thesis using quiet_catalogue(5) [OF inv] unfolding step_outcome_def by blast
next
  case delete_amenity then show ?thesis using quiet_catalogue(6) [OF inv] unfolding step_outcome_def by blast
next
  case create_room then show ?thesis using quiet_create_room [OF inv] unfolding step_outcome_def by blast
next
  case update_room then show ?thesis using quiet_update_room [OF inv] unfolding step_outcome_def by blast
next
  case delete_room then show ?thesis using quiet_delete_room [OF inv] unfolding step_outcome_def by blast
next
  case users_saved then show ?thesis using quiet_same_windows [OF inv, of db'] by (auto simp: step_outcome_def)
next
  case outbox_worked then show ?thesis using quiet_same_windows [OF inv, of db'] by (auto simp: step_outcome_def)
next
  case keys_purged then show ?thesis unfolding step_outcome_def keys_kept_def by blast
qed

lemma hotel_step_inventory:
  assumes inv: "inventory db" and keys: "wf_keys db" and step: "hotel_step cfg collate db db'"
  shows "inventory db'"
  using step
proof cases
  case (create actor key fp input env r)
  then show ?thesis using create_inventory [OF inv keys] by (cases r) auto
next
  case cancel_own then show ?thesis by (rule cancelOwn_inventory [OF inv])
next
  case approve then show ?thesis by (rule approve_inventory [OF inv])
next
  case reject then show ?thesis by (rule reject_inventory [OF inv])
next
  case change then show ?thesis by (rule updateAdmin_inventory [OF inv])
next
  case cancel_admin then show ?thesis by (rule cancelAdmin_inventory [OF inv])
next
  case create_window then show ?thesis by (rule create_room_time_inventory [OF inv])
next
  case update_window then show ?thesis by (rule update_room_time_inventory [OF inv])
next
  case delete_window then show ?thesis by (rule delete_room_time_inventory [OF inv])
next
  case create_type then show ?thesis by (rule createRoomType_inventory [OF inv])
next
  case update_type then show ?thesis by (rule updateRoomType_inventory [OF inv])
next
  case delete_type then show ?thesis by (rule deleteRoomType_inventory [OF inv])
next
  case create_amenity then show ?thesis by (rule createAmenity_inventory [OF inv])
next
  case update_amenity then show ?thesis by (rule updateAmenity_inventory [OF inv])
next
  case delete_amenity then show ?thesis by (rule deleteAmenity_inventory [OF inv])
next
  case create_room then show ?thesis by (rule create_room_inventory [OF inv])
next
  case update_room then show ?thesis by (rule update_room_inventory [OF inv])
next
  case delete_room then show ?thesis by (rule delete_room_inventory [OF inv])
next
  case users_saved then show ?thesis using users_inventory [OF inv] by simp
next
  case outbox_worked then show ?thesis using unrelated_inventory [OF inv] by (simp add: bookings_untouched_def)
next
  case keys_purged then show ?thesis using unrelated_inventory [OF inv] by (simp add: bookings_untouched_def)
qed

lemma booking_saved_keys: "booking_saved db s db' \<Longrightarrow> wf_keys db \<Longrightarrow> wf_keys db'"
  by (rule wf_keys_cong) (auto simp: booking_saved_def same_catalogue_def)

lemma keys_kept_simps:
  "wf_keys db \<Longrightarrow> wf_keys (keys_kept kept db)"
  "versions_counted (keys_kept kept db) \<longleftrightarrow> versions_counted db"
  "event_keys_known (keys_kept kept db) \<longleftrightarrow> event_keys_known db"
  "ledger_of (keys_kept kept db) = ledger_of db"
  by (auto simp: keys_kept_def wf_keys_def distinct_map_filter versions_counted_def changes_of_def
      event_keys_known_def ledger_of_def find_booking_def booking_room_def find_room_time_def fun_eq_iff
      split: option.split)

lemma hotel_step_wf_keys:
  assumes inv: "inventory db" and keys: "wf_keys db" and step: "hotel_step cfg collate db db'"
  shows "wf_keys db'"
  using hotel_step_outcome [OF assms] booking_saved_keys [OF _ keys] wf_keys_cong [OF _ _ keys] keys_kept_simps(1) [OF keys]
  unfolding step_outcome_def quiet_def booking_inserted_def booking_transitioned_def booking_moved_def by blast

subsection \<open>The version of a booking counts its history\<close>

lemma changes_of_simps:
  "statusHistories db' = statusHistories db @ [h] \<Longrightarrow> changeHistories db' = changeHistories db \<Longrightarrow>
   changes_of db' i = changes_of db i + (if sh_bookingId h = i then 1 else 0)"
  "statusHistories db' = statusHistories db \<Longrightarrow> changeHistories db' = changeHistories db @ [c] \<Longrightarrow>
   changes_of db' i = changes_of db i + (if ch_bookingId c = i then 1 else 0)"
  by (simp_all add: changes_of_def)

lemma changes_of_fresh: "versions_counted db \<Longrightarrow> nextId db \<le> i \<Longrightarrow> changes_of db i = 0"
  by (auto simp: versions_counted_def changes_of_def filter_empty_conv)

lemma inserted_counted:
  assumes "inventory db" "versions_counted db" "booking_inserted db b db'"
  shows "versions_counted db'"
proof -
  obtain h where h: "statusHistories db' = statusHistories db @ [h]" "sh_bookingId h = b_id b"
    "changeHistories db' = changeHistories db" and rows: "bookings db' = bookings db @ [b]" "b_version b = 1"
    and ids: "nextId db \<le> b_id b" "b_id b < nextId db'"
    using assms(3) by (auto simp: booking_inserted_def history_appended_def)
  have old: "x \<in> set (bookings db) \<Longrightarrow> b_id x \<noteq> b_id b" for x
    using inventoryD(6) [OF assms(1)] ids by fastforce
  have "x \<in> set (bookings db') \<Longrightarrow> b_version x = changes_of db' (b_id x)" for x
    using assms(2) rows old [of x] changes_of_fresh [OF assms(2) ids(1)] h(2)
    by (auto simp: versions_counted_def changes_of_simps(1) [OF h(1,3)])
  then show ?thesis
    using assms(2) h ids by (auto simp: versions_counted_def)
qed

lemma saved_counted:
  assumes inv: "inventory db" and counted: "versions_counted db" and b: "b \<in> set (bookings db)"
    and saved: "booking_saved db s db'" and s: "same_contract b s" "b_version s = Suc (b_version b)"
    and one: "\<And>i. changes_of db' i = changes_of db i + (if i = b_id b then 1 else 0)"
    and ids: "\<And>h. h \<in> set (statusHistories db') \<Longrightarrow> h \<in> set (statusHistories db) \<or> sh_bookingId h = b_id b"
      "\<And>c. c \<in> set (changeHistories db') \<Longrightarrow> c \<in> set (changeHistories db) \<or> ch_bookingId c = b_id b"
  shows "versions_counted db'"
proof -
  have fresh: "b_id b < nextId db'" "nextId db \<le> nextId db'"
    using inventoryD(6) [OF inv b] saved by (auto simp: booking_saved_def same_catalogue_def)
  have mem: "x \<in> set (bookings db') \<Longrightarrow> x = s \<or> (x \<in> set (bookings db) \<and> b_id x \<noteq> b_id b)" for x
    using saved s(1) by (auto simp: booking_saved_def same_contract_def row_simps)
  show ?thesis
    unfolding versions_counted_def
  proof (intro conjI ballI)
    fix x assume "x \<in> set (bookings db')"
    then show "b_version x = changes_of db' (b_id x)"
      using mem [of x] counted b s by (auto simp: one versions_counted_def same_contract_def)
  next
    fix h assume "h \<in> set (statusHistories db')"
    then show "sh_bookingId h < nextId db'"
      using ids(1) [of h] counted fresh by (auto simp: versions_counted_def dest: order_less_le_trans)
  next
    fix c assume "c \<in> set (changeHistories db')"
    then show "ch_bookingId c < nextId db'"
      using ids(2) [of c] counted fresh by (auto simp: versions_counted_def dest: order_less_le_trans)
  qed
qed

lemma transitioned_counted:
  assumes "inventory db" "versions_counted db" "booking_transitioned db b s db'"
  shows "versions_counted db'"
proof -
  obtain h where h: "statusHistories db' = statusHistories db @ [h]" "sh_bookingId h = b_id b"
    "changeHistories db' = changeHistories db"
    using assms(3) by (auto simp: booking_transitioned_def history_appended_def)
  show ?thesis
    by (rule saved_counted [OF assms(1,2), of b s])
      (use assms(3) h changes_of_simps(1) [OF h(1,3)] in \<open>auto simp: booking_transitioned_def\<close>)
qed

lemma moved_counted:
  assumes "inventory db" "versions_counted db" "booking_moved db b s db'"
  shows "versions_counted db'"
proof -
  obtain c where c: "statusHistories db' = statusHistories db" "changeHistories db' = changeHistories db @ [c]"
    "ch_bookingId c = b_id b"
    using assms(3) by (auto simp: booking_moved_def)
  show ?thesis
    by (rule saved_counted [OF assms(1,2), of b s])
      (use assms(3) c changes_of_simps(2) [OF c(1,2)] in \<open>auto simp: booking_moved_def\<close>)
qed

lemma quiet_counted: "quiet db db' \<Longrightarrow> versions_counted db \<Longrightarrow> versions_counted db'"
  unfolding quiet_def versions_counted_def changes_of_def by (auto dest: order_less_le_trans)

subsection \<open>The keys of the events of a booking\<close>

lemma split_first: "c \<notin> set xs \<Longrightarrow> c \<notin> set ys \<Longrightarrow> xs @ c # u = ys @ c # v \<longleftrightarrow> xs = ys \<and> u = v"
proof (induction xs arbitrary: ys)
  case Nil
  then show ?case by (cases ys) auto
next
  case (Cons x xs)
  then show ?case by (cases ys) auto
qed

lemma split_last:
  assumes "c \<notin> set u" "c \<notin> set v"
  shows "xs @ c # u = ys @ c # v \<longleftrightarrow> xs = ys \<and> u = v"
proof -
  have "xs @ c # u = ys @ c # v \<longleftrightarrow> rev u @ c # rev xs = rev v @ c # rev ys"
    by (metis append.assoc append_Cons append_Nil rev.simps(2) rev_append rev_rev_ident)
  then show ?thesis using split_first [of c "rev u" "rev v"] assms by auto
qed

lemma bookingEventTypes_no_colon: "ty \<in> set bookingEventTypes \<Longrightarrow> CHR '':'' \<notin> set ty"
  by (auto simp: bookingEventTypes_def bookingLifecycleEventType_def)

lemma show_nat_no_colon: "CHR '':'' \<notin> set (show_nat n)"
  using show_nat_digits [of n] by (auto simp: is_digit_def)

lemma event_key_inj:
  assumes "ty \<in> set bookingEventTypes" "ty' \<in> set bookingEventTypes" "event_key ty p v = event_key ty' p' v'"
  shows "ty = ty' \<and> p = p' \<and> v = v'"
  using assms(3) split_first [OF assms(1,2) [THEN bookingEventTypes_no_colon]]
    split_last [OF show_nat_no_colon show_nat_no_colon, of p v p' v']
  by (simp add: event_key_def)

lemma events_known:
  assumes "event_keys_known db" "events_appended db s db'" "s \<in> set (bookings db')"
    and "\<And>b. b \<in> set (bookings db) \<Longrightarrow>
      \<exists>b' \<in> set (bookings db'). b_publicId b' = b_publicId b \<and> b_version b \<le> b_version b'"
  shows "event_keys_known db'"
  unfolding event_keys_known_def
proof (intro ballI allI impI)
  fix o' ty p v
  assume h: "o' \<in> set (outboxEvents db')" "ty \<in> set bookingEventTypes" "o_idempotencyKey o' = event_key ty p v"
  show "\<exists>b \<in> set (bookings db'). b_publicId b = p \<and> v \<le> b_version b"
  proof (cases "o' \<in> set (outboxEvents db)")
    case True
    then obtain b where "b \<in> set (bookings db)" "b_publicId b = p" "v \<le> b_version b"
      using assms(1) h unfolding event_keys_known_def by blast
    then show ?thesis using assms(4) [of b] by (meson order_trans)
  next
    case False
    then obtain ty' where "ty' \<in> set bookingEventTypes" "event_key ty p v = event_key ty' (b_publicId s) (b_version s)"
      using assms(2) h unfolding events_appended_def by (metis Un_iff set_append)
    then show ?thesis using event_key_inj [OF h(2)] assms(3) by blast
  qed
qed

lemma saved_rows_grow:
  assumes "booking_saved db s db'" "same_contract b s" "b_version s = Suc (b_version b)" "b \<in> set (bookings db)"
    "inventory db"
  shows "s \<in> set (bookings db')"
    and "x \<in> set (bookings db) \<Longrightarrow>
      \<exists>b' \<in> set (bookings db'). b_publicId b' = b_publicId x \<and> b_version x \<le> b_version b'"
proof -
  have rows: "bookings db' = update_where (\<lambda>r. b_id r = b_id s) (\<lambda>_. s) (bookings db)" and id: "b_id s = b_id b"
    using assms(1,2) by (simp_all add: booking_saved_def same_contract_def)
  show s: "s \<in> set (bookings db')" using assms(4) id by (auto simp: rows row_simps)
  assume x: "x \<in> set (bookings db)"
  show "\<exists>b' \<in> set (bookings db'). b_publicId b' = b_publicId x \<and> b_version x \<le> b_version b'"
  proof (cases "b_id x = b_id b")
    case True
    then have "x = b" using distinct_key_eq [OF inventoryD(2) [OF assms(5)] x assms(4)] by simp
    then show ?thesis using s assms(2,3) by (auto simp: same_contract_def)
  next
    case False
    then have "x \<in> set (bookings db')" using x id by (auto simp: rows row_simps)
    then show ?thesis by auto
  qed
qed

lemma transitioned_events:
  assumes "inventory db" "event_keys_known db" "booking_transitioned db b s db'"
  shows "event_keys_known db'"
  using assms(3) events_known [OF assms(2)] saved_rows_grow [OF _ _ _ _ assms(1), of s db' b]
  unfolding booking_transitioned_def by blast

lemma moved_events:
  assumes "inventory db" "event_keys_known db" "booking_moved db b s db'"
  shows "event_keys_known db'"
  using assms(3) events_known [OF assms(2)] saved_rows_grow [OF _ _ _ _ assms(1), of s db' b]
  unfolding booking_moved_def by blast

lemma inserted_events:
  assumes "event_keys_known db" "booking_inserted db b db'"
  shows "event_keys_known db'"
  by (rule events_known [OF assms(1), of b]) (use assms(2) in \<open>auto simp: booking_inserted_def\<close>)

lemma quiet_events: "quiet db db' \<Longrightarrow> event_keys_known db \<Longrightarrow> event_keys_known db'"
  unfolding quiet_def event_keys_known_def by metis

lemma hotel_step_system_inv:
  assumes "system_inv db" "hotel_step cfg collate db db'"
  shows "system_inv db'"
proof -
  note I = assms(1) [unfolded system_inv_def]
  have inv: "inventory db" and keys: "wf_keys db" using I by blast+
  have "versions_counted db' \<and> event_keys_known db'"
    using hotel_step_outcome [OF inv keys assms(2)] I
      quiet_counted inserted_counted transitioned_counted moved_counted
      quiet_events inserted_events transitioned_events moved_events keys_kept_simps(2,3)
    unfolding step_outcome_def by metis
  then show ?thesis
    using hotel_step_inventory [OF inv keys assms(2)] hotel_step_wf_keys [OF inv keys assms(2)]
    by (simp add: system_inv_def)
qed

subsection \<open>Simulation of the ledger\<close>

lemma ledger_of_inserted:
  assumes "inventory db" "inventory db'" "booking_inserted db b db'"
  obtains room where "ledger_of db' = (ledger_of db)(b_publicId b \<mapsto> ledger_row b room)"
    "ledger_of db (b_publicId b) = None"
proof -
  have rows: "bookings db' = bookings db @ [b]" and cat: "same_catalogue db db'"
    and new: "\<forall>x \<in> set (bookings db). b_publicId x \<noteq> b_publicId b"
    using assms(3) by (simp_all add: booking_inserted_def)
  note look = same_catalogue_lookups(4) [OF cat]
  obtain room where room: "booking_room db' b = Some room" using booking_room_Some [OF assms(2), of b] rows by auto
  have "ledger_of db' p = ((ledger_of db)(b_publicId b \<mapsto> ledger_row b room)) p" for p
  proof (cases "p = b_publicId b")
    case True
    then show ?thesis using ledger_of_iff [OF assms(2), of p] rows room by auto
  next
    case False
    then have "ledger_of db' p = Some a \<longleftrightarrow> ledger_of db p = Some a" for a
      unfolding ledger_of_iff [OF assms(1)] ledger_of_iff [OF assms(2)] look rows by auto
    then have "ledger_of db' p = ledger_of db p" by (cases "ledger_of db p"; cases "ledger_of db' p") auto
    then show ?thesis using False by simp
  qed
  then have "ledger_of db' = (ledger_of db)(b_publicId b \<mapsto> ledger_row b room)" by (rule ext)
  moreover have "ledger_of db (b_publicId b) = None" using ledger_of_None [OF assms(1)] new by simp
  ultimately show ?thesis by (rule that)
qed

lemma inserted_simulated:
  assumes "inventory db" "inventory db'" "booking_inserted db b db'"
  shows "ledger_step (ledger_of db) (ledger_of db')"
proof -
  obtain room where "ledger_of db' = (ledger_of db)(b_publicId b \<mapsto> ledger_row b room)"
    "ledger_of db (b_publicId b) = None"
    using ledger_of_inserted [OF assms] .
  moreover have "b_checkIn b < b_checkOut b" "b_status b = Pending" "b_version b = 1"
    using assms(3) by (simp_all add: booking_inserted_def booking_checks_def)
  ultimately show ?thesis by (simp add: ledger_step.requested)
qed

lemma transitioned_simulated:
  assumes "inventory db" "inventory db'" "booking_transitioned db b s db'"
  shows "ledger_step (ledger_of db) (ledger_of db')"
proof -
  have b: "b \<in> set (bookings db)" and saved: "booking_saved db s db'" and s: "same_contract b s"
    "b_version s = Suc (b_version b)" "b_roomTimeId s = b_roomTimeId b" "b_checkIn s = b_checkIn b"
    "b_checkOut s = b_checkOut b"
    using assms(3) by (simp_all add: booking_transitioned_def)
  obtain room where room: "booking_room db b = Some room" using booking_room_Some [OF assms(1) b] by blast
  then have "booking_room db s = Some room" using s by (simp add: booking_room_def)
  then have post: "ledger_of db' = (ledger_of db)(b_publicId b \<mapsto>
      (ledger_row b room)\<lparr>lb_status := b_status s, lb_version := Suc (lb_version (ledger_row b room))\<rparr>)"
    using ledger_of_saved [OF assms(1,2) b saved] s by (simp add: same_contract_def ledger_row_def)
  have pre: "ledger_of db (b_publicId b) = Some (ledger_row b room)"
    using ledger_of_iff [OF assms(1)] b room by blast
  consider "(b_status b, b_status s) \<in> settlements"
    | "b_status b = Pending" "b_status s = Confirmed"
      "assertNoConfirmedOverlap db room (b_id b) (b_checkIn b) (b_checkOut b) = Inr ()"
    using assms(3) room by (auto simp: booking_transitioned_def)
  then show ?thesis
  proof cases
    case 1
    then show ?thesis unfolding post by (intro ledger_step.settled [where L = "ledger_of db" and p = "b_publicId b", OF pre]) simp
  next
    case 2
    then have "\<not> clashes (ledger_of db) (b_publicId b) room (b_checkIn b) (b_checkOut b)"
      using clashes_iff [OF assms(1) b] by simp
    then show ?thesis unfolding post 2(2) 
      by (intro ledger_step.confirmed [where L = "ledger_of db" and p = "b_publicId b", OF pre]) (simp_all add: 2)
  qed
qed

lemma moved_simulated:
  assumes "inventory db" "inventory db'" "booking_moved db b s db'"
  shows "ledger_step (ledger_of db) (ledger_of db')"
proof -
  obtain room where b: "b \<in> set (bookings db)" and saved: "booking_saved db s db'" and s: "same_contract b s"
    "b_version s = Suc (b_version b)" "b_status s = b_status b" and live: "live b"
    and room: "booking_room db s = Some room"
    and free: "b_status b = Confirmed \<longrightarrow> assertNoConfirmedOverlap db room (b_id b) (b_checkIn s) (b_checkOut s) = Inr ()"
    using assms(3) by (auto simp: booking_moved_def)
  obtain old where old: "booking_room db b = Some old" using booking_room_Some [OF assms(1) b] by blast
  have post: "ledger_of db' = (ledger_of db)(b_publicId b \<mapsto>
      (ledger_row b old)\<lparr>lb_room := room, lb_checkIn := b_checkIn s, lb_checkOut := b_checkOut s,
        lb_version := Suc (lb_version (ledger_row b old))\<rparr>)"
    using ledger_of_saved [OF assms(1,2) b saved] s room by (simp add: same_contract_def ledger_row_def)
  have pre: "ledger_of db (b_publicId b) = Some (ledger_row b old)"
    using ledger_of_iff [OF assms(1)] b old by blast
  have "b_checkIn s < b_checkOut s" using saved by (simp add: booking_saved_def booking_checks_def)
  moreover have "b_status b = Confirmed \<Longrightarrow> \<not> clashes (ledger_of db) (b_publicId b) room (b_checkIn s) (b_checkOut s)"
    using clashes_iff [OF assms(1) b] free by simp
  ultimately show ?thesis
    unfolding post using live
    by (intro ledger_step.moved [where L = "ledger_of db" and p = "b_publicId b", OF pre]) (auto simp: live_def)
qed

lemma hotel_step_simulated:
  assumes "system_inv db" "hotel_step cfg collate db db'"
  shows "ledger_of db' = ledger_of db \<or> ledger_step (ledger_of db) (ledger_of db')"
proof -
  have inv: "inventory db" "wf_keys db" using assms(1) by (simp_all add: system_inv_def)
  have inv': "inventory db'" using hotel_step_inventory [OF inv assms(2)] .
  show ?thesis
    using hotel_step_outcome [OF inv assms(2)] ledger_of_quiet [OF _ inv(1) inv'] inserted_simulated [OF inv(1) inv']
      transitioned_simulated [OF inv(1) inv'] moved_simulated [OF inv(1) inv'] keys_kept_simps(4)
    unfolding step_outcome_def by blast
qed

lemma system_inv_empty: "system_inv empty_db"
  by (simp add: system_inv_def inventory_def wf_db_def wf_catalogue_def wf_bookings_def windows_disjoint_def
      live_in_window_def no_double_booking_def wf_keys_def versions_counted_def event_keys_known_def empty_db_def)

interpretation hotel: transition_system "hotel_step cfg collate" system_inv empty_db for cfg collate
  by unfold_locales (rule system_inv_empty, rule hotel_step_system_inv)

interpretation hotel: simulation "hotel_step cfg collate" system_inv empty_db ledger_of ledger_step for cfg collate
  by unfold_locales (rule hotel_step_simulated)

lemma ledger_of_empty: "ledger_of empty_db = Map.empty"
  by (simp add: ledger_of_def find_booking_def empty_db_def fun_eq_iff)

lemma reachable_system_inv: "hotel_reachable cfg collate db \<Longrightarrow> system_inv db"
  unfolding hotel_reachable_def by (rule hotel.reachable_inv)

lemma reachable_inventory: "hotel_reachable cfg collate db \<Longrightarrow> inventory db"
  using reachable_system_inv by (auto simp: system_inv_def)

lemma hotel_steps_evolve:
  assumes "hotel_reachable cfg collate db" "(hotel_step cfg collate)\<^sup>*\<^sup>* db db'"
  shows "evolves (ledger_of db) (ledger_of db')"
  using hotel.simulated_steps [OF assms(2) reachable_system_inv [OF assms(1)]] by (rule ledger_steps_evolve)

end
