(* ===== verification/Hotel_Progress.thy ===== *)
theory Hotel_Progress
  imports Hotel_System
begin

text \<open>
  Progress of the transitions: in every reachable database a transition that the contract allows
  commits, because none of the writes it makes can violate a constraint. A pending booking is
  confirmed exactly when no confirmed stay of its room meets it, and a pending or confirmed booking
  can always be cancelled by an administrator.
\<close>

definition fresh_uuids :: "tx_env \<Rightarrow> hotel_db \<Rightarrow> bool" where
  "fresh_uuids env db \<longleftrightarrow>
     drawUuid env 0 \<noteq> drawUuid env 1
     \<and> (\<forall>o' \<in> set (outboxEvents db). o_id o' \<noteq> drawUuid env 0 \<and> o_id o' \<noteq> drawUuid env 1)"

text \<open>No event was written for a version the booking has not reached.\<close>

lemma event_key_fresh:
  assumes "system_inv db" "b \<in> set (bookings db)" "b_version b < v" "ty \<in> set bookingEventTypes"
    "o' \<in> set (outboxEvents db)"
  shows "o_idempotencyKey o' \<noteq> event_key ty (b_publicId b) v"
proof
  assume "o_idempotencyKey o' = event_key ty (b_publicId b) v"
  then obtain x where x: "x \<in> set (bookings db)" "b_publicId x = b_publicId b" "v \<le> b_version x"
    using assms(1,4,5) unfolding system_inv_def event_keys_known_def by blast
  then have "x = b"
    using distinct_key_eq [OF inventoryD(3)] assms(1,2) unfolding system_inv_def by blast
  with x(3) assms(3) show False by simp
qed

lemma save_booking_ok:
  assumes "e \<notin> set (bookings db)" "booking_checks e" "booking_references db e"
  shows "save_booking e env db =
    Inr (saved_row e env, db\<lparr>bookings := update_where (\<lambda>r. b_id r = b_id e) (\<lambda>_. saved_row e env) (bookings db)\<rparr>)"
  using assms by (simp add: save_booking_def saved_row_def Let_def booking_checks_def booking_references_def)

lemma insert_status_history_ok:
  assumes "user_exists db actor" "\<exists>b \<in> set (bookings db). b_id b = i"
  shows "\<exists>db'. insert_status_history i f t a actor r env db = Inr db'
    \<and> outboxEvents db' = outboxEvents db \<and> rooms db' = rooms db \<and> roomTimes db' = roomTimes db"
  using assms by (auto simp: insert_status_history_def)

text \<open>The events of one version are written when their identifiers and keys are unused.\<close>

lemma events_ok:
  assumes "fresh_uuids env db" "ty \<in> set bookingEventTypes" "ty \<noteq> bookingLifecycleEventType"
    and keys: "\<And>t o'. t \<in> set bookingEventTypes \<Longrightarrow> o' \<in> set (outboxEvents db) \<Longrightarrow>
      o_idempotencyKey o' \<noteq> event_key t (b_publicId s) (b_version s)"
    and "lc_booking change = s"
  shows "\<exists>d. record_change (streamEnabled cfg) change env db = Inr d
    \<and> (\<exists>db'. insertOutbox s ty room reason detail (mail_uuid cfg env) env d = Inr db')"
proof -
  have "bookingLifecycleEventType \<in> set bookingEventTypes" by (simp add: bookingEventTypes_def)
  moreover from this have "event_key ty (b_publicId s) (b_version s) \<noteq>
      event_key bookingLifecycleEventType (b_publicId s) (b_version s)"
    using event_key_inj assms(2,3) by blast
  ultimately show ?thesis
    using assms by (auto simp: record_change_def insertOutbox_def insert_outbox_def fresh_uuids_def mail_uuid_def
        pending_event_def)
qed

lemma booking_place:
  assumes "inventory db" "b \<in> set (bookings db)"
  obtains w room where "find_room_time db (b_roomTimeId b) = Some w" "find_room db (w_roomId w) = Some room"
    "w \<in> set (roomTimes db)" "w_id w = b_roomTimeId b" "r_id room = w_roomId w" "booking_room db b = Some (w_roomId w)"
proof -
  obtain w where w: "find_room_time db (b_roomTimeId b) = Some w"
    using inventoryD(6) [OF assms] by (auto simp: booking_references_def)
  then have m: "w \<in> set (roomTimes db)" "w_id w = b_roomTimeId b"
    by (auto simp: find_room_time_def dest!: find_SomeD)
  then obtain room where room: "find_room db (w_roomId w) = Some room"
    using inventoryD(1) [OF assms(1)] by (auto simp: wf_db_def wf_catalogue_def)
  show ?thesis using that [OF w room m] find_room_Some [OF room] w by (simp add: booking_room_def)
qed

text \<open>A transition of a booking by an administrator commits once its guards hold.\<close>

lemma transition_ok:
  assumes inv: "system_inv db" and b: "b \<in> set (bookings db)" and actor: "user_exists db actor"
    and fresh: "fresh_uuids env db" and ty: "ty \<in> set bookingEventTypes" "ty \<noteq> bookingLifecycleEventType"
    and s: "s = saved_row e env" "b_id e = b_id b" "b_publicId e = b_publicId b" "b_version e = b_version b"
    and d: "d = db\<lparr>bookings := update_where (\<lambda>r. b_id r = b_id e) (\<lambda>_. s) (bookings db)\<rparr>"
    and change: "lc_booking change = s"
  shows "\<exists>d1 d2 db'. insert_status_history (b_id b) f t ActorAdmin actor reason env d = Inr d1
    \<and> record_change (streamEnabled cfg) change env d1 = Inr d2
    \<and> insertOutbox s ty room mailReason detail (mail_uuid cfg env) env d2 = Inr db'"
proof -
  have "s \<in> set (bookings d)" using b s(2) by (auto simp: d row_simps)
  then have "\<exists>x \<in> set (bookings d). b_id x = b_id b" using s(1,2) by (intro bexI [of _ s]) (simp add: saved_row_def)
  moreover have "user_exists d actor" using actor by (simp add: d user_exists_def)
  ultimately obtain d1 where d1: "insert_status_history (b_id b) f t ActorAdmin actor reason env d = Inr d1"
    "outboxEvents d1 = outboxEvents d"
    using insert_status_history_ok [of d actor "b_id b" f t ActorAdmin reason env] by blast
  have out: "outboxEvents d = outboxEvents db" by (simp add: d)
  have "fresh_uuids env d1" using fresh d1(2) out by (simp add: fresh_uuids_def)
  moreover have "o_idempotencyKey o' \<noteq> event_key t (b_publicId s) (b_version s)"
    if t: "t \<in> set bookingEventTypes" and o': "o' \<in> set (outboxEvents d1)" for t o'
    using event_key_fresh [OF inv b _ t, of "b_version s" o'] o' d1(2) out s by (simp add: saved_row_def)
  ultimately show ?thesis using d1(1) events_ok [OF _ ty _ change] by blast
qed

lemma append_ok:
  assumes "system_inv db" "b \<in> set (bookings db)" "user_exists db actor" "fresh_uuids env db"
    "ty \<in> set bookingEventTypes" "ty \<noteq> bookingLifecycleEventType" "b_id e = b_id b" "b_publicId e = b_publicId b"
    "b_version e = b_version b"
  obtains db' where "appendTransitionAndOutbox cfg (saved_row e env) actor reason ty room env
    (db\<lparr>bookings := update_where (\<lambda>r. b_id r = b_id e) (\<lambda>_. saved_row e env) (bookings db)\<rparr>) = Inr db'"
proof -
  let ?s = "saved_row e env" and ?d = "db\<lparr>bookings := update_where (\<lambda>r. b_id r = b_id e) (\<lambda>_. saved_row e env) (bookings db)\<rparr>"
  let ?change = "\<lparr>lc_booking = ?s, lc_roomId = r_id room, lc_roomTypeId = r_roomTypeId room,
                  lc_fromStatus = Some Pending, lc_previousStay = None\<rparr>"
  have "b_id ?s = b_id b" using assms(7) by (simp add: saved_row_def)
  moreover obtain d1 d2 db' where
    "insert_status_history (b_id b) (Some Pending) (b_status ?s) ActorAdmin actor reason env ?d = Inr d1"
    "record_change (streamEnabled cfg) ?change env d1 = Inr d2"
    "insertOutbox ?s ty room reason None (mail_uuid cfg env) env d2 = Inr db'"
    using transition_ok [OF assms(1-6) refl assms(7-9) refl, where change = ?change and cfg = cfg and room = room
        and f = "Some Pending" and t = "b_status ?s" and reason = reason and mailReason = reason and detail = None]
    by (simp only: BookingLifecycleChange.simps simp_thms) blast
  ultimately show ?thesis by (intro that) (simp add: appendTransitionAndOutbox_def)
qed

lemma room_window_found:
  assumes "inventory db" "w \<in> set (roomTimes db)"
  shows "find_room_window db (w_id w) (w_roomId w) = Some w"
proof -
  have "find_room_window db (w_id w) (w_roomId w) \<noteq> None"
    using assms(2) by (auto simp: find_room_window_def find_None_iff)
  then obtain v where v: "find_room_window db (w_id w) (w_roomId w) = Some v" by blast
  then have "v \<in> set (roomTimes db)" "w_id v = w_id w" by (auto simp: find_room_window_def dest!: find_SomeD)
  then show ?thesis using v assms(2) distinct_key_eq [OF inventoryD(4) [OF assms(1)]] by blast
qed

lemma approve_progress:
  assumes inv: "system_inv db" and snap: "bookingSourceSnapshot pid db = Inr sn" and f: "find_booking db pid = Some b"
    and pending: "b_status b = Pending" and actor: "user_exists db actor" and fresh: "fresh_uuids env db"
  shows "(\<exists>db'. approve_tx cfg sn actor pid env db = Inr (False, db'))
      \<and> assertNoConfirmedOverlap db (sn_roomId sn) (b_id b) (b_checkIn b) (b_checkOut b) = Inr ()
    \<or> approve_tx cfg sn actor pid env db = Inl bookingsErrors_roomAlreadyBooked
      \<and> assertNoConfirmedOverlap db (sn_roomId sn) (b_id b) (b_checkIn b) (b_checkOut b) = Inl bookingsErrors_roomAlreadyBooked"
proof -
  have I: "inventory db" using inv by (simp add: system_inv_def)
  note b = find_booking_Some [OF f]
  obtain w room where w: "find_room_time db (b_roomTimeId b) = Some w" "find_room db (w_roomId w) = Some room"
    "w \<in> set (roomTimes db)" "w_id w = b_roomTimeId b" "r_id room = w_roomId w"
    by (rule booking_place [OF I b(1)])
  have sn: "sn = \<lparr>sn_roomTimeId = b_roomTimeId b, sn_version = b_version b, sn_roomId = w_roomId w\<rparr>"
    using snap f w(1) by (simp add: bookingSourceSnapshot_def or_throw_def)
  obtain v where "v \<in> set (roomTimes db)" "holds v b"
    using inventoryD(7) [OF I b(1)] pending by (auto simp: live_def)
  moreover from this w(3,4) have "v = w"
    using distinct_key_eq [OF inventoryD(4) [OF I]] by (auto simp: holds_def)
  ultimately have holds: "w_status w = TimeActive" "w_availableFrom w \<le> b_checkIn b" "b_checkOut b \<le> w_availableTo w"
    by (simp_all add: holds_def)
  have win: "find_room_window db (b_roomTimeId b) (r_id room) = Some w"
    using room_window_found [OF I w(3)] w(4,5) by simp
  let ?e = "b\<lparr>b_status := Confirmed\<rparr>"
  have e: "?e \<notin> set (bookings db)"
    by (rule unsaved_entity [OF inventoryD(1) [OF I] b(1)]) (use pending in \<open>auto dest: arg_cong [where f = b_status]\<close>)
  have "booking_checks ?e" "booking_references db ?e"
    using inventoryD(6) [OF I b(1)] by (simp_all add: booking_checks_def booking_references_def)
  note saved = save_booking_ok [OF e this, of env]
  obtain db' where app: "appendTransitionAndOutbox cfg (saved_row ?e env) actor None ''booking.confirmed'' room env
      (db\<lparr>bookings := update_where (\<lambda>r. b_id r = b_id ?e) (\<lambda>_. saved_row ?e env) (bookings db)\<rparr>) = Inr db'"
    by (rule append_ok [OF inv b(1) actor fresh, of "''booking.confirmed''" ?e])
      (simp_all add: bookingEventTypes_def bookingLifecycleEventType_def)
  show ?thesis
    using w f pending holds win saved app
    by (auto simp: approve_tx_def sn lockRoom_def or_throw_def assertNoConfirmedOverlap_def require_def not_less)
qed

lemma cancelAdmin_progress:
  assumes inv: "system_inv db" and f: "find_booking db pid = Some b" and live: "live b"
    and actor: "user_exists db actor" and fresh: "fresh_uuids env db"
  shows "\<exists>db'. cancelAdmin_tx cfg actor pid reason env db = Inr (False, db')"
proof -
  have I: "inventory db" using inv by (simp add: system_inv_def)
  note b = find_booking_Some [OF f]
  obtain w room where w: "find_room_time db (b_roomTimeId b) = Some w" "find_room db (w_roomId w) = Some room"
    by (rule booking_place [OF I b(1)])
  let ?e = "b\<lparr>b_status := CancelledByAdmin\<rparr>" and ?s = "saved_row (b\<lparr>b_status := CancelledByAdmin\<rparr>) env"
  let ?d = "db\<lparr>bookings := update_where (\<lambda>r. b_id r = b_id b) (\<lambda>_. ?s) (bookings db)\<rparr>"
  let ?change = "\<lparr>lc_booking = ?s, lc_roomId = r_id room, lc_roomTypeId = r_roomTypeId room,
                  lc_fromStatus = Some (b_status b), lc_previousStay = None\<rparr>"
  have e: "?e \<notin> set (bookings db)"
    by (rule unsaved_entity [OF inventoryD(1) [OF I] b(1)])
      (use live in \<open>auto simp: live_def dest: arg_cong [where f = b_status]\<close>)
  have "booking_checks ?e" "booking_references db ?e"
    using inventoryD(6) [OF I b(1)] by (simp_all add: booking_checks_def booking_references_def)
  then have saved: "save_booking ?e env db = Inr (?s, ?d)" using save_booking_ok [OF e] by simp
  have room: "room_of_window ?d (b_roomTimeId b) = Inr room"
    using w by (simp add: room_of_window_def find_room_time_def find_room_def or_throw_def)
  obtain d1 d2 db' where
    "insert_status_history (b_id b) (Some (b_status b)) CancelledByAdmin ActorAdmin actor (Some reason) env ?d = Inr d1"
    "record_change (streamEnabled cfg) ?change env d1 = Inr d2"
    "insertOutbox ?s ''booking.cancelled_by_admin'' room (Some reason) None (mail_uuid cfg env) env d2 = Inr db'"
    using transition_ok [OF inv b(1) actor fresh, where ty = "''booking.cancelled_by_admin''" and s = ?s and e = ?e
        and d = ?d and change = ?change and cfg = cfg and room = room and f = "Some (b_status b)"
        and t = CancelledByAdmin and reason = "Some reason" and mailReason = "Some reason" and detail = None]
    by (simp add: bookingEventTypes_def bookingLifecycleEventType_def) blast
  then show ?thesis
    using f live saved room
    by (auto simp: cancelAdmin_tx_def or_throw_def live_def Let_def)
qed

end
