(* ===== verification/Text_Search.thy ===== *)
theory Text_Search
  imports Prelude
begin

text \<open>
  The free-text search of the administrative lists: the term of a query is trimmed, lower-cased,
  escaped and matched with \<open>LOWER(column) LIKE '%term%' ESCAPE '\\'\<close> (users.service.ts,
  room-filters.ts, reference-catalog.service.ts). \<open>String.prototype.trim\<close> and \<open>toLowerCase\<close> are
  given on the code units below 256; \<open>LIKE\<close> compares character by character under the collation of
  the column, which is the parameter \<open>same\<close>. The lemmas show that the escaped term is searched
  literally, whatever wildcards it contains.
\<close>

subsection \<open>Strings of the language\<close>

definition js_space :: "char \<Rightarrow> bool" where
  "js_space c \<longleftrightarrow> (let n = of_char c :: nat in 9 \<le> n \<and> n \<le> 13 \<or> n = 32 \<or> n = 160)"

definition trim :: "string \<Rightarrow> string" where
  "trim s = rev (dropWhile js_space (rev (dropWhile js_space s)))"

definition lower_char :: "char \<Rightarrow> char" where
  "lower_char c = (let n = of_char c :: nat in
     if 65 \<le> n \<and> n \<le> 90 \<or> 192 \<le> n \<and> n \<le> 222 \<and> n \<noteq> 215 then char_of (n + 32) else c)"

definition toLowerCase :: "string \<Rightarrow> string" where
  "toLowerCase s = map lower_char s"

subsection \<open>LIKE\<close>

definition like_escape :: char where
  "like_escape = CHR 0x5C"

fun sql_like :: "(char \<Rightarrow> char \<Rightarrow> bool) \<Rightarrow> string \<Rightarrow> string \<Rightarrow> bool" where
  "sql_like same [] s \<longleftrightarrow> s = []"
| "sql_like same (p # ps) s \<longleftrightarrow>
     (if p = CHR ''%'' then
        sql_like same ps s \<or> (case s of [] \<Rightarrow> False | c # cs \<Rightarrow> sql_like same (p # ps) cs)
      else case s of
        [] \<Rightarrow> False
      | c # cs \<Rightarrow>
          if p = CHR ''_'' then sql_like same ps cs
          else if p = like_escape then
            (case ps of [] \<Rightarrow> same p c \<and> cs = [] | q # qs \<Rightarrow> same q c \<and> sql_like same qs cs)
          else same p c \<and> sql_like same ps cs)"

text \<open>\<open>value.replace(/[\\%_]/g, '\\$&')\<close>\<close>

definition escapeLike :: "string \<Rightarrow> string" where
  "escapeLike value =
     concat (map (\<lambda>c. if c = like_escape \<or> c = CHR ''%'' \<or> c = CHR ''_'' then [like_escape, c] else [c]) value)"

text \<open>The pattern the services build from a query parameter; \<open>None\<close> when the parameter adds no condition.\<close>

definition search_pattern :: "string option \<Rightarrow> string option" where
  "search_pattern query = (case query of
       None \<Rightarrow> None
     | Some q \<Rightarrow> if trim q = [] then None
                else Some (''%'' @ escapeLike (toLowerCase (trim q)) @ ''%''))"

text \<open>\<open>LOWER(column) LIKE :term\<close>\<close>

definition column_like :: "(char \<Rightarrow> char \<Rightarrow> bool) \<Rightarrow> string \<Rightarrow> string \<Rightarrow> bool" where
  "column_like same pattern column \<longleftrightarrow> sql_like same pattern (toLowerCase column)"

subsection \<open>The term is searched literally\<close>

definition occurs_in :: "(char \<Rightarrow> char \<Rightarrow> bool) \<Rightarrow> string \<Rightarrow> string \<Rightarrow> bool" where
  "occurs_in same t s \<longleftrightarrow> (\<exists>u v w. s = u @ v @ w \<and> list_all2 same t v)"

lemma like_escape_chars [simp]: "like_escape \<noteq> CHR ''%''" "like_escape \<noteq> CHR ''_''"
  by (simp_all add: like_escape_def)

lemma like_percent: "sql_like same (CHR ''%'' # ps) s \<longleftrightarrow> (\<exists>u v. s = u @ v \<and> sql_like same ps v)"
proof (induction s)
  case Nil then show ?case by simp
next
  case (Cons c cs)
  have "sql_like same (CHR ''%'' # ps) (c # cs) \<longleftrightarrow>
      sql_like same ps (c # cs) \<or> sql_like same (CHR ''%'' # ps) cs" by simp
  also have "\<dots> \<longleftrightarrow> sql_like same ps (c # cs) \<or> (\<exists>u v. cs = u @ v \<and> sql_like same ps v)"
    by (simp only: Cons.IH)
  also have "\<dots> \<longleftrightarrow> (\<exists>u v. c # cs = u @ v \<and> sql_like same ps v)"
    by (metis append_Cons append_Nil append_eq_Cons_conv)
  finally show ?case .
qed

lemma like_percent_end [simp]: "sql_like same [CHR ''%''] s"
  by (induction s) auto

lemma like_escaped:
  "sql_like same (escapeLike t @ ps) s \<longleftrightarrow>
     (\<exists>v w. s = v @ w \<and> list_all2 same t v \<and> sql_like same ps w)"
proof (induction t arbitrary: s)
  case Nil then show ?case by (simp add: escapeLike_def)
next
  case (Cons c t)
  have step: "sql_like same (escapeLike (c # t) @ ps) s \<longleftrightarrow>
      (\<exists>d ds. s = d # ds \<and> same c d \<and> sql_like same (escapeLike t @ ps) ds)"
    by (cases s) (auto simp: escapeLike_def)
  show ?case unfolding step Cons.IH by (auto simp: list_all2_Cons1) (metis append_Cons)+
qed

lemma like_literal:
  "sql_like same (''%'' @ escapeLike t @ ''%'') s \<longleftrightarrow> occurs_in same t s"
proof -
  have "sql_like same (''%'' @ escapeLike t @ ''%'') s \<longleftrightarrow>
      (\<exists>u v. s = u @ v \<and> sql_like same (escapeLike t @ ''%'') v)"
    using like_percent [of same "escapeLike t @ ''%''" s] by simp
  also have "\<dots> \<longleftrightarrow> occurs_in same t s"
    unfolding like_escaped occurs_in_def using like_percent_end by blast
  finally show ?thesis .
qed

lemma occurs_in_eq: "occurs_in (=) t s \<longleftrightarrow> (\<exists>u w. s = u @ t @ w)"
  by (auto simp: occurs_in_def list_all2_eq [symmetric])

lemma search_pattern_like:
  "search_pattern query = Some pattern \<Longrightarrow> \<exists>q. query = Some q \<and> trim q \<noteq> []
     \<and> (\<forall>column. column_like same pattern column \<longleftrightarrow>
          occurs_in same (toLowerCase (trim q)) (toLowerCase column))"
  unfolding search_pattern_def column_like_def
  by (cases query) (auto simp: like_literal [simplified] split: if_splits)

end
