(* ===== verification/Accounts.thy ===== *)
theory Accounts
  imports Schema Text_Search
begin

text \<open>
  Users and their administration: the tables of the authentication schema (the migration
  CreateAuthRbacSchema and the entities under users/entities and auth/entities), the service behind
  the user administration (users/users.service.ts) and the command that makes the first
  administrator (users/admin-bootstrap.service.ts). An account is a row of \<open>users\<close> with the columns the
  booking tables never read. Instants are microseconds; the clock of the process reads whole
  milliseconds. A statement that the driver rejects is a field of the environment.
\<close>

subsection \<open>Tables\<close>

record account_row = user_row +
  u_emailVerifiedAt :: instant
  u_createdAt :: instant
  u_updatedAt :: instant

datatype AuthProvider = Google

record identity_row =
  ai_id :: nat
  ai_userId :: nat
  ai_provider :: AuthProvider
  ai_providerSubject :: string
  ai_providerEmail :: string
  ai_createdAt :: instant
  ai_updatedAt :: instant

record session_row =
  se_id :: string
  se_userId :: nat
  se_refreshTokenHash :: string
  se_refreshExpiresAt :: instant
  se_revokedAt :: "instant option"
  se_createdAt :: instant
  se_updatedAt :: instant

record user_status_history_row =
  ush_id :: nat
  ush_userId :: nat
  ush_actorUserId :: nat
  ush_fromStatus :: UserStatus
  ush_toStatus :: UserStatus
  ush_reason :: string
  ush_createdAt :: instant

datatype RoleActorType = RoleActorUser | RoleActorCli

record user_role_history_row =
  urh_id :: nat
  urh_userId :: nat
  urh_actorType :: RoleActorType
  urh_actorUserId :: "nat option"
  urh_fromRole :: UserRole
  urh_toRole :: UserRole
  urh_reason :: string
  urh_createdAt :: instant

record auth_db =
  accounts :: "account_row list"
  identities :: "identity_row list"
  sessions :: "session_row list"
  userStatusHistories :: "user_status_history_row list"
  userRoleHistories :: "user_role_history_row list"
  nextAuthId :: nat

definition empty_auth_db :: auth_db where
  "empty_auth_db = \<lparr>accounts = [], identities = [], sessions = [], userStatusHistories = [],
     userRoleHistories = [], nextAuthId = 1\<rparr>"

text \<open>
  The surroundings of a request: the clocks and UUIDs of a transaction, the base64url texts of the
  random bytes in the order they are drawn, and the error codes of the driver when the connection
  cannot be opened or a statement is rejected.
\<close>

record auth_env = tx_env +
  randomText :: "nat \<Rightarrow> string"
  connectFails :: "string option"
  queryFails :: "string option"

definition ensureInitialized :: "auth_env \<Rightarrow> error + unit" where
  "ensureInitialized env = (case connectFails env of None \<Rightarrow> Inr () | Some code \<Rightarrow> Inl (DatabaseError code))"

text \<open>A transaction commits what its body returns or leaves the database as it was.\<close>

definition run_transaction :: "auth_env \<Rightarrow> (auth_db \<Rightarrow> error + 'a \<times> auth_db) \<Rightarrow> auth_db \<Rightarrow> error + 'a \<times> auth_db" where
  "run_transaction env body db = (case queryFails env of None \<Rightarrow> body db | Some code \<Rightarrow> Inl (DatabaseError code))"

definition find_account :: "nat \<Rightarrow> auth_db \<Rightarrow> account_row option" where
  "find_account i db = List.find (\<lambda>u. u_id u = i) (accounts db)"

definition find_session :: "string \<Rightarrow> auth_db \<Rightarrow> session_row option" where
  "find_session i db = List.find (\<lambda>s. se_id s = i) (sessions db)"

definition put_account :: "account_row \<Rightarrow> auth_db \<Rightarrow> auth_db" where
  "put_account u db = db\<lparr>accounts := update_where (\<lambda>r. u_id r = u_id u) (\<lambda>_. u) (accounts db)\<rparr>"

text \<open>\<open>manager.save\<close> of a loaded user: nothing is written when no column changed.\<close>

definition save_account ::
  "(string \<Rightarrow> string) \<Rightarrow> account_row \<Rightarrow> auth_env \<Rightarrow> auth_db \<Rightarrow> error + account_row \<times> auth_db" where
  "save_account collate u env db =
     (if u \<in> set (accounts db) then Inr (u, db)
      else if \<exists>r \<in> set (accounts db). u_id r \<noteq> u_id u \<and> collate (u_email r) = collate (u_email u)
      then Inl ER_DUP_ENTRY
      else let u' = u\<lparr>u_updatedAt := dbNow env\<rparr> in Inr (u', put_account u' db))"

subsection \<open>Users service\<close>

definition usersErrors_notFound :: error where
  "usersErrors_notFound = ApplicationException 404 ''USER_NOT_FOUND''"

definition usersErrors_selfDeactivationForbidden :: error where
  "usersErrors_selfDeactivationForbidden = ApplicationException 409 ''SELF_DEACTIVATION_FORBIDDEN''"

definition usersErrors_lastAdminDeactivationForbidden :: error where
  "usersErrors_lastAdminDeactivationForbidden = ApplicationException 409 ''LAST_ADMIN_DEACTIVATION_FORBIDDEN''"

record AdminUserResponse =
  ar_id :: string
  ar_email :: string
  ar_displayName :: string
  ar_role :: UserRole
  ar_status :: UserStatus
  ar_createdAt :: string
  ar_updatedAt :: string

definition toAdminUserResponse :: "account_row \<Rightarrow> AdminUserResponse" where
  "toAdminUserResponse u =
     \<lparr>ar_id = show_nat (u_id u), ar_email = u_email u, ar_displayName = u_displayName u, ar_role = u_role u,
      ar_status = u_status u, ar_createdAt = iso_instant (u_createdAt u), ar_updatedAt = iso_instant (u_updatedAt u)\<rparr>"

record ListUsersQuery =
  lu_query :: "string option"
  lu_role :: "UserRole option"
  lu_status :: "UserStatus option"
  lu_page :: nat
  lu_pageSize :: nat

record 'a paginated =
  pg_items :: "'a list"
  pg_page :: nat
  pg_pageSize :: nat
  pg_total :: nat

definition listed_user :: "(char \<Rightarrow> char \<Rightarrow> bool) \<Rightarrow> ListUsersQuery \<Rightarrow> account_row \<Rightarrow> bool" where
  "listed_user same query u \<longleftrightarrow>
     (case search_pattern (lu_query query) of
        None \<Rightarrow> True
      | Some term \<Rightarrow> column_like same term (u_email u) \<or> column_like same term (u_displayName u))
     \<and> (case lu_role query of None \<Rightarrow> True | Some role \<Rightarrow> u_role u = role)
     \<and> (case lu_status query of None \<Rightarrow> True | Some status \<Rightarrow> u_status u = status)"

definition list_users ::
  "(char \<Rightarrow> char \<Rightarrow> bool) \<Rightarrow> ListUsersQuery \<Rightarrow> auth_env \<Rightarrow> auth_db \<Rightarrow> error + AdminUserResponse paginated" where
  "list_users same query env db =
     and_then (ensureInitialized env) (\<lambda>_.
     case queryFails env of Some code \<Rightarrow> Inl (DatabaseError code) | None \<Rightarrow>
     let found = filter (listed_user same query) (accounts db) in
     Inr \<lparr>pg_items = map toAdminUserResponse (page_of (lu_page query) (lu_pageSize query) (sort_key u_id found)),
          pg_page = lu_page query, pg_pageSize = lu_pageSize query, pg_total = length found\<rparr>)"

definition getById_user :: "nat \<Rightarrow> auth_env \<Rightarrow> auth_db \<Rightarrow> error + AdminUserResponse" where
  "getById_user userId env db =
     and_then (ensureInitialized env) (\<lambda>_.
     case queryFails env of Some code \<Rightarrow> Inl (DatabaseError code) | None \<Rightarrow>
     and_then (or_throw (find_account userId db) usersErrors_notFound) (\<lambda>u. Inr (toAdminUserResponse u)))"

definition activeAdmins :: "auth_db \<Rightarrow> account_row list" where
  "activeAdmins db = filter (\<lambda>u. u_role u = RoleAdmin \<and> u_status u = UserActive) (accounts db)"

text \<open>The insert of an audit row: both users are foreign keys.\<close>

definition insert_user_status_history ::
  "nat \<Rightarrow> nat \<Rightarrow> UserStatus \<Rightarrow> UserStatus \<Rightarrow> string \<Rightarrow> auth_env \<Rightarrow> auth_db \<Rightarrow> error + auth_db" where
  "insert_user_status_history userId actorUserId fromStatus toStatus reason env db =
     (if find_account userId db = None \<or> find_account actorUserId db = None then Inl ER_NO_REFERENCED_ROW_2
      else Inr (db\<lparr>userStatusHistories := userStatusHistories db @
             [\<lparr>ush_id = nextAuthId db, ush_userId = userId, ush_actorUserId = actorUserId,
               ush_fromStatus = fromStatus, ush_toStatus = toStatus, ush_reason = reason, ush_createdAt = dbNow env\<rparr>],
             nextAuthId := Suc (nextAuthId db)\<rparr>))"

definition open_session :: "nat \<Rightarrow> session_row \<Rightarrow> bool" where
  "open_session userId s \<longleftrightarrow> se_userId s = userId \<and> se_revokedAt s = None"

definition revoke_sessions :: "nat \<Rightarrow> auth_env \<Rightarrow> auth_db \<Rightarrow> auth_db" where
  "revoke_sessions userId env db =
     db\<lparr>sessions := update_where (open_session userId)
          (\<lambda>s. s\<lparr>se_revokedAt := Some (jsNow env), se_updatedAt := dbNow env\<rparr>) (sessions db)\<rparr>"

text \<open>The transaction of a status change: the saved user and the sessions it revoked.\<close>

definition updateStatus_tx ::
  "(string \<Rightarrow> string) \<Rightarrow> nat \<Rightarrow> nat \<Rightarrow> UserStatus \<Rightarrow> string \<Rightarrow> auth_env \<Rightarrow> auth_db
   \<Rightarrow> error + (account_row \<times> string list) \<times> auth_db" where
  "updateStatus_tx collate actorUserId targetUserId status reason env db =
     and_then (or_throw (find_account targetUserId db) usersErrors_notFound) (\<lambda>target.
     if u_status target = status then Inr ((target, []), db)
     else
       and_then (require (\<not> (status = UserInactive \<and> u_id target = actorUserId))
         usersErrors_selfDeactivationForbidden) (\<lambda>_.
       and_then (require (\<not> (status = UserInactive \<and> u_role target = RoleAdmin \<and> length (activeAdmins db) \<le> 1))
         usersErrors_lastAdminDeactivationForbidden) (\<lambda>_.
       and_then (save_account collate (target\<lparr>u_status := status\<rparr>) env db) (\<lambda>(saved, db1).
       and_then (insert_user_status_history (u_id target) actorUserId (u_status target) status reason env db1) (\<lambda>db2.
       if status = UserInactive then
         Inr ((saved, map se_id (filter (open_session (u_id target)) (sessions db2))), revoke_sessions (u_id target) env db2)
       else Inr ((saved, []), db2))))))"

subsection \<open>The first administrator\<close>

datatype AdminBootstrapError = INVALID_USER_ID | INVALID_BOOTSTRAP_INPUT | USER_IDENTITY_MISMATCH | USER_INACTIVE
  | BootstrapDatabaseError error

datatype AdminBootstrapResult = Promoted | AlreadyAdmin

definition insert_user_role_history ::
  "nat \<Rightarrow> UserRole \<Rightarrow> UserRole \<Rightarrow> string \<Rightarrow> auth_env \<Rightarrow> auth_db \<Rightarrow> auth_db" where
  "insert_user_role_history userId fromRole toRole reason env db =
     db\<lparr>userRoleHistories := userRoleHistories db @
          [\<lparr>urh_id = nextAuthId db, urh_userId = userId, urh_actorType = RoleActorCli, urh_actorUserId = None,
            urh_fromRole = fromRole, urh_toRole = toRole, urh_reason = reason, urh_createdAt = dbNow env\<rparr>],
        nextAuthId := Suc (nextAuthId db)\<rparr>"

definition promote ::
  "(string \<Rightarrow> string) \<Rightarrow> string \<Rightarrow> string \<Rightarrow> string \<Rightarrow> auth_env \<Rightarrow> auth_db
   \<Rightarrow> AdminBootstrapError + AdminBootstrapResult \<times> auth_db" where
  "promote collate userId inputEmail inputReason env db =
     (let email = toLowerCase (trim inputEmail); reason = trim inputReason in
     and_then (require (decimalIdPattern userId) INVALID_USER_ID) (\<lambda>_.
     and_then (require (email \<noteq> [] \<and> reason \<noteq> [] \<and> length reason \<le> 1000) INVALID_BOOTSTRAP_INPUT) (\<lambda>_.
     case ensureInitialized env of Inl e \<Rightarrow> Inl (BootstrapDatabaseError e) | Inr _ \<Rightarrow>
     case queryFails env of Some code \<Rightarrow> Inl (BootstrapDatabaseError (DatabaseError code)) | None \<Rightarrow>
     and_then (or_throw (List.find (\<lambda>u. show_nat (u_id u) = userId) (accounts db)) USER_IDENTITY_MISMATCH) (\<lambda>user.
     and_then (require (u_email user = email) USER_IDENTITY_MISMATCH) (\<lambda>_.
     and_then (require (u_status user = UserActive) USER_INACTIVE) (\<lambda>_.
     if u_role user = RoleAdmin then Inr (AlreadyAdmin, db)
     else case save_account collate (user\<lparr>u_role := RoleAdmin\<rparr>) env db of
         Inl e \<Rightarrow> Inl (BootstrapDatabaseError e)
       | Inr (saved, db1) \<Rightarrow>
           Inr (Promoted, insert_user_role_history (u_id user) (u_role user) RoleAdmin reason env db1)))))))"

subsection \<open>Searching the list of users\<close>

text \<open>What the administrator asks for: the term occurs in the email or the name, and role and status match.\<close>

definition user_wanted :: "(char \<Rightarrow> char \<Rightarrow> bool) \<Rightarrow> ListUsersQuery \<Rightarrow> account_row \<Rightarrow> bool" where
  "user_wanted same query u \<longleftrightarrow>
     (case lu_query query of None \<Rightarrow> True | Some q \<Rightarrow> trim q = []
        \<or> occurs_in same (toLowerCase (trim q)) (toLowerCase (u_email u))
        \<or> occurs_in same (toLowerCase (trim q)) (toLowerCase (u_displayName u)))
     \<and> lu_role query \<in> {None, Some (u_role u)} \<and> lu_status query \<in> {None, Some (u_status u)}"

lemma listed_iff_wanted: "listed_user same query u \<longleftrightarrow> user_wanted same query u"
proof -
  have lit: "column_like same (CHR ''%'' # escapeLike (toLowerCase (trim q)) @ ''%'') column \<longleftrightarrow>
      occurs_in same (toLowerCase (trim q)) (toLowerCase column)" for q column
    unfolding column_like_def using like_literal [of same "toLowerCase (trim q)" "toLowerCase column"] by simp
  show ?thesis
    by (cases "lu_query query"; cases "lu_role query"; cases "lu_status query")
      (auto simp: listed_user_def user_wanted_def search_pattern_def lit)
qed

text \<open>C24. The search of the user list is literal: reading its pages one after the other gives, in the order of
  their ids, exactly the users whose email or name contains the trimmed term up to case and collation and
  whose role and status match, each once; a percent sign, an underscore or a backslash in the term stands
  for itself.\<close>

theorem user_list_exact:
  assumes "connectFails env = None" "queryFails env = None"
    and "length (filter (user_wanted same query) (accounts db)) \<le> n * lu_pageSize query"
  shows "concat (map (\<lambda>p. pg_items (projr (list_users same (query\<lparr>lu_page := p\<rparr>) env db))) [1..<Suc n]) =
    map toAdminUserResponse (sort_key u_id (filter (user_wanted same query) (accounts db)))"
proof -
  let ?found = "sort_key u_id (filter (user_wanted same query) (accounts db))"
  have same: "listed_user same (query\<lparr>lu_page := p\<rparr>) = user_wanted same query" for p
    by (auto simp: fun_eq_iff listed_iff_wanted) (auto simp: user_wanted_def split: option.splits)
  have "pg_items (projr (list_users same (query\<lparr>lu_page := p\<rparr>) env db)) =
      map toAdminUserResponse (page_of p (lu_pageSize query) ?found)" for p
    using assms(1,2) by (simp add: list_users_def ensureInitialized_def same Let_def)
  then have "concat (map (\<lambda>p. pg_items (projr (list_users same (query\<lparr>lu_page := p\<rparr>) env db))) [1..<Suc n]) =
      map toAdminUserResponse (concat (map (\<lambda>p. page_of p (lu_pageSize query) ?found) [1..<Suc n]))"
    by (simp only: map_concat map_map comp_def)
  then show ?thesis using pages_partition [of ?found n "lu_pageSize query"] assms(3) by simp
qed

definition demo_user :: "nat \<Rightarrow> string \<Rightarrow> account_row" where
  "demo_user i email = \<lparr>u_id = i, u_email = email, u_displayName = ''N'', u_role = RoleUser, u_status = UserActive,
     u_emailVerifiedAt = 0, u_createdAt = 0, u_updatedAt = 0\<rparr>"

definition demo_quiet_env :: auth_env where
  "demo_quiet_env = \<lparr>dbNow = 0, jsNow = 0, hotelToday = [], drawUuid = (\<lambda>_. []), ulidState = ulid_initial, ulidRandom = 0,
     randomText = (\<lambda>_. []), connectFails = None, queryFails = None\<rparr>"

theorem user_list_exact_witness:
  "pg_items (projr (list_users (=) \<lparr>lu_query = Some ''_'', lu_role = None, lu_status = None, lu_page = 1, lu_pageSize = 2\<rparr>
     demo_quiet_env (empty_auth_db\<lparr>accounts := [demo_user 2 ''a_b'', demo_user 1 ''acb'']\<rparr>))) =
   [toAdminUserResponse (demo_user 2 ''a_b'')]"
proof -
  let ?q = "\<lparr>lu_query = Some ''_'', lu_role = None, lu_status = None, lu_page = 1, lu_pageSize = 2\<rparr>"
  let ?db = "empty_auth_db\<lparr>accounts := [demo_user 2 ''a_b'', demo_user 1 ''acb'']\<rparr>"
  have t: "trim ''_'' = ''_''" "toLowerCase ''_'' = ''_''" "toLowerCase ''a_b'' = ''a_b''" "toLowerCase ''acb'' = ''acb''"
    "toLowerCase ''N'' = ''n''" by code_simp+
  have "occurs_in (=) ''_'' ''a_b''" unfolding occurs_in_eq by (rule exI [of _ "''a''"], rule exI [of _ "''b''"]) simp
  moreover have "\<not> occurs_in (=) ''_'' s" if "CHR ''_'' \<notin> set s" for s using that by (auto simp: occurs_in_eq)
  ultimately have "filter (user_wanted (=) ?q) (accounts ?db) = [demo_user 2 ''a_b'']"
    by (simp add: user_wanted_def demo_user_def t)
  then show ?thesis
    using user_list_exact [of demo_quiet_env "(=)" ?q ?db 1] by (simp add: demo_quiet_env_def)
qed

end
