(* ===== verification/Sessions.thy ===== *)
theory Sessions
  imports Accounts
begin

text \<open>
  Sessions (auth/session.service.ts, auth/access-token.service.ts, the revocation cache of
  auth/auth-redis.service.ts and the two guards under auth/guards). Parameters: SHA-256, the signer
  and verifier of JSON Web Tokens, and the Redis client, of which a command either is rejected or
  replies and changes the store. The lemmas of this theory are about one operation at a time; what
  holds of all of them together is in the theory of the whole component.
\<close>

subsection \<open>Errors and configuration\<close>

definition authErrors_oauthTransactionInvalid :: error where
  "authErrors_oauthTransactionInvalid = ApplicationException 401 ''OAUTH_TRANSACTION_INVALID''"

definition authErrors_googleAuthenticationFailed :: error where
  "authErrors_googleAuthenticationFailed = ApplicationException 401 ''GOOGLE_AUTHENTICATION_FAILED''"

definition authErrors_googleAuthenticationUnavailable :: error where
  "authErrors_googleAuthenticationUnavailable = ApplicationException 503 ''GOOGLE_AUTHENTICATION_UNAVAILABLE''"

definition authErrors_identityConflict :: error where
  "authErrors_identityConflict = ApplicationException 409 ''IDENTITY_CONFLICT''"

definition authErrors_sessionInvalid :: error where
  "authErrors_sessionInvalid = ApplicationException 401 ''SESSION_INVALID''"

definition authErrors_userInactive :: error where
  "authErrors_userInactive = ApplicationException 403 ''USER_INACTIVE''"

definition authErrors_authorizationUnavailable :: error where
  "authErrors_authorizationUnavailable = ApplicationException 503 ''AUTHORIZATION_UNAVAILABLE''"

definition authErrors_rateLimited :: error where
  "authErrors_rateLimited = ApplicationException 429 ''AUTH_RATE_LIMITED''"

lemmas authErrors_defs = authErrors_oauthTransactionInvalid_def authErrors_googleAuthenticationFailed_def
  authErrors_googleAuthenticationUnavailable_def authErrors_identityConflict_def authErrors_sessionInvalid_def
  authErrors_userInactive_def authErrors_authorizationUnavailable_def authErrors_rateLimited_def

record auth_config =
  ac_googleEnabled :: bool
  ac_googleClientId :: "string option"
  ac_googleClientSecret :: "string option"
  ac_googleRedirectUri :: "string option"
  ac_jwtSecret :: string
  ac_jwtIssuer :: string
  ac_jwtAudience :: string
  ac_accessTtlSeconds :: int
  ac_refreshTtlSeconds :: int
  ac_oauthTransactionTtlSeconds :: int
  ac_cookieSecure :: bool
  ac_rateLimitMax :: int
  ac_rateLimitWindowSeconds :: int
  ac_redisKeyPrefix :: string
  ac_successRedirectUri :: string

subsection \<open>The Redis client\<close>

datatype 'a reply = Rejected | Reply 'a

text \<open>The commands the program sends; the SET is \<open>SET key value EX seconds\<close>, with \<open>NX\<close> when the flag is set.\<close>

record 'r redis_client =
  cmd_get :: "string \<Rightarrow> 'r \<Rightarrow> string option reply \<times> 'r"
  cmd_set :: "string \<Rightarrow> string \<Rightarrow> int \<Rightarrow> bool \<Rightarrow> 'r \<Rightarrow> string option reply \<times> 'r"
  cmd_getdel :: "string \<Rightarrow> 'r \<Rightarrow> string option reply \<times> 'r"

definition revocationKey :: "auth_config \<Rightarrow> string \<Rightarrow> string" where
  "revocationKey cfg sessionId = ac_redisKeyPrefix cfg @ '':revoked:'' @ sessionId"

definition isRevoked :: "'r redis_client \<Rightarrow> auth_config \<Rightarrow> string \<Rightarrow> 'r \<Rightarrow> bool option \<times> 'r" where
  "isRevoked client cfg sessionId r = (case cmd_get client (revocationKey cfg sessionId) r of
       (Rejected, r') \<Rightarrow> (None, r')
     | (Reply value, r') \<Rightarrow> (Some (value = Some ''1''), r'))"

definition markRevoked :: "'r redis_client \<Rightarrow> auth_config \<Rightarrow> string \<Rightarrow> int \<Rightarrow> 'r \<Rightarrow> 'r" where
  "markRevoked client cfg sessionId ttlSeconds r =
     (if ttlSeconds \<le> 0 then r else snd (cmd_set client (revocationKey cfg sessionId) ''1'' ttlSeconds False r))"

definition markSessionsRevoked :: "'r redis_client \<Rightarrow> auth_config \<Rightarrow> string list \<Rightarrow> 'r \<Rightarrow> 'r" where
  "markSessionsRevoked client cfg sessionIds r =
     fold (\<lambda>sessionId. markRevoked client cfg sessionId (ac_accessTtlSeconds cfg)) sessionIds r"

subsection \<open>Access tokens\<close>

record jwt_options =
  jo_secret :: string
  jo_algorithm :: string
  jo_issuer :: string
  jo_audience :: string

text \<open>The signer also gets the lifetime and the instant, the verifier the instant; a verifier returns the payload of a token it accepts.\<close>

type_synonym jwt_signer = "jwt_options \<Rightarrow> int \<Rightarrow> instant \<Rightarrow> (string \<times> json) list \<Rightarrow> string"
type_synonym jwt_verifier = "jwt_options \<Rightarrow> instant \<Rightarrow> string \<Rightarrow> (string \<times> json) list option"

record AccessTokenClaims =
  cl_sub :: string
  cl_sid :: string
  cl_role :: UserRole

record AccessTokenResponse =
  at_accessToken :: string
  at_tokenType :: string
  at_expiresIn :: int

record IssuedSession = AccessTokenResponse +
  is_refreshToken :: string
  is_refreshExpiresAt :: instant

fun show_UserRole :: "UserRole \<Rightarrow> string" where
  "show_UserRole RoleUser = ''USER''"
| "show_UserRole RoleAdmin = ''ADMIN''"

definition parse_UserRole :: "json \<Rightarrow> UserRole option" where
  "parse_UserRole value = List.find (\<lambda>role. value = JStr (show_UserRole role)) [RoleUser, RoleAdmin]"

definition jwt_options_of :: "auth_config \<Rightarrow> jwt_options" where
  "jwt_options_of cfg = \<lparr>jo_secret = ac_jwtSecret cfg, jo_algorithm = ''HS256'', jo_issuer = ac_jwtIssuer cfg,
     jo_audience = ac_jwtAudience cfg\<rparr>"

definition access_payload :: "nat \<Rightarrow> string \<Rightarrow> UserRole \<Rightarrow> (string \<times> json) list" where
  "access_payload userId sessionId role =
     [(''sub'', JStr (show_nat userId)), (''sid'', JStr sessionId), (''role'', JStr (show_UserRole role)),
      (''typ'', JStr ''access'')]"

definition issue ::
  "jwt_signer \<Rightarrow> auth_config \<Rightarrow> nat \<Rightarrow> string \<Rightarrow> UserRole \<Rightarrow> auth_env \<Rightarrow> AccessTokenResponse" where
  "issue sign cfg userId sessionId role env =
     \<lparr>at_accessToken = sign (jwt_options_of cfg) (ac_accessTtlSeconds cfg) (jsNow env)
        (access_payload userId sessionId role),
      at_tokenType = ''Bearer'', at_expiresIn = ac_accessTtlSeconds cfg\<rparr>"

definition verify_access_token ::
  "jwt_verifier \<Rightarrow> auth_config \<Rightarrow> auth_env \<Rightarrow> string \<Rightarrow> error + AccessTokenClaims" where
  "verify_access_token verify cfg env token =
     (case verify (jwt_options_of cfg) (jsNow env) token of
        None \<Rightarrow> Inl authErrors_sessionInvalid
      | Some claims \<Rightarrow>
          if json_field ''typ'' claims \<noteq> Some (JStr ''access'') then Inl authErrors_sessionInvalid
          else case (json_field ''sub'' claims, json_field ''sid'' claims,
                     Option.bind (json_field ''role'' claims) parse_UserRole) of
            (Some (JStr subject), Some (JStr sid), Some role) \<Rightarrow> Inr \<lparr>cl_sub = subject, cl_sid = sid, cl_role = role\<rparr>
          | _ \<Rightarrow> Inl authErrors_sessionInvalid)"

subsection \<open>Refresh tokens\<close>

definition hex_lower :: "char \<Rightarrow> bool" where
  "hex_lower c \<longleftrightarrow> is_digit c \<or> in_range CHR ''a'' CHR ''f'' c"

definition base64url_char :: "char \<Rightarrow> bool" where
  "base64url_char c \<longleftrightarrow> in_range CHR ''A'' CHR ''Z'' c \<or> in_range CHR ''a'' CHR ''z'' c \<or> is_digit c
     \<or> c = CHR ''_'' \<or> c = CHR ''-''"

text \<open>The version 4 UUID of \<open>parseRefreshToken\<close>, in lower case.\<close>

definition uuid4_lower :: "string \<Rightarrow> bool" where
  "uuid4_lower v \<longleftrightarrow> length v = 36
     \<and> list_all (\<lambda>i. if i \<in> set [8, 13, 18, 23] then v ! i = CHR ''-''
                    else if i = 14 then v ! i = CHR ''4''
                    else if i = 19 then v ! i \<in> set ''89ab''
                    else hex_lower (v ! i)) [0..<36]"

definition createRefreshToken :: "string \<Rightarrow> nat \<Rightarrow> auth_env \<Rightarrow> string" where
  "createRefreshToken sessionId n env = sessionId @ ''.'' @ randomText env n"

text \<open>
  The expression is case-insensitive. Without the u flag \<open>/i\<close> folds by \<open>toUpperCase\<close>, and no code unit
  outside of ASCII folds into it, so the flag is a comparison in lower case.
\<close>

definition parseRefreshToken :: "string option \<Rightarrow> string option" where
  "parseRefreshToken token = (case token of
       None \<Rightarrow> None
     | Some t \<Rightarrow>
         if length t = 80 \<and> uuid4_lower (toLowerCase (take 36 t)) \<and> t ! 36 = CHR ''.''
            \<and> list_all base64url_char (drop 37 t)
         then Some (toLowerCase (take 36 t)) else None)"

text \<open>\<open>Buffer.from(text, 'hex')\<close>: pairs of digits up to the first that is none.\<close>

definition hex_value :: "char \<Rightarrow> nat option" where
  "hex_value c = (let n = of_char c :: nat in
     if 48 \<le> n \<and> n \<le> 57 then Some (n - 48)
     else if 97 \<le> n \<and> n \<le> 102 then Some (n - 87)
     else if 65 \<le> n \<and> n \<le> 70 then Some (n - 55) else None)"

fun hex_buffer :: "string \<Rightarrow> nat list" where
  "hex_buffer (a # b # rest) = (case (hex_value a, hex_value b) of
       (Some x, Some y) \<Rightarrow> (16 * x + y) # hex_buffer rest
     | _ \<Rightarrow> [])"
| "hex_buffer _ = []"

definition constantTimeHashMatches :: "(string \<Rightarrow> string) \<Rightarrow> string \<Rightarrow> string \<Rightarrow> bool" where
  "constantTimeHashMatches sha256 token expectedHash \<longleftrightarrow>
     length (hex_buffer (sha256 token)) = length (hex_buffer expectedHash)
     \<and> hex_buffer (sha256 token) = hex_buffer expectedHash"

subsection \<open>Session service\<close>

text \<open>
  \<open>manager.save\<close> of an entity whose key is given: the stored row of that key is updated, or a new row
  inserted.
\<close>

definition save_session :: "session_row \<Rightarrow> auth_env \<Rightarrow> auth_db \<Rightarrow> auth_db" where
  "save_session s env db =
     (case find_session (se_id s) db of
        None \<Rightarrow> db\<lparr>sessions := sessions db @ [s\<lparr>se_createdAt := dbNow env, se_updatedAt := dbNow env\<rparr>]\<rparr>
      | Some stored \<Rightarrow>
          db\<lparr>sessions := update_where (\<lambda>r. se_id r = se_id s)
               (\<lambda>_. s\<lparr>se_createdAt := se_createdAt stored, se_updatedAt := dbNow env\<rparr>) (sessions db)\<rparr>)"

definition createWithManager ::
  "(string \<Rightarrow> string) \<Rightarrow> jwt_signer \<Rightarrow> auth_config \<Rightarrow> account_row \<Rightarrow> auth_env \<Rightarrow> auth_db
   \<Rightarrow> error + IssuedSession \<times> auth_db" where
  "createWithManager sha256 sign cfg user env db =
     and_then (require (u_status user = UserActive) authErrors_userInactive) (\<lambda>_.
     let identifier = drawUuid env 0;
         refreshToken = createRefreshToken identifier 0 env;
         refreshExpiresAt = jsNow env + ac_refreshTtlSeconds cfg * 1000000;
         session = \<lparr>se_id = identifier, se_userId = u_id user, se_refreshTokenHash = sha256 refreshToken,
           se_refreshExpiresAt = refreshExpiresAt, se_revokedAt = None, se_createdAt = dbNow env, se_updatedAt = dbNow env\<rparr>;
         access = issue sign cfg (u_id user) identifier (u_role user) env in
     Inr (\<lparr>at_accessToken = at_accessToken access, at_tokenType = at_tokenType access, at_expiresIn = at_expiresIn access,
           is_refreshToken = refreshToken, is_refreshExpiresAt = refreshExpiresAt\<rparr>,
          save_session session env db))"

definition create_session ::
  "(string \<Rightarrow> string) \<Rightarrow> jwt_signer \<Rightarrow> auth_config \<Rightarrow> nat \<Rightarrow> auth_env \<Rightarrow> auth_db
   \<Rightarrow> error + IssuedSession \<times> auth_db" where
  "create_session sha256 sign cfg userId env db =
     and_then (ensureInitialized env) (\<lambda>_.
     run_transaction env (\<lambda>db.
       and_then (or_throw (find_account userId db) authErrors_sessionInvalid) (\<lambda>lockedUser.
       createWithManager sha256 sign cfg lockedUser env db)) db)"

text \<open>The row of a session with the user it is joined with.\<close>

definition joined_session :: "string \<Rightarrow> auth_db \<Rightarrow> (session_row \<times> account_row) option" where
  "joined_session sessionId db =
     Option.bind (find_session sessionId db) (\<lambda>s.
     Option.bind (find_account (se_userId s) db) (\<lambda>u. Some (s, u)))"

definition session_ended :: "auth_env \<Rightarrow> session_row \<Rightarrow> bool" where
  "session_ended env s \<longleftrightarrow> se_revokedAt s \<noteq> None \<or> se_refreshExpiresAt s \<le> jsNow env"

datatype refresh_result = RefreshSuccess session_row account_row string | RefreshInvalid "string option"
  | RefreshInactive string

definition end_session :: "session_row \<Rightarrow> auth_env \<Rightarrow> session_row" where
  "end_session s env = s\<lparr>se_revokedAt := Some (jsNow env)\<rparr>"

definition refresh_tx ::
  "(string \<Rightarrow> string) \<Rightarrow> string \<Rightarrow> string \<Rightarrow> auth_env \<Rightarrow> auth_db \<Rightarrow> error + refresh_result \<times> auth_db" where
  "refresh_tx sha256 sessionId rawToken env db =
     (case joined_session sessionId db of
        None \<Rightarrow> Inr (RefreshInvalid None, db)
      | Some (s, u) \<Rightarrow>
          if session_ended env s then Inr (RefreshInvalid None, db)
          else if \<not> constantTimeHashMatches sha256 rawToken (se_refreshTokenHash s) then
            Inr (RefreshInvalid (Some (se_id s)), save_session (end_session s env) env db)
          else if u_status u \<noteq> UserActive then
            Inr (RefreshInactive (se_id s), save_session (end_session s env) env db)
          else
            let refreshToken = createRefreshToken (se_id s) 0 env;
                s' = s\<lparr>se_refreshTokenHash := sha256 refreshToken\<rparr> in
            Inr (RefreshSuccess s' u refreshToken, save_session s' env db))"

text \<open>Errors that carry a code pass, everything else is reported as an outage.\<close>

definition keep_coded :: "error \<Rightarrow> error" where
  "keep_coded e = (case e of ApplicationException _ _ \<Rightarrow> e | _ \<Rightarrow> authErrors_authorizationUnavailable)"

text \<open>
  A refresh returns its answer with the state of the database and of Redis: a failed refresh may have
  revoked the session.
\<close>

definition refresh ::
  "(string \<Rightarrow> string) \<Rightarrow> jwt_signer \<Rightarrow> 'r redis_client \<Rightarrow> auth_config \<Rightarrow> string option \<Rightarrow> auth_env
   \<Rightarrow> auth_db \<times> 'r \<Rightarrow> (error + IssuedSession) \<times> auth_db \<times> 'r" where
  "refresh sha256 sign client cfg rawToken env state =
     (let (db, r) = state in
      case parseRefreshToken rawToken of
        None \<Rightarrow> (Inl authErrors_sessionInvalid, state)
      | Some sessionId \<Rightarrow>
      case ensureInitialized env of
        Inl e \<Rightarrow> (Inl e, state)
      | Inr _ \<Rightarrow>
      case run_transaction env (refresh_tx sha256 sessionId (the rawToken) env) db of
        Inl e \<Rightarrow> (Inl (keep_coded e), state)
      | Inr (RefreshInvalid None, db') \<Rightarrow> (Inl authErrors_sessionInvalid, db', r)
      | Inr (RefreshInvalid (Some revoked), db') \<Rightarrow>
          (Inl authErrors_sessionInvalid, db', markRevoked client cfg revoked (ac_accessTtlSeconds cfg) r)
      | Inr (RefreshInactive revoked, db') \<Rightarrow>
          (Inl authErrors_userInactive, db', markRevoked client cfg revoked (ac_accessTtlSeconds cfg) r)
      | Inr (RefreshSuccess s u refreshToken, db') \<Rightarrow>
          let access = issue sign cfg (u_id u) (se_id s) (u_role u) env in
          (Inr \<lparr>at_accessToken = at_accessToken access, at_tokenType = at_tokenType access,
                at_expiresIn = at_expiresIn access, is_refreshToken = refreshToken,
                is_refreshExpiresAt = se_refreshExpiresAt s\<rparr>, db', r))"

record AuthenticatedPrincipal =
  ap_userId :: nat
  ap_sessionId :: string
  ap_email :: string
  ap_displayName :: string
  ap_role :: UserRole
  ap_status :: UserStatus

definition principal_of :: "session_row \<Rightarrow> account_row \<Rightarrow> AuthenticatedPrincipal" where
  "principal_of s u = \<lparr>ap_userId = u_id u, ap_sessionId = se_id s, ap_email = u_email u,
     ap_displayName = u_displayName u, ap_role = u_role u, ap_status = u_status u\<rparr>"

text \<open>The lookup compares \<open>user_id\<close> with the subject of the token, which the signer writes in decimal notation; how
  MySQL coerces other texts to a number is left out.\<close>

definition authorize_session :: "AccessTokenClaims \<Rightarrow> auth_env \<Rightarrow> auth_db \<Rightarrow> error + AuthenticatedPrincipal" where
  "authorize_session claims env db =
     (case joined_session (cl_sid claims) db of
        None \<Rightarrow> Inl authErrors_sessionInvalid
      | Some (s, u) \<Rightarrow>
          if show_nat (se_userId s) \<noteq> cl_sub claims \<or> session_ended env s then Inl authErrors_sessionInvalid
          else if u_status u \<noteq> UserActive then Inl authErrors_userInactive
          else Inr (principal_of s u))"

definition authenticateAccessToken ::
  "jwt_verifier \<Rightarrow> 'r redis_client \<Rightarrow> auth_config \<Rightarrow> string \<Rightarrow> auth_env \<Rightarrow> auth_db \<times> 'r
   \<Rightarrow> (error + AuthenticatedPrincipal) \<times> 'r" where
  "authenticateAccessToken verify client cfg token env state =
     (let (db, r) = state in
      case verify_access_token verify cfg env token of
        Inl e \<Rightarrow> (Inl e, r)
      | Inr claims \<Rightarrow>
      case isRevoked client cfg (cl_sid claims) r of
        (Some True, r') \<Rightarrow> (Inl authErrors_sessionInvalid, r')
      | (_, r') \<Rightarrow>
          (case and_then (ensureInitialized env) (\<lambda>_.
             case queryFails env of Some code \<Rightarrow> Inl (DatabaseError code)
             | None \<Rightarrow> authorize_session claims env db) of
             Inl e \<Rightarrow> Inl (keep_coded e)
           | Inr authenticated \<Rightarrow> Inr authenticated, r'))"

definition revoke_tx :: "string \<Rightarrow> auth_env \<Rightarrow> auth_db \<Rightarrow> error + unit \<times> auth_db" where
  "revoke_tx sessionId env db =
     (case find_session sessionId db of
        None \<Rightarrow> Inr ((), db)
      | Some s \<Rightarrow> if se_revokedAt s = None then Inr ((), save_session (end_session s env) env db) else Inr ((), db))"

definition revoke ::
  "'r redis_client \<Rightarrow> auth_config \<Rightarrow> string \<Rightarrow> auth_env \<Rightarrow> auth_db \<times> 'r \<Rightarrow> (error + unit) \<times> auth_db \<times> 'r" where
  "revoke client cfg sessionId env state =
     (let (db, r) = state in
      case ensureInitialized env of
        Inl e \<Rightarrow> (Inl e, state)
      | Inr _ \<Rightarrow>
      case run_transaction env (revoke_tx sessionId env) db of
        Inl _ \<Rightarrow> (Inl authErrors_authorizationUnavailable, state)
      | Inr (_, db') \<Rightarrow> (Inr (), db', markRevoked client cfg sessionId (ac_accessTtlSeconds cfg) r))"

text \<open>A status change of the users service, with the cache entries it writes after its commit.\<close>

definition updateStatus ::
  "(string \<Rightarrow> string) \<Rightarrow> 'r redis_client \<Rightarrow> auth_config \<Rightarrow> nat \<Rightarrow> nat \<Rightarrow> UserStatus \<Rightarrow> string \<Rightarrow> auth_env
   \<Rightarrow> auth_db \<times> 'r \<Rightarrow> (error + AdminUserResponse) \<times> auth_db \<times> 'r" where
  "updateStatus collate client cfg actorUserId targetUserId status reason env state =
     (let (db, r) = state in
      case and_then (ensureInitialized env) (\<lambda>_.
             run_transaction env (updateStatus_tx collate actorUserId targetUserId status reason env) db) of
        Inl e \<Rightarrow> (Inl e, state)
      | Inr ((user, revokedSessionIds), db') \<Rightarrow>
          (Inr (toAdminUserResponse user), db', markSessionsRevoked client cfg revokedSessionIds r))"

subsection \<open>Guards\<close>

text \<open>\<open>/^Bearer ([A-Za-z0-9._~-]+)$/\<close>\<close>

definition extractBearerToken :: "string option \<Rightarrow> string option" where
  "extractBearerToken authorization = (case authorization of
       None \<Rightarrow> None
     | Some h \<Rightarrow>
         if take 7 h = ''Bearer '' \<and> drop 7 h \<noteq> []
            \<and> list_all (\<lambda>c. base64url_char c \<or> c = CHR ''.'' \<or> c = CHR ''~'') (drop 7 h)
         then Some (drop 7 h) else None)"

text \<open>What the guard of the access token attaches to the request.\<close>

definition AccessTokenGuard ::
  "jwt_verifier \<Rightarrow> 'r redis_client \<Rightarrow> auth_config \<Rightarrow> bool \<Rightarrow> string option \<Rightarrow> auth_env \<Rightarrow> auth_db \<times> 'r
   \<Rightarrow> (error + AuthenticatedPrincipal option) \<times> 'r" where
  "AccessTokenGuard verify client cfg isPublic authorization env state =
     (if isPublic then (Inr None, snd state)
      else case extractBearerToken authorization of
        None \<Rightarrow> (Inl authErrors_sessionInvalid, snd state)
      | Some token \<Rightarrow>
          (case authenticateAccessToken verify client cfg token env state of
             (Inl e, r') \<Rightarrow> (Inl e, r')
           | (Inr authenticated, r') \<Rightarrow> (Inr (Some authenticated), r')))"

definition ForbiddenException :: error where
  "ForbiddenException = ApplicationException 403 ''FORBIDDEN''"

definition RolesGuard :: "UserRole list \<Rightarrow> AuthenticatedPrincipal option \<Rightarrow> error + unit" where
  "RolesGuard requiredRoles attached =
     (if requiredRoles = [] then Inr ()
      else case attached of
        None \<Rightarrow> Inl ForbiddenException
      | Some p \<Rightarrow> require (ap_role p \<in> set requiredRoles) ForbiddenException)"

end
