(* ===== verification/Rate_Limit.thy ===== *)
theory Rate_Limit
  imports Sessions
begin

text \<open>
  The shared fixed-window limiter (common/rate-limit/rate-limit.service.ts) with the budgets of
  authentication (auth-redis.service.ts) and of booking requests
  (bookings/booking-create-rate-limit.guard.ts). INCR and EXPIRE are the two Redis commands of the
  Lua script; \<open>counting\<close> says what the script relies on: a counter that INCR increases by one and that
  EXPIRE leaves alone. The main lemma bounds what a caller can spend while its window lasts.
\<close>

record 'r script_commands =
  script_incr :: "string \<Rightarrow> 'r \<Rightarrow> int \<times> 'r"
  script_expire :: "string \<Rightarrow> string \<Rightarrow> 'r \<Rightarrow> 'r"

text \<open>The script runs as one command.\<close>

definition fixedWindowRateLimitScript :: "'r script_commands \<Rightarrow> string \<Rightarrow> string \<Rightarrow> 'r \<Rightarrow> int \<times> 'r" where
  "fixedWindowRateLimitScript cmds key windowSeconds r =
     (let (current, r1) = script_incr cmds key r in
      (current, if current = 1 then script_expire cmds key windowSeconds r1 else r1))"

record RateLimitAttempt =
  rl_scope :: string
  rl_discriminator :: string
  rl_max :: int
  rl_windowSeconds :: nat

text \<open>\<open>/^[a-z0-9-]{1,64}$/\<close>\<close>

definition allowedScope :: "string \<Rightarrow> bool" where
  "allowedScope scope \<longleftrightarrow> 1 \<le> length scope \<and> length scope \<le> 64
     \<and> list_all (\<lambda>c. in_range CHR ''a'' CHR ''z'' c \<or> is_digit c \<or> c = CHR ''-'') scope"

definition RateLimitStoreUnavailableError :: error where
  "RateLimitStoreUnavailableError = PlainError ''Rate-limit storage is unavailable''"

text \<open>
  What happens to the command: answered, never sent (the client is closed, no connection), or executed
  with its answer lost (the deadline passed).
\<close>

datatype delivery = Answered | NotSent | AnswerLost

definition rate_key :: "(string \<Rightarrow> string) \<Rightarrow> string \<Rightarrow> RateLimitAttempt \<Rightarrow> string" where
  "rate_key sha256 prefix attempt = prefix @ '':'' @ rl_scope attempt @ '':'' @ sha256 (rl_discriminator attempt)"

definition consume ::
  "'r script_commands \<Rightarrow> (string \<Rightarrow> string) \<Rightarrow> string \<Rightarrow> RateLimitAttempt \<Rightarrow> delivery \<Rightarrow> 'r \<Rightarrow> (error + bool) \<times> 'r" where
  "consume cmds sha256 prefix attempt delivery r =
     (if \<not> allowedScope (rl_scope attempt) then (Inl RateLimitStoreUnavailableError, r)
      else let (current, r') = fixedWindowRateLimitScript cmds (rate_key sha256 prefix attempt)
                 (show_nat (rl_windowSeconds attempt)) r in
        case delivery of
          Answered \<Rightarrow> (Inr (current \<le> rl_max attempt), r')
        | NotSent \<Rightarrow> (Inl RateLimitStoreUnavailableError, r)
        | AnswerLost \<Rightarrow> (Inl RateLimitStoreUnavailableError, r'))"

datatype AuthRateLimitScope = ScopeGoogleStart | ScopeGoogleCallback | ScopeRefresh

fun show_AuthRateLimitScope :: "AuthRateLimitScope \<Rightarrow> string" where
  "show_AuthRateLimitScope ScopeGoogleStart = ''google-start''"
| "show_AuthRateLimitScope ScopeGoogleCallback = ''google-callback''"
| "show_AuthRateLimitScope ScopeRefresh = ''refresh''"

definition auth_attempt :: "auth_config \<Rightarrow> AuthRateLimitScope \<Rightarrow> string \<Rightarrow> RateLimitAttempt" where
  "auth_attempt cfg scope discriminator = \<lparr>rl_scope = ''auth-'' @ show_AuthRateLimitScope scope,
     rl_discriminator = discriminator, rl_max = ac_rateLimitMax cfg, rl_windowSeconds = nat (ac_rateLimitWindowSeconds cfg)\<rparr>"

definition assertRateLimit ::
  "'r script_commands \<Rightarrow> (string \<Rightarrow> string) \<Rightarrow> string \<Rightarrow> auth_config \<Rightarrow> AuthRateLimitScope \<Rightarrow> string \<Rightarrow> delivery \<Rightarrow> 'r
   \<Rightarrow> (error + unit) \<times> 'r" where
  "assertRateLimit cmds sha256 prefix cfg scope discriminator delivery r =
     (case consume cmds sha256 prefix (auth_attempt cfg scope discriminator) delivery r of
        (Inl _, r') \<Rightarrow> (Inl authErrors_authorizationUnavailable, r')
      | (Inr allowed, r') \<Rightarrow> (require allowed authErrors_rateLimited, r'))"

definition bookingsErrors_createUnavailable :: error where
  "bookingsErrors_createUnavailable = ApplicationException 503 ''BOOKING_CREATE_UNAVAILABLE''"

definition bookingsErrors_createRateLimited :: error where
  "bookingsErrors_createRateLimited = ApplicationException 429 ''BOOKING_CREATE_RATE_LIMITED''"

definition BookingCreateRateLimitGuard ::
  "'r script_commands \<Rightarrow> (string \<Rightarrow> string) \<Rightarrow> string \<Rightarrow> int \<Rightarrow> nat \<Rightarrow> AuthenticatedPrincipal option \<Rightarrow> delivery \<Rightarrow> 'r
   \<Rightarrow> (error + unit) \<times> 'r" where
  "BookingCreateRateLimitGuard cmds sha256 prefix maximum windowSeconds attached delivery r =
     (case attached of
        None \<Rightarrow> (Inl bookingsErrors_createUnavailable, r)
      | Some p \<Rightarrow>
          (case consume cmds sha256 prefix
                  \<lparr>rl_scope = ''booking-create'', rl_discriminator = show_nat (ap_userId p), rl_max = maximum,
                   rl_windowSeconds = windowSeconds\<rparr> delivery r of
             (Inl _, r') \<Rightarrow> (Inl bookingsErrors_createUnavailable, r')
           | (Inr allowed, r') \<Rightarrow> (require allowed bookingsErrors_createRateLimited, r')))"

subsection \<open>What a window allows\<close>

text \<open>A sequence of attempts, each with the fate of its command.\<close>

fun consume_all ::
  "'r script_commands \<Rightarrow> (string \<Rightarrow> string) \<Rightarrow> string \<Rightarrow> (RateLimitAttempt \<times> delivery) list \<Rightarrow> 'r \<Rightarrow> (error + bool) list" where
  "consume_all cmds sha256 prefix [] r = []"
| "consume_all cmds sha256 prefix ((attempt, delivery) # rest) r =
     (let (result, r') = consume cmds sha256 prefix attempt delivery r in
      result # consume_all cmds sha256 prefix rest r')"

text \<open>\<open>value r k\<close> is the number the key holds, 0 when it is absent.\<close>

definition counting :: "'r script_commands \<Rightarrow> ('r \<Rightarrow> string \<Rightarrow> int) \<Rightarrow> bool" where
  "counting cmds value \<longleftrightarrow>
     (\<forall>k r. fst (script_incr cmds k r) = value r k + 1
        \<and> value (snd (script_incr cmds k r)) = (value r)(k := value r k + 1))
     \<and> (\<forall>k n r. 0 < n \<longrightarrow> value (script_expire cmds k (show_nat n) r) = value r)"

text \<open>How many attempts on a key were let through.\<close>

definition allowed_on :: "(string \<Rightarrow> string) \<Rightarrow> string \<Rightarrow> string \<Rightarrow> (RateLimitAttempt \<times> delivery) list \<Rightarrow> (error + bool) list \<Rightarrow> nat" where
  "allowed_on sha256 prefix key attempts results =
     length (filter (\<lambda>((attempt, _), result). rate_key sha256 prefix attempt = key \<and> result = Inr True)
       (zip attempts results))"

definition attempts_on :: "(string \<Rightarrow> string) \<Rightarrow> string \<Rightarrow> string \<Rightarrow> (RateLimitAttempt \<times> delivery) list \<Rightarrow> nat" where
  "attempts_on sha256 prefix key attempts =
     length (filter (\<lambda>(attempt, _). rate_key sha256 prefix attempt = key) attempts)"

definition usable_attempt :: "RateLimitAttempt \<Rightarrow> bool" where
  "usable_attempt attempt \<longleftrightarrow> allowedScope (rl_scope attempt) \<and> 0 < rl_windowSeconds attempt"

lemma script_counts:
  assumes "counting cmds value" "0 < n"
  shows "fst (fixedWindowRateLimitScript cmds k (show_nat n) r) = value r k + 1"
    and "value (snd (fixedWindowRateLimitScript cmds k (show_nat n) r)) = (value r)(k := value r k + 1)"
  using assms by (auto simp: fixedWindowRateLimitScript_def counting_def split_beta Let_def)

lemma consume_counts:
  assumes "counting cmds value" "usable_attempt a"
  shows "consume cmds sha256 prefix a d r = (result, r') \<Longrightarrow>
    value r' = (if d = NotSent then value r
                else (value r)(rate_key sha256 prefix a := value r (rate_key sha256 prefix a) + 1))
    \<and> (result = Inr True \<longleftrightarrow> d = Answered \<and> value r (rate_key sha256 prefix a) < rl_max a)"
  using script_counts [OF assms(1), of "rl_windowSeconds a" "rate_key sha256 prefix a" r] assms(2)
  by (cases d) (auto simp: consume_def usable_attempt_def split_beta Let_def)

lemma allowed_within_budget:
  assumes c: "counting cmds value"
    and u: "\<And>a d. (a, d) \<in> set attempts \<Longrightarrow> usable_attempt a"
    and m: "\<And>a d. (a, d) \<in> set attempts \<Longrightarrow> rate_key sha256 prefix a = key \<Longrightarrow> rl_max a = m"
    and v: "0 \<le> value r key"
  shows "int (allowed_on sha256 prefix key attempts (consume_all cmds sha256 prefix attempts r)) \<le> max 0 (m - value r key)"
    and "(\<And>a d. (a, d) \<in> set attempts \<Longrightarrow> d = Answered) \<Longrightarrow>
      int (allowed_on sha256 prefix key attempts (consume_all cmds sha256 prefix attempts r))
        = min (int (attempts_on sha256 prefix key attempts)) (max 0 (m - value r key))"
proof -
  have "int (allowed_on sha256 prefix key attempts (consume_all cmds sha256 prefix attempts r)) \<le> max 0 (m - value r key)
    \<and> ((\<forall>(a, d) \<in> set attempts. d = Answered) \<longrightarrow>
      int (allowed_on sha256 prefix key attempts (consume_all cmds sha256 prefix attempts r))
        = min (int (attempts_on sha256 prefix key attempts)) (max 0 (m - value r key)))"
    using u m v
  proof (induction attempts arbitrary: r)
    case Nil then show ?case by (simp add: allowed_on_def attempts_on_def)
  next
    case (Cons x xs)
    obtain a d where x: "x = (a, d)" by (cases x)
    obtain result r' where res: "consume cmds sha256 prefix a d r = (result, r')" by fastforce
    have ua: "usable_attempt a" using Cons.prems(1) [of a d] x by simp
    have step: "value r' = (if d = NotSent then value r
          else (value r)(rate_key sha256 prefix a := value r (rate_key sha256 prefix a) + 1))"
        "result = Inr True \<longleftrightarrow> d = Answered \<and> value r (rate_key sha256 prefix a) < rl_max a"
      using consume_counts [OF c ua res] by auto
    have v': "0 \<le> value r' key" using step(1) Cons.prems(3) by auto
    have ih: "int (allowed_on sha256 prefix key xs (consume_all cmds sha256 prefix xs r')) \<le> max 0 (m - value r' key)
      \<and> ((\<forall>(a, d) \<in> set xs. d = Answered) \<longrightarrow>
        int (allowed_on sha256 prefix key xs (consume_all cmds sha256 prefix xs r'))
          = min (int (attempts_on sha256 prefix key xs)) (max 0 (m - value r' key)))"
      by (rule Cons.IH [OF _ _ v']) (use Cons.prems in auto)
    have mx: "rl_max a = m" if "rate_key sha256 prefix a = key" using Cons.prems(2) x that by auto
    have al: "allowed_on sha256 prefix key (x # xs) (consume_all cmds sha256 prefix (x # xs) r) =
        (if rate_key sha256 prefix a = key \<and> result = Inr True then 1 else 0)
        + allowed_on sha256 prefix key xs (consume_all cmds sha256 prefix xs r')"
      by (auto simp: x res allowed_on_def)
    have at: "attempts_on sha256 prefix key (x # xs) =
        (if rate_key sha256 prefix a = key then 1 else 0) + attempts_on sha256 prefix key xs"
      by (auto simp: x attempts_on_def)
    show ?case
    proof (cases "rate_key sha256 prefix a = key")
      case True
      then have "value r' key = value r key + (if d = NotSent then 0 else 1)" using step(1) by simp
      with True show ?thesis unfolding al at using ih step(2) mx [OF True] by (cases d) (auto simp: x)
    next
      case False
      then have "value r' key = value r key" using step(1) by simp
      with False show ?thesis unfolding al at using ih by (auto simp: x)
    qed
  qed
  then show "int (allowed_on sha256 prefix key attempts (consume_all cmds sha256 prefix attempts r)) \<le> max 0 (m - value r key)"
    and "(\<And>a d. (a, d) \<in> set attempts \<Longrightarrow> d = Answered) \<Longrightarrow>
      int (allowed_on sha256 prefix key attempts (consume_all cmds sha256 prefix attempts r))
        = min (int (attempts_on sha256 prefix key attempts)) (max 0 (m - value r key))" by auto
qed

text \<open>C23. While the window of a key lasts, a caller is let through at most \<open>max\<close> times, whatever other keys
  are used in between and whichever commands are lost; and when every command is answered, it is let through
  exactly for its first \<open>max\<close> attempts.\<close>

theorem rate_limit_budget:
  assumes "counting cmds value" "value r key = 0" "0 \<le> m"
    and "list_all (\<lambda>(a, _). usable_attempt a \<and> (rate_key sha256 prefix a = key \<longrightarrow> rl_max a = m)) attempts"
  shows "int (allowed_on sha256 prefix key attempts (consume_all cmds sha256 prefix attempts r)) \<le> m
    \<and> (list_all (\<lambda>(_, d). d = Answered) attempts \<longrightarrow>
        int (allowed_on sha256 prefix key attempts (consume_all cmds sha256 prefix attempts r))
          = min (int (attempts_on sha256 prefix key attempts)) m)"
proof (intro conjI impI)
  have u: "\<And>a d. (a, d) \<in> set attempts \<Longrightarrow> usable_attempt a"
    and k: "\<And>a d. (a, d) \<in> set attempts \<Longrightarrow> rate_key sha256 prefix a = key \<Longrightarrow> rl_max a = m"
    using assms(4) by (auto simp: list_all_iff)
  have v: "0 \<le> value r key" using assms(2) by simp
  show "int (allowed_on sha256 prefix key attempts (consume_all cmds sha256 prefix attempts r)) \<le> m"
    using allowed_within_budget(1) [OF assms(1) u k v] assms(2,3) by simp
  assume "list_all (\<lambda>(_, d). d = Answered) attempts"
  then have "\<And>a d. (a, d) \<in> set attempts \<Longrightarrow> d = Answered" by (auto simp: list_all_iff)
  then show "int (allowed_on sha256 prefix key attempts (consume_all cmds sha256 prefix attempts r))
      = min (int (attempts_on sha256 prefix key attempts)) m"
    using allowed_within_budget(2) [OF assms(1) u k v] assms(2,3) by simp
qed

text \<open>A store of counters, for the witness.\<close>

definition demo_counters :: "(string \<Rightarrow> int) script_commands" where
  "demo_counters = \<lparr>script_incr = \<lambda>k r. (r k + 1, r(k := r k + 1)), script_expire = \<lambda>k n r. r\<rparr>"

theorem rate_limit_budget_witness:
  "int (allowed_on id ''p'' ''p:auth-refresh:ip''
     (replicate 3 (\<lparr>rl_scope = ''auth-refresh'', rl_discriminator = ''ip'', rl_max = 2, rl_windowSeconds = 60\<rparr>, Answered))
     (consume_all demo_counters id ''p''
       (replicate 3 (\<lparr>rl_scope = ''auth-refresh'', rl_discriminator = ''ip'', rl_max = 2, rl_windowSeconds = 60\<rparr>, Answered))
       (\<lambda>_. 0))) = 2"
proof -
  let ?a = "\<lparr>rl_scope = ''auth-refresh'', rl_discriminator = ''ip'', rl_max = 2, rl_windowSeconds = 60\<rparr>"
  have "usable_attempt ?a"
    by (simp add: usable_attempt_def allowedScope_def in_range_def is_digit_def)
  moreover have "attempts_on id ''p'' ''p:auth-refresh:ip'' (replicate 3 (?a, Answered)) = 3"
    by (simp add: attempts_on_def rate_key_def)
  moreover have "counting demo_counters (\<lambda>r. r)" by (simp add: counting_def demo_counters_def)
  ultimately show ?thesis
    using rate_limit_budget [of demo_counters "\<lambda>r. r" "\<lambda>_. 0" "''p:auth-refresh:ip''" 2 id "''p''" "replicate 3 (?a, Answered)"]
    by (simp add: list_all_iff)
qed

end
