(* ===== verification/Google_Login.thy ===== *)
theory Google_Login
  imports Rate_Limit
begin

text \<open>
  The login with Google (auth/auth.service.ts, auth/google/google-oauth.client.ts, the OAuth
  transactions of auth/auth-redis.service.ts, auth/dto/google-callback-query.dto.ts) and the routes of
  auth/auth.controller.ts with their cookies. Parameters: the OAuth client of Google, the decoder of a
  token header, \<open>JSON.stringify\<close> and \<open>JSON.parse\<close> as functions between texts and trees, SHA-256, and
  what other requests commit between two attempts of a login.
\<close>

subsection \<open>OAuth transactions\<close>

record OAuthTransaction =
  ot_nonce :: string
  ot_codeVerifier :: string

record json_codec =
  stringify :: "json \<Rightarrow> string"
  json_parse :: "string \<Rightarrow> json option"

definition oauthKey :: "(string \<Rightarrow> string) \<Rightarrow> auth_config \<Rightarrow> string \<Rightarrow> string" where
  "oauthKey sha256 cfg state = ac_redisKeyPrefix cfg @ '':oauth:'' @ sha256 state"

definition storeOAuthTransaction ::
  "json_codec \<Rightarrow> (string \<Rightarrow> string) \<Rightarrow> 'r redis_client \<Rightarrow> auth_config \<Rightarrow> string \<Rightarrow> OAuthTransaction \<Rightarrow> 'r
   \<Rightarrow> (error + unit) \<times> 'r" where
  "storeOAuthTransaction codec sha256 client cfg state transaction r =
     (case cmd_set client (oauthKey sha256 cfg state)
        (stringify codec (JObj [(''nonce'', JStr (ot_nonce transaction)), (''codeVerifier'', JStr (ot_codeVerifier transaction))]))
        (ac_oauthTransactionTtlSeconds cfg) True r of
        (Reply (Some answer), r') \<Rightarrow> (require (answer = ''OK'') authErrors_authorizationUnavailable, r')
      | (_, r') \<Rightarrow> (Inl authErrors_authorizationUnavailable, r'))"

text \<open>
  A text that is no JSON is no transaction; \<open>null\<close> makes the property access throw, which is reported as
  an outage.
\<close>

definition consumeOAuthTransaction ::
  "json_codec \<Rightarrow> (string \<Rightarrow> string) \<Rightarrow> 'r redis_client \<Rightarrow> auth_config \<Rightarrow> string \<Rightarrow> 'r
   \<Rightarrow> (error + OAuthTransaction option) \<times> 'r" where
  "consumeOAuthTransaction codec sha256 client cfg state r =
     (case cmd_getdel client (oauthKey sha256 cfg state) r of
        (Rejected, r') \<Rightarrow> (Inl authErrors_authorizationUnavailable, r')
      | (Reply None, r') \<Rightarrow> (Inr None, r')
      | (Reply (Some text), r') \<Rightarrow>
          (if text = [] then Inr None
           else case json_parse codec text of
             None \<Rightarrow> Inr None
           | Some JNull \<Rightarrow> Inl authErrors_authorizationUnavailable
           | Some (JObj entries) \<Rightarrow>
               (case (json_field ''nonce'' entries, json_field ''codeVerifier'' entries) of
                  (Some (JStr nonce), Some (JStr verifier)) \<Rightarrow> Inr (Some \<lparr>ot_nonce = nonce, ot_codeVerifier = verifier\<rparr>)
                | _ \<Rightarrow> Inr None)
           | _ \<Rightarrow> Inr None, r'))"

subsection \<open>Google\<close>

record google_client =
  gc_authorizationUrl :: "string \<Rightarrow> string \<Rightarrow> string \<Rightarrow> string"
  gc_getToken :: "string \<Rightarrow> string \<Rightarrow> string option reply"
  gc_decodeHeader :: "string \<Rightarrow> json option"
  gc_verifyIdToken :: "string \<Rightarrow> string \<Rightarrow> (string \<times> json) list option reply"

record GoogleIdentityClaims =
  gi_subject :: string
  gi_email :: string
  gi_displayName :: string

definition truthy_text :: "string option \<Rightarrow> bool" where
  "truthy_text v \<longleftrightarrow> v \<noteq> None \<and> v \<noteq> Some []"

text \<open>The constructor makes a client only of a complete configuration.\<close>

definition requireClient :: "auth_config \<Rightarrow> error + unit" where
  "requireClient cfg = require (ac_googleEnabled cfg \<and> truthy_text (ac_googleClientId cfg)
     \<and> truthy_text (ac_googleClientSecret cfg) \<and> truthy_text (ac_googleRedirectUri cfg))
     authErrors_googleAuthenticationUnavailable"

definition readJwtAlgorithm :: "(string \<Rightarrow> json option) \<Rightarrow> string \<Rightarrow> string option" where
  "readJwtAlgorithm decodeHeader token =
     (let encodedHeader = takeWhile (\<lambda>c. c \<noteq> CHR ''.'') token in
      if encodedHeader = [] then None
      else case decodeHeader encodedHeader of
        Some (JObj header) \<Rightarrow> (case json_field ''alg'' header of Some (JStr alg) \<Rightarrow> Some alg | _ \<Rightarrow> None)
      | _ \<Rightarrow> None)"

text \<open>\<open>Buffer.from(text)\<close>: the UTF-8 bytes.\<close>

definition utf8_buffer :: "string \<Rightarrow> nat list" where
  "utf8_buffer text = concat (map (\<lambda>c. let n = of_char c :: nat in
     if n < 128 then [n] else [192 + n div 64, 128 + n mod 64]) text)"

definition safeEqual :: "string \<Rightarrow> string \<Rightarrow> bool" where
  "safeEqual left right \<longleftrightarrow>
     length (utf8_buffer left) = length (utf8_buffer right) \<and> utf8_buffer left = utf8_buffer right"

text \<open>The expiry of an ID token is a whole number of seconds.\<close>

definition validateGooglePayload ::
  "(string \<times> json) list option \<Rightarrow> string \<Rightarrow> string \<Rightarrow> int \<Rightarrow> error + GoogleIdentityClaims" where
  "validateGooglePayload payload expectedNonce expectedAudience nowSeconds =
     (case payload of
        None \<Rightarrow> Inl authErrors_googleAuthenticationFailed
      | Some p \<Rightarrow>
      (case (json_field ''exp'' p, json_field ''nonce'' p, json_field ''sub'' p, json_field ''email'' p) of
         (Some (JNum expiry), Some (JStr nonce), Some (JStr subject), Some (JStr rawEmail)) \<Rightarrow>
           if json_field ''iss'' p \<notin> {Some (JStr ''accounts.google.com''), Some (JStr ''https://accounts.google.com'')}
              \<or> json_field ''aud'' p \<noteq> Some (JStr expectedAudience) \<or> expiry \<le> nowSeconds
              \<or> \<not> safeEqual nonce expectedNonce \<or> subject = [] \<or> 255 < length subject
              \<or> json_field ''email_verified'' p \<noteq> Some (JBool True)
           then Inl authErrors_googleAuthenticationFailed
           else
             let email = toLowerCase (trim rawEmail) in
             if email = [] \<or> 255 < length email then Inl authErrors_googleAuthenticationFailed
             else
               let candidateName = (case json_field ''name'' p of
                      Some (JStr name) \<Rightarrow> if trim name \<noteq> [] then trim name else takeWhile (\<lambda>c. c \<noteq> CHR ''@'') email
                    | _ \<Rightarrow> takeWhile (\<lambda>c. c \<noteq> CHR ''@'') email) in
               Inr \<lparr>gi_subject = subject, gi_email = email, gi_displayName = take 100 candidateName\<rparr>
       | _ \<Rightarrow> Inl authErrors_googleAuthenticationFailed))"

definition exchangeAndVerify ::
  "google_client \<Rightarrow> auth_config \<Rightarrow> string \<Rightarrow> string \<Rightarrow> string \<Rightarrow> auth_env \<Rightarrow> error + GoogleIdentityClaims" where
  "exchangeAndVerify google cfg code codeVerifier expectedNonce env =
     and_then (requireClient cfg) (\<lambda>_.
     case gc_getToken google code codeVerifier of
       Reply (Some idToken) \<Rightarrow>
         if idToken = [] \<or> readJwtAlgorithm (gc_decodeHeader google) idToken \<noteq> Some ''RS256''
         then Inl authErrors_googleAuthenticationFailed
         else (case gc_verifyIdToken google idToken (the (ac_googleClientId cfg)) of
           Rejected \<Rightarrow> Inl authErrors_googleAuthenticationFailed
         | Reply payload \<Rightarrow>
             validateGooglePayload payload expectedNonce (the (ac_googleClientId cfg)) (jsNow env div 1000000))
     | _ \<Rightarrow> Inl authErrors_googleAuthenticationFailed)"

subsection \<open>The callback query\<close>

record GoogleCallbackQuery =
  gq_state :: "json option"
  gq_code :: "json option"
  gq_error :: "json option"

definition validatedQueryState :: "GoogleCallbackQuery \<Rightarrow> error + string" where
  "validatedQueryState query = (case gq_state query of
       Some (JStr state) \<Rightarrow>
         if length state = 43 \<and> list_all base64url_char state then Inr state else Inl authErrors_oauthTransactionInvalid
     | _ \<Rightarrow> Inl authErrors_oauthTransactionInvalid)"

text \<open>\<open>@IsOptional @IsString @MaxLength\<close> on a value that may be absent.\<close>

definition optional_text :: "nat \<Rightarrow> json option \<Rightarrow> bool" where
  "optional_text maximum value \<longleftrightarrow> (case value of
       None \<Rightarrow> True
     | Some JNull \<Rightarrow> True
     | Some (JStr text) \<Rightarrow> length text \<le> maximum
     | _ \<Rightarrow> False)"

definition validatedAuthorizationCode :: "GoogleCallbackQuery \<Rightarrow> error + string" where
  "validatedAuthorizationCode query =
     (if \<not> optional_text 2048 (gq_code query) \<or> \<not> optional_text 256 (gq_error query) \<or> gq_error query \<noteq> None
      then Inl authErrors_googleAuthenticationFailed
      else case gq_code query of
        Some (JStr code) \<Rightarrow> if trim code = [] then Inl authErrors_googleAuthenticationFailed else Inr code
      | _ \<Rightarrow> Inl authErrors_googleAuthenticationFailed)"

subsection \<open>Identities\<close>

definition find_identity :: "string \<Rightarrow> auth_db \<Rightarrow> identity_row option" where
  "find_identity subject db = List.find (\<lambda>i. ai_provider i = Google \<and> ai_providerSubject i = subject) (identities db)"

definition find_email :: "(string \<Rightarrow> string) \<Rightarrow> string \<Rightarrow> auth_db \<Rightarrow> account_row option" where
  "find_email collate email db = List.find (\<lambda>u. collate (u_email u) = collate email) (accounts db)"

definition insert_account ::
  "(string \<Rightarrow> string) \<Rightarrow> GoogleIdentityClaims \<Rightarrow> auth_env \<Rightarrow> auth_db \<Rightarrow> error + account_row \<times> auth_db" where
  "insert_account collate claims env db =
     (let u = \<lparr>u_id = nextAuthId db, u_email = gi_email claims, u_displayName = gi_displayName claims, u_role = RoleUser,
               u_status = UserActive, u_emailVerifiedAt = jsNow env, u_createdAt = dbNow env, u_updatedAt = dbNow env\<rparr> in
      if \<exists>r \<in> set (accounts db). collate (u_email r) = collate (gi_email claims) then Inl ER_DUP_ENTRY
      else Inr (u, db\<lparr>accounts := accounts db @ [u], nextAuthId := Suc (nextAuthId db)\<rparr>))"

definition insert_identity ::
  "nat \<Rightarrow> GoogleIdentityClaims \<Rightarrow> auth_env \<Rightarrow> auth_db \<Rightarrow> error + auth_db" where
  "insert_identity userId claims env db =
     (if \<exists>i \<in> set (identities db). ai_providerSubject i = gi_subject claims \<or> ai_userId i = userId then Inl ER_DUP_ENTRY
      else Inr (db\<lparr>identities := identities db @
             [\<lparr>ai_id = nextAuthId db, ai_userId = userId, ai_provider = Google, ai_providerSubject = gi_subject claims,
               ai_providerEmail = gi_email claims, ai_createdAt = dbNow env, ai_updatedAt = dbNow env\<rparr>],
             nextAuthId := Suc (nextAuthId db)\<rparr>))"

definition save_identity_email :: "identity_row \<Rightarrow> string \<Rightarrow> auth_env \<Rightarrow> auth_db \<Rightarrow> auth_db" where
  "save_identity_email i email env db =
     (if ai_providerEmail i = email then db
      else db\<lparr>identities := update_where (\<lambda>r. ai_id r = ai_id i)
                (\<lambda>_. i\<lparr>ai_providerEmail := email, ai_updatedAt := dbNow env\<rparr>) (identities db)\<rparr>)"

definition updateReturningIdentity ::
  "(string \<Rightarrow> string) \<Rightarrow> (string \<Rightarrow> string) \<Rightarrow> jwt_signer \<Rightarrow> auth_config \<Rightarrow> identity_row \<Rightarrow> account_row
   \<Rightarrow> GoogleIdentityClaims \<Rightarrow> auth_env \<Rightarrow> auth_db \<Rightarrow> error + IssuedSession \<times> auth_db" where
  "updateReturningIdentity collate sha256 sign cfg i user claims env db =
     and_then (require (u_status user = UserActive) authErrors_userInactive) (\<lambda>_.
     and_then
       (if u_email user \<noteq> gi_email claims then
          (case find_email collate (gi_email claims) db of
             Some emailOwner \<Rightarrow>
               if u_id emailOwner \<noteq> u_id user then Inl authErrors_identityConflict
               else save_account collate (user\<lparr>u_email := gi_email claims\<rparr>) env db
           | None \<Rightarrow> save_account collate (user\<lparr>u_email := gi_email claims\<rparr>) env db)
        else Inr (user, db)) (\<lambda>(user1, db1).
     createWithManager sha256 sign cfg user1 env (save_identity_email i (gi_email claims) env db1)))"

text \<open>The foreign key of an identity guarantees its user.\<close>

definition resolveIdentityAndCreateSession ::
  "(string \<Rightarrow> string) \<Rightarrow> (string \<Rightarrow> string) \<Rightarrow> jwt_signer \<Rightarrow> auth_config \<Rightarrow> GoogleIdentityClaims \<Rightarrow> auth_env \<Rightarrow> auth_db
   \<Rightarrow> error + IssuedSession \<times> auth_db" where
  "resolveIdentityAndCreateSession collate sha256 sign cfg claims env db =
     (case find_identity (gi_subject claims) db of
        Some i \<Rightarrow>
          and_then (or_throw (find_account (ai_userId i) db) (PlainError ''TypeError'')) (\<lambda>user.
          updateReturningIdentity collate sha256 sign cfg i user claims env db)
      | None \<Rightarrow>
          and_then (require (find_email collate (gi_email claims) db = None) authErrors_identityConflict) (\<lambda>_.
          and_then (insert_account collate claims env db) (\<lambda>(user, db1).
          and_then (insert_identity (u_id user) claims env db1) (\<lambda>db2.
          createWithManager sha256 sign cfg user env db2))))"

definition isRetryableIdentityRace :: "error \<Rightarrow> bool" where
  "isRetryableIdentityRace e \<longleftrightarrow> (case e of
       DatabaseError code \<Rightarrow> code = ''ER_DUP_ENTRY'' \<or> code = ''ER_LOCK_DEADLOCK''
     | _ \<Rightarrow> False)"

text \<open>
  The attempts of a login, each in its own surroundings; \<open>meanwhile n\<close> is what other requests commit while
  the login waits after attempt \<open>n\<close>.
\<close>

fun login_attempts ::
  "(auth_env \<Rightarrow> auth_db \<Rightarrow> error + IssuedSession \<times> auth_db) \<Rightarrow> (nat \<Rightarrow> auth_env) \<Rightarrow> (nat \<Rightarrow> auth_db \<Rightarrow> auth_db)
   \<Rightarrow> nat list \<Rightarrow> auth_db \<Rightarrow> (error + IssuedSession) \<times> auth_db" where
  "login_attempts resolve envs meanwhile [] db = (Inl authErrors_identityConflict, db)"
| "login_attempts resolve envs meanwhile (attempt # rest) db =
     (case run_transaction (envs attempt) (resolve (envs attempt)) db of
        Inr (session, db') \<Rightarrow> (Inr session, db')
      | Inl e \<Rightarrow>
          if \<not> isRetryableIdentityRace e then (Inl e, db)
          else if attempt = 2 then (Inl authErrors_identityConflict, db)
          else login_attempts resolve envs meanwhile rest (meanwhile attempt db))"

subsection \<open>Login\<close>

text \<open>
  What a login uses of its surroundings besides the tables: the codec, both digests of SHA-256, the
  Redis client, the script commands and key prefix of the limiter, the signer, Google, and the fate of
  the command of the limiter.
\<close>

record ('r, 'l) login_services =
  ls_codec :: json_codec
  ls_sha256 :: "string \<Rightarrow> string"
  ls_sha256url :: "string \<Rightarrow> string"
  ls_redis :: "'r redis_client"
  ls_limiter :: "'l script_commands"
  ls_limiterPrefix :: string
  ls_delivery :: delivery
  ls_sign :: jwt_signer
  ls_google :: google_client
  ls_collate :: "string \<Rightarrow> string"

definition auth_rate_limit ::
  "('r, 'l) login_services \<Rightarrow> auth_config \<Rightarrow> AuthRateLimitScope \<Rightarrow> string \<Rightarrow> 'l \<Rightarrow> (error + unit) \<times> 'l" where
  "auth_rate_limit svc cfg scope key l =
     assertRateLimit (ls_limiter svc) (ls_sha256 svc) (ls_limiterPrefix svc) cfg scope key (ls_delivery svc) l"

record GoogleLoginStart =
  gs_authorizationUrl :: string
  gs_state :: string

definition beginGoogleLogin ::
  "('r, 'l) login_services \<Rightarrow> auth_config \<Rightarrow> string \<Rightarrow> auth_env \<Rightarrow> 'r \<times> 'l \<Rightarrow> (error + GoogleLoginStart) \<times> 'r \<times> 'l" where
  "beginGoogleLogin svc cfg rateLimitKey env stores =
     (let (r, l) = stores in
      case auth_rate_limit svc cfg ScopeGoogleStart rateLimitKey l of
        (Inl e, l1) \<Rightarrow> (Inl e, r, l1)
      | (Inr _, l1) \<Rightarrow>
      let state = randomText env 0; nonce = randomText env 1; codeVerifier = randomText env 2 in
      case storeOAuthTransaction (ls_codec svc) (ls_sha256 svc) (ls_redis svc) cfg state
             \<lparr>ot_nonce = nonce, ot_codeVerifier = codeVerifier\<rparr> r of
        (Inl e, r1) \<Rightarrow> (Inl e, r1, l1)
      | (Inr _, r1) \<Rightarrow>
      (case requireClient cfg of
         Inr _ \<Rightarrow> (Inr \<lparr>gs_authorizationUrl =
             gc_authorizationUrl (ls_google svc) state nonce (ls_sha256url svc codeVerifier), gs_state = state\<rparr>, r1, l1)
       | Inl e \<Rightarrow>
           (case consumeOAuthTransaction (ls_codec svc) (ls_sha256 svc) (ls_redis svc) cfg state r1 of
              (Inl e', r2) \<Rightarrow> (Inl e', r2, l1)
            | (Inr _, r2) \<Rightarrow> (Inl e, r2, l1))))"

definition completeGoogleLogin ::
  "('r, 'l) login_services \<Rightarrow> auth_config \<Rightarrow> GoogleCallbackQuery \<Rightarrow> string option \<Rightarrow> string \<Rightarrow> (nat \<Rightarrow> auth_env)
   \<Rightarrow> (nat \<Rightarrow> auth_db \<Rightarrow> auth_db) \<Rightarrow> auth_db \<times> 'r \<times> 'l \<Rightarrow> (error + IssuedSession) \<times> auth_db \<times> 'r \<times> 'l" where
  "completeGoogleLogin svc cfg query cookieState rateLimitKey envs meanwhile world =
     (let (db, r, l) = world in
      case auth_rate_limit svc cfg ScopeGoogleCallback rateLimitKey l of
        (Inl e, l1) \<Rightarrow> (Inl e, db, r, l1)
      | (Inr _, l1) \<Rightarrow>
      case validatedQueryState query of
        Inl e \<Rightarrow> (Inl e, db, r, l1)
      | Inr queryState \<Rightarrow>
      if \<not> truthy_text cookieState \<or> \<not> safeEqual queryState (the cookieState)
      then (Inl authErrors_oauthTransactionInvalid, db, r, l1)
      else case consumeOAuthTransaction (ls_codec svc) (ls_sha256 svc) (ls_redis svc) cfg queryState r of
        (Inl e, r1) \<Rightarrow> (Inl e, db, r1, l1)
      | (Inr None, r1) \<Rightarrow> (Inl authErrors_oauthTransactionInvalid, db, r1, l1)
      | (Inr (Some oauth), r1) \<Rightarrow>
      case and_then (validatedAuthorizationCode query) (\<lambda>code.
             and_then (exchangeAndVerify (ls_google svc) cfg code (ot_codeVerifier oauth) (ot_nonce oauth) (envs 0)) (\<lambda>claims.
             and_then (ensureInitialized (envs 0)) (\<lambda>_. Inr claims))) of
        Inl e \<Rightarrow> (Inl e, db, r1, l1)
      | Inr claims \<Rightarrow>
          let (result, db1) = login_attempts
                (resolveIdentityAndCreateSession (ls_collate svc) (ls_sha256 svc) (ls_sign svc) cfg claims)
                envs meanwhile [0, 1, 2] db in
          (result, db1, r1, l1))"

subsection \<open>A transaction is used once\<close>

lemma utf8_char_inj:
  "utf8_buffer (a # s) = utf8_buffer (b # t) \<longleftrightarrow> a = b \<and> utf8_buffer s = utf8_buffer t"
proof -
  have lt: "(of_char c :: nat) < 256" for c :: char by (metis of_char_of char_of_char mod_less_divisor zero_less_numeral)
  have inj: "(of_char a :: nat) = of_char b \<Longrightarrow> a = b" by (metis char_of_char)
  have "a = b" if "(of_char a :: nat) div 64 = of_char b div 64" "(of_char a :: nat) mod 64 = of_char b mod 64"
    using that inj by (metis div_mult_mod_eq)
  then show ?thesis using inj lt [of a] lt [of b] by (auto simp: utf8_buffer_def Let_def)
qed

lemma safeEqual_iff: "safeEqual left right \<longleftrightarrow> left = right"
proof -
  have "utf8_buffer s = utf8_buffer t \<longleftrightarrow> s = t" for s t
  proof (induction s arbitrary: t)
    case Nil then show ?case by (cases t) (auto simp: utf8_buffer_def Let_def)
  next
    case (Cons a s)
    show ?case
    proof (cases t)
      case Nil then show ?thesis by (auto simp: utf8_buffer_def Let_def)
    next
      case (Cons b t') then show ?thesis using Cons.IH [of t'] utf8_char_inj by metis
    qed
  qed
  then show ?thesis by (auto simp: safeEqual_def)
qed

text \<open>
  What the login relies on of Redis: GETDEL answers the value of a key, and afterwards the key has none
  until a SET of that key. \<open>held r k\<close> is the value a key has. Keys may expire at any time.
\<close>

definition deleting :: "'r redis_client \<Rightarrow> ('r \<Rightarrow> string \<Rightarrow> string option) \<Rightarrow> bool" where
  "deleting client held \<longleftrightarrow>
     (\<forall>k r v r'. cmd_getdel client k r = (Reply v, r') \<longrightarrow> v = held r k \<and> held r' k = None)
     \<and> (\<forall>k k' r. held r k = None \<longrightarrow> held (snd (cmd_getdel client k' r)) k = None)
     \<and> (\<forall>k k' r. held r k = None \<longrightarrow> held (snd (cmd_get client k' r)) k = None)
     \<and> (\<forall>k k' v n x r. held r k = None \<and> k' \<noteq> k \<longrightarrow> held (snd (cmd_set client k' v n x r)) k = None)"

text \<open>What other requests do to Redis without setting a key.\<close>

inductive other_command :: "'r redis_client \<Rightarrow> string \<Rightarrow> 'r \<Rightarrow> 'r \<Rightarrow> bool" for client :: "'r redis_client" and key :: string where
  got: "other_command client key r (snd (cmd_get client k r))"
| deleted: "other_command client key r (snd (cmd_getdel client k r))"
| stored: "k \<noteq> key \<Longrightarrow> other_command client key r (snd (cmd_set client k v n x r))"

lemma other_commands_absent:
  "(other_command client key)\<^sup>*\<^sup>* r r' \<Longrightarrow> deleting client held \<Longrightarrow> held r key = None \<Longrightarrow> held r' key = None"
  by (induction rule: rtranclp_induct) (auto simp: deleting_def elim!: other_command.cases)

lemma completeGoogleLogin_InrD:
  assumes "completeGoogleLogin svc cfg query cookie key envs meanwhile (db, r, l) = (Inr issued, db', r', l')"
  obtains state oauth where "validatedQueryState query = Inr state" "cookie = Some state"
    "consumeOAuthTransaction (ls_codec svc) (ls_sha256 svc) (ls_redis svc) cfg state r = (Inr (Some oauth), r')"
  using assms
  by (auto simp: completeGoogleLogin_def safeEqual_iff truthy_text_def Let_def
      split: prod.splits sum.splits option.splits if_splits)

lemma consume_absent:
  assumes "deleting client held" "held r (oauthKey sha256 cfg state) = None"
  shows "\<exists>e r'. consumeOAuthTransaction codec sha256 client cfg state r \<in> {(Inr None, r'), (Inl e, r')}"
proof (cases "cmd_getdel client (oauthKey sha256 cfg state) r")
  case (Pair v r')
  then show ?thesis
  proof (cases v)
    case (Reply x)
    then have "x = None" using assms Pair by (auto simp: deleting_def)
    then show ?thesis using Pair Reply by (simp add: consumeOAuthTransaction_def)
  qed (simp add: consumeOAuthTransaction_def)
qed

text \<open>C22. The state of a login is good for one callback: after a callback has succeeded, every later callback with
  the same state fails and writes nothing, whatever cookie, code and other requests come with it.\<close>

theorem oauth_state_single_use:
  assumes "completeGoogleLogin svc cfg query cookie key envs meanwhile (db, r, l) = (Inr issued, db1, r1, l1)"
    and "deleting (ls_redis svc) held"
    and "(other_command (ls_redis svc) (oauthKey (ls_sha256 svc) cfg (projr (validatedQueryState query))))\<^sup>*\<^sup>* r1 r2"
    and "gq_state replay = gq_state query"
  shows "\<exists>e r3 l3. completeGoogleLogin svc cfg replay cookieLater keyLater envsLater meanwhileLater (db2, r2, l2) = (Inl e, db2, r3, l3)"
proof -
  obtain state oauth where s: "validatedQueryState query = Inr state"
    and c: "consumeOAuthTransaction (ls_codec svc) (ls_sha256 svc) (ls_redis svc) cfg state r = (Inr (Some oauth), r1)"
    using completeGoogleLogin_InrD [OF assms(1)] by metis
  have again: "validatedQueryState replay = Inr state" using s assms(4) by (simp add: validatedQueryState_def)
  obtain v where "cmd_getdel (ls_redis svc) (oauthKey (ls_sha256 svc) cfg state) r = (Reply v, r1)"
    using c by (auto simp: consumeOAuthTransaction_def split: prod.splits reply.splits option.splits if_splits)
  then have "held r1 (oauthKey (ls_sha256 svc) cfg state) = None" using assms(2) unfolding deleting_def by blast
  then have "held r2 (oauthKey (ls_sha256 svc) cfg state) = None" using other_commands_absent assms(2,3) s by fastforce
  then obtain e r3 where gone: "consumeOAuthTransaction (ls_codec svc) (ls_sha256 svc) (ls_redis svc) cfg state r2
      \<in> {(Inr None, r3), (Inl e, r3)}"
    using consume_absent [OF assms(2)] by blast
  show ?thesis
    using gone again
    by (cases "auth_rate_limit svc cfg ScopeGoogleCallback keyLater l2")
      (auto simp: completeGoogleLogin_def split: sum.splits)
qed

end
