(* ===== verification/Auth_System.thy ===== *)
theory Auth_System
  imports Google_Login Hotel_System
begin

text \<open>
  The authentication component as one step relation: every committed transaction of the session, user,
  bootstrap and login services is a step, and so is the purge of sessions. The state carries, beside the
  tables, the identifiers and digests that were ever stored: a random draw is new when it is not among
  them. The invariant ties the tables together; the theorems are about what survives any sequence of
  steps.
\<close>

subsection \<open>Views of the tables\<close>

definition status_of :: "auth_db \<Rightarrow> nat \<rightharpoonup> UserStatus" where
  "status_of db i = map_option u_status (find_account i db)"

definition role_of :: "auth_db \<Rightarrow> nat \<rightharpoonup> UserRole" where
  "role_of db i = map_option u_role (find_account i db)"

definition status_trail :: "auth_db \<Rightarrow> nat \<Rightarrow> user_status_history_row list" where
  "status_trail db i = filter (\<lambda>h. ush_userId h = i) (userStatusHistories db)"

definition role_trail :: "auth_db \<Rightarrow> nat \<Rightarrow> user_role_history_row list" where
  "role_trail db i = filter (\<lambda>h. urh_userId h = i) (userRoleHistories db)"

text \<open>Replaying an audit trail: every row starts where the previous one ended, and changes something.\<close>

fun replay :: "'s \<Rightarrow> ('s \<times> 's) list \<Rightarrow> 's option" where
  "replay s [] = Some s"
| "replay s ((a, b) # rest) = (if a = s \<and> b \<noteq> s then replay b rest else None)"

definition digest :: "session_row \<Rightarrow> nat list" where
  "digest s = hex_buffer (se_refreshTokenHash s)"

record auth_state =
  as_db :: auth_db
  usedIds :: "string set"
  usedDigests :: "nat list set"

subsection \<open>The invariant\<close>

definition accounts_ok :: "(string \<Rightarrow> string) \<Rightarrow> auth_db \<Rightarrow> bool" where
  "accounts_ok collate db \<longleftrightarrow> distinct (map u_id (accounts db)) \<and> distinct (map (collate \<circ> u_email) (accounts db))
     \<and> (\<forall>u \<in> set (accounts db). u_id u < nextAuthId db)"

definition identities_ok :: "auth_db \<Rightarrow> bool" where
  "identities_ok db \<longleftrightarrow> distinct (map ai_id (identities db)) \<and> distinct (map ai_providerSubject (identities db))
     \<and> distinct (map ai_userId (identities db))
     \<and> (\<forall>i \<in> set (identities db). ai_id i < nextAuthId db \<and> status_of db (ai_userId i) \<noteq> None)"

text \<open>Only active users have sessions that are not revoked.\<close>

definition session_fits :: "string set \<Rightarrow> nat list set \<Rightarrow> (nat \<rightharpoonup> UserStatus) \<Rightarrow> session_row \<Rightarrow> bool" where
  "session_fits ids digests statuses s \<longleftrightarrow> se_id s \<in> ids \<and> digest s \<in> digests \<and> statuses (se_userId s) \<noteq> None
     \<and> (se_revokedAt s = None \<longrightarrow> statuses (se_userId s) = Some UserActive)"

definition sessions_ok :: "auth_state \<Rightarrow> bool" where
  "sessions_ok st \<longleftrightarrow>
     distinct (map se_id (sessions (as_db st))) \<and> distinct (map digest (sessions (as_db st)))
     \<and> (\<forall>s \<in> set (sessions (as_db st)). session_fits (usedIds st) (usedDigests st) (status_of (as_db st)) s)"

definition admins_ok :: "auth_db \<Rightarrow> bool" where
  "admins_ok db \<longleftrightarrow> userRoleHistories db = [] \<or> (\<exists>i. role_of db i = Some RoleAdmin \<and> status_of db i = Some UserActive)"

definition trails_ok :: "auth_db \<Rightarrow> bool" where
  "trails_ok db \<longleftrightarrow>
     (\<forall>h \<in> set (userStatusHistories db). status_of db (ush_userId h) \<noteq> None)
     \<and> (\<forall>h \<in> set (userRoleHistories db). status_of db (urh_userId h) \<noteq> None)
     \<and> (\<forall>i status. status_of db i = Some status \<longrightarrow>
          replay UserActive (map (\<lambda>h. (ush_fromStatus h, ush_toStatus h)) (status_trail db i)) = Some status)
     \<and> (\<forall>i role. role_of db i = Some role \<longrightarrow>
          replay RoleUser (map (\<lambda>h. (urh_fromRole h, urh_toRole h)) (role_trail db i)) = Some role)"

definition auth_inv :: "(string \<Rightarrow> string) \<Rightarrow> auth_state \<Rightarrow> bool" where
  "auth_inv collate st \<longleftrightarrow> accounts_ok collate (as_db st) \<and> identities_ok (as_db st) \<and> sessions_ok st
     \<and> admins_ok (as_db st) \<and> trails_ok (as_db st)"

subsection \<open>Steps\<close>

definition initial_auth :: auth_state where
  "initial_auth = \<lparr>as_db = empty_auth_db, usedIds = {}, usedDigests = {}\<rparr>"

inductive auth_step ::
  "(string \<Rightarrow> string) \<Rightarrow> (string \<Rightarrow> string) \<Rightarrow> jwt_signer \<Rightarrow> auth_config \<Rightarrow> auth_state \<Rightarrow> auth_state \<Rightarrow> bool"
  for collate :: "string \<Rightarrow> string" and sha256 :: "string \<Rightarrow> string" and sign :: jwt_signer and cfg :: auth_config where
  login: "resolveIdentityAndCreateSession collate sha256 sign cfg googleClaims env (as_db st) = Inr (issued, db') \<Longrightarrow>
    drawUuid env 0 \<notin> usedIds st \<Longrightarrow> hex_buffer (sha256 (is_refreshToken issued)) \<notin> usedDigests st \<Longrightarrow>
    auth_step collate sha256 sign cfg st \<lparr>as_db = db', usedIds = insert (drawUuid env 0) (usedIds st),
      usedDigests = insert (hex_buffer (sha256 (is_refreshToken issued))) (usedDigests st)\<rparr>"
| create: "create_session sha256 sign cfg userId env (as_db st) = Inr (issued, db') \<Longrightarrow>
    drawUuid env 0 \<notin> usedIds st \<Longrightarrow> hex_buffer (sha256 (is_refreshToken issued)) \<notin> usedDigests st \<Longrightarrow>
    auth_step collate sha256 sign cfg st \<lparr>as_db = db', usedIds = insert (drawUuid env 0) (usedIds st),
      usedDigests = insert (hex_buffer (sha256 (is_refreshToken issued))) (usedDigests st)\<rparr>"
| rotate: "refresh_tx sha256 sessionId rawToken env (as_db st) = Inr (RefreshSuccess s u refreshToken, db') \<Longrightarrow>
    hex_buffer (sha256 refreshToken) \<notin> usedDigests st \<Longrightarrow>
    auth_step collate sha256 sign cfg st (st\<lparr>as_db := db',
      usedDigests := insert (hex_buffer (sha256 refreshToken)) (usedDigests st)\<rparr>)"
| refresh_invalid: "refresh_tx sha256 sessionId rawToken env (as_db st) = Inr (RefreshInvalid revoked, db') \<Longrightarrow>
    auth_step collate sha256 sign cfg st (st\<lparr>as_db := db'\<rparr>)"
| refresh_inactive: "refresh_tx sha256 sessionId rawToken env (as_db st) = Inr (RefreshInactive revoked, db') \<Longrightarrow>
    auth_step collate sha256 sign cfg st (st\<lparr>as_db := db'\<rparr>)"
| revoke: "revoke_tx sessionId env (as_db st) = Inr (unit, db') \<Longrightarrow>
    auth_step collate sha256 sign cfg st (st\<lparr>as_db := db'\<rparr>)"
| status: "updateStatus_tx collate actor target newStatus reason env (as_db st) = Inr (result, db') \<Longrightarrow>
    auth_step collate sha256 sign cfg st (st\<lparr>as_db := db'\<rparr>)"
| promote: "promote collate userId email reason env (as_db st) = Inr (answer, db') \<Longrightarrow>
    auth_step collate sha256 sign cfg st (st\<lparr>as_db := db'\<rparr>)"
| purge: "auth_step collate sha256 sign cfg st
    (st\<lparr>as_db := (as_db st)\<lparr>sessions := filter kept (sessions (as_db st))\<rparr>\<rparr>)"

definition auth_reachable ::
  "(string \<Rightarrow> string) \<Rightarrow> (string \<Rightarrow> string) \<Rightarrow> jwt_signer \<Rightarrow> auth_config \<Rightarrow> auth_state \<Rightarrow> bool" where
  "auth_reachable collate sha256 sign cfg st \<longleftrightarrow> (auth_step collate sha256 sign cfg)\<^sup>*\<^sup>* initial_auth st"

subsection \<open>Effects on the views\<close>

lemma find_account_SomeD: "find_account i db = Some u \<Longrightarrow> u \<in> set (accounts db) \<and> u_id u = i"
  unfolding find_account_def using find_SomeD by fastforce

lemma find_session_SomeD: "find_session i db = Some s \<Longrightarrow> s \<in> set (sessions db) \<and> se_id s = i"
  unfolding find_session_def using find_SomeD by fastforce

lemma find_account_put:
  "find_account i (put_account u db) =
     (if i = u_id u \<and> find_account i db \<noteq> None then Some u else find_account i db)"
proof -
  have "List.find (\<lambda>r. u_id r = i) (update_where (\<lambda>r. u_id r = u_id u) (\<lambda>_. u) rows) =
      (if i = u_id u \<and> List.find (\<lambda>r. u_id r = i) rows \<noteq> None then Some u else List.find (\<lambda>r. u_id r = i) rows)" for rows
    by (induction rows) auto
  then show ?thesis by (auto simp: find_account_def put_account_def)
qed

lemma views_put:
  assumes "find_account (u_id u) db \<noteq> None"
  shows "status_of (put_account u db) = (status_of db)(u_id u \<mapsto> u_status u)"
    and "role_of (put_account u db) = (role_of db)(u_id u \<mapsto> u_role u)"
  using assms by (auto simp: status_of_def role_of_def find_account_put fun_eq_iff)

lemma role_None_iff: "role_of db i = None \<longleftrightarrow> status_of db i = None"
  by (simp add: role_of_def status_of_def)

lemma put_account_rest [simp]:
  "identities (put_account u db) = identities db" "sessions (put_account u db) = sessions db"
  "userStatusHistories (put_account u db) = userStatusHistories db"
  "userRoleHistories (put_account u db) = userRoleHistories db" "nextAuthId (put_account u db) = nextAuthId db"
  by (simp_all add: put_account_def)

lemma views_cong:
  assumes "accounts db' = accounts db"
  shows "status_of db' = status_of db" and "role_of db' = role_of db" and "find_account i db' = find_account i db"
  using assms by (simp_all add: status_of_def role_of_def find_account_def fun_eq_iff)

lemma save_session_rest [simp]:
  "accounts (save_session s env db) = accounts db" "identities (save_session s env db) = identities db"
  "userStatusHistories (save_session s env db) = userStatusHistories db"
  "userRoleHistories (save_session s env db) = userRoleHistories db" "nextAuthId (save_session s env db) = nextAuthId db"
  by (simp_all add: save_session_def split: option.splits)

lemma revoke_sessions_rest [simp]:
  "accounts (revoke_sessions i env db) = accounts db" "identities (revoke_sessions i env db) = identities db"
  "userStatusHistories (revoke_sessions i env db) = userStatusHistories db"
  "userRoleHistories (revoke_sessions i env db) = userRoleHistories db" "nextAuthId (revoke_sessions i env db) = nextAuthId db"
  by (simp_all add: revoke_sessions_def)

lemma session_writes_views [simp]:
  "status_of (save_session s env db) = status_of db" "role_of (save_session s env db) = role_of db"
  "find_account i (save_session s env db) = find_account i db"
  "status_of (revoke_sessions j env db) = status_of db" "role_of (revoke_sessions j env db) = role_of db"
  using views_cong [of "save_session s env db" db] views_cong [of "revoke_sessions j env db" db] by simp_all

text \<open>A change of one account that keeps its key.\<close>

lemma accounts_ok_put:
  assumes "accounts_ok collate db" "find_account (u_id u) db \<noteq> None"
    and "\<And>r. r \<in> set (accounts db) \<Longrightarrow> u_id r \<noteq> u_id u \<Longrightarrow> collate (u_email r) \<noteq> collate (u_email u)"
  shows "accounts_ok collate (put_account u db)"
proof -
  have d: "distinct (map u_id (accounts db))" "distinct (map (collate \<circ> u_email) (accounts db))"
    and b: "\<forall>r \<in> set (accounts db). u_id r < nextAuthId db" using assms(1) by (auto simp: accounts_ok_def)
  have ids: "map u_id (accounts (put_account u db)) = map u_id (accounts db)"
    by (simp add: put_account_def map_update_key)
  have "u_id u < nextAuthId db" using assms(2) b by (auto dest!: find_account_SomeD)
  then have bound: "\<forall>r \<in> set (accounts (put_account u db)). u_id r < nextAuthId db"
    using b by (auto simp: put_account_def row_simps)
  have "distinct (map (collate \<circ> u_email) (accounts (put_account u db)))"
    using distinct_map_replace [OF d, of u] assms(3) by (simp add: put_account_def)
  then show ?thesis using d(1) ids bound by (simp add: accounts_ok_def)
qed

text \<open>What is left of the invariant when an operation changes only some of the views.\<close>

lemma identities_ok_views:
  assumes "identities_ok db" "identities db' = identities db" "nextAuthId db \<le> nextAuthId db'"
    and "dom (status_of db) \<subseteq> dom (status_of db')"
  shows "identities_ok db'"
  using assms unfolding identities_ok_def by (auto 4 4 dest: order.strict_trans2)

lemma sessions_ok_views:
  assumes "sessions_ok st" "sessions (as_db st') = sessions (as_db st)"
    and "usedIds st \<subseteq> usedIds st'" "usedDigests st \<subseteq> usedDigests st'"
    and "\<And>i. status_of (as_db st) i \<noteq> None \<Longrightarrow> status_of (as_db st') i = status_of (as_db st) i"
  shows "sessions_ok st'"
  using assms unfolding sessions_ok_def session_fits_def by (auto 4 4)

lemma admins_ok_views:
  assumes "admins_ok db" "userRoleHistories db' = userRoleHistories db"
    and "\<And>i. status_of db i \<noteq> None \<Longrightarrow> status_of db' i = status_of db i \<and> role_of db' i = role_of db i"
  shows "admins_ok db'"
  using assms unfolding admins_ok_def by (metis option.distinct(1))

lemma trails_ok_views:
  assumes "trails_ok db" "userStatusHistories db' = userStatusHistories db" "userRoleHistories db' = userRoleHistories db"
    and "\<And>i. status_of db i \<noteq> None \<Longrightarrow> status_of db' i = status_of db i \<and> role_of db' i = role_of db i"
    and "\<And>i. status_of db i = None \<Longrightarrow> status_of db' i \<in> {None, Some UserActive} \<and> role_of db' i \<in> {None, Some RoleUser}"
  shows "trails_ok db'"
proof -
  have trails: "status_trail db' = status_trail db" "role_trail db' = role_trail db"
    using assms(2,3) by (auto simp: status_trail_def role_trail_def fun_eq_iff)
  have empty: "status_trail db i = [] \<and> role_trail db i = []" if "status_of db i = None" for i
    using that assms(1) by (auto simp: trails_ok_def status_trail_def role_trail_def filter_empty_conv)
  show ?thesis
    using assms(1) unfolding trails_ok_def trails assms(2,3)
  proof (intro conjI allI impI; (elim conjE)?)
    fix i status assume "status_of db' i = Some status"
      and *: "\<forall>i status. status_of db i = Some status \<longrightarrow>
        replay UserActive (map (\<lambda>h. (ush_fromStatus h, ush_toStatus h)) (status_trail db i)) = Some status"
    then show "replay UserActive (map (\<lambda>h. (ush_fromStatus h, ush_toStatus h)) (status_trail db i)) = Some status"
      using assms(4,5) [of i] empty [of i] by (cases "status_of db i") auto
  next
    fix i role assume "role_of db' i = Some role"
      and *: "\<forall>i role. role_of db i = Some role \<longrightarrow>
        replay RoleUser (map (\<lambda>h. (urh_fromRole h, urh_toRole h)) (role_trail db i)) = Some role"
    then show "replay RoleUser (map (\<lambda>h. (urh_fromRole h, urh_toRole h)) (role_trail db i)) = Some role"
      using assms(4,5) [of i] empty [of i] role_None_iff [of db i] by (cases "status_of db i") auto
  qed (use assms(4) in auto)
qed

text \<open>A saved account.\<close>

definition account_saved :: "(string \<Rightarrow> string) \<Rightarrow> account_row \<Rightarrow> account_row \<Rightarrow> auth_db \<Rightarrow> auth_db \<Rightarrow> bool" where
  "account_saved collate u u' db db' \<longleftrightarrow>
     u_id u' = u_id u \<and> u_status u' = u_status u \<and> u_role u' = u_role u \<and> u_email u' = u_email u
     \<and> accounts_ok collate db' \<and> find_account (u_id u) db' = Some u'
     \<and> (\<forall>j. j \<noteq> u_id u \<longrightarrow> find_account j db' = find_account j db)
     \<and> status_of db' = (status_of db)(u_id u \<mapsto> u_status u) \<and> role_of db' = (role_of db)(u_id u \<mapsto> u_role u)
     \<and> identities db' = identities db \<and> sessions db' = sessions db
     \<and> userStatusHistories db' = userStatusHistories db \<and> userRoleHistories db' = userRoleHistories db
     \<and> nextAuthId db' = nextAuthId db"

lemma save_account_saved:
  assumes "save_account collate u env db = Inr (u', db')" "find_account (u_id u) db \<noteq> None" "accounts_ok collate db"
  shows "account_saved collate u u' db db'"
proof (cases "u \<in> set (accounts db)")
  case True
  then have "find_account (u_id u) db = Some u"
    using assms(3) find_unique [of u_id "accounts db" u] by (simp add: find_account_def accounts_ok_def)
  then show ?thesis using assms True
    by (auto simp: save_account_def account_saved_def status_of_def role_of_def fun_eq_iff)
next
  case False
  then have u': "u' = u\<lparr>u_updatedAt := dbNow env\<rparr>" "db' = put_account u' db"
    and e: "\<And>r. r \<in> set (accounts db) \<Longrightarrow> u_id r \<noteq> u_id u \<Longrightarrow> collate (u_email r) \<noteq> collate (u_email u)"
    using assms(1) by (auto simp: save_account_def Let_def split: if_splits)
  have "accounts_ok collate (put_account u' db)"
    by (rule accounts_ok_put [OF assms(3)]) (use assms(2) e u'(1) in auto)
  then show ?thesis
    using views_put [of u' db] assms(2) u' by (auto simp: account_saved_def find_account_put)
qed

text \<open>A saved session.\<close>

lemma save_session_new:
  "find_session (se_id s) db = None \<Longrightarrow>
     sessions (save_session s env db) = sessions db @ [s\<lparr>se_createdAt := dbNow env, se_updatedAt := dbNow env\<rparr>]"
  by (simp add: save_session_def)

lemma save_session_found:
  "find_session (se_id s) db = Some s0 \<Longrightarrow>
     sessions (save_session s env db) = update_where (\<lambda>r. se_id r = se_id s)
       (\<lambda>_. s\<lparr>se_createdAt := se_createdAt s0, se_updatedAt := dbNow env\<rparr>) (sessions db)"
  by (simp add: save_session_def)

lemma save_session_rows:
  "find_session (se_id s) db = Some s0 \<Longrightarrow> x \<in> set (sessions (save_session s env db)) \<Longrightarrow>
     x \<in> set (sessions db) \<and> se_id x \<noteq> se_id s \<or> x = s\<lparr>se_createdAt := se_createdAt s0, se_updatedAt := dbNow env\<rparr>"
  by (auto simp: save_session_found row_simps)

lemma sessions_ok_new:
  assumes ok: "sessions_ok st" and "se_id s \<notin> usedIds st" "digest s \<notin> usedDigests st"
    and act: "status_of (as_db st) (se_userId s) = Some UserActive"
  shows "sessions_ok \<lparr>as_db = save_session s env (as_db st), usedIds = insert (se_id s) (usedIds st),
    usedDigests = insert (digest s) (usedDigests st)\<rparr>"
proof -
  let ?t = "s\<lparr>se_createdAt := dbNow env, se_updatedAt := dbNow env\<rparr>" and ?rows = "sessions (as_db st)"
  let ?fits = "session_fits (insert (se_id s) (usedIds st)) (insert (digest s) (usedDigests st)) (status_of (as_db st))"
  have fits: "\<forall>r \<in> set ?rows. ?fits r" using ok by (auto simp: sessions_ok_def session_fits_def)
  have t: "se_id ?t = se_id s" "digest ?t = digest s" "?fits ?t" using act by (simp_all add: digest_def session_fits_def)
  have other: "se_id r \<noteq> se_id s \<and> digest r \<noteq> digest s" if "r \<in> set ?rows" for r
    using ok that assms(2,3) unfolding sessions_ok_def session_fits_def by metis
  have new: "se_id s \<notin> se_id ` set ?rows" "digest s \<notin> digest ` set ?rows"
    unfolding image_iff using other by metis+
  have none: "find_session (se_id s) (as_db st) = None" using other by (simp add: find_session_def find_None_iff)
  show ?thesis
    using ok fits new t unfolding sessions_ok_def by (simp add: save_session_new [OF none])
qed

lemma sessions_ok_replaced:
  assumes ok: "sessions_ok st" and found: "find_session (se_id s) (as_db st) = Some s0"
    and keep: "se_userId s = se_userId s0" "se_revokedAt s = None \<Longrightarrow> se_revokedAt s0 = None"
    and dig: "digest s = digest s0 \<or> digest s \<notin> usedDigests st"
    and used: "usedDigests st \<subseteq> D" "digest s \<in> D"
  shows "sessions_ok (st\<lparr>as_db := save_session s env (as_db st), usedDigests := D\<rparr>)"
proof -
  let ?t = "s\<lparr>se_createdAt := se_createdAt s0, se_updatedAt := dbNow env\<rparr>" and ?rows = "sessions (as_db st)"
  have s0: "s0 \<in> set ?rows" "se_id s0 = se_id s" using find_session_SomeD [OF found] by simp_all
  have d: "distinct (map se_id ?rows)" "distinct (map digest ?rows)"
    and each: "\<forall>r \<in> set ?rows. session_fits (usedIds st) (usedDigests st) (status_of (as_db st)) r"
    using ok by (auto simp: sessions_ok_def)
  let ?fits = "session_fits (usedIds st) D (status_of (as_db st))"
  have fits: "\<forall>r \<in> set ?rows. ?fits r" using each used(1) by (auto simp: session_fits_def)
  have t: "se_id ?t = se_id s" "digest ?t = digest s" by (simp_all add: digest_def)
  have other: "digest r \<noteq> digest ?t" if "r \<in> set ?rows" "se_id r \<noteq> se_id ?t" for r
  proof
    assume e: "digest r = digest ?t"
    moreover have "digest r \<in> usedDigests st" using each that(1) by (simp add: session_fits_def)
    ultimately have "digest s = digest s0" using dig t by auto
    then have "r = s0" using distinct_key_eq [OF d(2) that(1) s0(1)] e t by simp
    then show False using that(2) s0(2) t by simp
  qed
  have dist: "distinct (map digest (update_where (\<lambda>r. se_id r = se_id ?t) (\<lambda>_. ?t) ?rows))"
    by (rule distinct_map_replace [OF d]) (fact other)
  have ids: "map se_id (update_where (\<lambda>r. se_id r = se_id s) (\<lambda>_. ?t) ?rows) = map se_id ?rows"
    by (rule map_update_key) simp
  have "?fits s0" using fits s0(1) by blast
  then have new: "?fits ?t" using keep used(2) s0(2) t by (simp add: session_fits_def)
  have "\<forall>r \<in> set (update_where (\<lambda>r. se_id r = se_id s) (\<lambda>_. ?t) ?rows). ?fits r"
    using fits new by (auto simp: update_where_def)
  then show ?thesis
    unfolding sessions_ok_def using d(1) dist ids t by (simp add: save_session_found [OF found])
qed

lemma sessions_ok_ended:
  assumes "sessions_ok st" "find_session (se_id s) (as_db st) = Some s"
  shows "sessions_ok (st\<lparr>as_db := save_session (end_session s env) env (as_db st)\<rparr>)"
proof -
  have "digest s \<in> usedDigests st" using assms find_session_SomeD [OF assms(2)] by (simp add: sessions_ok_def session_fits_def)
  then have "sessions_ok (st\<lparr>as_db := save_session (end_session s env) env (as_db st), usedDigests := usedDigests st\<rparr>)"
    by (intro sessions_ok_replaced [OF assms(1), of _ s])
      (use assms(2) in \<open>auto simp: end_session_def digest_def\<close>)
  then show ?thesis by simp
qed

text \<open>A transaction that touches nothing but sessions leaves the rest of the invariant alone.\<close>

lemma auth_inv_sessions:
  assumes "auth_inv collate st" "sessions_ok st'"
    and "accounts (as_db st') = accounts (as_db st)" "identities (as_db st') = identities (as_db st)"
    and "userStatusHistories (as_db st') = userStatusHistories (as_db st)"
    and "userRoleHistories (as_db st') = userRoleHistories (as_db st)" "nextAuthId (as_db st') = nextAuthId (as_db st)"
  shows "auth_inv collate st'"
proof -
  have v: "status_of (as_db st') = status_of (as_db st)" "role_of (as_db st') = role_of (as_db st)"
    using views_cong [OF assms(3)] by simp_all
  show ?thesis
    using assms(1,2) unfolding auth_inv_def
    by (auto simp: accounts_ok_def identities_ok_def admins_ok_def trails_ok_def status_trail_def role_trail_def v assms(3-7))
qed

lemma createWithManager_effect:
  assumes "createWithManager sha256 sign cfg user env db = Inr (issued, db')"
  obtains s where "db' = save_session s env db" "se_id s = drawUuid env 0" "se_userId s = u_id user"
    "se_refreshTokenHash s = sha256 (is_refreshToken issued)" "se_revokedAt s = None"
    "se_refreshExpiresAt s = is_refreshExpiresAt issued" "u_status user = UserActive"
  using assms by (auto simp: createWithManager_def step_simps Let_def)

subsection \<open>Every step keeps the invariant\<close>

text \<open>New accounts and accounts that keep their status and role.\<close>

lemma auth_inv_accounts:
  assumes inv: "auth_inv collate st" and a: "accounts_ok collate db1" "identities_ok db1"
    and rest: "sessions db1 = sessions (as_db st)" "userStatusHistories db1 = userStatusHistories (as_db st)"
      "userRoleHistories db1 = userRoleHistories (as_db st)"
    and old: "\<And>i. status_of (as_db st) i \<noteq> None \<Longrightarrow>
      status_of db1 i = status_of (as_db st) i \<and> role_of db1 i = role_of (as_db st) i"
    and new: "\<And>i. status_of (as_db st) i = None \<Longrightarrow>
      status_of db1 i \<in> {None, Some UserActive} \<and> role_of db1 i \<in> {None, Some RoleUser}"
  shows "auth_inv collate (st\<lparr>as_db := db1\<rparr>)"
proof -
  have "sessions_ok (st\<lparr>as_db := db1\<rparr>)"
    by (rule sessions_ok_views [of st]) (use inv rest(1) old in \<open>auto simp: auth_inv_def\<close>)
  moreover have "admins_ok db1"
    by (rule admins_ok_views [of "as_db st"]) (use inv rest(3) old in \<open>auto simp: auth_inv_def\<close>)
  moreover have "trails_ok db1"
    by (rule trails_ok_views [of "as_db st"]) (use inv rest(2,3) old new in \<open>auto simp: auth_inv_def\<close>)
  ultimately show ?thesis using a by (simp add: auth_inv_def)
qed

lemma find_identity_Google: "find_identity subject db = List.find (\<lambda>x. ai_providerSubject x = subject) (identities db)"
proof -
  have "ai_provider x = Google" for x :: identity_row by (cases "ai_provider x")
  then show ?thesis by (simp add: find_identity_def)
qed

lemma save_identity_email_ok:
  assumes "identities_ok db" "find_identity subject db = Some i"
  shows "identities_ok (save_identity_email i email env db)"
    and "\<exists>j. find_identity subject (save_identity_email i email env db) = Some j \<and> ai_userId j = ai_userId i"
proof -
  let ?j = "i\<lparr>ai_providerEmail := email, ai_updatedAt := dbNow env\<rparr>" and ?rows = "identities db"
  have i: "i \<in> set ?rows" "ai_provider i = Google" "ai_providerSubject i = subject"
    using find_SomeD [OF assms(2) [unfolded find_identity_def]] by simp_all
  have d: "distinct (map ai_id ?rows)" "distinct (map ai_providerSubject ?rows)" "distinct (map ai_userId ?rows)"
    using assms(1) by (simp_all add: identities_ok_def)
  have same: "map f (update_where (\<lambda>r. ai_id r = ai_id i) (\<lambda>_. ?j) ?rows) = map f ?rows"
    if "f ?j = f i" for f :: "identity_row \<Rightarrow> 'x"
  proof -
    have "r = i" if "r \<in> set ?rows" "ai_id r = ai_id i" for r using distinct_key_eq [OF d(1) that(1) i(1) that(2)] .
    then show ?thesis using that by (auto simp: update_where_def)
  qed
  have view: "status_of (save_identity_email i email env db) = status_of db"
    by (rule views_cong) (simp add: save_identity_email_def)
  show "identities_ok (save_identity_email i email env db)"
    using assms(1) i same [of ai_id] same [of ai_providerSubject] same [of ai_userId]
    unfolding identities_ok_def view by (auto simp: save_identity_email_def row_simps)
  have f: "List.find (\<lambda>x. ai_providerSubject x = ai_providerSubject i) (identities (save_identity_email i email env db)) \<noteq> None"
    using same [of ai_providerSubject] i(1,3) unfolding find_None_iff
    by (auto simp: save_identity_email_def row_simps)
  have "\<exists>j. find_identity subject (save_identity_email i email env db) = Some j"
    using f i(3) by (auto simp: find_identity_Google)
  then obtain j where j: "find_identity subject (save_identity_email i email env db) = Some j" by blast
  then have "j \<in> set (identities (save_identity_email i email env db)) \<and> ai_providerSubject j = subject"
    using find_SomeD unfolding find_identity_def by fastforce
  moreover have "r = i" if "r \<in> set ?rows" "ai_providerSubject r = subject" for r
    using distinct_key_eq [OF d(2) that(1) i(1)] that(2) i(3) by simp
  ultimately have "ai_userId j = ai_userId i"
    by (auto simp: save_identity_email_def row_simps split: if_splits)
  then show "\<exists>j. find_identity subject (save_identity_email i email env db) = Some j \<and> ai_userId j = ai_userId i"
    using j by blast
qed

lemma save_identity_email_kept:
  assumes "identities_ok db" "find_identity subject db = Some i" "x \<in> set (identities db)"
  shows "\<exists>j \<in> set (identities (save_identity_email i email env db)).
    ai_providerSubject j = ai_providerSubject x \<and> ai_userId j = ai_userId x"
proof -
  have i: "i \<in> set (identities db)" using find_SomeD [OF assms(2) [unfolded find_identity_def]] by simp
  have "distinct (map ai_id (identities db))" using assms(1) by (simp add: identities_ok_def)
  then have "x = i" if "ai_id x = ai_id i" using distinct_key_eq [OF _ assms(3) i that] by blast
  then have same: "ai_id x = ai_id i \<Longrightarrow> ai_providerSubject x = ai_providerSubject i \<and> ai_userId x = ai_userId i" by simp
  show ?thesis
  proof (cases "ai_providerEmail i = email")
    case True then show ?thesis using assms(3) by (auto simp: save_identity_email_def)
  next
    case False
    let ?j = "i\<lparr>ai_providerEmail := email, ai_updatedAt := dbNow env\<rparr>"
    have "identities (save_identity_email i email env db) = map (\<lambda>r. if ai_id r = ai_id i then ?j else r) (identities db)"
      using False by (simp add: save_identity_email_def update_where_def)
    then have "(if ai_id x = ai_id i then ?j else x) \<in> set (identities (save_identity_email i email env db))"
      using imageI [OF assms(3), of "\<lambda>r. if ai_id r = ai_id i then ?j else r"] by (simp only: set_map)
    then show ?thesis by (rule bexI [rotated]) (use same in simp)
  qed
qed

lemma insert_account_ok:
  assumes "insert_account collate gc env db = Inr (u, db1)" "accounts_ok collate db"
  shows "accounts_ok collate db1" "find_account (u_id u) db1 = Some u" "find_account (u_id u) db = None"
    "\<And>j. j \<noteq> u_id u \<Longrightarrow> find_account j db1 = find_account j db"
    "status_of db1 = (status_of db)(u_id u \<mapsto> UserActive)" "role_of db1 = (role_of db)(u_id u \<mapsto> RoleUser)"
    "u_status u = UserActive" "u_email u = gi_email gc" "identities db1 = identities db" "sessions db1 = sessions db"
    "userStatusHistories db1 = userStatusHistories db" "userRoleHistories db1 = userRoleHistories db"
    "nextAuthId db1 = Suc (nextAuthId db)" "u_id u = nextAuthId db"
proof -
  have u: "u_id u = nextAuthId db" "u_status u = UserActive" "u_role u = RoleUser" "u_email u = gi_email gc"
      "db1 = db\<lparr>accounts := accounts db @ [u], nextAuthId := Suc (nextAuthId db)\<rparr>"
    and e: "\<forall>r \<in> set (accounts db). collate (u_email r) \<noteq> collate (gi_email gc)"
    using assms(1) by (auto simp: insert_account_def Let_def split: if_splits)
  have lt: "\<forall>r \<in> set (accounts db). u_id r < nextAuthId db" using assms(2) by (simp add: accounts_ok_def)
  show none: "find_account (u_id u) db = None" using lt u(1) by (auto simp: find_account_def find_None_iff)
  have find: "find_account j db1 = (if j = u_id u then Some u else find_account j db)" for j
  proof -
    have "List.find (\<lambda>x. u_id x = j) (rows @ [u]) =
        (case List.find (\<lambda>x. u_id x = j) rows of None \<Rightarrow> if u_id u = j then Some u else None | Some x \<Rightarrow> Some x)" for rows
      by (induction rows) auto
    then show ?thesis using none by (auto simp: find_account_def u(5) split: option.splits)
  qed
  show "\<And>j. j \<noteq> u_id u \<Longrightarrow> find_account j db1 = find_account j db" by (simp add: find)
  show "find_account (u_id u) db1 = Some u" "status_of db1 = (status_of db)(u_id u \<mapsto> UserActive)"
    "role_of db1 = (role_of db)(u_id u \<mapsto> RoleUser)"
    using u(2,3) by (auto simp: find status_of_def role_of_def fun_eq_iff)
  show "accounts_ok collate db1" using assms(2) u e lt by (auto simp: accounts_ok_def image_iff less_SucI)
qed (use assms(1) in \<open>auto simp: insert_account_def Let_def split: if_splits\<close>)

text \<open>
  What a login does before it makes the session: the identity is bound to an active user that carries
  the email of the claims, and nothing else changes.
\<close>

definition login_prepared ::
  "(string \<Rightarrow> string) \<Rightarrow> GoogleIdentityClaims \<Rightarrow> auth_state \<Rightarrow> account_row \<Rightarrow> auth_db \<Rightarrow> bool" where
  "login_prepared collate gc st user db1 \<longleftrightarrow> auth_inv collate (st\<lparr>as_db := db1\<rparr>)
     \<and> find_account (u_id user) db1 = Some user \<and> u_status user = UserActive \<and> u_email user = gi_email gc
     \<and> (\<exists>i. find_identity (gi_subject gc) db1 = Some i \<and> ai_userId i = u_id user)
     \<and> (case find_identity (gi_subject gc) (as_db st) of
          None \<Rightarrow> status_of (as_db st) (u_id user) = None
        | Some i \<Rightarrow> ai_userId i = u_id user \<and> status_of (as_db st) (u_id user) = Some UserActive)
     \<and> sessions db1 = sessions (as_db st)
     \<and> (\<forall>j. j \<noteq> u_id user \<longrightarrow> find_account j db1 = find_account j (as_db st))
     \<and> (\<forall>i \<in> set (identities (as_db st)). \<exists>j \<in> set (identities db1).
          ai_providerSubject j = ai_providerSubject i \<and> ai_userId j = ai_userId i)"

lemma returning_prepared:
  assumes inv: "auth_inv collate st" and i: "find_identity (gi_subject gc) (as_db st) = Some i"
    and user: "find_account (ai_userId i) (as_db st) = Some user"
    and run: "updateReturningIdentity collate sha256 sign cfg i user gc env (as_db st) = Inr (issued, db')"
  shows "\<exists>user1 db1. login_prepared collate gc st user1 db1
    \<and> createWithManager sha256 sign cfg user1 env db1 = Inr (issued, db')"
proof -
  let ?db = "as_db st"
  have uid: "u_id user = ai_userId i" using find_account_SomeD [OF user] by simp
  have ok: "accounts_ok collate ?db" "identities_ok ?db" using inv by (simp_all add: auth_inv_def)
  have act: "u_status user = UserActive" using run by (simp add: updateReturningIdentity_def step_simps)
  have "\<exists>user1 db1. account_saved collate (user\<lparr>u_email := gi_email gc\<rparr>) user1 ?db db1
      \<and> createWithManager sha256 sign cfg user1 env (save_identity_email i (gi_email gc) env db1) = Inr (issued, db')"
  proof (cases "u_email user = gi_email gc")
    case True
    then have "createWithManager sha256 sign cfg user env (save_identity_email i (gi_email gc) env ?db) = Inr (issued, db')"
      using run by (simp add: updateReturningIdentity_def act)
    moreover have "account_saved collate (user\<lparr>u_email := gi_email gc\<rparr>) user ?db ?db"
      using ok(1) user uid True by (auto simp: account_saved_def status_of_def role_of_def)
    ultimately show ?thesis by blast
  next
    case False
    then obtain user1 db1 where s: "save_account collate (user\<lparr>u_email := gi_email gc\<rparr>) env ?db = Inr (user1, db1)"
        "createWithManager sha256 sign cfg user1 env (save_identity_email i (gi_email gc) env db1) = Inr (issued, db')"
      using run by (auto simp: updateReturningIdentity_def act step_simps split: option.splits if_splits)
    then show ?thesis using save_account_saved [OF s(1) _ ok(1)] user uid by auto
  qed
  then obtain user1 db1 where saved: "account_saved collate (user\<lparr>u_email := gi_email gc\<rparr>) user1 ?db db1"
    and mk: "createWithManager sha256 sign cfg user1 env (save_identity_email i (gi_email gc) env db1) = Inr (issued, db')"
    by blast
  let ?db2 = "save_identity_email i (gi_email gc) env db1"
  have st: "status_of ?db (u_id user) = Some UserActive" "role_of ?db (u_id user) = Some (u_role user)"
    using user uid act by (simp_all add: status_of_def role_of_def)
  have acc: "accounts ?db2 = accounts db1" "sessions ?db2 = sessions db1" "nextAuthId ?db2 = nextAuthId db1"
    "userStatusHistories ?db2 = userStatusHistories db1" "userRoleHistories ?db2 = userRoleHistories db1"
    by (simp_all add: save_identity_email_def)
  have v: "status_of ?db2 = status_of ?db" "role_of ?db2 = role_of ?db"
    using saved st act views_cong(1,2) [OF acc(1)] by (auto simp: account_saved_def fun_eq_iff)
  have id1: "identities_ok db1" "find_identity (gi_subject gc) db1 = Some i"
    using ok(2) i saved v(1) views_cong(1) [OF acc(1)]
    by (auto simp: account_saved_def identities_ok_def find_identity_def)
  note id2 = save_identity_email_ok [OF id1, of "gi_email gc" env]
  have "auth_inv collate (st\<lparr>as_db := ?db2\<rparr>)"
    by (rule auth_inv_accounts [OF inv _ id2(1)])
      (use saved acc v in \<open>auto simp: account_saved_def accounts_ok_def role_None_iff\<close>)
  moreover have "find_account (u_id user1) ?db2 = Some user1"
    using saved views_cong(3) [OF acc(1)] by (simp add: account_saved_def)
  moreover have "\<exists>j. find_identity (gi_subject gc) ?db2 = Some j \<and> ai_userId j = u_id user1"
    using id2(2) saved uid by (simp add: account_saved_def)
  moreover have "u_status user1 = UserActive" "u_email user1 = gi_email gc" "u_id user1 = u_id user"
    using saved act by (simp_all add: account_saved_def)
  moreover have "\<forall>j. j \<noteq> u_id user1 \<longrightarrow> find_account j ?db2 = find_account j ?db"
    using saved views_cong(3) [OF acc(1)] by (simp add: account_saved_def)
  moreover have "\<forall>x \<in> set (identities ?db). \<exists>j \<in> set (identities ?db2).
      ai_providerSubject j = ai_providerSubject x \<and> ai_userId j = ai_userId x"
    using save_identity_email_kept [OF id1, of _ "gi_email gc" env] saved by (simp add: account_saved_def)
  moreover have "sessions ?db2 = sessions ?db" using acc(2) saved by (simp add: account_saved_def)
  ultimately have "login_prepared collate gc st user1 ?db2"
    using i uid st(1) by (simp add: login_prepared_def)
  with mk show ?thesis by blast
qed

lemma new_prepared:
  assumes inv: "auth_inv collate st" and i: "find_identity (gi_subject gc) (as_db st) = None"
    and a: "insert_account collate gc env (as_db st) = Inr (user, db1)"
    and b: "insert_identity (u_id user) gc env db1 = Inr db2"
  shows "login_prepared collate gc st user db2"
proof -
  let ?db = "as_db st"
  have ok: "accounts_ok collate ?db" "identities_ok ?db" using inv by (simp_all add: auth_inv_def)
  note u = insert_account_ok [OF a ok(1)]
  obtain j where j: "db2 = db1\<lparr>identities := identities db1 @ [j], nextAuthId := Suc (nextAuthId db1)\<rparr>"
      "ai_id j = nextAuthId db1" "ai_userId j = u_id user" "ai_providerSubject j = gi_subject gc"
    and fresh: "\<forall>x \<in> set (identities db1). ai_providerSubject x \<noteq> gi_subject gc \<and> ai_userId x \<noteq> u_id user"
    using b by (auto simp: insert_identity_def split: if_splits)
  have acc: "accounts db2 = accounts db1" using j(1) by simp
  note v = views_cong [OF acc]
  have ok2: "identities_ok db2"
    using ok(2) fresh j u unfolding identities_ok_def v(1)
    by (auto simp: image_iff less_SucI fun_upd_def)
  have acc2: "accounts_ok collate db2" using u(1) acc j(1) by (auto simp: accounts_ok_def less_SucI)
  have none: "status_of ?db (u_id user) = None" using u(3) by (simp add: status_of_def)
  have "auth_inv collate (st\<lparr>as_db := db2\<rparr>)"
    by (rule auth_inv_accounts [OF inv acc2 ok2]) (use u(5,6,10,11,12) none j(1) v(1,2) in \<open>auto simp: role_None_iff\<close>)
  moreover have "find_identity (gi_subject gc) db2 = Some j"
    using i j u(9) fresh by (simp add: find_identity_Google find_append_None find_None_iff)
  ultimately show ?thesis
    using i u v j(1,3) none unfolding login_prepared_def by auto
qed

lemma resolve_prepared:
  assumes "auth_inv collate st"
    and "resolveIdentityAndCreateSession collate sha256 sign cfg gc env (as_db st) = Inr (issued, db')"
  shows "\<exists>user db1. login_prepared collate gc st user db1
    \<and> createWithManager sha256 sign cfg user env db1 = Inr (issued, db')"
proof (cases "find_identity (gi_subject gc) (as_db st)")
  case None
  then obtain user db1 db2 where "insert_account collate gc env (as_db st) = Inr (user, db1)"
      "insert_identity (u_id user) gc env db1 = Inr db2" "createWithManager sha256 sign cfg user env db2 = Inr (issued, db')"
    using assms(2) by (auto simp: resolveIdentityAndCreateSession_def step_simps)
  then show ?thesis using new_prepared [OF assms(1) None] by blast
next
  case (Some i)
  then obtain user where "find_account (ai_userId i) (as_db st) = Some user"
      "updateReturningIdentity collate sha256 sign cfg i user gc env (as_db st) = Inr (issued, db')"
    using assms(2) by (auto simp: resolveIdentityAndCreateSession_def step_simps)
  then show ?thesis using returning_prepared [OF assms(1) Some] by blast
qed

text \<open>A session made for a stored active user.\<close>

lemma session_made:
  assumes inv: "auth_inv collate (st\<lparr>as_db := db1\<rparr>)" and u: "find_account (u_id user) db1 = Some user"
    and mk: "createWithManager sha256 sign cfg user env db1 = Inr (issued, db')"
    and fresh: "drawUuid env 0 \<notin> usedIds st" "hex_buffer (sha256 (is_refreshToken issued)) \<notin> usedDigests st"
  shows "auth_inv collate \<lparr>as_db = db', usedIds = insert (drawUuid env 0) (usedIds st),
    usedDigests = insert (hex_buffer (sha256 (is_refreshToken issued))) (usedDigests st)\<rparr>"
proof -
  obtain s where s: "db' = save_session s env db1" "se_id s = drawUuid env 0" "se_userId s = u_id user"
      "se_refreshTokenHash s = sha256 (is_refreshToken issued)" "u_status user = UserActive"
    using createWithManager_effect [OF mk] by blast
  have "sessions_ok \<lparr>as_db = save_session s env (as_db (st\<lparr>as_db := db1\<rparr>)),
      usedIds = insert (se_id s) (usedIds (st\<lparr>as_db := db1\<rparr>)),
      usedDigests = insert (digest s) (usedDigests (st\<lparr>as_db := db1\<rparr>))\<rparr>"
    by (rule sessions_ok_new) (use inv s u fresh in \<open>auto simp: auth_inv_def digest_def status_of_def\<close>)
  then show ?thesis by (intro auth_inv_sessions [OF inv]) (simp_all add: s digest_def)
qed

lemma joined_sessionD:
  "joined_session i db = Some (s, u) \<Longrightarrow> find_session (se_id s) db = Some s \<and> se_id s = i
     \<and> find_account (se_userId s) db = Some u"
  by (auto simp: joined_session_def bind_eq_Some_conv dest: find_session_SomeD)

lemma refresh_success_effect:
  assumes "refresh_tx sha256 sessionId rawToken env db = Inr (RefreshSuccess s' u refreshToken, db')"
  obtains s where "joined_session sessionId db = Some (s, u)" "\<not> session_ended env s"
    "hex_buffer (sha256 rawToken) = digest s" "u_status u = UserActive"
    "s' = s\<lparr>se_refreshTokenHash := sha256 refreshToken\<rparr>" "db' = save_session s' env db"
  using assms
  by (auto simp: refresh_tx_def constantTimeHashMatches_def digest_def Let_def split: option.splits prod.splits if_splits)

lemma refresh_failure_effect:
  assumes "refresh_tx sha256 sessionId rawToken env db = Inr (result, db')" "\<And>s u t. result \<noteq> RefreshSuccess s u t"
  shows "db' = db \<or> (\<exists>s u. joined_session sessionId db = Some (s, u) \<and> db' = save_session (end_session s env) env db)"
  using assms by (auto simp: refresh_tx_def Let_def split: option.splits prod.splits if_splits)

lemma ended_inv:
  assumes "auth_inv collate st" "find_session (se_id s) (as_db st) = Some s"
  shows "auth_inv collate (st\<lparr>as_db := save_session (end_session s env) env (as_db st)\<rparr>)"
  by (rule auth_inv_sessions [OF assms(1) sessions_ok_ended]) (use assms in \<open>simp_all add: auth_inv_def\<close>)

lemma rotated_inv:
  assumes inv: "auth_inv collate st"
    and run: "refresh_tx sha256 sessionId rawToken env (as_db st) = Inr (RefreshSuccess s' u refreshToken, db')"
    and fresh: "hex_buffer (sha256 refreshToken) \<notin> usedDigests st"
  shows "auth_inv collate (st\<lparr>as_db := db', usedDigests := insert (hex_buffer (sha256 refreshToken)) (usedDigests st)\<rparr>)"
proof -
  obtain s where s: "joined_session sessionId (as_db st) = Some (s, u)" "db' = save_session s' env (as_db st)"
      "s' = s\<lparr>se_refreshTokenHash := sha256 refreshToken\<rparr>"
    using refresh_success_effect [OF run] by metis
  have "sessions_ok (st\<lparr>as_db := save_session s' env (as_db st),
      usedDigests := insert (hex_buffer (sha256 refreshToken)) (usedDigests st)\<rparr>)"
    by (rule sessions_ok_replaced [of st s' s])
      (use inv joined_sessionD [OF s(1)] s(3) fresh in \<open>auto simp: auth_inv_def digest_def\<close>)
  then show ?thesis by (intro auth_inv_sessions [OF inv]) (simp_all add: s(2))
qed

text \<open>Appending an audit row.\<close>

lemma replay_append: "replay s xs = Some t \<Longrightarrow> replay s (xs @ [(a, b)]) = (if a = t \<and> b \<noteq> t then Some b else None)"
  by (induction s xs rule: replay.induct) (auto split: if_splits)

lemma sessions_ok_revoked:
  assumes ok: "sessions_ok st" and i: "status_of db1 i \<noteq> None"
    and v: "\<And>j. j \<noteq> i \<Longrightarrow> status_of db1 j = status_of (as_db st) j"
    and s: "sessions db1 = sessions (as_db st)"
  shows "sessions_ok (st\<lparr>as_db := revoke_sessions i env db1\<rparr>)"
proof -
  let ?rows = "sessions (as_db st)" and ?f = "\<lambda>s. s\<lparr>se_revokedAt := Some (jsNow env), se_updatedAt := dbNow env\<rparr>"
  have rows: "sessions (revoke_sessions i env db1) = map (\<lambda>r. if open_session i r then ?f r else r) ?rows"
    by (simp add: revoke_sessions_def update_where_def s)
  have same: "map se_id (sessions (revoke_sessions i env db1)) = map se_id ?rows"
    "map digest (sessions (revoke_sessions i env db1)) = map digest ?rows" by (auto simp: rows digest_def)
  have "session_fits (usedIds st) (usedDigests st) (status_of db1) (if open_session i r then ?f r else r)"
    if "r \<in> set ?rows" for r
  proof -
    have "session_fits (usedIds st) (usedDigests st) (status_of (as_db st)) r" using ok that by (simp add: sessions_ok_def)
    then show ?thesis using i v [of "se_userId r"]
      by (cases "se_userId r = i") (auto simp: session_fits_def open_session_def digest_def)
  qed
  then have "\<forall>r \<in> set (sessions (revoke_sessions i env db1)). session_fits (usedIds st) (usedDigests st) (status_of db1) r"
    unfolding rows set_map by blast
  then show ?thesis using ok unfolding sessions_ok_def by (simp add: same)
qed

text \<open>Deactivating an administrator leaves another one.\<close>

lemma other_admin:
  assumes "accounts_ok collate db" "1 < length (activeAdmins db)"
  shows "\<exists>j. j \<noteq> i \<and> role_of db j = Some RoleAdmin \<and> status_of db j = Some UserActive"
proof -
  have d: "distinct (map u_id (accounts db))" using assms(1) by (simp add: accounts_ok_def)
  obtain a b rest where ab: "activeAdmins db = a # b # rest"
    using assms(2) by (cases "activeAdmins db" rule: remdups_adj.cases) auto
  have dd: "distinct (map u_id (activeAdmins db))" using d by (simp add: activeAdmins_def distinct_map_filter)
  have view: "role_of db (u_id u) = Some RoleAdmin \<and> status_of db (u_id u) = Some UserActive" if "u \<in> set (activeAdmins db)" for u
    using that find_unique [OF d, of u] by (auto simp: activeAdmins_def role_of_def status_of_def find_account_def)
  have "u_id a \<noteq> u_id b" using dd ab by simp
  then show ?thesis using view [of a] view [of b] ab by (metis list.set_intros(1,2))
qed

text \<open>A status change: the view of the target, its audit row and its sessions.\<close>

lemma updateStatus_effect:
  assumes run: "updateStatus_tx collate actor target newStatus reason env db = Inr ((saved, revoked), db')"
    and ok: "accounts_ok collate db"
  obtains (unchanged) "db' = db" "revoked = []" "status_of db target = Some newStatus"
  | (changed) u db1 h where "find_account target db = Some u" "u_status u \<noteq> newStatus"
      "account_saved collate (u\<lparr>u_status := newStatus\<rparr>) saved db db1"
      "ush_userId h = target" "ush_fromStatus h = u_status u" "ush_toStatus h = newStatus"
      "newStatus = UserInactive \<Longrightarrow> u_role u = RoleAdmin \<Longrightarrow> 1 < length (activeAdmins db)"
      "db' = (if newStatus = UserInactive
         then revoke_sessions target env (db1\<lparr>userStatusHistories := userStatusHistories db1 @ [h], nextAuthId := Suc (nextAuthId db1)\<rparr>)
         else db1\<lparr>userStatusHistories := userStatusHistories db1 @ [h], nextAuthId := Suc (nextAuthId db1)\<rparr>)"
      "revoked = (if newStatus = UserInactive then map se_id (filter (open_session target) (sessions db)) else [])"
proof -
  obtain u where u: "find_account target db = Some u" using run by (auto simp: updateStatus_tx_def step_simps)
  have uid: "u_id u = target" using find_account_SomeD [OF u] by simp
  show ?thesis
  proof (cases "u_status u = newStatus")
    case True
    then show ?thesis using run u by (intro unchanged) (auto simp: updateStatus_tx_def status_of_def)
  next
    case False
    obtain db1 db2 where sv: "save_account collate (u\<lparr>u_status := newStatus\<rparr>) env db = Inr (saved, db1)"
      and hi: "insert_user_status_history (u_id u) actor (u_status u) newStatus reason env db1 = Inr db2"
      and fin: "((saved, revoked), db') = (if newStatus = UserInactive
        then ((saved, map se_id (filter (open_session (u_id u)) (sessions db2))), revoke_sessions (u_id u) env db2)
        else ((saved, []), db2))"
      and adm: "newStatus = UserInactive \<Longrightarrow> u_role u = RoleAdmin \<Longrightarrow> 1 < length (activeAdmins db)"
    proof -
      assume goal: "\<And>db1 db2. save_account collate (u\<lparr>u_status := newStatus\<rparr>) env db = Inr (saved, db1) \<Longrightarrow>
        insert_user_status_history (u_id u) actor (u_status u) newStatus reason env db1 = Inr db2 \<Longrightarrow>
        ((saved, revoked), db') = (if newStatus = UserInactive
          then ((saved, map se_id (filter (open_session (u_id u)) (sessions db2))), revoke_sessions (u_id u) env db2)
          else ((saved, []), db2)) \<Longrightarrow>
        (newStatus = UserInactive \<Longrightarrow> u_role u = RoleAdmin \<Longrightarrow> 1 < length (activeAdmins db)) \<Longrightarrow> thesis"
      show thesis
        by (cases newStatus) (use run u False in \<open>auto simp: updateStatus_tx_def step_simps intro!: goal\<close>)
    qed
    have saved: "account_saved collate (u\<lparr>u_status := newStatus\<rparr>) saved db db1"
      by (rule save_account_saved [OF sv _ ok]) (use u uid in simp)
    obtain h where h: "db2 = db1\<lparr>userStatusHistories := userStatusHistories db1 @ [h], nextAuthId := Suc (nextAuthId db1)\<rparr>"
        "ush_userId h = target" "ush_fromStatus h = u_status u" "ush_toStatus h = newStatus"
      using hi uid by (auto simp: insert_user_status_history_def split: if_splits)
    have "sessions db2 = sessions db" using saved h(1) by (simp add: account_saved_def)
    then show ?thesis using changed [OF u False saved h(2-4) adm] fin h(1) uid by (simp split: if_splits)
  qed
qed

lemma status_inv:
  assumes inv: "auth_inv collate st"
    and run: "updateStatus_tx collate actor target newStatus reason env (as_db st) = Inr (result, db')"
  shows "auth_inv collate (st\<lparr>as_db := db'\<rparr>)"
proof -
  obtain saved revoked where result: "result = (saved, revoked)" by fastforce
  have ok: "accounts_ok collate (as_db st)" "identities_ok (as_db st)" "sessions_ok st" "admins_ok (as_db st)" "trails_ok (as_db st)"
    using inv by (simp_all add: auth_inv_def)
  from run [unfolded result] ok(1) show ?thesis
  proof (cases rule: updateStatus_effect)
    case unchanged
    then show ?thesis using inv by simp
  next
    case (changed u db1 h)
    let ?db = "as_db st"
    have uid: "u_id u = target" using find_account_SomeD [OF changed(1)] by simp
    have old: "status_of ?db target = Some (u_status u)" "role_of ?db target = Some (u_role u)"
      using changed(1) by (simp_all add: status_of_def role_of_def)
    have acc: "accounts db' = accounts db1" using changed(8) by simp
    have v: "status_of db' = (status_of ?db)(target \<mapsto> newStatus)" "role_of db' = role_of ?db"
      using changed(3) uid old(2) views_cong(1,2) [OF acc] by (auto simp: account_saved_def fun_eq_iff)
    have rest: "identities db' = identities ?db" "userRoleHistories db' = userRoleHistories ?db"
      "userStatusHistories db' = userStatusHistories ?db @ [h]" "nextAuthId db' = Suc (nextAuthId ?db)"
      using changed(3,8) by (auto simp: account_saved_def)
    have "accounts_ok collate db'" using changed(3) acc rest(4) by (auto simp: account_saved_def accounts_ok_def less_SucI)
    moreover have "identities_ok db'"
      by (rule identities_ok_views [OF ok(2) rest(1)]) (use rest(4) v in auto)
    moreover have "sessions_ok (st\<lparr>as_db := db'\<rparr>)"
    proof (cases newStatus)
      case UserActive
      then have "sessions db' = sessions ?db" using changed(3,8) by (simp add: account_saved_def)
      then show ?thesis using ok(3) UserActive by (auto simp: sessions_ok_def session_fits_def v(1))
    next
      case UserInactive
      let ?db1 = "db1\<lparr>userStatusHistories := userStatusHistories db1 @ [h], nextAuthId := Suc (nextAuthId db1)\<rparr>"
      have v1: "status_of ?db1 = (status_of ?db)(target \<mapsto> newStatus)"
        using v(1) changed(8) UserInactive by simp
      have "sessions_ok (st\<lparr>as_db := revoke_sessions target env ?db1\<rparr>)"
        by (rule sessions_ok_revoked [OF ok(3)]) (use v1 changed(3) in \<open>auto simp: account_saved_def\<close>)
      then show ?thesis using changed(8) UserInactive by simp
    qed
    moreover have "admins_ok db'"
    proof (cases "newStatus = UserInactive \<and> u_role u = RoleAdmin")
      case True
      then obtain j where "j \<noteq> target" "role_of ?db j = Some RoleAdmin" "status_of ?db j = Some UserActive"
        using other_admin [OF ok(1), of target] changed(7) by auto
      then show ?thesis by (auto simp: admins_ok_def v)
    next
      case False
      then have "newStatus = UserActive \<or> role_of ?db target \<noteq> Some RoleAdmin" using old(2) by (cases newStatus) auto
      then show ?thesis using ok(4) unfolding admins_ok_def v rest(2) by (metis fun_upd_apply)
    qed
    moreover have "trails_ok db'"
      using ok(5) old(1) changed(2,4-6) replay_append
      by (fastforce simp: trails_ok_def v rest status_trail_def role_trail_def)
    ultimately show ?thesis by (simp add: auth_inv_def)
  qed
qed

lemma promote_effect:
  assumes run: "promote collate userId email reason env db = Inr (answer, db')" and ok: "accounts_ok collate db"
  obtains (unchanged) "db' = db"
  | (promoted) u u' db1 h where "find_account (u_id u) db = Some u" "u_role u \<noteq> RoleAdmin" "u_status u = UserActive"
      "account_saved collate (u\<lparr>u_role := RoleAdmin\<rparr>) u' db db1"
      "urh_userId h = u_id u" "urh_fromRole h = u_role u" "urh_toRole h = RoleAdmin"
      "db' = db1\<lparr>userRoleHistories := userRoleHistories db1 @ [h], nextAuthId := Suc (nextAuthId db1)\<rparr>"
proof (cases "db' = db")
  case False
  obtain init: "ensureInitialized env = Inr ()" and query: "queryFails env = None"
    using run by (auto simp: promote_def step_simps Let_def split: sum.splits option.splits)
  obtain u where u: "List.find (\<lambda>u. show_nat (u_id u) = userId) (accounts db) = Some u" "u_status u = UserActive"
    and fin: "(if u_role u = RoleAdmin then Inr (AlreadyAdmin, db)
       else case save_account collate (u\<lparr>u_role := RoleAdmin\<rparr>) env db of
         Inl e \<Rightarrow> Inl (BootstrapDatabaseError e)
       | Inr (saved, db1) \<Rightarrow>
           Inr (Promoted, insert_user_role_history (u_id u) (u_role u) RoleAdmin (trim reason) env db1)) = Inr (answer, db')"
    using run by (auto simp: promote_def step_simps Let_def init query)
  then have role: "u_role u \<noteq> RoleAdmin" using False by auto
  have mem: "u \<in> set (accounts db)" using find_SomeD [OF u(1)] by simp
  have f: "find_account (u_id u) db = Some u"
    using ok find_unique [OF _ mem, of u_id] by (simp add: find_account_def accounts_ok_def)
  obtain u' db1 where s: "save_account collate (u\<lparr>u_role := RoleAdmin\<rparr>) env db = Inr (u', db1)"
      "db' = insert_user_role_history (u_id u) (u_role u) RoleAdmin (trim reason) env db1"
    using fin role by (auto split: sum.splits)
  have saved: "account_saved collate (u\<lparr>u_role := RoleAdmin\<rparr>) u' db db1"
    by (rule save_account_saved [OF s(1) _ ok]) (simp add: f)
  show ?thesis
    by (rule promoted [OF f role u(2) saved, of "\<lparr>urh_id = nextAuthId db1, urh_userId = u_id u, urh_actorType = RoleActorCli,
        urh_actorUserId = None, urh_fromRole = u_role u, urh_toRole = RoleAdmin, urh_reason = trim reason, urh_createdAt = dbNow env\<rparr>"])
      (simp_all add: s(2) insert_user_role_history_def)
qed (rule unchanged)

lemma promote_inv:
  assumes inv: "auth_inv collate st"
    and run: "promote collate userId email reason env (as_db st) = Inr (answer, db')"
  shows "auth_inv collate (st\<lparr>as_db := db'\<rparr>)"
proof -
  have ok: "accounts_ok collate (as_db st)" "identities_ok (as_db st)" "sessions_ok st" "trails_ok (as_db st)"
    using inv by (simp_all add: auth_inv_def)
  from run ok(1) show ?thesis
  proof (cases rule: promote_effect)
    case unchanged
    then show ?thesis using inv by simp
  next
    case (promoted u u' db1 h)
    let ?db = "as_db st"
    have old: "status_of ?db (u_id u) = Some UserActive" "role_of ?db (u_id u) = Some (u_role u)"
      using promoted(1,3) by (simp_all add: status_of_def role_of_def)
    have acc: "accounts db' = accounts db1" using promoted(8) by simp
    have v: "status_of db' = status_of ?db" "role_of db' = (role_of ?db)(u_id u \<mapsto> RoleAdmin)"
      using promoted(3,4) old views_cong(1,2) [OF acc] by (auto simp: account_saved_def fun_eq_iff)
    have rest: "identities db' = identities ?db" "userRoleHistories db' = userRoleHistories ?db @ [h]"
      "userStatusHistories db' = userStatusHistories ?db" "nextAuthId db' = Suc (nextAuthId ?db)" "sessions db' = sessions ?db"
      using promoted(4,8) by (auto simp: account_saved_def)
    have "accounts_ok collate db'" using promoted(4) acc rest(4) by (auto simp: account_saved_def accounts_ok_def less_SucI)
    moreover have "identities_ok db'" by (rule identities_ok_views [OF ok(2) rest(1)]) (use rest(4) v in auto)
    moreover have "sessions_ok (st\<lparr>as_db := db'\<rparr>)" by (rule sessions_ok_views [OF ok(3)]) (use rest(5) v(1) in auto)
    moreover have "admins_ok db'" using v old by (auto simp: admins_ok_def)
    moreover have "trails_ok db'"
      using ok(4) old promoted(2,5-7) replay_append
      by (fastforce simp: trails_ok_def v rest status_trail_def role_trail_def)
    ultimately show ?thesis by (simp add: auth_inv_def)
  qed
qed

lemma purge_inv:
  assumes "auth_inv collate st"
  shows "auth_inv collate (st\<lparr>as_db := (as_db st)\<lparr>sessions := filter kept (sessions (as_db st))\<rparr>\<rparr>)"
proof -
  have v: "status_of ((as_db st)\<lparr>sessions := rows\<rparr>) = status_of (as_db st)" for rows by (rule views_cong) simp
  show ?thesis
    by (rule auth_inv_sessions [OF assms])
      (use assms in \<open>auto simp: auth_inv_def sessions_ok_def v distinct_map_filter\<close>)
qed

lemma auth_step_inv:
  assumes "auth_inv collate st" "auth_step collate sha256 sign cfg st st'"
  shows "auth_inv collate st'"
  using assms(2)
proof cases
  case (login googleClaims env issued db')
  then obtain user db1 where "login_prepared collate googleClaims st user db1"
      "createWithManager sha256 sign cfg user env db1 = Inr (issued, db')"
    using resolve_prepared [OF assms(1)] by blast
  then show ?thesis using session_made login unfolding login_prepared_def by blast
next
  case (create userId env issued db')
  then obtain user where u: "find_account userId (as_db st) = Some user"
      "createWithManager sha256 sign cfg user env (as_db st) = Inr (issued, db')"
    by (auto simp: create_session_def run_transaction_def step_simps split: option.splits)
  then have "find_account (u_id user) (as_db st) = Some user" using find_account_SomeD by fastforce
  then show ?thesis using session_made [OF _ _ u(2) create(3,4)] assms(1) create(1) by simp
next
  case (rotate sessionId rawToken env s u refreshToken db')
  then show ?thesis using rotated_inv [OF assms(1)] by blast
next
  case (refresh_invalid sessionId rawToken env revoked db')
  then show ?thesis
    using refresh_failure_effect [OF refresh_invalid(2)] ended_inv [OF assms(1)] assms(1) joined_sessionD by fastforce
next
  case (refresh_inactive sessionId rawToken env revoked db')
  then show ?thesis
    using refresh_failure_effect [OF refresh_inactive(2)] ended_inv [OF assms(1)] assms(1) joined_sessionD by fastforce
next
  case (revoke sessionId env unit db')
  then show ?thesis
    using ended_inv [OF assms(1)] assms(1) find_session_SomeD
    by (fastforce simp: revoke_tx_def split: option.splits if_splits)
next
  case status then show ?thesis using status_inv [OF assms(1)] by blast
next
  case promote then show ?thesis using promote_inv [OF assms(1)] by blast
next
  case purge then show ?thesis using purge_inv [OF assms(1)] by blast
qed

lemma initial_auth_inv: "auth_inv collate initial_auth"
  by (simp add: auth_inv_def initial_auth_def empty_auth_db_def accounts_ok_def identities_ok_def sessions_ok_def
      admins_ok_def trails_ok_def status_of_def role_of_def find_account_def)

interpretation auth: transition_system "auth_step collate sha256 sign cfg" "auth_inv collate" initial_auth
  by unfold_locales (fact initial_auth_inv, fact auth_step_inv)

lemma auth_reachable_inv: "auth_reachable collate sha256 sign cfg st \<Longrightarrow> auth_inv collate st"
  unfolding auth_reachable_def by (rule auth.reachable_inv)

end
