(* ===== verification/Auth_Runs.thy ===== *)
theory Auth_Runs
  imports Auth_System
begin

text \<open>
  What survives any sequence of authentication transactions: how a session may change, that identities
  and accounts stay, and the properties of tokens, deactivations, administrators and audit trails that
  follow.
\<close>

subsection \<open>Sessions, identities and accounts along a run\<close>

definition session_from :: "auth_state \<Rightarrow> session_row \<Rightarrow> session_row \<Rightarrow> bool" where
  "session_from st s s' \<longleftrightarrow> se_id s' = se_id s \<and> se_userId s' = se_userId s \<and> se_refreshExpiresAt s' = se_refreshExpiresAt s
     \<and> (digest s' = digest s \<or> digest s' \<notin> usedDigests st) \<and> (se_revokedAt s \<noteq> None \<longrightarrow> se_revokedAt s' \<noteq> None)"

definition auth_evolves :: "auth_state \<Rightarrow> auth_state \<Rightarrow> bool" where
  "auth_evolves st st' \<longleftrightarrow> usedIds st \<subseteq> usedIds st' \<and> usedDigests st \<subseteq> usedDigests st'
     \<and> (\<forall>s' \<in> set (sessions (as_db st')). se_id s' \<notin> usedIds st \<and> digest s' \<notin> usedDigests st
          \<or> (\<exists>s \<in> set (sessions (as_db st)). session_from st s s'))
     \<and> (\<forall>i \<in> set (identities (as_db st)). \<exists>j \<in> set (identities (as_db st')).
          ai_providerSubject j = ai_providerSubject i \<and> ai_userId j = ai_userId i)
     \<and> dom (status_of (as_db st)) \<subseteq> dom (status_of (as_db st'))"

lemma session_from_refl [simp]: "session_from st s s"
  by (simp add: session_from_def)

lemma auth_evolves_refl: "auth_evolves st st"
  unfolding auth_evolves_def using session_from_refl by blast

lemma auth_evolves_trans:
  assumes "auth_evolves a b" "auth_evolves b c"
  shows "auth_evolves a c"
  unfolding auth_evolves_def
proof (intro conjI ballI)
  fix s2 assume "s2 \<in> set (sessions (as_db c))"
  then consider "se_id s2 \<notin> usedIds b \<and> digest s2 \<notin> usedDigests b"
    | s1 where "s1 \<in> set (sessions (as_db b))" "session_from b s1 s2"
    using assms(2) unfolding auth_evolves_def by blast
  then show "se_id s2 \<notin> usedIds a \<and> digest s2 \<notin> usedDigests a \<or> (\<exists>s \<in> set (sessions (as_db a)). session_from a s s2)"
  proof cases
    case 1 then show ?thesis using assms(1) unfolding auth_evolves_def by blast
  next
    case 2
    have mono: "usedDigests a \<subseteq> usedDigests b" using assms(1) unfolding auth_evolves_def by blast
    from 2(1) assms(1) consider "se_id s1 \<notin> usedIds a \<and> digest s1 \<notin> usedDigests a"
      | s0 where "s0 \<in> set (sessions (as_db a))" "session_from a s0 s1" unfolding auth_evolves_def by blast
    then show ?thesis
    proof cases
      case 1 then show ?thesis using 2(2) mono unfolding session_from_def by auto
    next
      case (2 s0)
      then have "session_from a s0 s2" using \<open>session_from b s1 s2\<close> mono unfolding session_from_def by auto
      then show ?thesis using 2 by blast
    qed
  qed
next
  fix i assume "i \<in> set (identities (as_db a))"
  then show "\<exists>j \<in> set (identities (as_db c)). ai_providerSubject j = ai_providerSubject i \<and> ai_userId j = ai_userId i"
    using assms unfolding auth_evolves_def by metis
next
  show "dom (status_of (as_db a)) \<subseteq> dom (status_of (as_db c))"
    using assms unfolding auth_evolves_def by (meson order_trans)
qed (use assms in \<open>auto simp: auth_evolves_def\<close>)

text \<open>The two shapes of a change of sessions.\<close>

lemma auth_evolves_saved:
  assumes inv: "sessions_ok st" and db: "sessions db1 = sessions (as_db st)"
    and s: "find_session (se_id s) db1 = Some s0" "se_userId s = se_userId s0" "se_refreshExpiresAt s = se_refreshExpiresAt s0"
      "digest s = digest s0 \<or> digest s \<notin> usedDigests st" "se_revokedAt s0 \<noteq> None \<longrightarrow> se_revokedAt s \<noteq> None"
    and s': "s' \<in> set (sessions (save_session s env db1))"
  shows "\<exists>r \<in> set (sessions (as_db st)). session_from st r s'"
proof -
  have s0: "s0 \<in> set (sessions (as_db st))" "se_id s0 = se_id s" using find_session_SomeD [OF s(1)] db by simp_all
  from s' consider "s' \<in> set (sessions (as_db st))"
    | "s' = s\<lparr>se_createdAt := se_createdAt s0, se_updatedAt := dbNow env\<rparr>"
    by (auto simp: save_session_found [OF s(1)] db row_simps)
  then show ?thesis
  proof cases
    case 1 then show ?thesis using session_from_refl by blast
  next
    case 2 then have "session_from st s0 s'" using s s0(2) by (auto simp: session_from_def digest_def)
    then show ?thesis using s0(1) by blast
  qed
qed

lemma auth_evolves_ended:
  assumes "sessions_ok st" "find_session (se_id s) (as_db st) = Some s"
  shows "auth_evolves st (st\<lparr>as_db := save_session (end_session s env) env (as_db st)\<rparr>)"
proof -
  have f: "find_session (se_id (end_session s env)) (as_db st) = Some s" using assms(2) by (simp add: end_session_def)
  show ?thesis
    unfolding auth_evolves_def
    using auth_evolves_saved [OF assms(1) refl f, of _ env]
    by (auto simp: end_session_def digest_def)
qed

lemma auth_evolves_made:
  assumes inv: "sessions_ok st" and db: "sessions db1 = sessions (as_db st)"
    and mk: "createWithManager sha256 sign cfg user env db1 = Inr (issued, db')"
    and fresh: "drawUuid env 0 \<notin> usedIds st" "hex_buffer (sha256 (is_refreshToken issued)) \<notin> usedDigests st"
    and ids: "\<forall>i \<in> set (identities (as_db st)). \<exists>j \<in> set (identities db1).
          ai_providerSubject j = ai_providerSubject i \<and> ai_userId j = ai_userId i"
    and dom: "dom (status_of (as_db st)) \<subseteq> dom (status_of db1)"
  shows "auth_evolves st \<lparr>as_db = db', usedIds = insert (drawUuid env 0) (usedIds st),
    usedDigests = insert (hex_buffer (sha256 (is_refreshToken issued))) (usedDigests st)\<rparr>"
proof -
  obtain s where s: "db' = save_session s env db1" "se_id s = drawUuid env 0"
      "se_refreshTokenHash s = sha256 (is_refreshToken issued)"
    using createWithManager_effect [OF mk] by blast
  have "se_id r \<noteq> se_id s" if "r \<in> set (sessions (as_db st))" for r
    using inv that s(2) fresh(1) unfolding sessions_ok_def session_fits_def by metis
  then have none: "find_session (se_id s) db1 = None" by (simp add: find_session_def find_None_iff db)
  have "sessions db' = sessions (as_db st) @ [s\<lparr>se_createdAt := dbNow env, se_updatedAt := dbNow env\<rparr>]"
    using s(1) db save_session_new [OF none] by simp
  moreover have "digest (s\<lparr>se_createdAt := dbNow env, se_updatedAt := dbNow env\<rparr>) \<notin> usedDigests st"
    using s(3) fresh(2) by (simp add: digest_def)
  ultimately show ?thesis
    using s(1,2) fresh(1) ids dom unfolding auth_evolves_def by (auto intro: session_from_refl)
qed

lemma session_kept: "s \<in> set rows \<Longrightarrow> \<exists>r \<in> set rows. session_from st r s"
  using session_from_refl by blast

lemma auth_evolves_quiet:
  assumes "usedIds st' = usedIds st" "usedDigests st' = usedDigests st" "identities (as_db st') = identities (as_db st)"
    and "dom (status_of (as_db st)) \<subseteq> dom (status_of (as_db st'))"
    and "\<And>s'. s' \<in> set (sessions (as_db st')) \<Longrightarrow> \<exists>s \<in> set (sessions (as_db st)). session_from st s s'"
  shows "auth_evolves st st'"
  unfolding auth_evolves_def assms(1-3) using assms(4,5) by blast

lemma status_evolves:
  assumes inv: "auth_inv collate st"
    and run: "updateStatus_tx collate actor target newStatus reason env (as_db st) = Inr ((saved, revoked), db')"
  shows "auth_evolves st (st\<lparr>as_db := db'\<rparr>)"
proof -
  have ok: "accounts_ok collate (as_db st)" using inv by (simp add: auth_inv_def)
  from run ok show ?thesis
  proof (cases rule: updateStatus_effect)
    case unchanged then show ?thesis using auth_evolves_refl by simp
  next
    case (changed u db1 h)
    have acc: "accounts db' = accounts db1" "identities db' = identities (as_db st)"
      using changed(3,8) by (simp_all add: account_saved_def)
    have "dom (status_of (as_db st)) \<subseteq> dom (status_of db')"
      using changed(3) views_cong(1) [OF acc(1)] by (auto simp: account_saved_def)
    moreover have "\<exists>s \<in> set (sessions (as_db st)). session_from st s s'" if mem: "s' \<in> set (sessions db')" for s'
    proof -
      have "sessions db' = sessions (as_db st) \<or> sessions db' = map (\<lambda>r. if open_session target r
          then r\<lparr>se_revokedAt := Some (jsNow env), se_updatedAt := dbNow env\<rparr> else r) (sessions (as_db st))"
        using changed(3,8) by (auto simp: account_saved_def revoke_sessions_def update_where_def)
      then obtain s where "s \<in> set (sessions (as_db st))"
          "s' = s \<or> s' = s\<lparr>se_revokedAt := Some (jsNow env), se_updatedAt := dbNow env\<rparr>"
        using mem by (auto split: if_splits)
      then show ?thesis by (auto simp: session_from_def digest_def)
    qed
    ultimately show ?thesis using acc(2) by (intro auth_evolves_quiet) simp_all
  qed
qed

lemma promote_evolves:
  assumes inv: "auth_inv collate st"
    and run: "promote collate userId email reason env (as_db st) = Inr (answer, db')"
  shows "auth_evolves st (st\<lparr>as_db := db'\<rparr>)"
proof -
  have ok: "accounts_ok collate (as_db st)" using inv by (simp add: auth_inv_def)
  from run ok show ?thesis
  proof (cases rule: promote_effect)
    case unchanged then show ?thesis using auth_evolves_refl by simp
  next
    case (promoted u u' db1 h)
    have acc: "accounts db' = accounts db1" "identities db' = identities (as_db st)" "sessions db' = sessions (as_db st)"
      using promoted(4,8) by (simp_all add: account_saved_def)
    have "dom (status_of (as_db st)) \<subseteq> dom (status_of db')"
      using promoted(4) views_cong(1) [OF acc(1)] by (auto simp: account_saved_def)
    then show ?thesis using acc(2,3) by (intro auth_evolves_quiet) (auto intro: session_kept)
  qed
qed

lemma rotate_evolves:
  assumes inv: "auth_inv collate st"
    and run: "refresh_tx sha256 sessionId rawToken env (as_db st) = Inr (RefreshSuccess s' u refreshToken, db')"
    and fresh: "hex_buffer (sha256 refreshToken) \<notin> usedDigests st"
  shows "auth_evolves st (st\<lparr>as_db := db', usedDigests := insert (hex_buffer (sha256 refreshToken)) (usedDigests st)\<rparr>)"
proof -
  obtain s where s: "joined_session sessionId (as_db st) = Some (s, u)" "db' = save_session s' env (as_db st)"
      "s' = s\<lparr>se_refreshTokenHash := sha256 refreshToken\<rparr>"
    using refresh_success_effect [OF run] by metis
  have f: "find_session (se_id s') (as_db st) = Some s" using joined_sessionD [OF s(1), THEN conjunct1] s(3) by simp
  have "\<exists>r \<in> set (sessions (as_db st)). session_from st r x" if "x \<in> set (sessions db')" for x
    by (rule auth_evolves_saved [OF _ refl f]) (use inv s fresh that in \<open>auto simp: auth_inv_def digest_def\<close>)
  then show ?thesis unfolding auth_evolves_def using s(2) by auto
qed

lemma auth_step_evolves:
  assumes inv: "auth_inv collate st" and step: "auth_step collate sha256 sign cfg st st'"
  shows "auth_evolves st st'"
  using step
proof cases
  case (login googleClaims env issued db')
  then obtain user db1 where p: "login_prepared collate googleClaims st user db1"
      "createWithManager sha256 sign cfg user env db1 = Inr (issued, db')"
    using resolve_prepared [OF inv] by blast
  have "status_of db1 j \<noteq> None" if "status_of (as_db st) j \<noteq> None" for j
    using p(1) that unfolding login_prepared_def status_of_def by (cases "j = u_id user") auto
  then have "dom (status_of (as_db st)) \<subseteq> dom (status_of db1)" by blast
  then show ?thesis
    using auth_evolves_made [OF _ _ p(2) login(3,4)] p(1) inv login(1) unfolding login_prepared_def auth_inv_def by blast
next
  case (create userId env issued db')
  then obtain user where u: "createWithManager sha256 sign cfg user env (as_db st) = Inr (issued, db')"
    by (auto simp: create_session_def run_transaction_def step_simps split: option.splits)
  then show ?thesis using auth_evolves_made [OF _ refl u create(3,4)] inv create(1) by (auto simp: auth_inv_def)
next
  case rotate then show ?thesis using rotate_evolves [OF inv] by blast
next
  case (refresh_invalid sessionId rawToken env revoked db')
  then show ?thesis using refresh_failure_effect [OF refresh_invalid(2)] auth_evolves_ended [of st] inv
      joined_sessionD auth_evolves_refl [of st] by (fastforce simp: auth_inv_def)
next
  case (refresh_inactive sessionId rawToken env revoked db')
  then show ?thesis using refresh_failure_effect [OF refresh_inactive(2)] auth_evolves_ended [of st] inv
      joined_sessionD auth_evolves_refl [of st] by (fastforce simp: auth_inv_def)
next
  case (revoke sessionId env unit db')
  then show ?thesis using auth_evolves_ended [of st] inv find_session_SomeD auth_evolves_refl [of st]
    by (fastforce simp: auth_inv_def revoke_tx_def split: option.splits if_splits)
next
  case (status actor target newStatus reason env result db')
  then show ?thesis using status_evolves [OF inv] by (cases result) auto
next
  case promote then show ?thesis using promote_evolves [OF inv] by blast
next
  case (purge kept)
  have "status_of ((as_db st)\<lparr>sessions := rows\<rparr>) = status_of (as_db st)" for rows by (rule views_cong) simp
  then show ?thesis using purge by (intro auth_evolves_quiet) (auto intro: session_kept)
qed

lemma auth_steps_evolve:
  assumes "auth_reachable collate sha256 sign cfg st" "(auth_step collate sha256 sign cfg)\<^sup>*\<^sup>* st st'"
  shows "auth_evolves st st'"
  by (rule auth.steps_relation [OF assms(2) auth_reachable_inv [OF assms(1)], of auth_evolves])
    (rule auth_evolves_refl, erule (1) auth_evolves_trans, erule (1) auth_step_evolves)

lemma auth_reachable_steps:
  "auth_reachable collate sha256 sign cfg st \<Longrightarrow> (auth_step collate sha256 sign cfg)\<^sup>*\<^sup>* st st' \<Longrightarrow>
     auth_reachable collate sha256 sign cfg st'"
  unfolding auth_reachable_def by (rule rtranclp_trans)

subsection \<open>Tokens\<close>

lemma refresh_InrD:
  assumes "refresh sha256 sign client cfg rawToken env (db, r) = (Inr issued, db', r')"
  obtains t sessionId s u where "rawToken = Some t" "parseRefreshToken rawToken = Some sessionId"
    "refresh_tx sha256 sessionId t env db = Inr (RefreshSuccess s u (is_refreshToken issued), db')"
    "at_accessToken issued = sign (jwt_options_of cfg) (ac_accessTtlSeconds cfg) (jsNow env)
       (access_payload (u_id u) (se_id s) (u_role u))"
  using assms
  by (auto simp: refresh_def parseRefreshToken_def run_transaction_def issue_def Let_def
      split: option.splits sum.splits prod.splits refresh_result.splits if_splits)

text \<open>A token whose digest no session stores is refused, and its session does not outlive the attempt.\<close>

lemma refresh_retired:
  assumes inv: "auth_inv collate st" and p: "parseRefreshToken (Some t) = Some sessionId"
    and no: "\<And>s. s \<in> set (sessions (as_db st)) \<Longrightarrow> digest s \<noteq> hex_buffer (sha256 t)"
    and env: "connectFails env = None" "queryFails env = None"
  shows "\<exists>db' r'. refresh sha256 sign client cfg (Some t) env (as_db st, r) = (Inl authErrors_sessionInvalid, db', r')
    \<and> (\<forall>s \<in> set (sessions db'). se_id s = sessionId \<longrightarrow> session_ended env s)"
proof -
  let ?db = "as_db st"
  have ids: "distinct (map se_id (sessions ?db))" using inv by (simp add: auth_inv_def sessions_ok_def)
  have up: "ensureInitialized env = Inr ()" using env(1) by (simp add: ensureInitialized_def)
  show ?thesis
  proof (cases "joined_session sessionId ?db")
    case None
    have "se_id s \<noteq> sessionId" if "s \<in> set (sessions ?db)" for s
    proof
      assume "se_id s = sessionId"
      then have "find_session sessionId ?db = Some s" using find_unique [OF ids that] by (simp add: find_session_def)
      moreover have "find_account (se_userId s) ?db \<noteq> None"
        using inv that by (auto simp: auth_inv_def sessions_ok_def session_fits_def status_of_def)
      ultimately show False using None by (auto simp: joined_session_def)
    qed
    then show ?thesis using None p up env(2) by (auto simp: refresh_def refresh_tx_def run_transaction_def)
  next
    case (Some su)
    obtain s u where su: "su = (s, u)" by (cases su)
    note j = joined_sessionD [OF Some [unfolded su]]
    have s: "s \<in> set (sessions ?db)" "se_id s = sessionId" using j find_session_SomeD by blast+
    have only: "x = s" if "x \<in> set (sessions ?db)" "se_id x = sessionId" for x
      using distinct_key_eq [OF ids that(1) s(1)] that(2) s(2) by simp
    have mis: "\<not> constantTimeHashMatches sha256 t (se_refreshTokenHash s)"
      using no [OF s(1)] by (auto simp: constantTimeHashMatches_def digest_def)
    show ?thesis
    proof (cases "session_ended env s")
      case True then show ?thesis using Some su p up env(2) only by (auto simp: refresh_def refresh_tx_def run_transaction_def)
    next
      case False
      have f: "find_session (se_id (end_session s env)) ?db = Some s" using j [THEN conjunct1] by (simp add: end_session_def)
      have "session_ended env x" if "x \<in> set (sessions (save_session (end_session s env) env ?db))" "se_id x = sessionId" for x
        using save_session_rows [OF f that(1)] that(2) s(2) by (auto simp: end_session_def session_ended_def)
      then show ?thesis using False Some su p up env(2) mis by (auto simp: refresh_def refresh_tx_def run_transaction_def)
    qed
  qed
qed

text \<open>C15. A refresh token works once. After it was exchanged, whatever happens in between, presenting it
  again is answered with SESSION_INVALID, and the replay ends the session it belongs to, so that the
  token issued in exchange is void as well.\<close>

theorem refresh_token_single_use:
  assumes "auth_reachable collate sha256 sign cfg st"
    and "refresh sha256 sign client cfg (Some t) env (as_db st, r) = (Inr issued, db', r')"
    and "hex_buffer (sha256 (is_refreshToken issued)) \<notin> usedDigests st"
    and "(auth_step collate sha256 sign cfg)\<^sup>*\<^sup>*
      (st\<lparr>as_db := db', usedDigests := insert (hex_buffer (sha256 (is_refreshToken issued))) (usedDigests st)\<rparr>) later"
    and "connectFails envLater = None" "queryFails envLater = None"
  shows "\<exists>db2 r2. refresh sha256 sign client cfg (Some t) envLater (as_db later, cache) = (Inl authErrors_sessionInvalid, db2, r2)
    \<and> (\<forall>s \<in> set (sessions db2). Some (se_id s) = parseRefreshToken (Some t) \<longrightarrow> session_ended envLater s)"
proof -
  let ?mid = "st\<lparr>as_db := db', usedDigests := insert (hex_buffer (sha256 (is_refreshToken issued))) (usedDigests st)\<rparr>"
  have inv: "auth_inv collate st" using auth_reachable_inv [OF assms(1)] .
  obtain sessionId s' u where p: "parseRefreshToken (Some t) = Some sessionId"
    and tx: "refresh_tx sha256 sessionId t env (as_db st) = Inr (RefreshSuccess s' u (is_refreshToken issued), db')"
    using refresh_InrD [OF assms(2)] by (metis option.inject)
  obtain s where s: "joined_session sessionId (as_db st) = Some (s, u)" "hex_buffer (sha256 t) = digest s"
      "s' = s\<lparr>se_refreshTokenHash := sha256 (is_refreshToken issued)\<rparr>" "db' = save_session s' env (as_db st)"
    using refresh_success_effect [OF tx] by metis
  have step: "auth_step collate sha256 sign cfg st ?mid" using auth_step.rotate [OF tx assms(3)] .
  then have mid: "auth_reachable collate sha256 sign cfg ?mid" using auth_reachable_steps [OF assms(1)] by blast
  note j = joined_sessionD [OF s(1)]
  have mem: "s \<in> set (sessions (as_db st))" using j find_session_SomeD by blast
  have ok: "distinct (map digest (sessions (as_db st)))" "digest s \<in> usedDigests st"
    using inv mem by (simp_all add: auth_inv_def sessions_ok_def session_fits_def)
  have gone: "digest x \<noteq> digest s" if "x \<in> set (sessions db')" for x
  proof -
    have f: "find_session (se_id s') (as_db st) = Some s" using j [THEN conjunct1] s(3) by simp
    from that consider "x \<in> set (sessions (as_db st))" "se_id x \<noteq> se_id s"
      | "x = s'\<lparr>se_createdAt := se_createdAt s, se_updatedAt := dbNow env\<rparr>"
      using save_session_rows [OF f, of x env] s(3,4) by auto
    then show ?thesis
    proof cases
      case 1 then show ?thesis using distinct_key_eq [OF ok(1) _ mem] by blast
    next
      case 2 then show ?thesis using s(3) ok(2) assms(3) by (auto simp: digest_def)
    qed
  qed
  have ev: "auth_evolves ?mid later" by (rule auth_steps_evolve [OF mid assms(4)])
  have "digest x \<noteq> hex_buffer (sha256 t)" if "x \<in> set (sessions (as_db later))" for x
    using ev that gone ok(2) s(2) unfolding auth_evolves_def session_from_def by force
  then show ?thesis
    using refresh_retired [OF auth_reachable_inv [OF auth_reachable_steps [OF mid assms(4)]] p _ assms(5,6)] p by fastforce
qed

lemma authenticate_InrD:
  assumes "fst (authenticateAccessToken verify client cfg token env (db, r)) = Inr p"
  obtains s u where "joined_session (ap_sessionId p) db = Some (s, u)" "\<not> session_ended env s" "u_status u = UserActive"
    "p = principal_of s u"
proof -
  obtain ac where "authorize_session ac env db = Inr p"
    using assms by (auto simp: authenticateAccessToken_def step_simps
        split: sum.splits prod.splits option.splits bool.splits if_splits)
  then obtain s u where "joined_session (cl_sid ac) db = Some (s, u)" "\<not> session_ended env s" "u_status u = UserActive"
      "p = principal_of s u"
    by (auto simp: authorize_session_def split: option.splits prod.splits if_splits)
  then show ?thesis using that joined_sessionD [of "cl_sid ac" db s u] by (simp add: principal_of_def)
qed

text \<open>The row of a session that existed once, as a later state has it.\<close>

lemma auth_evolves_row:
  "auth_evolves st st' \<Longrightarrow> x \<in> set (sessions (as_db st')) \<Longrightarrow> se_id x \<in> usedIds st \<Longrightarrow>
     \<exists>s \<in> set (sessions (as_db st)). session_from st s x"
  unfolding auth_evolves_def by blast

lemma session_later:
  assumes ev: "auth_evolves st st'" and inv: "sessions_ok st"
    and s: "s \<in> set (sessions (as_db st))" and x: "x \<in> set (sessions (as_db st'))" "se_id x = se_id s"
  shows "session_from st s x"
proof -
  have u: "se_id s \<in> usedIds st" and d: "distinct (map se_id (sessions (as_db st)))"
    using inv s by (simp_all add: sessions_ok_def session_fits_def)
  have "se_id x \<in> usedIds st" using u x(2) by simp
  then obtain y where y: "y \<in> set (sessions (as_db st))" "session_from st y x"
    using auth_evolves_row [OF ev x(1)] by blast
  then have "se_id y = se_id s" using x(2) by (simp add: session_from_def)
  then have "y = s" using distinct_key_eq [OF d y(1) s] by blast
  then show ?thesis using y(2) by simp
qed

text \<open>C16. A deactivation is final for the sessions of the user: once it has committed, no access token and
  no refresh token of a session the user had is accepted any more, whatever the cache answers and even
  after the user is activated again.\<close>

theorem deactivation_final:
  assumes "auth_reachable collate sha256 sign cfg st"
    and "updateStatus_tx collate actor target UserInactive reason env (as_db st) = Inr (result, db')"
    and "(auth_step collate sha256 sign cfg)\<^sup>*\<^sup>* (st\<lparr>as_db := db'\<rparr>) later"
    and "s \<in> set (sessions (as_db st))" "se_userId s = target"
  shows "(\<forall>p. fst (authenticateAccessToken verify client cfg token envLater (as_db later, cache)) = Inr p \<longrightarrow> ap_sessionId p \<noteq> se_id s)
    \<and> (parseRefreshToken (Some t) = Some (se_id s) \<longrightarrow>
        is_error (fst (refresh sha256 sign client cfg (Some t) envLater (as_db later, cache))))"
proof -
  let ?mid = "st\<lparr>as_db := db'\<rparr>"
  have step: "auth_step collate sha256 sign cfg st ?mid" using auth_step.status [OF assms(2)] .
  then have run: "(auth_step collate sha256 sign cfg)\<^sup>*\<^sup>* st ?mid" by blast
  note mid = auth_reachable_steps [OF assms(1) run]
  note inv = auth_reachable_inv [OF assms(1)] and inv1 = auth_reachable_inv [OF mid]
  have off: "status_of db' target = Some UserInactive"
  proof -
    obtain saved revoked where "result = (saved, revoked)" by fastforce
    then have r: "updateStatus_tx collate actor target UserInactive reason env (as_db st) = Inr ((saved, revoked), db')"
      using assms(2) by simp
    have ok: "accounts_ok collate (as_db st)" using inv by (simp add: auth_inv_def)
    from r ok show ?thesis
    proof (cases rule: updateStatus_effect)
      case (changed u db1 h)
      then have acc: "accounts db' = accounts db1" by simp
      have "u_id u = target" using find_account_SomeD [OF changed(1)] by simp
      then show ?thesis using views_cong(1) [OF acc] changed(3) by (simp add: account_saved_def)
    qed simp
  qed
  have dead: "se_revokedAt x \<noteq> None" if "x \<in> set (sessions (as_db later))" "se_id x = se_id s" for x
  proof -
    note x = that
    have "session_from st s x"
      by (rule session_later [OF auth_steps_evolve [OF assms(1) rtranclp_trans [OF run assms(3)]] _ assms(4) x])
        (use inv in \<open>simp add: auth_inv_def\<close>)
    moreover have "se_id x \<in> usedIds ?mid" using x(2) inv assms(4) by (auto simp: auth_inv_def sessions_ok_def session_fits_def)
    then obtain y where y: "y \<in> set (sessions db')" "session_from ?mid y x"
      using auth_evolves_row [OF auth_steps_evolve [OF mid assms(3)] x(1)] by auto
    ultimately have "se_userId y = target" using assms(5) by (simp add: session_from_def)
    then have "se_revokedAt y \<noteq> None" using inv1 y(1) off by (auto simp: auth_inv_def sessions_ok_def session_fits_def)
    then show ?thesis using y(2) by (simp add: session_from_def)
  qed
  show ?thesis
  proof (intro conjI allI impI)
    fix p assume "fst (authenticateAccessToken verify client cfg token envLater (as_db later, cache)) = Inr p"
    then obtain x u where "joined_session (ap_sessionId p) (as_db later) = Some (x, u)" "\<not> session_ended envLater x"
      by (rule authenticate_InrD)
    then show "ap_sessionId p \<noteq> se_id s"
      using dead joined_sessionD find_session_SomeD unfolding session_ended_def by metis
  next
    assume p: "parseRefreshToken (Some t) = Some (se_id s)"
    show "is_error (fst (refresh sha256 sign client cfg (Some t) envLater (as_db later, cache)))"
    proof (rule ccontr)
      assume "\<not> ?thesis"
      then obtain issued db2 r2 where "refresh sha256 sign client cfg (Some t) envLater (as_db later, cache) = (Inr issued, db2, r2)"
        by (cases "refresh sha256 sign client cfg (Some t) envLater (as_db later, cache)") (auto simp: is_error_def split: sum.splits)
      then obtain x u v where "refresh_tx sha256 (se_id s) t envLater (as_db later) = Inr (RefreshSuccess x u v, db2)"
        using p by (elim refresh_InrD) auto
      then obtain y where "joined_session (se_id s) (as_db later) = Some (y, u)" "\<not> session_ended envLater y"
        by (rule refresh_success_effect)
      then show False using dead joined_sessionD find_session_SomeD unfolding session_ended_def by metis
    qed
  qed
qed

text \<open>
  What the code relies on of the signer and verifier: an access token verifies during its lifetime, counted
  in whole seconds, and yields its payload, extended by the registered claims.
\<close>

definition jwt_round_trip :: "jwt_signer \<Rightarrow> jwt_verifier \<Rightarrow> bool" where
  "jwt_round_trip sign verify \<longleftrightarrow> (\<forall>opts ttl now now2 userId sessionId role.
     now \<le> now2 \<and> now2 div 1000000 < now div 1000000 + ttl \<longrightarrow>
     (\<exists>registered. verify opts now2 (sign opts ttl now (access_payload userId sessionId role))
        = Some (access_payload userId sessionId role @ registered)))"

lemma issued_verifies:
  assumes "jwt_round_trip sign verify" "jsNow env \<le> jsNow envLater"
    and "jsNow envLater div 1000000 < jsNow env div 1000000 + ac_accessTtlSeconds cfg"
  shows "verify_access_token verify cfg envLater (at_accessToken (issue sign cfg userId sessionId role env)) =
    Inr \<lparr>cl_sub = show_nat userId, cl_sid = sessionId, cl_role = role\<rparr>"
proof -
  have role: "parse_UserRole (JStr (show_UserRole role)) = Some role" by (cases role) (simp_all add: parse_UserRole_def)
  have "\<exists>registered. verify (jwt_options_of cfg) (jsNow envLater) (at_accessToken (issue sign cfg userId sessionId role env)) =
      Some (access_payload userId sessionId role @ registered)"
    using assms unfolding jwt_round_trip_def issue_def by simp
  then obtain registered where "verify (jwt_options_of cfg) (jsNow envLater)
      (at_accessToken (issue sign cfg userId sessionId role env)) = Some (access_payload userId sessionId role @ registered)" ..
  then show ?thesis by (simp add: verify_access_token_def json_field_def access_payload_def role)
qed

lemma authenticate_live:
  assumes "sessions_ok st" "s \<in> set (sessions (as_db st))" "\<not> session_ended env s"
    and "verify_access_token verify cfg env token = Inr \<lparr>cl_sub = show_nat (se_userId s), cl_sid = se_id s, cl_role = role\<rparr>"
    and "fst (isRevoked client cfg (se_id s) r) \<noteq> Some True" "connectFails env = None" "queryFails env = None"
  shows "\<exists>u. find_account (se_userId s) (as_db st) = Some u \<and> u_status u = UserActive
    \<and> fst (authenticateAccessToken verify client cfg token env (as_db st, r)) = Inr (principal_of s u)"
proof -
  have ids: "distinct (map se_id (sessions (as_db st)))" and "se_revokedAt s = None"
    using assms(1,3) by (auto simp: sessions_ok_def session_ended_def)
  then obtain u where u: "find_account (se_userId s) (as_db st) = Some u" "u_status u = UserActive"
    using assms(1,2) by (auto simp: sessions_ok_def session_fits_def status_of_def)
  have "joined_session (se_id s) (as_db st) = Some (s, u)"
    using find_unique [OF ids assms(2)] u(1) by (simp add: joined_session_def find_session_def)
  then have "authorize_session \<lparr>cl_sub = show_nat (se_userId s), cl_sid = se_id s, cl_role = role\<rparr> env (as_db st)
      = Inr (principal_of s u)"
    using assms(3) u(2) by (simp add: authorize_session_def)
  moreover have "ensureInitialized env = Inr ()" using assms(6) by (simp add: ensureInitialized_def)
  ultimately have "fst (authenticateAccessToken verify client cfg token env (as_db st, r)) = Inr (principal_of s u)"
    using assms(4,5,7) by (auto simp: authenticateAccessToken_def split: prod.splits option.splits bool.splits)
  then show ?thesis using u by blast
qed

text \<open>C19. The access token of a login authenticates: as long as the token lives and its session is neither
  revoked nor expired, the bearer is the active user bound to the Google account that logged in,
  whatever other transactions have run since.\<close>

theorem issued_token_authenticates:
  assumes "auth_reachable collate sha256 sign cfg st"
    and "resolveIdentityAndCreateSession collate sha256 sign cfg gc env (as_db st) = Inr (issued, db')"
    and "drawUuid env 0 \<notin> usedIds st" "hex_buffer (sha256 (is_refreshToken issued)) \<notin> usedDigests st"
    and "(auth_step collate sha256 sign cfg)\<^sup>*\<^sup>* \<lparr>as_db = db', usedIds = insert (drawUuid env 0) (usedIds st),
      usedDigests = insert (hex_buffer (sha256 (is_refreshToken issued))) (usedDigests st)\<rparr> later"
    and "s \<in> set (sessions (as_db later))" "se_id s = drawUuid env 0" "\<not> session_ended envLater s"
    and "jwt_round_trip sign verify" "jsNow env \<le> jsNow envLater"
      "jsNow envLater div 1000000 < jsNow env div 1000000 + ac_accessTtlSeconds cfg"
    and "fst (isRevoked client cfg (drawUuid env 0) cache) \<noteq> Some True" "connectFails envLater = None" "queryFails envLater = None"
  shows "\<exists>p i. fst (authenticateAccessToken verify client cfg (at_accessToken issued) envLater (as_db later, cache)) = Inr p
    \<and> ap_sessionId p = drawUuid env 0 \<and> ap_status p = UserActive
    \<and> i \<in> set (identities (as_db later)) \<and> ai_providerSubject i = gi_subject gc \<and> ai_userId i = ap_userId p"
proof -
  let ?mid = "\<lparr>as_db = db', usedIds = insert (drawUuid env 0) (usedIds st),
      usedDigests = insert (hex_buffer (sha256 (is_refreshToken issued))) (usedDigests st)\<rparr>"
  have inv: "auth_inv collate st" using auth_reachable_inv [OF assms(1)] .
  have mid: "auth_reachable collate sha256 sign cfg ?mid"
    using auth_reachable_steps [OF assms(1) r_into_rtranclp] auth_step.login [OF assms(2-4)] by blast
  have later: "sessions_ok later"
    using auth_reachable_inv [OF auth_reachable_steps [OF mid assms(5)]] by (simp add: auth_inv_def)
  obtain user db1 where p: "login_prepared collate gc st user db1"
    and mk: "createWithManager sha256 sign cfg user env db1 = Inr (issued, db')"
    using resolve_prepared [OF inv assms(2)] by blast
  obtain n where n: "db' = save_session n env db1" "se_id n = drawUuid env 0" "se_userId n = u_id user"
    using createWithManager_effect [OF mk] by blast
  have token: "at_accessToken issued = at_accessToken (issue sign cfg (u_id user) (drawUuid env 0) (u_role user) env)"
    using mk by (auto simp: createWithManager_def step_simps Let_def)
  have "find_session (se_id n) db1 = None"
  proof -
    have "se_id r \<noteq> se_id n" if "r \<in> set (sessions (as_db st))" for r
      using inv that n(2) assms(3) unfolding auth_inv_def sessions_ok_def session_fits_def by metis
    then show ?thesis using p by (simp add: login_prepared_def find_session_def find_None_iff)
  qed
  then have row: "n\<lparr>se_createdAt := dbNow env, se_updatedAt := dbNow env\<rparr> \<in> set (sessions (as_db ?mid))"
    using n(1) by (simp add: save_session_new)
  have ev: "auth_evolves ?mid later" by (rule auth_steps_evolve [OF mid assms(5)])
  have "session_from ?mid (n\<lparr>se_createdAt := dbNow env, se_updatedAt := dbNow env\<rparr>) s"
    by (rule session_later [OF ev _ row assms(6)])
      (use auth_reachable_inv [OF mid] assms(7) n(2) in \<open>simp_all add: auth_inv_def\<close>)
  then have owner: "se_userId s = u_id user" using n(3) by (simp add: session_from_def)
  obtain u where u: "find_account (se_userId s) (as_db later) = Some u" "u_status u = UserActive"
      "fst (authenticateAccessToken verify client cfg (at_accessToken issued) envLater (as_db later, cache)) = Inr (principal_of s u)"
    using authenticate_live [OF later assms(6,8), of verify cfg "at_accessToken issued" "u_role user" client cache]
      issued_verifies [OF assms(9-11), of "u_id user" "drawUuid env 0" "u_role user"] owner assms(7,12-14) token by auto
  obtain j where j: "j \<in> set (identities db1)" "ai_providerSubject j = gi_subject gc" "ai_userId j = u_id user"
    using p unfolding login_prepared_def find_identity_Google by (auto dest!: find_SomeD)
  then obtain i where "i \<in> set (identities (as_db later))" "ai_providerSubject i = gi_subject gc" "ai_userId i = u_id user"
    using ev n(1) unfolding auth_evolves_def by fastforce
  moreover have "u_id u = u_id user" using find_account_SomeD [OF u(1)] owner by simp
  ultimately show ?thesis using u assms(7) by (auto simp: principal_of_def)
qed

text \<open>C18. A Google account always reaches the same user and never takes over another one: a login that
  succeeds under a known subject is a login of the user that subject was bound to, one under an unknown
  subject makes a new user, and no other account changes. The session belongs to that user, who carries
  the email of the claims.\<close>

theorem login_binds_identity:
  assumes "auth_reachable collate sha256 sign cfg st"
    and "resolveIdentityAndCreateSession collate sha256 sign cfg gc env (as_db st) = Inr (issued, db')"
  shows "\<exists>user i s. find_account (u_id user) db' = Some user \<and> u_status user = UserActive \<and> u_email user = gi_email gc
    \<and> find_identity (gi_subject gc) db' = Some i \<and> ai_userId i = u_id user
    \<and> (case find_identity (gi_subject gc) (as_db st) of
         None \<Rightarrow> find_account (u_id user) (as_db st) = None
       | Some known \<Rightarrow> ai_userId known = u_id user \<and> find_account (u_id user) (as_db st) \<noteq> None)
    \<and> (\<forall>j. j = u_id user \<or> find_account j db' = find_account j (as_db st))
    \<and> s \<in> set (sessions db') \<and> se_id s = drawUuid env 0 \<and> se_userId s = u_id user"
proof -
  obtain user db1 where p: "login_prepared collate gc st user db1"
    and mk: "createWithManager sha256 sign cfg user env db1 = Inr (issued, db')"
    using resolve_prepared [OF auth_reachable_inv [OF assms(1)] assms(2)] by blast
  obtain n where n: "db' = save_session n env db1" "se_id n = drawUuid env 0" "se_userId n = u_id user"
    using createWithManager_effect [OF mk] by blast
  have "\<exists>s \<in> set (sessions db'). se_id s = drawUuid env 0 \<and> se_userId s = u_id user"
  proof (cases "find_session (se_id n) db1")
    case None then show ?thesis using n by (simp add: save_session_new)
  next
    case (Some s0)
    then have "s0 \<in> set (sessions db1)" "se_id s0 = se_id n" by (auto dest: find_session_SomeD)
    then have "n\<lparr>se_createdAt := se_createdAt s0, se_updatedAt := dbNow env\<rparr> \<in> set (sessions db')"
      using n(1) by (auto simp: save_session_found [OF Some] row_simps)
    then show ?thesis by (rule bexI [rotated]) (simp add: n)
  qed
  moreover have "find_identity (gi_subject gc) db' = find_identity (gi_subject gc) db1" using n(1) by (simp add: find_identity_def)
  ultimately show ?thesis
    using p n(1) unfolding login_prepared_def status_of_def by (auto split: option.splits)
qed

text \<open>C20. Once there is an administrator, some administrator is active: no sequence of status changes locks
  the administration out.\<close>

theorem active_admin_remains:
  assumes "auth_reachable collate sha256 sign cfg st" "u \<in> set (accounts (as_db st))" "u_role u = RoleAdmin"
  shows "activeAdmins (as_db st) \<noteq> []"
proof -
  let ?db = "as_db st"
  have inv: "accounts_ok collate ?db" "admins_ok ?db" "trails_ok ?db"
    using auth_reachable_inv [OF assms(1)] by (simp_all add: auth_inv_def)
  have "role_of ?db (u_id u) = Some RoleAdmin"
    using find_unique [of u_id "accounts ?db" u] inv(1) assms(2,3) by (simp add: role_of_def find_account_def accounts_ok_def)
  then have "role_trail ?db (u_id u) \<noteq> []" using inv(3) unfolding trails_ok_def by fastforce
  then have "userRoleHistories ?db \<noteq> []" by (auto simp: role_trail_def)
  then obtain i where "role_of ?db i = Some RoleAdmin" "status_of ?db i = Some UserActive" using inv(2) by (auto simp: admins_ok_def)
  then obtain z where "find_account i ?db = Some z" "u_role z = RoleAdmin" "u_status z = UserActive"
    by (auto simp: role_of_def status_of_def)
  then show ?thesis by (auto simp: activeAdmins_def filter_empty_conv dest!: find_account_SomeD)
qed

text \<open>C21. Every change of a status and of a role is on record: replaying the audit rows of an account from an
  active user without rights gives its present status and role, each row starting where the one before ended.\<close>

theorem account_changes_audited:
  assumes "auth_reachable collate sha256 sign cfg st" "u \<in> set (accounts (as_db st))"
  shows "replay UserActive (map (\<lambda>h. (ush_fromStatus h, ush_toStatus h)) (status_trail (as_db st) (u_id u))) = Some (u_status u)
    \<and> replay RoleUser (map (\<lambda>h. (urh_fromRole h, urh_toRole h)) (role_trail (as_db st) (u_id u))) = Some (u_role u)"
proof -
  have inv: "accounts_ok collate (as_db st)" "trails_ok (as_db st)"
    using auth_reachable_inv [OF assms(1)] by (simp_all add: auth_inv_def)
  have "find_account (u_id u) (as_db st) = Some u"
    using find_unique [of u_id "accounts (as_db st)" u] inv(1) assms(2) by (simp add: find_account_def accounts_ok_def)
  then show ?thesis using inv(2) by (simp add: trails_ok_def status_of_def role_of_def)
qed

end
