(* ===== verification/Auth_Routes.thy ===== *)
theory Auth_Routes
  imports Auth_Runs
begin

text \<open>
  The routes of auth/auth.controller.ts and users/admin-users.controller.ts around the services, with the
  cookies of auth/auth.cookies.ts. A route returns what it does to the response, in order, beside its
  result; the response of an error is written by the exception filter and is not repeated here. The lemmas say when
  the refresh cookie is set and cleared.
\<close>

record cookie_options =
  co_httpOnly :: bool
  co_secure :: bool
  co_sameSite :: string
  co_path :: string
  co_maxAge :: "int option"
  co_expires :: "instant option"

datatype http_effect = SetCookie string string cookie_options | ClearCookie string cookie_options | Redirect nat string

definition oauthStateCookieName :: string where "oauthStateCookieName = ''hotel_oauth_state''"
definition refreshCookieName :: string where "refreshCookieName = ''hotel_refresh''"
definition oauthCallbackPath :: string where "oauthCallbackPath = ''/api/v1/auth/google/callback''"
definition authCookiePath :: string where "authCookiePath = ''/api/v1/auth''"

definition oauthStateCookieOptions :: "auth_config \<Rightarrow> cookie_options" where
  "oauthStateCookieOptions cfg = \<lparr>co_httpOnly = True, co_secure = ac_cookieSecure cfg, co_sameSite = ''lax'',
     co_path = oauthCallbackPath, co_maxAge = Some (ac_oauthTransactionTtlSeconds cfg * 1000), co_expires = None\<rparr>"

definition refreshCookieOptions :: "auth_config \<Rightarrow> instant \<Rightarrow> cookie_options" where
  "refreshCookieOptions cfg expires = \<lparr>co_httpOnly = True, co_secure = ac_cookieSecure cfg, co_sameSite = ''lax'',
     co_path = authCookiePath, co_maxAge = None, co_expires = Some expires\<rparr>"

definition clearOAuthStateCookieOptions :: "auth_config \<Rightarrow> cookie_options" where
  "clearOAuthStateCookieOptions cfg = (oauthStateCookieOptions cfg)\<lparr>co_maxAge := None\<rparr>"

definition clearRefreshCookieOptions :: "auth_config \<Rightarrow> cookie_options" where
  "clearRefreshCookieOptions cfg = (refreshCookieOptions cfg 0)\<lparr>co_expires := None\<rparr>"

text \<open>The first usable address of a request.\<close>

definition rateLimitKey :: "string option \<Rightarrow> string option \<Rightarrow> string" where
  "rateLimitKey ip remoteAddress =
     (if truthy_text ip then the ip else if truthy_text remoteAddress then the remoteAddress else ''unknown'')"

definition readCookie :: "(string \<times> json) list option \<Rightarrow> string \<Rightarrow> string option" where
  "readCookie cookies name = (case Option.bind cookies (json_field name) of Some (JStr v) \<Rightarrow> Some v | _ \<Rightarrow> None)"

definition shouldClearRefreshCookie :: "error \<Rightarrow> bool" where
  "shouldClearRefreshCookie e \<longleftrightarrow> (case e of
       ApplicationException _ code \<Rightarrow> code = ''SESSION_INVALID'' \<or> code = ''USER_INACTIVE''
     | _ \<Rightarrow> False)"

definition route_startGoogleLogin ::
  "('r, 'l) login_services \<Rightarrow> auth_config \<Rightarrow> string \<Rightarrow> auth_env \<Rightarrow> 'r \<times> 'l \<Rightarrow> (error + unit) \<times> http_effect list \<times> 'r \<times> 'l" where
  "route_startGoogleLogin svc cfg key env stores =
     (case beginGoogleLogin svc cfg key env stores of
        (Inl e, stores') \<Rightarrow> (Inl e, [], stores')
      | (Inr start, stores') \<Rightarrow>
          (Inr (), [SetCookie oauthStateCookieName (gs_state start) (oauthStateCookieOptions cfg),
                    Redirect 302 (gs_authorizationUrl start)], stores'))"

definition route_googleCallback ::
  "('r, 'l) login_services \<Rightarrow> auth_config \<Rightarrow> (string \<times> json) list \<Rightarrow> (string \<times> json) list option \<Rightarrow> string \<Rightarrow> (nat \<Rightarrow> auth_env)
   \<Rightarrow> (nat \<Rightarrow> auth_db \<Rightarrow> auth_db) \<Rightarrow> auth_db \<times> 'r \<times> 'l \<Rightarrow> (error + unit) \<times> http_effect list \<times> auth_db \<times> 'r \<times> 'l" where
  "route_googleCallback svc cfg query cookies key envs meanwhile world =
     (let callback = \<lparr>gq_state = json_field ''state'' query, gq_code = json_field ''code'' query, gq_error = json_field ''error'' query\<rparr>;
          clear = ClearCookie oauthStateCookieName (clearOAuthStateCookieOptions cfg) in
      case completeGoogleLogin svc cfg callback (readCookie cookies oauthStateCookieName) key envs meanwhile world of
        (Inl e, world') \<Rightarrow> (Inl e, [clear], world')
      | (Inr session, world') \<Rightarrow>
          (Inr (), [clear, SetCookie refreshCookieName (is_refreshToken session)
                             (refreshCookieOptions cfg (is_refreshExpiresAt session)),
                    Redirect 302 (ac_successRedirectUri cfg)], world'))"

definition route_refresh ::
  "('r, 'l) login_services \<Rightarrow> auth_config \<Rightarrow> (string \<times> json) list option \<Rightarrow> string \<Rightarrow> auth_env \<Rightarrow> auth_db \<times> 'r \<times> 'l
   \<Rightarrow> (error + AccessTokenResponse) \<times> http_effect list \<times> auth_db \<times> 'r \<times> 'l" where
  "route_refresh svc cfg cookies key env world =
     (let (db, r, l) = world;
          failed = (\<lambda>e. if shouldClearRefreshCookie e then [ClearCookie refreshCookieName (clearRefreshCookieOptions cfg)] else []) in
      case auth_rate_limit svc cfg ScopeRefresh key l of
        (Inl e, l1) \<Rightarrow> (Inl e, failed e, db, r, l1)
      | (Inr _, l1) \<Rightarrow>
      case refresh (ls_sha256 svc) (ls_sign svc) (ls_redis svc) cfg (readCookie cookies refreshCookieName) env (db, r) of
        (Inl e, db1, r1) \<Rightarrow> (Inl e, failed e, db1, r1, l1)
      | (Inr session, db1, r1) \<Rightarrow>
          (Inr \<lparr>at_accessToken = at_accessToken session, at_tokenType = at_tokenType session, at_expiresIn = at_expiresIn session\<rparr>,
           [SetCookie refreshCookieName (is_refreshToken session) (refreshCookieOptions cfg (is_refreshExpiresAt session))],
           db1, r1, l1))"

definition route_logout ::
  "'r redis_client \<Rightarrow> auth_config \<Rightarrow> AuthenticatedPrincipal \<Rightarrow> auth_env \<Rightarrow> auth_db \<times> 'r
   \<Rightarrow> (error + unit) \<times> http_effect list \<times> auth_db \<times> 'r" where
  "route_logout client cfg authenticated env state =
     (case revoke client cfg (ap_sessionId authenticated) env state of
        (Inl e, state') \<Rightarrow> (Inl e, [], state')
      | (Inr _, state') \<Rightarrow> (Inr (), [ClearCookie refreshCookieName (clearRefreshCookieOptions cfg)], state'))"

text \<open>\<open>GET /me\<close>: the principal without its session.\<close>

record UserResponse =
  ur_id :: nat
  ur_email :: string
  ur_displayName :: string
  ur_role :: UserRole
  ur_status :: UserStatus

definition currentUser :: "AuthenticatedPrincipal \<Rightarrow> UserResponse" where
  "currentUser p = \<lparr>ur_id = ap_userId p, ur_email = ap_email p, ur_displayName = ap_displayName p,
     ur_role = ap_role p, ur_status = ap_status p\<rparr>"

text \<open>The body of a status change: the reason is trimmed and must be a text of 1 to 1000 units.\<close>

definition valid_status_reason :: "json \<Rightarrow> string option" where
  "valid_status_reason value = (case value of
       JStr text \<Rightarrow> (let reason = trim text in if reason \<noteq> [] \<and> length reason \<le> 1000 then Some reason else None)
     | _ \<Rightarrow> None)"

text \<open>Both global guards before the route of a status change, which is for administrators.\<close>

definition route_updateStatus ::
  "jwt_verifier \<Rightarrow> (string \<Rightarrow> string) \<Rightarrow> 'r redis_client \<Rightarrow> auth_config \<Rightarrow> string option \<Rightarrow> nat \<Rightarrow> UserStatus \<Rightarrow> string
   \<Rightarrow> auth_env \<Rightarrow> auth_db \<times> 'r \<Rightarrow> (error + AdminUserResponse) \<times> auth_db \<times> 'r" where
  "route_updateStatus verify collate client cfg authorization userId status reason env state =
     (case AccessTokenGuard verify client cfg False authorization env state of
        (Inl e, r1) \<Rightarrow> (Inl e, fst state, r1)
      | (Inr attached, r1) \<Rightarrow>
      case RolesGuard [RoleAdmin] attached of
        Inl e \<Rightarrow> (Inl e, fst state, r1)
      | Inr _ \<Rightarrow> updateStatus collate client cfg (ap_userId (the attached)) userId status reason env (fst state, r1))"

text \<open>A refresh that fails keeps the cookie exactly when the session may still be good.\<close>

lemma refresh_cookie:
  "route_refresh svc cfg cookies key env world = (Inl e, effects, world') \<Longrightarrow>
     effects = (if shouldClearRefreshCookie e then [ClearCookie refreshCookieName (clearRefreshCookieOptions cfg)] else [])"
  by (auto simp: route_refresh_def Let_def split: prod.splits sum.splits)

lemma outage_keeps_cookie: "\<not> shouldClearRefreshCookie authErrors_authorizationUnavailable"
  "\<not> shouldClearRefreshCookie authErrors_rateLimited" "shouldClearRefreshCookie authErrors_sessionInvalid"
  by (simp_all add: shouldClearRefreshCookie_def authErrors_defs)

lemma save_account_histories:
  "save_account collate u env db = Inr (u', db') \<Longrightarrow> userStatusHistories db' = userStatusHistories db"
  by (auto simp: save_account_def Let_def split: if_splits)

lemma status_change_row:
  assumes "updateStatus_tx collate actor userId status reason env db = Inr (result, db')"
  shows "userStatusHistories db' = userStatusHistories db
    \<or> (\<exists>h. userStatusHistories db' = userStatusHistories db @ [h] \<and> ush_actorUserId h = actor \<and> ush_userId h = userId)"
proof -
  obtain u where u: "find_account userId db = Some u" using assms by (auto simp: updateStatus_tx_def step_simps)
  have uid: "u_id u = userId" using find_account_SomeD [OF u] by simp
  show ?thesis
  proof (cases "u_status u = status")
    case True then show ?thesis using assms u by (simp add: updateStatus_tx_def)
  next
    case False
    obtain u' db1 db2 where sv: "save_account collate (u\<lparr>u_status := status\<rparr>) env db = Inr (u', db1)"
      and hi: "insert_user_status_history (u_id u) actor (u_status u) status reason env db1 = Inr db2"
      and fin: "userStatusHistories db' = userStatusHistories db2"
    proof -
      assume goal: "\<And>u' db1 db2. save_account collate (u\<lparr>u_status := status\<rparr>) env db = Inr (u', db1) \<Longrightarrow>
        insert_user_status_history (u_id u) actor (u_status u) status reason env db1 = Inr db2 \<Longrightarrow>
        userStatusHistories db' = userStatusHistories db2 \<Longrightarrow> thesis"
      show thesis
        by (cases status) (use assms u False in \<open>auto simp: updateStatus_tx_def step_simps intro!: goal\<close>)
    qed
    show ?thesis
      using hi save_account_histories [OF sv] fin uid by (auto simp: insert_user_status_history_def split: if_splits)
  qed
qed

lemma roles_guard_admin: "RolesGuard [RoleAdmin] attached = Inr x \<Longrightarrow> \<exists>p. attached = Some p \<and> ap_role p = RoleAdmin"
  by (auto simp: RolesGuard_def require_Inr_iff split: option.splits)

text \<open>The token a principal was read from: verified, of the access type, naming the session and its account.\<close>

lemma authenticate_claims:
  assumes "fst (authenticateAccessToken verify client cfg token env (db, r)) = Inr p"
  obtains claims s u where "verify (jwt_options_of cfg) (jsNow env) token = Some claims"
    and "json_field ''typ'' claims = Some (JStr ''access'')" "json_field ''sid'' claims = Some (JStr (se_id s))"
    and "json_field ''sub'' claims = Some (JStr (show_nat (u_id u)))"
    and "joined_session (se_id s) db = Some (s, u)" "\<not> session_ended env s" "u_status u = UserActive" "p = principal_of s u"
proof -
  obtain ac where ac: "verify_access_token verify cfg env token = Inr ac" "authorize_session ac env db = Inr p"
    using assms by (auto simp: authenticateAccessToken_def step_simps
        split: sum.splits prod.splits option.splits bool.splits if_splits)
  from ac(1) obtain claims where c: "verify (jwt_options_of cfg) (jsNow env) token = Some claims"
    "json_field ''typ'' claims = Some (JStr ''access'')" "json_field ''sid'' claims = Some (JStr (cl_sid ac))"
    "json_field ''sub'' claims = Some (JStr (cl_sub ac))"
    by (auto simp: verify_access_token_def split: option.splits if_splits json.splits)
  from ac(2) obtain s u where s: "joined_session (cl_sid ac) db = Some (s, u)" "show_nat (se_userId s) = cl_sub ac"
    "\<not> session_ended env s" "u_status u = UserActive" "p = principal_of s u"
    by (auto simp: authorize_session_def split: option.splits prod.splits if_splits)
  note j = joined_sessionD [OF s(1)]
  have "u_id u = se_userId s" using j find_account_SomeD by blast
  then show thesis by (intro that [OF c(1,2), of s u]) (use c s j in auto)
qed

text \<open>C17. Only a living session of an active administrator changes the status of a user: a change that succeeds was
  sent with a bearer token that verifies as an access token, names a session that is neither revoked nor expired
  in the database and the account of that session as its subject; that account is active and has the
  role of an administrator now, whatever role the token claims and whatever the cache answers; and the audit row
  names that account.\<close>

theorem status_change_authorized:
  assumes "route_updateStatus verify collate client cfg authorization userId status reason env (db, r) = (Inr response, db', r')"
  shows "\<exists>token claims s u. extractBearerToken authorization = Some token
    \<and> verify (jwt_options_of cfg) (jsNow env) token = Some claims \<and> json_field ''typ'' claims = Some (JStr ''access'')
    \<and> json_field ''sid'' claims = Some (JStr (se_id s)) \<and> json_field ''sub'' claims = Some (JStr (show_nat (u_id u)))
    \<and> joined_session (se_id s) db = Some (s, u) \<and> se_userId s = u_id u
    \<and> se_revokedAt s = None \<and> jsNow env < se_refreshExpiresAt s \<and> u_role u = RoleAdmin \<and> u_status u = UserActive
    \<and> (userStatusHistories db' = userStatusHistories db
         \<or> (\<exists>h. userStatusHistories db' = userStatusHistories db @ [h] \<and> ush_actorUserId h = u_id u \<and> ush_userId h = userId))"
proof -
  obtain token p r1 where t: "extractBearerToken authorization = Some token"
    and auth: "fst (authenticateAccessToken verify client cfg token env (db, r)) = Inr p" and role: "ap_role p = RoleAdmin"
    and run: "updateStatus collate client cfg (ap_userId p) userId status reason env (db, r1) = (Inr response, db', r')"
    using assms by (auto simp: route_updateStatus_def AccessTokenGuard_def
        split: prod.splits sum.splits option.splits dest!: roles_guard_admin)
  from auth obtain claims s u where c: "verify (jwt_options_of cfg) (jsNow env) token = Some claims"
      "json_field ''typ'' claims = Some (JStr ''access'')" "json_field ''sid'' claims = Some (JStr (se_id s))"
      "json_field ''sub'' claims = Some (JStr (show_nat (u_id u)))"
    and s: "joined_session (se_id s) db = Some (s, u)" "\<not> session_ended env s" "u_status u = UserActive" "p = principal_of s u"
    by (rule authenticate_claims)
  obtain result where "updateStatus_tx collate (u_id u) userId status reason env db = Inr (result, db')"
    using run s(4) by (auto simp: updateStatus_def run_transaction_def principal_of_def and_then_Inr_iff
        split: sum.splits prod.splits option.splits)
  then have "userStatusHistories db' = userStatusHistories db
      \<or> (\<exists>h. userStatusHistories db' = userStatusHistories db @ [h] \<and> ush_actorUserId h = u_id u \<and> ush_userId h = userId)"
    by (rule status_change_row)
  moreover have "se_revokedAt s = None" "jsNow env < se_refreshExpiresAt s" "u_role u = RoleAdmin"
    using s(2,4) role by (auto simp: session_ended_def principal_of_def)
  moreover have "se_userId s = u_id u" using joined_sessionD [OF s(1)] find_account_SomeD by metis
  ultimately show ?thesis using t c s(1,3) by blast
qed

end
