(* ===== verification/Demo_Run.thy ===== *)
theory Demo_Run
  imports Hotel_System
begin

text \<open>A concrete run: a guest requests two nights and an administrator confirms them.\<close>

definition demo_env :: "string \<Rightarrow> tx_env" where
  "demo_env uuid = \<lparr>dbNow = 1709078400000000, jsNow = 1709078400000000, hotelToday = ''2024-02-28'',
     drawUuid = (\<lambda>n. uuid @ show_nat n), ulidState = ulid_initial, ulidRandom = 7\<rparr>"

definition demo_config :: bookings_config where
  "demo_config = \<lparr>streamEnabled = True, retentionHours = 24\<rparr>"

definition demo_type :: room_type_row where
  "demo_type = \<lparr>rt_id = 1, rt_name = ''Deluxe'', rt_description = None, rt_createdAt = 1709078400000000,
     rt_updatedAt = 1709078400000000\<rparr>"

definition demo_room :: room_row where
  "demo_room = \<lparr>r_id = 2, r_roomTypeId = 1, r_roomNumber = ''101'', r_bedCount = 2, r_viewCode = None,
     r_basePriceAmount = 500, r_currency = ''VND'', r_status = RoomActive, r_version = 1,
     r_createdAt = 1709078400000000, r_updatedAt = 1709078400000000\<rparr>"

definition demo_window :: room_time_row where
  "demo_window = \<lparr>w_id = 3, w_roomId = 2, w_availableFrom = ''2024-02-01'', w_availableTo = ''2024-04-01'',
     w_status = TimeActive, w_createdAt = 1709078400000000, w_updatedAt = 1709078400000000\<rparr>"

definition demo_users :: "user_row list" where
  "demo_users = [\<lparr>u_id = 8, u_email = ''guest'', u_displayName = ''Guest'', u_role = RoleUser, u_status = UserActive\<rparr>,
     \<lparr>u_id = 9, u_email = ''admin'', u_displayName = ''Admin'', u_role = RoleAdmin, u_status = UserActive\<rparr>]"

definition demo_catalogue :: hotel_db where
  "demo_catalogue = empty_db\<lparr>users := demo_users, roomTypes := [demo_type], rooms := [demo_room],
     roomTimes := [demo_window], nextId := 4\<rparr>"

definition demo_input :: BookingCreateInput where
  "demo_input = \<lparr>ci_roomId = 2, ci_checkIn = ''2024-02-28'', ci_checkOut = ''2024-03-01''\<rparr>"

definition demo_public_id :: string where
  "demo_public_id = ''01HQPG5K000000000000000007''"

definition demo_booking :: booking_row where
  "demo_booking = \<lparr>b_id = 5, b_publicId = demo_public_id, b_userId = 8, b_roomTimeId = 3, b_checkIn = ''2024-02-28'',
     b_checkOut = ''2024-03-01'', b_status = Pending, b_priceAmount = 1000, b_currency = ''VND'',
     b_rejectionReason = None, b_version = 1, b_createdAt = 1709078400000000, b_updatedAt = 1709078400000000\<rparr>"

definition demo_response :: json where
  "demo_response = toCreateResponse demo_booking demo_room demo_type 2"

definition demo_history :: status_history_row where
  "demo_history = \<lparr>sh_id = 6, sh_bookingId = 5, sh_fromStatus = None, sh_toStatus = Pending, sh_actorType = ActorUser,
     sh_actorUserId = Some 8, sh_reason = None, sh_createdAt = 1709078400000000\<rparr>"

definition demo_key :: idempotency_row where
  "demo_key = \<lparr>ik_id = 4, ik_actorUserId = 8, ik_operation = bookingCreateOperation, ik_idempotencyKey = ''demo-key'',
     ik_requestFingerprint = ''print'', ik_status = KeyCompleted, ik_responseStatus = Some 201,
     ik_responseBody = Some demo_response, ik_expiresAt = 1709164800000000\<rparr>"

definition demo_requested :: hotel_db where
  "demo_requested = demo_catalogue\<lparr>bookings := [demo_booking], statusHistories := [demo_history],
     idempotencyKeys := [demo_key],
     outboxEvents := stream_events demo_config demo_booking demo_room None None (demo_env ''a''), nextId := 7\<rparr>"

definition demo_confirmed_booking :: booking_row where
  "demo_confirmed_booking = demo_booking\<lparr>b_status := Confirmed, b_version := Suc (Suc 0)\<rparr>"

definition demo_snapshot :: booking_snapshot where
  "demo_snapshot = \<lparr>sn_roomTimeId = 3, sn_version = 1, sn_roomId = 2\<rparr>"

definition demo_confirmed :: hotel_db where
  "demo_confirmed = demo_requested\<lparr>bookings := [demo_confirmed_booking],
     statusHistories := [demo_history, \<lparr>sh_id = 7, sh_bookingId = 5, sh_fromStatus = Some Pending,
       sh_toStatus = Confirmed, sh_actorType = ActorAdmin, sh_actorUserId = Some 9, sh_reason = None,
       sh_createdAt = 1709078400000000\<rparr>],
     outboxEvents := outboxEvents demo_requested
       @ stream_events demo_config demo_confirmed_booking demo_room (Some Pending) None (demo_env ''c'')
       @ [mail_event demo_config demo_confirmed_booking ''booking.confirmed'' demo_room None None (demo_env ''c'')],
     nextId := 8\<rparr>"

lemma demo_ulid: "map_sum id fst (createMonotonicBookingId 1709078400000 7 ulid_initial) = Inr demo_public_id"
  unfolding demo_public_id_def by code_simp

lemma demo_nights: "assertBookingDates ''2024-02-28'' ''2024-02-28'' ''2024-03-01'' = 2"
proof -
  have iso: "''2024-02-28'' = iso_date 2024 2 28" "''2024-03-01'' = iso_date 2024 3 1" by code_simp+
  have v: "valid_date 2024 2 28" "valid_date 2024 3 1" by code_simp+
  have d: "make_day 2024 (2 - 1) 28 * millisecondsPerDay = 1709078400000"
    "make_day 2024 (3 - 1) 1 * millisecondsPerDay = 1709251200000" by code_simp+
  have "parseHotelDate ''2024-02-28'' = Some 1709078400000" "parseHotelDate ''2024-03-01'' = Some 1709251200000"
    unfolding iso using parseHotelDate_iso [of 2024] v d by simp_all
  then show ?thesis by (simp add: assertBookingDates_def millisecondsPerDay_def)
qed

lemmas demo_defs = demo_env_def demo_config_def demo_type_def demo_room_def demo_window_def demo_users_def
  demo_catalogue_def demo_input_def demo_booking_def empty_db_def

lemma demo_type_created:
  "createRoomType id ''Deluxe'' None (demo_env ''t'') (empty_db\<lparr>users := demo_users\<rparr>) =
     Inr (demo_type, empty_db\<lparr>users := demo_users, roomTypes := [demo_type], nextId := 2\<rparr>)"
  by (simp add: demo_defs createRoomType_def Let_def or_null_def)

lemma demo_room_created:
  "create_room id \<lparr>cr_roomNumber = ''101'', cr_roomTypeId = 1, cr_bedCount = 2, cr_viewCode = None,
      cr_basePriceAmount = 500, cr_currency = ''VND'', cr_status = RoomActive, cr_amenityIds = []\<rparr> (demo_env ''r'')
     (empty_db\<lparr>users := demo_users, roomTypes := [demo_type], nextId := 2\<rparr>) =
     Inr ((demo_room, demo_type, []), empty_db\<lparr>users := demo_users, roomTypes := [demo_type],
       rooms := [demo_room], nextId := 3\<rparr>)"
  by (simp add: demo_defs create_room_def Let_def catch_database_def findLockedReferences_def find_room_type_def
      write_room_checks_def room_checks_def replaceAmenityAssignments_def delete_where_def number_max_safe_integer_def)

lemma demo_window_created:
  "\<exists>response. create_room_time 2 \<lparr>cw_availableFrom = ''2024-02-01'', cw_availableTo = ''2024-04-01'', cw_status = None\<rparr>
     (demo_env ''w'') (empty_db\<lparr>users := demo_users, roomTypes := [demo_type], rooms := [demo_room], nextId := 3\<rparr>) =
     Inr (response, demo_catalogue)"
  by (simp add: demo_defs create_room_time_def Let_def assertRoomTimeRange_def lockRoom_def find_room_def
      assertNoActiveOverlap_def insert_room_time_def require_def)

lemma demo_key_claimed:
  "lock_key 24 \<lparr>il_actorUserId = 8, il_operation = bookingCreateOperation, il_idempotencyKey = ''demo-key'',
      il_fingerprint = ''print''\<rparr> (demo_env ''a'') demo_catalogue =
     Inr (demo_key\<lparr>ik_status := KeyPending, ik_responseStatus := None, ik_responseBody := None\<rparr>,
       demo_catalogue\<lparr>idempotencyKeys := [demo_key\<lparr>ik_status := KeyPending, ik_responseStatus := None,
         ik_responseBody := None\<rparr>], nextId := 5\<rparr>)"
  by (simp add: demo_defs lock_key_def claim_row_def claims_def user_exists_def demo_key_def or_throw_def)

lemma demo_target:
  "lockBookingTarget demo_input (demo_catalogue\<lparr>idempotencyKeys := ks, nextId := n\<rparr>) = Inr (demo_room, demo_window)"
  by (simp add: demo_defs lockBookingTarget_def lockRoom_def find_room_def or_throw_def find_window_def
      find_first_by_def)

lemma demo_booking_inserted:
  "createPendingBooking 8 demo_window demo_input 1000 ''VND'' (demo_env ''a'')
     (demo_catalogue\<lparr>idempotencyKeys := ks, nextId := 5\<rparr>) =
   Inr (demo_booking, demo_catalogue\<lparr>idempotencyKeys := ks, bookings := [demo_booking],
     statusHistories := [demo_history], nextId := 7\<rparr>)"
proof -
  obtain st where "createMonotonicBookingId 1709078400000 7 ulid_initial = Inr (demo_public_id, st)"
    using demo_ulid by (cases "createMonotonicBookingId 1709078400000 7 ulid_initial") auto
  then show ?thesis
    by (simp add: demo_defs demo_history_def createPendingBooking_def insert_booking_def Let_def booking_checks_def
        booking_references_def user_exists_def find_room_time_def insert_status_history_def number_max_safe_integer_def)
qed

lemma demo_created:
  "createInTransaction demo_config 8 ''demo-key'' ''print'' demo_input (demo_env ''a'') demo_catalogue =
     Inr ((demo_response, False), demo_requested)"
proof -
  have cfg: "retentionHours demo_config = 24" "streamEnabled demo_config"
    and rm: "r_basePriceAmount demo_room = 500" "r_currency demo_room = ''VND''" "r_id demo_room = 2" "r_roomTypeId demo_room = 1"
    and today: "hotelToday (demo_env ''a'') = ''2024-02-28''" "ci_checkIn demo_input = ''2024-02-28''"
      "ci_checkOut demo_input = ''2024-03-01''"
    by (simp_all add: demo_defs)
  show ?thesis
    by (simp add: createInTransaction_def cfg demo_key_claimed today demo_nights demo_target rm demo_booking_inserted
        number_max_safe_integer_def)
      (simp add: demo_defs record_change_def insert_outbox_def find_room_type_def demo_response_def complete_key_def
        demo_key_def demo_requested_def stream_events_def lifecycle_event_def Let_def or_throw_def update_where_def)
qed

lemma demo_approved:
  "approve_tx demo_config demo_snapshot 9 demo_public_id (demo_env ''c'') demo_requested = Inr (False, demo_confirmed)"
  by (simp add: demo_defs demo_requested_def demo_confirmed_def demo_confirmed_booking_def demo_snapshot_def
      approve_tx_def lockRoom_def find_room_def or_throw_def find_booking_def find_room_window_def
      assertNoConfirmedOverlap_def require_def booking_room_def find_room_time_def confirmedOverlapCondition_def
      save_booking_def Let_def booking_checks_def booking_references_def user_exists_def number_max_safe_integer_def
      update_where_def appendTransitionAndOutbox_def insert_status_history_def record_change_def insert_outbox_def
      stream_events_def lifecycle_event_def pending_event_def event_key_def bookingLifecycleEventType_def
      insertOutbox_def mail_event_def mail_uuid_def)

lemma demo_catalogue_reachable: "hotel_reachable demo_config id demo_catalogue"
proof -
  let ?step = "hotel_step demo_config id"
  have "?step empty_db (empty_db\<lparr>users := demo_users\<rparr>)"
    by (rule hotel_step.users_saved) (simp add: empty_db_def)
  moreover have "?step (empty_db\<lparr>users := demo_users\<rparr>)
      (empty_db\<lparr>users := demo_users, roomTypes := [demo_type], nextId := 2\<rparr>)"
    by (rule hotel_step.create_type [OF demo_type_created])
  moreover have "?step (empty_db\<lparr>users := demo_users, roomTypes := [demo_type], nextId := 2\<rparr>)
      (empty_db\<lparr>users := demo_users, roomTypes := [demo_type], rooms := [demo_room], nextId := 3\<rparr>)"
    by (rule hotel_step.create_room [OF demo_room_created])
  moreover have "?step (empty_db\<lparr>users := demo_users, roomTypes := [demo_type], rooms := [demo_room], nextId := 3\<rparr>)
      demo_catalogue"
    using demo_window_created hotel_step.create_window by blast
  ultimately show ?thesis
    unfolding hotel_reachable_def by (meson rtranclp.rtrancl_into_rtrancl rtranclp.rtrancl_refl)
qed

lemma demo_request_step: "hotel_step demo_config id demo_catalogue demo_requested"
  by (rule hotel_step.create [OF demo_created])

lemma demo_approve_step: "hotel_step demo_config id demo_requested demo_confirmed"
  by (rule hotel_step.approve [OF demo_approved])

lemma demo_requested_reachable: "hotel_reachable demo_config id demo_requested"
  using demo_catalogue_reachable demo_request_step unfolding hotel_reachable_def
  by (rule rtranclp.rtrancl_into_rtrancl)

lemma demo_confirmed_reachable: "hotel_reachable demo_config id demo_confirmed"
  using demo_requested_reachable demo_approve_step unfolding hotel_reachable_def
  by (rule rtranclp.rtrancl_into_rtrancl)

text \<open>A change of the confirmed stay and of the room.\<close>

definition demo_change :: UpdateBookingDto where
  "demo_change = \<lparr>ub_roomId = None, ub_checkIn = None, ub_checkOut = Some ''2024-03-02'', ub_reason = ''longer''\<rparr>"

definition demo_query :: booking_query where
  "demo_query = \<lparr>q_status = None, q_from = None, q_to = None, q_roomId = None, q_roomTypeId = None, q_userId = None,
     q_page = 1, q_pageSize = 10\<rparr>"

lemma demo_longer: "assertBookingDates ''2024-02-28'' ''2024-02-28'' ''2024-03-02'' = 3"
proof -
  have iso: "''2024-02-28'' = iso_date 2024 2 28" "''2024-03-02'' = iso_date 2024 3 2" by code_simp+
  have v: "valid_date 2024 2 28" "valid_date 2024 3 2" by code_simp+
  have d: "make_day 2024 (2 - 1) 28 * millisecondsPerDay = 1709078400000"
    "make_day 2024 (3 - 1) 2 * millisecondsPerDay = 1709337600000" by code_simp+
  have "parseHotelDate ''2024-02-28'' = Some 1709078400000" "parseHotelDate ''2024-03-02'' = Some 1709337600000"
    unfolding iso using parseHotelDate_iso [of 2024] v d by simp_all
  then show ?thesis by (simp add: assertBookingDates_def millisecondsPerDay_def)
qed

lemma demo_changed:
  "\<exists>db'. updateAdmin_tx demo_config (demo_snapshot\<lparr>sn_version := 2\<rparr>) 9 demo_public_id (show_nat (Suc (Suc 0))) demo_change
     (demo_env ''e'') demo_confirmed = Inr ((), db')"
  by (simp add: demo_defs demo_requested_def demo_confirmed_def demo_confirmed_booking_def demo_snapshot_def demo_change_def
      updateAdmin_tx_def orderedUniqueRoomIds_def demo_longer lockRoom_def find_room_def or_throw_def find_booking_def
      find_room_window_def find_window_def find_first_by_def
      assertNoConfirmedOverlap_def require_def booking_room_def find_room_time_def confirmedOverlapCondition_def
      save_booking_def Let_def booking_checks_def booking_references_def user_exists_def number_max_safe_integer_def
      update_where_def insert_change_history_def record_change_def insert_outbox_def
      stream_events_def lifecycle_event_def pending_event_def event_key_def bookingLifecycleEventType_def
      insertOutbox_def mail_event_def mail_uuid_def)

definition demo_patch :: UpdateRoomDto where
  "demo_patch = \<lparr>ur_roomNumber = None, ur_roomTypeId = None, ur_bedCount = Some 3, ur_viewCode = None,
     ur_basePriceAmount = None, ur_currency = None, ur_status = None, ur_amenityIds = None\<rparr>"

lemma demo_room_updated:
  "\<exists>result db'. update_room id 2 (show_nat (Suc 0)) demo_patch (demo_env ''f'') demo_catalogue = Inr (result, db')"
  by (simp add: demo_defs update_room_def demo_patch_def hasDefinedUpdate_def catch_database_def lockRoom_def find_room_def
      or_throw_def findLockedReferences_def patch_def find_room_type_def Let_def write_room_checks_def patched_room_def
      room_checks_def number_max_safe_integer_def)

lemma demo_window_closed:
  "\<exists>response db'. update_room_time findByRoomTimeIds 2 3 \<lparr>uw_availableFrom = None, uw_availableTo = None,
      uw_status = Some TimeInactive\<rparr> (demo_env ''w'') demo_catalogue = Inr (response, db')"
  by (simp add: demo_defs update_room_time_def lockRoom_def find_room_def or_throw_def findLockedRoomTime_def
      find_room_window_def loadUsage_def requireUsage_def findByRoomTimeIds_def countBookings_def countChanges_def
      Let_def assertRoomTimeRange_def assertRoomTimeUpdateAllowed_def assertNoActiveOverlap_def save_room_time_def
      emptyRoomTimeUsage_def require_def update_where_def)

end
