(* ===== verification/Auth_Demo.thy ===== *)
theory Auth_Demo
  imports Auth_Routes Demo_Run
begin

text \<open>
  A concrete run of the authentication component: two guests log in, the first one refreshes and becomes
  the administrator, and the second one is deactivated. The instances of the theorems on it show that
  their hypotheses can hold.
\<close>

definition demo_hex :: "nat \<Rightarrow> char" where
  "demo_hex n = ''0123456789abcdef'' ! n"

text \<open>The code units in hexadecimal notation stand for the digest.\<close>

definition demo_sha :: "string \<Rightarrow> string" where
  "demo_sha t = concat (map (\<lambda>c. [demo_hex (of_char c div 16), demo_hex (of_char c mod 16)]) t)"

definition demo_sign :: jwt_signer where
  "demo_sign opts ttl now payload = (case (json_field ''sub'' payload, json_field ''sid'' payload, json_field ''role'' payload) of
     (Some (JStr subject), Some (JStr sid), Some (JStr role)) \<Rightarrow> subject @ (if role = ''USER'' then ''.'' else '':'') @ sid
   | _ \<Rightarrow> [])"

definition demo_verify :: jwt_verifier where
  "demo_verify opts now token = (let subject = takeWhile is_digit token; rest = dropWhile is_digit token in
     Some [(''sub'', JStr subject), (''sid'', JStr (tl rest)),
       (''role'', JStr (if hd rest = CHR ''.'' then ''USER'' else ''ADMIN'')), (''typ'', JStr ''access'')])"

definition demo_redis :: "unit redis_client" where
  "demo_redis = \<lparr>cmd_get = \<lambda>k r. (Reply None, r), cmd_set = \<lambda>k v n x r. (Reply (Some ''OK''), r),
     cmd_getdel = \<lambda>k r. (Reply None, r)\<rparr>"

definition demo_auth_config :: auth_config where
  "demo_auth_config = \<lparr>ac_googleEnabled = False, ac_googleClientId = None, ac_googleClientSecret = None,
     ac_googleRedirectUri = None, ac_jwtSecret = ''s'', ac_jwtIssuer = ''i'', ac_jwtAudience = ''a'',
     ac_accessTtlSeconds = 900, ac_refreshTtlSeconds = 86400, ac_oauthTransactionTtlSeconds = 600, ac_cookieSecure = True,
     ac_rateLimitMax = 10, ac_rateLimitWindowSeconds = 60, ac_redisKeyPrefix = ''p'', ac_successRedirectUri = ''/''\<rparr>"

definition demo_auth_env :: "string \<Rightarrow> string \<Rightarrow> int \<Rightarrow> auth_env" where
  "demo_auth_env uuid text now = \<lparr>dbNow = now, jsNow = now, hotelToday = ''2030-01-01'', drawUuid = (\<lambda>_. uuid),
     ulidState = ulid_initial, ulidRandom = 0, randomText = (\<lambda>_. text), connectFails = None, queryFails = None\<rparr>"

definition demo_uuid1 :: string where "demo_uuid1 = ''11111111-1111-4111-8111-111111111111''"
definition demo_uuid2 :: string where "demo_uuid2 = ''22222222-2222-4222-8222-222222222222''"
definition demo_text :: "char \<Rightarrow> string" where "demo_text c = replicate 43 c"

definition demo_ann :: GoogleIdentityClaims where
  "demo_ann = \<lparr>gi_subject = ''g1'', gi_email = ''ann@x'', gi_displayName = ''Ann''\<rparr>"
definition demo_bob :: GoogleIdentityClaims where
  "demo_bob = \<lparr>gi_subject = ''g2'', gi_email = ''bob@x'', gi_displayName = ''Bob''\<rparr>"

definition demo_token :: "string \<Rightarrow> char \<Rightarrow> string" where
  "demo_token uuid c = uuid @ ''.'' @ demo_text c"

lemmas auth_demo_defs = demo_auth_config_def demo_auth_env_def demo_ann_def demo_bob_def demo_redis_def

subsection \<open>The digests differ\<close>

lemma hex_value_demo: "n < 16 \<Longrightarrow> hex_value (demo_hex n) = Some n"
proof -
  assume "n < 16"
  then have "n \<in> set [0..<16]" by simp
  moreover have "list_all (\<lambda>n. hex_value (demo_hex n) = Some n) [0..<16]" by code_simp
  ultimately show ?thesis by (simp add: list_all_iff)
qed

lemma demo_digest: "hex_buffer (demo_sha t) = map of_char t"
proof (induction t)
  case (Cons c t)
  have "(of_char c :: nat) < 256" by (metis of_char_of char_of_char mod_less_divisor zero_less_numeral)
  then have "(of_char c :: nat) div 16 < 16" "(of_char c :: nat) mod 16 < 16"
    using less_mult_imp_div_less [of "of_char c" 16 16] by simp_all
  then show ?case using Cons by (simp add: demo_sha_def hex_value_demo)
qed (simp add: demo_sha_def)

lemma demo_digest_eq: "hex_buffer (demo_sha a) = hex_buffer (demo_sha b) \<longleftrightarrow> a = b"
  unfolding demo_digest by (metis char_of_char list.inj_map_strong)

subsection \<open>The run\<close>

definition demo_account :: "nat \<Rightarrow> GoogleIdentityClaims \<Rightarrow> account_row" where
  "demo_account i gc = \<lparr>u_id = i, u_email = gi_email gc, u_displayName = gi_displayName gc, u_role = RoleUser,
     u_status = UserActive, u_emailVerifiedAt = 0, u_createdAt = 0, u_updatedAt = 0\<rparr>"

definition demo_identity :: "nat \<Rightarrow> GoogleIdentityClaims \<Rightarrow> identity_row" where
  "demo_identity i gc = \<lparr>ai_id = Suc i, ai_userId = i, ai_provider = Google, ai_providerSubject = gi_subject gc,
     ai_providerEmail = gi_email gc, ai_createdAt = 0, ai_updatedAt = 0\<rparr>"

definition demo_session :: "nat \<Rightarrow> string \<Rightarrow> char \<Rightarrow> session_row" where
  "demo_session i uuid c = \<lparr>se_id = uuid, se_userId = i, se_refreshTokenHash = demo_sha (demo_token uuid c),
     se_refreshExpiresAt = 86400000000, se_revokedAt = None, se_createdAt = 0, se_updatedAt = 0\<rparr>"

definition demo_issued :: "nat \<Rightarrow> string \<Rightarrow> char \<Rightarrow> IssuedSession" where
  "demo_issued i uuid c = \<lparr>at_accessToken = show_nat i @ ''.'' @ uuid, at_tokenType = ''Bearer'', at_expiresIn = 900,
     is_refreshToken = demo_token uuid c, is_refreshExpiresAt = 86400000000\<rparr>"

definition demo_one :: auth_db where
  "demo_one = \<lparr>accounts = [demo_account 1 demo_ann], identities = [demo_identity 1 demo_ann],
     sessions = [demo_session 1 demo_uuid1 CHR ''a''], userStatusHistories = [], userRoleHistories = [], nextAuthId = 3\<rparr>"

definition demo_two :: auth_db where
  "demo_two = \<lparr>accounts = [demo_account 1 demo_ann, demo_account 3 demo_bob],
     identities = [demo_identity 1 demo_ann, demo_identity 3 demo_bob],
     sessions = [demo_session 1 demo_uuid1 CHR ''a'', demo_session 3 demo_uuid2 CHR ''b''],
     userStatusHistories = [], userRoleHistories = [], nextAuthId = 5\<rparr>"

lemmas demo_auth_tables = demo_one_def demo_two_def demo_account_def demo_identity_def demo_session_def demo_issued_def

lemma demo_access: "demo_sign opts ttl now (access_payload i sid role) =
    show_nat i @ (if role = RoleUser then ''.'' else '':'') @ sid"
  by (cases role) (simp_all add: demo_sign_def access_payload_def json_field_def)

lemma demo_login_ann:
  "resolveIdentityAndCreateSession id demo_sha demo_sign demo_auth_config demo_ann
     (demo_auth_env demo_uuid1 (demo_text CHR ''a'') 0) empty_auth_db = Inr (demo_issued 1 demo_uuid1 CHR ''a'', demo_one)"
  by (simp add: resolveIdentityAndCreateSession_def find_identity_def find_email_def empty_auth_db_def insert_account_def
      insert_identity_def createWithManager_def save_session_def find_session_def issue_def createRefreshToken_def
      demo_token_def auth_demo_defs demo_auth_tables demo_access Let_def)

lemma demo_login_bob:
  "resolveIdentityAndCreateSession id demo_sha demo_sign demo_auth_config demo_bob
     (demo_auth_env demo_uuid2 (demo_text CHR ''b'') 0) demo_one = Inr (demo_issued 3 demo_uuid2 CHR ''b'', demo_two)"
  by (simp add: resolveIdentityAndCreateSession_def find_identity_def find_email_def insert_account_def
      insert_identity_def createWithManager_def save_session_def find_session_def issue_def createRefreshToken_def
      demo_token_def auth_demo_defs demo_auth_tables demo_access demo_uuid1_def demo_uuid2_def Let_def)

definition demo_state1 :: auth_state where
  "demo_state1 = \<lparr>as_db = demo_one, usedIds = insert demo_uuid1 {},
     usedDigests = insert (hex_buffer (demo_sha (demo_token demo_uuid1 CHR ''a''))) {}\<rparr>"

definition demo_state2 :: auth_state where
  "demo_state2 = \<lparr>as_db = demo_two, usedIds = insert demo_uuid2 (insert demo_uuid1 {}),
     usedDigests = insert (hex_buffer (demo_sha (demo_token demo_uuid2 CHR ''b'')))
       (insert (hex_buffer (demo_sha (demo_token demo_uuid1 CHR ''a''))) {})\<rparr>"

lemma demo_texts: "demo_text a = demo_text b \<longleftrightarrow> a = b" "demo_uuid1 \<noteq> demo_uuid2"
  "demo_token u a = demo_token u b \<longleftrightarrow> a = b" "demo_token demo_uuid2 a \<noteq> demo_token demo_uuid1 b"
  by (simp_all add: demo_text_def demo_uuid1_def demo_uuid2_def demo_token_def)

lemma demo_step1: "auth_step id demo_sha demo_sign demo_auth_config initial_auth demo_state1"
  using auth_step.login [where st = initial_auth, OF _ _ _, of id demo_sha demo_sign demo_auth_config demo_ann
      "demo_auth_env demo_uuid1 (demo_text CHR ''a'') 0" "demo_issued 1 demo_uuid1 CHR ''a''" demo_one]
    demo_login_ann
  by (simp add: initial_auth_def demo_state1_def demo_issued_def demo_auth_env_def)

lemma demo_step2: "auth_step id demo_sha demo_sign demo_auth_config demo_state1 demo_state2"
  using auth_step.login [where st = demo_state1, OF _ _ _, of id demo_sha demo_sign demo_auth_config demo_bob
      "demo_auth_env demo_uuid2 (demo_text CHR ''b'') 0" "demo_issued 3 demo_uuid2 CHR ''b''" demo_two]
    demo_login_bob demo_texts
  by (simp add: demo_state1_def demo_state2_def demo_issued_def demo_auth_env_def demo_digest_eq)

lemma demo_auth_reachable:
  "auth_reachable id demo_sha demo_sign demo_auth_config initial_auth"
  "auth_reachable id demo_sha demo_sign demo_auth_config demo_state1"
  "auth_reachable id demo_sha demo_sign demo_auth_config demo_state2"
  using demo_step1 demo_step2 unfolding auth_reachable_def by (auto intro: rtranclp.rtrancl_into_rtrancl)

subsection \<open>Instances of the theorems\<close>

lemma demo_parse:
  "parseRefreshToken (Some (demo_token demo_uuid1 CHR ''a'')) = Some demo_uuid1"
  "parseRefreshToken (Some (demo_token demo_uuid2 CHR ''b'')) = Some demo_uuid2"
  by code_simp+

definition demo_rotated :: auth_db where
  "demo_rotated = demo_one\<lparr>sessions := [(demo_session 1 demo_uuid1 CHR ''c'')\<lparr>se_updatedAt := 1000000\<rparr>]\<rparr>"

lemma demo_new_token: "createRefreshToken uuid n (demo_auth_env u (demo_text c) now) = demo_token uuid c"
  by (simp add: createRefreshToken_def demo_auth_env_def demo_token_def)

lemma demo_env_fields [simp]:
  "jsNow (demo_auth_env u x now) = now" "dbNow (demo_auth_env u x now) = now" "drawUuid (demo_auth_env u x now) n = u"
  "connectFails (demo_auth_env u x now) = None" "queryFails (demo_auth_env u x now) = None"
  by (simp_all add: demo_auth_env_def)

lemma demo_refresh:
  "refresh demo_sha demo_sign demo_redis demo_auth_config (Some (demo_token demo_uuid1 CHR ''a''))
     (demo_auth_env demo_uuid2 (demo_text CHR ''c'') 1000000) (as_db demo_state1, ())
   = (Inr (demo_issued 1 demo_uuid1 CHR ''c''), demo_rotated, ())"
  by (simp add: refresh_def demo_parse ensureInitialized_def run_transaction_def refresh_tx_def joined_session_def
      find_session_def find_account_def session_ended_def constantTimeHashMatches_def demo_new_token demo_state1_def
      save_session_def issue_def demo_rotated_def demo_auth_config_def demo_auth_tables demo_access Let_def)

theorem refresh_token_single_use_witness:
  "fst (refresh demo_sha demo_sign demo_redis demo_auth_config (Some (demo_token demo_uuid1 CHR ''a''))
     (demo_auth_env demo_uuid2 (demo_text CHR ''d'') 2000000) (demo_rotated, ())) = Inl authErrors_sessionInvalid"
proof -
  have new: "hex_buffer (demo_sha (is_refreshToken (demo_issued 1 demo_uuid1 CHR ''c''))) \<notin> usedDigests demo_state1"
    by (simp add: demo_issued_def demo_state1_def demo_digest_eq demo_texts)
  show ?thesis
    using refresh_token_single_use [OF demo_auth_reachable(2) demo_refresh new rtranclp.rtrancl_refl,
        of "demo_auth_env demo_uuid2 (demo_text CHR ''d'') 2000000" "()"] by auto
qed

definition demo_deactivated :: auth_db where
  "demo_deactivated = demo_two\<lparr>accounts := [demo_account 1 demo_ann,
       (demo_account 3 demo_bob)\<lparr>u_status := UserInactive, u_updatedAt := 1000000\<rparr>],
     sessions := [demo_session 1 demo_uuid1 CHR ''a'',
       (demo_session 3 demo_uuid2 CHR ''b'')\<lparr>se_revokedAt := Some 1000000, se_updatedAt := 1000000\<rparr>],
     userStatusHistories := [\<lparr>ush_id = 5, ush_userId = 3, ush_actorUserId = 1, ush_fromStatus = UserActive,
       ush_toStatus = UserInactive, ush_reason = ''r'', ush_createdAt = 1000000\<rparr>], nextAuthId := 6\<rparr>"

lemma demo_deactivate:
  "updateStatus_tx id 1 3 UserInactive ''r'' (demo_auth_env demo_uuid1 [] 1000000) (as_db demo_state2) =
     Inr (((demo_account 3 demo_bob)\<lparr>u_status := UserInactive, u_updatedAt := 1000000\<rparr>, [demo_uuid2]), demo_deactivated)"
  by (simp add: updateStatus_tx_def find_account_def save_account_def put_account_def insert_user_status_history_def
      revoke_sessions_def open_session_def demo_deactivated_def demo_state2_def demo_auth_tables auth_demo_defs(3,4)
      numeral_eq_Suc Let_def)

theorem deactivation_final_witness:
  "is_error (fst (refresh demo_sha demo_sign demo_redis demo_auth_config (Some (demo_token demo_uuid2 CHR ''b''))
     (demo_auth_env demo_uuid1 [] 2000000) (demo_deactivated, ())))"
  using deactivation_final [OF demo_auth_reachable(3) demo_deactivate rtranclp.rtrancl_refl,
      where s = "demo_session 3 demo_uuid2 CHR ''b''" and client = demo_redis and cache = "()"
        and envLater = "demo_auth_env demo_uuid1 [] 2000000" and t = "demo_token demo_uuid2 CHR ''b''"]
  by (simp add: demo_state2_def demo_two_def demo_session_def demo_parse)

lemma demo_split:
  "\<not> is_digit c \<Longrightarrow> takeWhile is_digit (show_nat i @ c # xs) = show_nat i \<and> dropWhile is_digit (show_nat i @ c # xs) = c # xs"
  using show_nat_digits [of i] by (simp add: takeWhile_append dropWhile_append)

lemma demo_jwt: "jwt_round_trip demo_sign demo_verify"
proof -
  have c: "\<not> is_digit CHR ''.''" "\<not> is_digit CHR '':''" by (simp_all add: is_digit_def)
  have "demo_verify opts now2 (demo_sign opts ttl now (access_payload i sid role)) = Some (access_payload i sid role)"
    for opts ttl now now2 i sid role
    using demo_split [OF c(1), of i sid] demo_split [OF c(2), of i sid]
    unfolding demo_access by (cases role) (simp_all add: demo_verify_def access_payload_def Let_def)
  then show ?thesis unfolding jwt_round_trip_def by (metis append_Nil2)
qed

theorem issued_token_authenticates_witness:
  "\<exists>p i. fst (authenticateAccessToken demo_verify demo_redis demo_auth_config
       (at_accessToken (demo_issued 1 demo_uuid1 CHR ''a'')) (demo_auth_env [] [] 1000000) (demo_one, ())) = Inr p
     \<and> i \<in> set (identities demo_one) \<and> ai_providerSubject i = ''g1'' \<and> ai_userId i = ap_userId p"
proof -
  let ?s = "demo_session 1 demo_uuid1 CHR ''a''"
  have s: "?s \<in> set (sessions demo_one)" "se_id ?s = demo_uuid1" "\<not> session_ended (demo_auth_env [] [] 1000000) ?s"
    by (simp_all add: demo_one_def demo_session_def session_ended_def)
  have c: "fst (isRevoked demo_redis demo_auth_config demo_uuid1 ()) \<noteq> Some True"
    by (simp add: isRevoked_def demo_redis_def)
  have login: "resolveIdentityAndCreateSession id demo_sha demo_sign demo_auth_config demo_ann
      (demo_auth_env demo_uuid1 (demo_text CHR ''a'') 0) (as_db initial_auth) = Inr (demo_issued 1 demo_uuid1 CHR ''a'', demo_one)"
    using demo_login_ann by (simp add: initial_auth_def)
  have fresh: "drawUuid (demo_auth_env demo_uuid1 (demo_text CHR ''a'') 0) 0 \<notin> usedIds initial_auth"
    "hex_buffer (demo_sha (is_refreshToken (demo_issued 1 demo_uuid1 CHR ''a''))) \<notin> usedDigests initial_auth"
    by (simp_all add: initial_auth_def)
  have "gi_subject demo_ann = ''g1''" "ac_accessTtlSeconds demo_auth_config = 900"
    by (simp_all add: demo_ann_def demo_auth_config_def)
  then show ?thesis
    using issued_token_authenticates [OF demo_auth_reachable(1) login fresh rtranclp.rtrancl_refl,
        where s = ?s and verify = demo_verify and client = demo_redis and cache = "()" and envLater = "demo_auth_env [] [] 1000000"]
      s c demo_jwt by auto
qed

theorem login_binds_identity_witness:
  "\<exists>user. find_account (u_id user) demo_two = Some user \<and> u_email user = ''bob@x''"
proof -
  have login: "resolveIdentityAndCreateSession id demo_sha demo_sign demo_auth_config demo_bob
      (demo_auth_env demo_uuid2 (demo_text CHR ''b'') 0) (as_db demo_state1) = Inr (demo_issued 3 demo_uuid2 CHR ''b'', demo_two)"
    using demo_login_bob by (simp add: demo_state1_def)
  show ?thesis using login_binds_identity [OF demo_auth_reachable(2) login] by (auto simp: demo_bob_def)
qed

definition demo_promoted :: auth_db where
  "demo_promoted = demo_one\<lparr>accounts := [(demo_account 1 demo_ann)\<lparr>u_role := RoleAdmin, u_updatedAt := 1000000\<rparr>],
     userRoleHistories := [\<lparr>urh_id = 3, urh_userId = 1, urh_actorType = RoleActorCli, urh_actorUserId = None,
       urh_fromRole = RoleUser, urh_toRole = RoleAdmin, urh_reason = ''first'', urh_createdAt = 1000000\<rparr>], nextAuthId := 4\<rparr>"

lemma demo_promote:
  "promote id ''1'' '' Ann@x'' ''first'' (demo_auth_env [] [] 1000000) (as_db demo_state1) = Inr (Promoted, demo_promoted)"
proof -
  have t: "toLowerCase (trim '' Ann@x'') = ''ann@x''" "trim ''first'' = ''first''" "decimalIdPattern ''1''" "show_nat 1 = ''1''"
    by code_simp+
  show ?thesis
    by (simp add: promote_def t [simplified] ensureInitialized_def save_account_def put_account_def insert_user_role_history_def
        demo_promoted_def demo_state1_def demo_auth_tables demo_ann_def Let_def)
qed

lemma demo_promoted_reachable:
  "auth_reachable id demo_sha demo_sign demo_auth_config (demo_state1\<lparr>as_db := demo_promoted\<rparr>)"
proof -
  have "auth_step id demo_sha demo_sign demo_auth_config demo_state1 (demo_state1\<lparr>as_db := demo_promoted\<rparr>)"
    by (rule auth_step.promote [OF demo_promote])
  then show ?thesis using auth_reachable_steps [OF demo_auth_reachable(2)] by blast
qed

theorem active_admin_remains_witness: "activeAdmins demo_promoted \<noteq> []"
  using active_admin_remains [OF demo_promoted_reachable,
      of "(demo_account 1 demo_ann)\<lparr>u_role := RoleAdmin, u_updatedAt := 1000000\<rparr>"]
  by (simp add: demo_promoted_def)

theorem account_changes_audited_witness:
  "replay RoleUser (map (\<lambda>h. (urh_fromRole h, urh_toRole h)) (role_trail demo_promoted 1)) = Some RoleAdmin"
  using account_changes_audited [OF demo_promoted_reachable,
      of "(demo_account 1 demo_ann)\<lparr>u_role := RoleAdmin, u_updatedAt := 1000000\<rparr>"]
  by (simp add: demo_promoted_def demo_account_def)

text \<open>A deactivation through its route, by an administrator.\<close>

definition demo_admin_db :: auth_db where
  "demo_admin_db = demo_two\<lparr>accounts := [(demo_account 1 demo_ann)\<lparr>u_role := RoleAdmin\<rparr>, demo_account 3 demo_bob]\<rparr>"

lemma demo_admin_principal:
  "authenticateAccessToken demo_verify demo_redis demo_auth_config (''1.'' @ demo_uuid1) (demo_auth_env [] [] 1000000) (demo_admin_db, ())
   = (Inr \<lparr>ap_userId = 1, ap_sessionId = demo_uuid1, ap_email = ''ann@x'', ap_displayName = ''Ann'', ap_role = RoleAdmin,
       ap_status = UserActive\<rparr>, ())"
proof -
  have one: "show_nat 1 = ''1''" "\<not> is_digit CHR ''.''" by code_simp+
  have "demo_verify opts now (''1.'' @ demo_uuid1) = Some (access_payload 1 demo_uuid1 RoleUser)" for opts now
    using demo_split [OF one(2), of 1 demo_uuid1] one(1) by (simp add: demo_verify_def access_payload_def Let_def)
  then have "verify_access_token demo_verify demo_auth_config (demo_auth_env [] [] 1000000) (''1.'' @ demo_uuid1) =
      Inr \<lparr>cl_sub = show_nat 1, cl_sid = demo_uuid1, cl_role = RoleUser\<rparr>"
    by (simp add: verify_access_token_def access_payload_def json_field_def parse_UserRole_def)
  then show ?thesis
    by (simp add: authenticateAccessToken_def isRevoked_def demo_redis_def ensureInitialized_def authorize_session_def
        joined_session_def find_session_def find_account_def session_ended_def principal_of_def demo_admin_db_def
        demo_auth_tables demo_ann_def)
qed

lemma demo_admin_update:
  "\<exists>response db'. updateStatus id demo_redis demo_auth_config 1 3 UserInactive ''r'' (demo_auth_env [] [] 1000000) (demo_admin_db, ())
     = (Inr response, db', ())"
  by (simp add: updateStatus_def ensureInitialized_def run_transaction_def updateStatus_tx_def find_account_def save_account_def
      put_account_def insert_user_status_history_def demo_admin_db_def demo_auth_tables demo_ann_def demo_bob_def Let_def)

theorem status_change_authorized_witness:
  "\<exists>s u. joined_session (se_id s) demo_admin_db = Some (s, u) \<and> u_role u = RoleAdmin"
proof -
  obtain response db' where up: "updateStatus id demo_redis demo_auth_config 1 3 UserInactive ''r''
      (demo_auth_env [] [] 1000000) (demo_admin_db, ()) = (Inr response, db', ())"
    using demo_admin_update by blast
  have h: "extractBearerToken (Some (''Bearer 1.'' @ demo_uuid1)) = Some (''1.'' @ demo_uuid1)" by code_simp
  have "route_updateStatus demo_verify id demo_redis demo_auth_config (Some (''Bearer 1.'' @ demo_uuid1)) 3 UserInactive ''r''
      (demo_auth_env [] [] 1000000) (demo_admin_db, ()) = (Inr response, db', ())"
    unfolding route_updateStatus_def AccessTokenGuard_def h
    using demo_admin_principal up by (simp add: RolesGuard_def)
  from status_change_authorized [OF this] show ?thesis by blast
qed

text \<open>A complete callback against a store of keys and a Google that knows Ann.\<close>

definition demo_keys :: "(string \<Rightarrow> string option) redis_client" where
  "demo_keys = \<lparr>cmd_get = \<lambda>k r. (Reply (r k), r), cmd_set = \<lambda>k v n x r. (Reply (Some ''OK''), r(k := Some v)),
     cmd_getdel = \<lambda>k r. (Reply (r k), r(k := None))\<rparr>"

lemma demo_keys_deleting: "deleting demo_keys (\<lambda>r. r)"
  by (auto simp: deleting_def demo_keys_def)

definition demo_google :: google_client where
  "demo_google = \<lparr>gc_authorizationUrl = \<lambda>s n c. ''u'', gc_getToken = \<lambda>c v. Reply (Some ''h.p''),
     gc_decodeHeader = \<lambda>h. Some (JObj [(''alg'', JStr ''RS256'')]),
     gc_verifyIdToken = \<lambda>t a. Reply (Some [(''iss'', JStr ''accounts.google.com''), (''aud'', JStr ''c''), (''exp'', JNum 60),
       (''nonce'', JStr ''n''), (''sub'', JStr ''g1''), (''email'', JStr ''ann@x''), (''email_verified'', JBool True)])\<rparr>"

definition demo_services :: "(string \<Rightarrow> string option, string \<Rightarrow> int) login_services" where
  "demo_services = \<lparr>ls_codec = \<lparr>stringify = \<lambda>_. ''t'',
       json_parse = \<lambda>_. Some (JObj [(''nonce'', JStr ''n''), (''codeVerifier'', JStr ''v'')])\<rparr>,
     ls_sha256 = demo_sha, ls_sha256url = id, ls_redis = demo_keys, ls_limiter = demo_counters, ls_limiterPrefix = ''l'',
     ls_delivery = Answered, ls_sign = demo_sign, ls_google = demo_google, ls_collate = id\<rparr>"

definition demo_google_config :: auth_config where
  "demo_google_config = demo_auth_config\<lparr>ac_googleEnabled := True, ac_googleClientId := Some ''c'',
     ac_googleClientSecret := Some ''s'', ac_googleRedirectUri := Some ''r''\<rparr>"

definition demo_google_query :: GoogleCallbackQuery where
  "demo_google_query = \<lparr>gq_state = Some (JStr (demo_text CHR ''a'')), gq_code = Some (JStr ''code''), gq_error = None\<rparr>"

definition demo_stored :: "string \<Rightarrow> string option" where
  "demo_stored = (\<lambda>_. None)(oauthKey demo_sha demo_google_config (demo_text CHR ''a'') := Some ''t'')"

lemma demo_claims:
  "exchangeAndVerify demo_google demo_google_config ''code'' ''v'' ''n'' (demo_auth_env u x 0) =
     Inr \<lparr>gi_subject = ''g1'', gi_email = ''ann@x'', gi_displayName = ''ann''\<rparr>"
proof -
  have t: "toLowerCase (trim ''ann@x'') = ''ann@x''" by code_simp
  show ?thesis
    by (simp add: exchangeAndVerify_def requireClient_def truthy_text_def demo_google_config_def readJwtAlgorithm_def
        demo_google_def json_field_def validateGooglePayload_def safeEqual_iff t Let_def)
qed

lemma demo_limit: "auth_rate_limit demo_services demo_google_config ScopeGoogleCallback ''ip'' (\<lambda>_. 0) =
    (Inr (), (\<lambda>_. 0)(''l:auth-google-callback:'' @ demo_sha ''ip'' := 1))"
proof -
  have s: "allowedScope ''auth-google-callback''" by code_simp
  show ?thesis
    by (simp add: auth_rate_limit_def demo_services_def assertRateLimit_def consume_def auth_attempt_def s
        fixedWindowRateLimitScript_def demo_counters_def rate_key_def demo_google_config_def demo_auth_config_def)
qed

lemma demo_first_login:
  "\<exists>issued db1. resolveIdentityAndCreateSession id demo_sha demo_sign demo_google_config
     \<lparr>gi_subject = ''g1'', gi_email = ''ann@x'', gi_displayName = ''ann''\<rparr>
     (demo_auth_env demo_uuid1 (demo_text CHR ''a'') 0) empty_auth_db = Inr (issued, db1)"
  by (simp add: resolveIdentityAndCreateSession_def find_identity_def find_email_def empty_auth_db_def insert_account_def
      insert_identity_def createWithManager_def Let_def)

lemma demo_callback:
  "\<exists>issued db1 l1. completeGoogleLogin demo_services demo_google_config demo_google_query (Some (demo_text CHR ''a'')) ''ip''
     (\<lambda>_. demo_auth_env demo_uuid1 (demo_text CHR ''a'') 0) (\<lambda>_ db. db) (empty_auth_db, demo_stored, \<lambda>_. 0)
   = (Inr issued, db1, (\<lambda>_. None), l1)"
proof -
  have q: "validatedQueryState demo_google_query = Inr (demo_text CHR ''a'')" "validatedAuthorizationCode demo_google_query = Inr ''code''"
    by code_simp+
  have c: "consumeOAuthTransaction (ls_codec demo_services) demo_sha demo_keys demo_google_config (demo_text CHR ''a'') demo_stored
      = (Inr (Some \<lparr>ot_nonce = ''n'', ot_codeVerifier = ''v''\<rparr>), \<lambda>_. None)"
    by (simp add: consumeOAuthTransaction_def demo_keys_def demo_stored_def demo_services_def json_field_def)
  have f: "ls_redis demo_services = demo_keys" "ls_sha256 demo_services = demo_sha" "ls_google demo_services = demo_google"
    "ls_sign demo_services = demo_sign" "ls_collate demo_services = id" by (simp_all add: demo_services_def)
  have "demo_text CHR ''a'' \<noteq> []" by (simp add: demo_text_def)
  then show ?thesis
    using demo_first_login
    by (auto simp: completeGoogleLogin_def demo_limit q c f truthy_text_def safeEqual_iff demo_claims ensureInitialized_def
        run_transaction_def)
qed

theorem oauth_state_single_use_witness:
  "\<exists>e r3 l3. completeGoogleLogin demo_services demo_google_config demo_google_query (Some (demo_text CHR ''a'')) ''ip''
     (\<lambda>_. demo_auth_env demo_uuid2 (demo_text CHR ''b'') 0) (\<lambda>_ db. db) (demo_one, (\<lambda>_. None), \<lambda>_. 0) = (Inl e, demo_one, r3, l3)"
proof -
  obtain issued db1 l1 where first: "completeGoogleLogin demo_services demo_google_config demo_google_query (Some (demo_text CHR ''a'')) ''ip''
      (\<lambda>_. demo_auth_env demo_uuid1 (demo_text CHR ''a'') 0) (\<lambda>_ db. db) (empty_auth_db, demo_stored, \<lambda>_. 0)
    = (Inr issued, db1, (\<lambda>_. None), l1)" using demo_callback by blast
  have "deleting (ls_redis demo_services) (\<lambda>r. r)" using demo_keys_deleting by (simp add: demo_services_def)
  from oauth_state_single_use [OF first this rtranclp.rtrancl_refl refl] show ?thesis .
qed

end
