(* ===== verification/Outbox.thy ===== *)
theory Outbox
  imports Lifecycle
begin

text \<open>
  The claim protocol of the outbox (common/outbox/outbox-claim.repository.ts) over the table
  \<open>outbox_events\<close>: \<open>claimBatch\<close> takes expired leases and then due rows of the caller's event
  types, marks them with a lease, a token and one more attempt, and \<open>release\<close> hands a claim back.
  The database clock is an argument, and so is the set of rows that other transactions hold locked,
  which SKIP LOCKED steps over. Rows of one \<open>available_at\<close> are read in the order of the table.
\<close>

subsection \<open>The operations\<close>

record OutboxClaim =
  oc_id :: string
  oc_attempt :: nat

record OutboxClaimInput =
  oi_eventTypes :: "string list"
  oi_batchSize :: nat
  oi_leaseMs :: int
  oi_claimToken :: string

record OutboxReleaseInput =
  rl_eventTypes :: "string list"
  rl_id :: string
  rl_claimToken :: string
  rl_attempt :: nat
  rl_retryInMs :: int
  rl_errorCode :: string

definition eventTypePredicate :: "string list \<Rightarrow> error + (outbox_row \<Rightarrow> bool)" where
  "eventTypePredicate eventTypes =
     (if eventTypes = [] then Inl (PlainError ''An outbox claim requires at least one event type'')
      else Inr (\<lambda>row. o_eventType row \<in> set eventTypes))"

definition selectEligible ::
  "(string \<Rightarrow> bool) \<Rightarrow> (outbox_row \<Rightarrow> bool) \<Rightarrow> nat \<Rightarrow> outbox_row list \<Rightarrow> outbox_row list" where
  "selectEligible lockedElsewhere predicate limit table =
     take limit (sort_key o_availableAt
       (filter (\<lambda>row. predicate row \<and> \<not> lockedElsewhere (o_id row)) table))"

text \<open>Dates carry milliseconds in the process, and identifiers of one shape compare as strings.\<close>

definition compareEligible :: "outbox_row \<Rightarrow> int \<times> int \<times> string" where
  "compareEligible row = (o_availableAt row div 1000, o_createdAt row div 1000, o_id row)"

definition expired_lease :: "instant \<Rightarrow> outbox_row \<Rightarrow> bool" where
  "expired_lease now row \<longleftrightarrow>
     o_status row = OutProcessing \<and> (case o_lockExpiresAt row of None \<Rightarrow> False | Some t \<Rightarrow> t \<le> now)"

definition due_row :: "instant \<Rightarrow> outbox_row \<Rightarrow> bool" where
  "due_row now row \<longleftrightarrow> o_status row = OutPending \<and> o_availableAt row \<le> now"

definition leased :: "OutboxClaimInput \<Rightarrow> instant \<Rightarrow> outbox_row \<Rightarrow> outbox_row" where
  "leased input now row =
     row\<lparr>o_status := OutProcessing, o_lockedAt := Some now, o_lockExpiresAt := Some (now + oi_leaseMs input * 1000),
         o_lockedBy := Some (oi_claimToken input), o_attempts := o_attempts row + 1, o_updatedAt := now\<rparr>"

definition claimBatch ::
  "OutboxClaimInput \<Rightarrow> instant \<Rightarrow> (string \<Rightarrow> bool) \<Rightarrow> outbox_row list
   \<Rightarrow> error + OutboxClaim list \<times> outbox_row list" where
  "claimBatch input now lockedElsewhere table =
     and_then (eventTypePredicate (oi_eventTypes input)) (\<lambda>family.
     let expired = selectEligible lockedElsewhere (\<lambda>row. family row \<and> expired_lease now row)
                     (oi_batchSize input) table;
         remaining = oi_batchSize input - length expired;
         due = (if 0 < remaining
                then selectEligible lockedElsewhere (\<lambda>row. family row \<and> due_row now row) remaining table
                else []);
         eligible = sort_key compareEligible (expired @ due);
         ids = map o_id eligible in
     if eligible = [] then Inr ([], table)
     else
       let table = update_where (\<lambda>row. o_id row \<in> set ids \<and> family row) (leased input now) table;
           attempts = map_of (map (\<lambda>row. (o_id row, o_attempts row)) (filter (\<lambda>row. o_id row \<in> set ids) table)) in
       Inr (map (\<lambda>i. \<lparr>oc_id = i, oc_attempt = (case attempts i of None \<Rightarrow> 0 | Some n \<Rightarrow> n)\<rparr>) ids, table))"

definition holds_claim :: "string \<Rightarrow> nat \<Rightarrow> outbox_row \<Rightarrow> bool" where
  "holds_claim token attempt row \<longleftrightarrow>
     o_status row = OutProcessing \<and> o_lockedBy row = Some token \<and> o_attempts row = attempt"

definition released :: "OutboxReleaseInput \<Rightarrow> instant \<Rightarrow> outbox_row \<Rightarrow> outbox_row" where
  "released input now row =
     row\<lparr>o_status := OutPending, o_lockedAt := None, o_lockExpiresAt := None, o_lockedBy := None,
         o_availableAt := now + rl_retryInMs input * 1000, o_lastErrorCode := Some (rl_errorCode input),
         o_attempts := o_attempts row - 1, o_updatedAt := now\<rparr>"

text \<open>The attempts are unsigned, so the statement fails on a row that has none to give back.\<close>

definition release ::
  "OutboxReleaseInput \<Rightarrow> instant \<Rightarrow> outbox_row list \<Rightarrow> error + bool \<times> outbox_row list" where
  "release input now table =
     and_then (eventTypePredicate (rl_eventTypes input)) (\<lambda>family.
     let hit = (\<lambda>row. o_id row = rl_id input \<and> family row
                  \<and> holds_claim (rl_claimToken input) (rl_attempt input) row) in
     if \<exists>row \<in> set table. hit row \<and> o_attempts row = 0 then Inl (DatabaseError ''ER_DATA_OUT_OF_RANGE'')
     else Inr (0 < affected hit table, update_where hit (released input now) table))"

subsection \<open>The table's invariant\<close>

text \<open>The check \<open>chk_outbox_events_lease_state\<close>, and the primary and unique keys.\<close>

definition lease_state :: "outbox_row \<Rightarrow> bool" where
  "lease_state row \<longleftrightarrow>
     (case o_status row of
        OutPending \<Rightarrow> o_lockedAt row = None \<and> o_lockExpiresAt row = None \<and> o_lockedBy row = None
          \<and> o_processedAt row = None \<and> o_failedAt row = None
      | OutProcessing \<Rightarrow> o_lockedAt row \<noteq> None \<and> o_lockExpiresAt row \<noteq> None \<and> o_lockedBy row \<noteq> None
          \<and> o_processedAt row = None \<and> o_failedAt row = None
      | OutProcessed \<Rightarrow> o_lockedAt row = None \<and> o_lockExpiresAt row = None \<and> o_lockedBy row = None
          \<and> o_processedAt row \<noteq> None \<and> o_failedAt row = None \<and> o_lastErrorCode row = None
      | OutFailed \<Rightarrow> o_lockedAt row = None \<and> o_lockExpiresAt row = None \<and> o_lockedBy row = None
          \<and> o_processedAt row = None \<and> o_failedAt row \<noteq> None \<and> o_lastErrorCode row \<noteq> None)"

definition wf_outbox :: "outbox_row list \<Rightarrow> bool" where
  "wf_outbox table \<longleftrightarrow>
     distinct (map o_id table) \<and> distinct (map o_idempotencyKey table) \<and> (\<forall>row \<in> set table. lease_state row)"

text \<open>What no operation of the protocol may touch.\<close>

definition event_of :: "outbox_row \<Rightarrow> string \<times> string \<times> json \<times> string \<times> instant" where
  "event_of row = (o_id row, o_eventType row, o_payload row, o_idempotencyKey row, o_createdAt row)"

lemma event_of_leased [simp]: "event_of (leased input now row) = event_of row"
  and event_of_released [simp]: "event_of (released input' now row) = event_of row"
  by (simp_all add: event_of_def leased_def released_def)

subsection \<open>Lemmas\<close>

lemma in_selectEligible:
  "row \<in> set (selectEligible locked P n table) \<Longrightarrow> row \<in> set table \<and> P row \<and> \<not> locked (o_id row)"
  by (auto simp: selectEligible_def dest: in_set_takeD)

lemma distinct_map_sort_key [simp]: "distinct (map f (sort_key g xs)) \<longleftrightarrow> distinct (map f xs)"
  by (simp add: distinct_map)

lemma distinct_selectEligible:
  "distinct (map o_id table) \<Longrightarrow> distinct (map o_id (selectEligible locked P n table))"
  unfolding selectEligible_def take_map [symmetric] by (rule distinct_take) (simp add: distinct_map_filter)

lemma length_selectEligible:
  "length (selectEligible locked P n table) = min n (length (filter (\<lambda>row. P row \<and> \<not> locked (o_id row)) table))"
  by (simp add: selectEligible_def)

text \<open>The rows a claim takes, and how many.\<close>

definition eligible_rows :: "OutboxClaimInput \<Rightarrow> instant \<Rightarrow> (string \<Rightarrow> bool) \<Rightarrow> outbox_row list \<Rightarrow> outbox_row list" where
  "eligible_rows input now locked table =
     (let expired = selectEligible locked (\<lambda>row. o_eventType row \<in> set (oi_eventTypes input) \<and> expired_lease now row)
                      (oi_batchSize input) table;
          remaining = oi_batchSize input - length expired in
      sort_key compareEligible (expired @
        (if 0 < remaining
         then selectEligible locked (\<lambda>row. o_eventType row \<in> set (oi_eventTypes input) \<and> due_row now row) remaining table
         else [])))"

lemma eligible_row:
  assumes "row \<in> set (eligible_rows input now locked table)"
  shows "row \<in> set table" "o_eventType row \<in> set (oi_eventTypes input)" "expired_lease now row \<or> due_row now row"
    "\<not> locked (o_id row)"
  using assms by (auto simp: eligible_rows_def Let_def dest!: in_selectEligible split: if_splits)

lemma distinct_eligible:
  assumes "distinct (map o_id table)"
  shows "distinct (map o_id (eligible_rows input now locked table))"
proof -
  have "o_id a \<noteq> o_id b" if "a \<in> set (selectEligible locked (\<lambda>row. f row \<and> expired_lease now row) n table)"
    "b \<in> set (selectEligible locked (\<lambda>row. f row \<and> due_row now row) m table)" for a b f n m
  proof -
    have "a \<in> set table" "b \<in> set table" "expired_lease now a" "due_row now b" using that by (auto dest!: in_selectEligible)
    then show ?thesis using distinct_key_eq [OF assms, of a b] by (auto simp: expired_lease_def due_row_def)
  qed
  then show ?thesis
    using distinct_selectEligible [OF assms] by (fastforce simp: eligible_rows_def Let_def)
qed

lemma length_eligible:
  "length (eligible_rows input now locked table) =
     min (oi_batchSize input) (length (filter (\<lambda>row. o_eventType row \<in> set (oi_eventTypes input)
        \<and> (expired_lease now row \<or> due_row now row) \<and> \<not> locked (o_id row)) table))"
proof -
  let ?f = "\<lambda>row. o_eventType row \<in> set (oi_eventTypes input)"
  have "length (filter (\<lambda>row. ?f row \<and> (expired_lease now row \<or> due_row now row) \<and> \<not> locked (o_id row)) table) =
      length (filter (\<lambda>row. (?f row \<and> expired_lease now row) \<and> \<not> locked (o_id row)) table)
      + length (filter (\<lambda>row. (?f row \<and> due_row now row) \<and> \<not> locked (o_id row)) table)"
    by (induction table) (auto simp: expired_lease_def due_row_def)
  then show ?thesis by (auto simp: eligible_rows_def Let_def length_selectEligible)
qed

lemma claimBatch_Inr:
  assumes "distinct (map o_id table)" "claimBatch input now locked table = Inr (claims, table')"
  defines "rows \<equiv> eligible_rows input now locked table"
  shows "claims = map (\<lambda>row. \<lparr>oc_id = o_id row, oc_attempt = o_attempts row + 1\<rparr>) rows"
    and "table' = update_where (\<lambda>row. o_id row \<in> o_id ` set rows) (leased input now) table"
    and "oi_eventTypes input \<noteq> []"
proof -
  show types: "oi_eventTypes input \<noteq> []"
    using assms(2) by (auto simp: claimBatch_def eventTypePredicate_def)
  let ?family = "\<lambda>row. o_eventType row \<in> set (oi_eventTypes input)"
  have rows: "rows \<noteq> [] \<Longrightarrow> claims = map (\<lambda>i. \<lparr>oc_id = i, oc_attempt =
        (case map_of (map (\<lambda>row. (o_id row, o_attempts row)) (filter (\<lambda>row. o_id row \<in> set (map o_id rows)) table')) i of
           None \<Rightarrow> 0 | Some n \<Rightarrow> n)\<rparr>) (map o_id rows)"
    "rows \<noteq> [] \<Longrightarrow> table' = update_where (\<lambda>row. o_id row \<in> set (map o_id rows) \<and> ?family row) (leased input now) table"
    "rows = [] \<Longrightarrow> claims = [] \<and> table' = table"
    using assms(2) types
    by (simp_all add: claimBatch_def eventTypePredicate_def Let_def rows_def eligible_rows_def split: if_splits)
  have same: "(o_id row \<in> set (map o_id rows) \<and> ?family row) = (o_id row \<in> o_id ` set rows)" if "row \<in> set table" for row
  proof -
    have "?family row" if "o_id row = o_id r" "r \<in> set rows" for r
      using eligible_row(1,2) [of r input now locked table] that distinct_key_eq [OF assms(1) \<open>row \<in> set table\<close>, of r]
      by (auto simp: rows_def)
    then show ?thesis by auto
  qed
  show table': "table' = update_where (\<lambda>row. o_id row \<in> o_id ` set rows) (leased input now) table"
    using rows(2,3) same by (cases "rows = []") (auto simp: update_where_def)
  show "claims = map (\<lambda>row. \<lparr>oc_id = o_id row, oc_attempt = o_attempts row + 1\<rparr>) rows"
  proof (cases "rows = []")
    case False
    have "map_of (map (\<lambda>row. (o_id row, o_attempts row)) (filter (\<lambda>row. o_id row \<in> set (map o_id rows)) table')) (o_id r)
      = Some (o_attempts r + 1)" if r: "r \<in> set rows" for r
    proof -
      have "r \<in> set table" using eligible_row(1) r by (auto simp: rows_def)
      then have "leased input now r \<in> set table'" using r by (auto simp: table' update_where_def)
      moreover have "o_id (leased input now r) = o_id r" "o_attempts (leased input now r) = o_attempts r + 1"
        by (simp_all add: leased_def)
      moreover have "map o_id table' = map o_id table" by (simp add: table' update_where_def leased_def)
      then have "distinct (map o_id (filter (\<lambda>row. o_id row \<in> set (map o_id rows)) table'))"
        using assms(1) by (simp add: distinct_map_filter)
      moreover from calculation(1-3) r have "(o_id r, o_attempts r + 1) \<in> set (map (\<lambda>row. (o_id row, o_attempts row))
          (filter (\<lambda>row. o_id row \<in> set (map o_id rows)) table'))"
        unfolding set_map set_filter by (intro image_eqI [of _ _ "leased input now r"]) auto
      ultimately show ?thesis by (intro map_of_is_SomeI) (simp_all add: comp_def)
    qed
    then show ?thesis using rows(1) [OF False] by simp
  qed (use rows(3) in simp)
qed

lemma update_where_map: "(\<And>r. f r = f (g r)) \<Longrightarrow> map f (update_where P g rows) = map f rows"
  by (simp add: update_where_def)

lemma claimBatch_events:
  assumes "distinct (map o_id table)" "claimBatch input now locked table = Inr (claims, table')"
  shows "map event_of table' = map event_of table"
  unfolding claimBatch_Inr(2) [OF assms] by (rule update_where_map) simp

lemma release_events:
  "release input now table = Inr (ok, table') \<Longrightarrow> map event_of table' = map event_of table"
  by (auto simp: release_def and_then_Inr_iff Let_def intro!: update_where_map split: if_splits)

lemma wf_outbox_update:
  assumes "wf_outbox table" "map event_of table' = map event_of table" "\<And>row. row \<in> set table' \<Longrightarrow> lease_state row"
  shows "wf_outbox table'"
proof -
  have "map o_id table' = map o_id table" "map o_idempotencyKey table' = map o_idempotencyKey table"
    using arg_cong [OF assms(2), of "map fst"] arg_cong [OF assms(2), of "map (fst \<circ> snd \<circ> snd \<circ> snd)"]
    by (simp_all add: event_of_def comp_def)
  then show ?thesis using assms(1,3) by (simp add: wf_outbox_def)
qed

lemma claimBatch_wf:
  assumes "wf_outbox table" "claimBatch input now locked table = Inr (claims, table')"
  shows "wf_outbox table'"
proof -
  have d: "distinct (map o_id table)" using assms(1) by (simp add: wf_outbox_def)
  have "lease_state row" if "row \<in> set table'" for row
  proof -
    have "lease_state (leased input now r)" if r: "r \<in> set table" "o_id r \<in> o_id ` set (eligible_rows input now locked table)" for r
    proof -
      obtain e where e: "e \<in> set (eligible_rows input now locked table)" "o_id e = o_id r" using r(2) by auto
      then have "e = r" using eligible_row(1) distinct_key_eq [OF d _ r(1)] by blast
      then have "o_status r = OutPending \<or> o_status r = OutProcessing"
        using eligible_row(3) [OF e(1)] by (auto simp: expired_lease_def due_row_def)
      then show ?thesis using assms(1) r(1) by (auto simp: wf_outbox_def lease_state_def leased_def)
    qed
    then show ?thesis
      using that assms(1) unfolding claimBatch_Inr(2) [OF d assms(2)] by (auto simp: update_where_def wf_outbox_def)
  qed
  then show ?thesis using wf_outbox_update [OF assms(1) claimBatch_events [OF d assms(2)]] by blast
qed

lemma lease_state_released: "lease_state row \<Longrightarrow> o_status row = OutProcessing \<Longrightarrow> lease_state (released input now row)"
  by (simp add: lease_state_def released_def)

lemma release_wf:
  assumes "wf_outbox table" "release input now table = Inr (ok, table')"
  shows "wf_outbox table'"
proof (rule wf_outbox_update [OF assms(1) release_events [OF assms(2)]])
  fix row assume "row \<in> set table'"
  then show "lease_state row"
    using assms lease_state_released
    by (auto simp: release_def and_then_Inr_iff Let_def update_where_def wf_outbox_def holds_claim_def split: if_splits)
qed

text \<open>New arrivals are taken only when every expired lease has been.\<close>

lemma all_expired_first:
  assumes "\<exists>row \<in> set (eligible_rows input now locked table). due_row now row" "row \<in> set table"
    "o_eventType row \<in> set (oi_eventTypes input)" "expired_lease now row" "\<not> locked (o_id row)"
  shows "row \<in> set (eligible_rows input now locked table)"
proof -
  let ?P = "\<lambda>row. o_eventType row \<in> set (oi_eventTypes input) \<and> expired_lease now row"
  let ?expired = "selectEligible locked ?P (oi_batchSize input) table"
  obtain r where r: "r \<in> set (eligible_rows input now locked table)" "due_row now r" using assms(1) by blast
  have "length ?expired < oi_batchSize input"
  proof (rule ccontr)
    assume "\<not> ?thesis"
    then have "r \<in> set ?expired" using r(1) by (simp add: eligible_rows_def Let_def)
    then show False using r(2) by (auto dest!: in_selectEligible simp: expired_lease_def due_row_def)
  qed
  then have "?expired = sort_key o_availableAt (filter (\<lambda>row. ?P row \<and> \<not> locked (o_id row)) table)"
    by (simp add: selectEligible_def)
  then have "row \<in> set ?expired" using assms by simp
  then show ?thesis by (simp add: eligible_rows_def Let_def)
qed

definition demo_event :: outbox_row where
  "demo_event = \<lparr>o_id = ''e1'', o_eventType = ''t'', o_payload = JNull, o_availableAt = 3, o_status = OutPending,
     o_idempotencyKey = ''k'', o_lockedAt = None, o_lockExpiresAt = None, o_lockedBy = None, o_processedAt = None,
     o_attempts = 0, o_lastErrorCode = None, o_failedAt = None, o_createdAt = 1, o_updatedAt = 1\<rparr>"

definition demo_claim :: OutboxClaimInput where
  "demo_claim = \<lparr>oi_eventTypes = [''t''], oi_batchSize = 5, oi_leaseMs = 1000, oi_claimToken = ''w1''\<rparr>"

text \<open>A claim takes as much as it may: it claims the smaller of the batch size and the number of rows of
  the caller's own event types that are due or whose lease has expired and that no other transaction holds,
  expired leases before new arrivals; it spends one attempt on each and touches no other row.\<close>

theorem claim_takes_eligible:
  assumes "wf_outbox table" "claimBatch input now lockedElsewhere table = Inr (claims, table')"
  shows "\<exists>rows. claims = map (\<lambda>row. \<lparr>oc_id = o_id row, oc_attempt = o_attempts row + 1\<rparr>) rows
    \<and> distinct (map o_id rows)
    \<and> (\<forall>row \<in> set rows. row \<in> set table \<and> o_eventType row \<in> set (oi_eventTypes input) \<and> \<not> lockedElsewhere (o_id row)
         \<and> (expired_lease now row \<or> due_row now row))
    \<and> length claims = min (oi_batchSize input) (length (filter (\<lambda>row. o_eventType row \<in> set (oi_eventTypes input)
         \<and> (expired_lease now row \<or> due_row now row) \<and> \<not> lockedElsewhere (o_id row)) table))
    \<and> ((\<exists>row \<in> set rows. due_row now row) \<longrightarrow> (\<forall>row \<in> set table. o_eventType row \<in> set (oi_eventTypes input)
         \<and> expired_lease now row \<and> \<not> lockedElsewhere (o_id row) \<longrightarrow> row \<in> set rows))
    \<and> table' = map (\<lambda>row. if o_id row \<in> o_id ` set rows then leased input now row else row) table"
proof -
  have d: "distinct (map o_id table)" using assms(1) by (simp add: wf_outbox_def)
  let ?rows = "eligible_rows input now lockedElsewhere table"
  have expired: "(\<exists>row \<in> set ?rows. due_row now row) \<longrightarrow> (\<forall>row \<in> set table. o_eventType row \<in> set (oi_eventTypes input)
      \<and> expired_lease now row \<and> \<not> lockedElsewhere (o_id row) \<longrightarrow> row \<in> set ?rows)"
    using all_expired_first by blast
  have rows: "\<forall>row \<in> set ?rows. row \<in> set table \<and> o_eventType row \<in> set (oi_eventTypes input)
      \<and> \<not> lockedElsewhere (o_id row) \<and> (expired_lease now row \<or> due_row now row)"
    using eligible_row by blast
  note claims = claimBatch_Inr [OF d assms(2)]
  have len: "length claims = length ?rows" by (simp add: claims(1))
  show ?thesis
    by (intro exI [of _ ?rows] conjI) (rule claims(1) distinct_eligible [OF d] rows
        len [unfolded length_eligible] expired claims(2) [unfolded update_where_def])+
qed

theorem claim_takes_eligible_witness:
  "\<exists>table'. claimBatch demo_claim 5 (\<lambda>_. False) [demo_event] = Inr ([\<lparr>oc_id = ''e1'', oc_attempt = 1\<rparr>], table')"
proof -
  obtain claims table' where c: "claimBatch demo_claim 5 (\<lambda>_. False) [demo_event] = Inr (claims, table')"
    by (cases "claimBatch demo_claim 5 (\<lambda>_. False) [demo_event]")
      (auto simp: claimBatch_def eventTypePredicate_def demo_claim_def Let_def split: if_splits)
  have wf: "wf_outbox [demo_event]" by (simp add: wf_outbox_def lease_state_def demo_event_def)
  obtain rows where rows: "claims = map (\<lambda>row. \<lparr>oc_id = o_id row, oc_attempt = o_attempts row + 1\<rparr>) rows"
    "\<forall>row \<in> set rows. row \<in> set [demo_event]" "length claims = 1"
    using claim_takes_eligible [OF wf c] by (elim exE conjE) (simp add: demo_claim_def demo_event_def due_row_def)
  then have "rows = [demo_event]" by (cases rows) auto
  then show ?thesis using c rows(1) by (simp add: demo_event_def)
qed

text \<open>A release is fenced and refunds the attempt: it changes a row only while the caller's token and
  attempt still hold its claim, and then leaves the row pending with the attempts it had before the claim;
  a caller whose lease was recovered by someone else changes nothing.\<close>

theorem release_fenced:
  assumes "wf_outbox table" "rl_eventTypes input \<noteq> []" "0 < rl_attempt input"
  shows "\<exists>ok table'. release input now table = Inr (ok, table')
    \<and> (ok \<longleftrightarrow> (\<exists>row \<in> set table. o_id row = rl_id input \<and> o_eventType row \<in> set (rl_eventTypes input)
         \<and> o_status row = OutProcessing \<and> o_lockedBy row = Some (rl_claimToken input) \<and> o_attempts row = rl_attempt input))
    \<and> (\<not> ok \<longrightarrow> table' = table)
    \<and> (\<forall>row \<in> set table. \<exists>row' \<in> set table'. event_of row' = event_of row
         \<and> (row' = row \<or> row' = released input now row \<and> o_lockedBy row = Some (rl_claimToken input)
              \<and> o_attempts row' = rl_attempt input - 1 \<and> o_status row' = OutPending))"
proof -
  let ?hit = "\<lambda>row. o_id row = rl_id input \<and> o_eventType row \<in> set (rl_eventTypes input)
                  \<and> holds_claim (rl_claimToken input) (rl_attempt input) row"
  have r: "release input now table = Inr (0 < affected ?hit table, update_where ?hit (released input now) table)"
    using assms(2,3) by (auto simp: release_def eventTypePredicate_def Let_def holds_claim_def)
  have ok: "0 < affected ?hit table \<longleftrightarrow> (\<exists>row \<in> set table. ?hit row)"
    by (auto simp: affected_def filter_empty_conv)
  have "\<not> 0 < affected ?hit table \<Longrightarrow> update_where ?hit (released input now) table = table"
    unfolding ok by (intro update_where_id) blast
  moreover have "\<exists>row' \<in> set (update_where ?hit (released input now) table). event_of row' = event_of row
      \<and> (row' = row \<or> row' = released input now row \<and> o_lockedBy row = Some (rl_claimToken input)
           \<and> o_attempts row' = rl_attempt input - 1 \<and> o_status row' = OutPending)" if "row \<in> set table" for row
  proof (cases "?hit row")
    case True
    then have "released input now row \<in> set (update_where ?hit (released input now) table)"
      using that by (auto simp: update_where_def)
    then show ?thesis using True
      by (intro bexI [of _ "released input now row"]) (auto simp: holds_claim_def released_def event_of_def)
  next
    case False
    then show ?thesis using that by (intro bexI [of _ row]) (auto simp: update_where_def)
  qed
  ultimately show ?thesis unfolding r using ok by (auto simp: holds_claim_def)
qed

theorem release_fenced_witness:
  "release \<lparr>rl_eventTypes = [''t''], rl_id = ''e1'', rl_claimToken = ''stale'', rl_attempt = 1, rl_retryInMs = 10,
     rl_errorCode = ''QUEUE''\<rparr> 9 [leased demo_claim 5 demo_event] = Inr (False, [leased demo_claim 5 demo_event])"
proof -
  let ?i = "\<lparr>rl_eventTypes = [''t''], rl_id = ''e1'', rl_claimToken = ''stale'', rl_attempt = 1, rl_retryInMs = 10,
     rl_errorCode = ''QUEUE''\<rparr>"
  have "wf_outbox [leased demo_claim 5 demo_event]"
    by (simp add: wf_outbox_def lease_state_def demo_event_def leased_def)
  from release_fenced [OF this, of ?i 9] show ?thesis by (auto simp: leased_def demo_claim_def)
qed

end
