(* ===== verification/Lifecycle_Relay.thy ===== *)
theory Lifecycle_Relay
  imports Outbox
begin

text \<open>
  The stream of booking events from the outbox to the topic: the envelope and its parser
  (bookings/booking-lifecycle-message.ts), the statements of the relay
  (bookings/booking-lifecycle-relay.repository.ts) and its cycle
  (bookings/booking-lifecycle-relay.service.ts). A published value is kept as the JSON tree that
  \<open>JSON.stringify\<close> prints and \<open>JSON.parse\<close> reads back. The lemmas show that the
  consumer's parser reads every published message back, how long a retry waits and how a batch is
  split into what is published and what never will be.
\<close>

subsection \<open>The envelope\<close>

record BookingLifecycleMessage =
  m_key :: string
  m_value :: json
  m_timestampMs :: int
  m_headers :: "(string \<times> string) list"

record ClaimedLifecycleRow =
  lr_id :: string
  lr_payload :: json
  lr_createdAt :: int

definition bookingLifecycleEventTypes :: "string list" where
  "bookingLifecycleEventTypes = [bookingLifecycleEventType]"

definition toBookingLifecycleMessage ::
  "ClaimedLifecycleRow \<Rightarrow> BookingLifecyclePayload \<Rightarrow> BookingLifecycleMessage" where
  "toBookingLifecycleMessage row payload =
     \<lparr>m_key = lp_bookingId payload,
      m_value = JObj ([(''eventId'', JStr (lr_id row)), (''eventType'', JStr bookingLifecycleEventType),
                       (''occurredAt'', JStr (toISOString (lr_createdAt row)))] @ payload_fields payload),
      m_timestampMs = lr_createdAt row,
      m_headers = [(''event-id'', lr_id row), (''event-type'', bookingLifecycleEventType),
                   (''schema-version'', show_nat (nat bookingLifecycleEventSchemaVersion))]\<rparr>"

record ReceivedBookingLifecycleEvent =
  re_eventId :: string
  re_occurredAt :: int
  re_payload :: BookingLifecyclePayload

definition envelopeKeys :: "string list" where
  "envelopeKeys = [''eventId'', ''eventType'', ''occurredAt'']"

text \<open>
  \<open>new Date(text)\<close> for a text that is its own \<open>toISOString()\<close>: the instant its fields name. Any other
  text fails that comparison.
\<close>

definition date_of_iso :: "string \<Rightarrow> int option" where
  "date_of_iso v =
     (let d = take 10 v;
          ms = make_day (date_year d) (date_month d - 1) (date_day d) * millisecondsPerDay
               + int (decimal_value (take 2 (drop 11 v))) * 3600000
               + int (decimal_value (take 2 (drop 14 v))) * 60000
               + int (decimal_value (take 2 (drop 17 v))) * 1000
               + int (decimal_value (take 3 (drop 20 v)))
      in if toISOString ms = v then Some ms else None)"

definition utc_year :: "int \<Rightarrow> int" where
  "utc_year ms = year_from_day (ms div millisecondsPerDay)"

text \<open>The argument is the decoded value, \<open>None\<close> when \<open>JSON.parse\<close> throws.\<close>

definition parseBookingLifecycleMessage ::
  "(string \<Rightarrow> bool) \<Rightarrow> (string \<Rightarrow> bool) \<Rightarrow> json option \<Rightarrow> error + ReceivedBookingLifecycleEvent" where
  "parseBookingLifecycleMessage isUUID iso4217 decoded =
     (case decoded of
        Some (JObj entries) \<Rightarrow>
          and_then (requireString (json_field ''eventId'' entries) ''eventId'' isUUID) (\<lambda>eventId.
          if json_field ''eventType'' entries \<noteq> Some (JStr bookingLifecycleEventType) then Inl (invalid ''eventType'')
          else
          and_then (case json_field ''occurredAt'' entries of
                      Some (JStr v) \<Rightarrow>
                        (case date_of_iso v of
                           Some ms \<Rightarrow> if utc_year ms < 1000 \<or> utc_year ms > 9999 then Inl (invalid ''occurredAt'')
                                      else Inr ms
                         | None \<Rightarrow> Inl (invalid ''occurredAt''))
                    | _ \<Rightarrow> Inl (invalid ''occurredAt'')) (\<lambda>occurred.
          and_then (parseBookingLifecyclePayload iso4217
                      (JObj (filter (\<lambda>(key, _). key \<notin> set envelopeKeys) entries))) (\<lambda>payload.
          Inr \<lparr>re_eventId = eventId, re_occurredAt = occurred, re_payload = payload\<rparr>)))
      | _ \<Rightarrow> Inl (invalid ''value''))"

subsection \<open>The statements of the relay\<close>

definition familyPredicate :: "outbox_row \<Rightarrow> bool" where
  "familyPredicate row \<longleftrightarrow> o_eventType row \<in> set bookingLifecycleEventTypes"

definition claimed_row :: "outbox_row \<Rightarrow> ClaimedLifecycleRow" where
  "claimed_row row = \<lparr>lr_id = o_id row, lr_payload = o_payload row, lr_createdAt = o_createdAt row div 1000\<rparr>"

definition held :: "string list \<Rightarrow> string \<Rightarrow> outbox_row \<Rightarrow> bool" where
  "held ids token row \<longleftrightarrow>
     o_id row \<in> set ids \<and> familyPredicate row \<and> o_status row = OutProcessing \<and> o_lockedBy row = Some token"

definition readClaimed :: "string list \<Rightarrow> string \<Rightarrow> outbox_row list \<Rightarrow> ClaimedLifecycleRow list" where
  "readClaimed ids token table =
     (if ids = [] then []
      else map claimed_row (sort_key (\<lambda>row. (o_createdAt row, o_id row)) (filter (held ids token) table)))"

definition finish ::
  "string list \<Rightarrow> string \<Rightarrow> OutboxEventStatus \<Rightarrow> (outbox_row \<Rightarrow> outbox_row) \<Rightarrow> instant \<Rightarrow> outbox_row list
   \<Rightarrow> nat \<times> outbox_row list" where
  "finish ids token status assignments now table =
     (if ids = [] then (0, table)
      else (affected (held ids token) table,
            update_where (held ids token)
              (\<lambda>row. assignments (row\<lparr>o_status := status, o_lockedAt := None, o_lockExpiresAt := None,
                                     o_lockedBy := None, o_updatedAt := now\<rparr>)) table))"

definition markPublished :: "string list \<Rightarrow> string \<Rightarrow> instant \<Rightarrow> outbox_row list \<Rightarrow> nat \<times> outbox_row list" where
  "markPublished ids token now =
     finish ids token OutProcessed (\<lambda>row. row\<lparr>o_processedAt := Some now, o_lastErrorCode := None\<rparr>) now"

definition maximumBackoffExponent :: nat where
  "maximumBackoffExponent = 30"

text \<open>
  The delay in milliseconds: the initial one doubled per attempt after the first, plus at most a fifth, up to
  the ceiling. \<open>draw\<close> over \<open>2 ^ 53\<close> is the number RAND() returns for the row.
\<close>

definition retry_delay :: "nat \<Rightarrow> nat \<Rightarrow> nat \<Rightarrow> nat \<Rightarrow> nat" where
  "retry_delay initialMs maxMs draw attempts =
     (let base = initialMs * 2 ^ min (attempts - 1) maximumBackoffExponent in
      min (base * (5 * 2 ^ 53 + draw) div (5 * 2 ^ 53)) maxMs)"

definition markRetry ::
  "string list \<Rightarrow> string \<Rightarrow> nat \<Rightarrow> nat \<Rightarrow> (string \<Rightarrow> nat) \<Rightarrow> string \<Rightarrow> instant \<Rightarrow> outbox_row list
   \<Rightarrow> nat \<times> outbox_row list" where
  "markRetry ids token initialMs maxMs draw errorCode now =
     finish ids token OutPending
       (\<lambda>row. row\<lparr>o_availableAt := now + int (retry_delay initialMs maxMs (draw (o_id row)) (o_attempts row)) * 1000,
                  o_lastErrorCode := Some errorCode\<rparr>) now"

definition markFailed :: "string list \<Rightarrow> string \<Rightarrow> string \<Rightarrow> instant \<Rightarrow> outbox_row list \<Rightarrow> nat \<times> outbox_row list" where
  "markFailed ids token errorCode now =
     finish ids token OutFailed (\<lambda>row. row\<lparr>o_failedAt := Some now, o_lastErrorCode := Some errorCode\<rparr>) now"

subsection \<open>The cycle\<close>

definition message_of :: "(string \<Rightarrow> bool) \<Rightarrow> ClaimedLifecycleRow \<Rightarrow> error + BookingLifecycleMessage" where
  "message_of iso4217 row =
     and_then (parseBookingLifecyclePayload iso4217 (lr_payload row)) (\<lambda>payload.
     Inr (toBookingLifecycleMessage row payload))"

text \<open>The messages, the identifiers that may be published and those that never will be.\<close>

fun prepare ::
  "(string \<Rightarrow> bool) \<Rightarrow> ClaimedLifecycleRow list
   \<Rightarrow> BookingLifecycleMessage list \<times> string list \<times> string list" where
  "prepare iso4217 [] = ([], [], [])"
| "prepare iso4217 (row # rows) =
     (case prepare iso4217 rows of (messages, publishable, refused) \<Rightarrow>
        (case message_of iso4217 row of
           Inr message \<Rightarrow> (message # messages, lr_id row # publishable, refused)
         | Inl _ \<Rightarrow> (messages, publishable, lr_id row # refused)))"

record relay_config =
  claimBatchSize :: nat
  claimLeaseMs :: int
  backoffInitialMs :: nat
  backoffMaxMs :: nat

record BookingLifecycleRelayResult =
  rr_claimed :: nat
  rr_published :: nat
  rr_retried :: nat
  rr_failed :: nat

definition relay_claim :: "relay_config \<Rightarrow> string \<Rightarrow> OutboxClaimInput" where
  "relay_claim cfg token =
     \<lparr>oi_eventTypes = bookingLifecycleEventTypes, oi_batchSize = claimBatchSize cfg, oi_leaseMs = claimLeaseMs cfg,
      oi_claimToken = token\<rparr>"

definition errorCode_invalid :: string where
  "errorCode_invalid = ''BOOKING_STREAM_EVENT_INVALID''"

definition errorCode_publishFailed :: string where
  "errorCode_publishFailed = ''BOOKING_STREAM_PUBLISH_FAILED''"

definition empty_result :: BookingLifecycleRelayResult where
  "empty_result = \<lparr>rr_claimed = 0, rr_published = 0, rr_retried = 0, rr_failed = 0\<rparr>"

text \<open>
  One cycle without interference; \<open>publisher\<close> is \<open>None\<close> while the stream is disabled and otherwise says
  whether the publish resolves. The result has the counts, the table and what the broker was offered.
\<close>

definition runOnce ::
  "relay_config \<Rightarrow> (string \<Rightarrow> bool) \<Rightarrow> string \<Rightarrow> bool option \<Rightarrow> (string \<Rightarrow> nat) \<Rightarrow> (string \<Rightarrow> bool) \<Rightarrow> instant
   \<Rightarrow> outbox_row list \<Rightarrow> error + BookingLifecycleRelayResult \<times> outbox_row list \<times> BookingLifecycleMessage list" where
  "runOnce cfg iso4217 token publisher draw lockedElsewhere now table =
     (case publisher of
        None \<Rightarrow> Inr (empty_result, table, [])
      | Some acknowledged \<Rightarrow>
     and_then (claimBatch (relay_claim cfg token) now lockedElsewhere table) (\<lambda>(claims, table).
     if claims = [] then Inr (empty_result, table, [])
     else
     case prepare iso4217 (readClaimed (map oc_id claims) token table) of (messages, publishable, refused) \<Rightarrow>
     case markFailed refused token errorCode_invalid now table of (failed, table) \<Rightarrow>
     let result = empty_result\<lparr>rr_claimed := length claims, rr_failed := failed\<rparr> in
     if publishable = [] then Inr (result, table, [])
     else if \<not> acknowledged then
       (case markRetry publishable token (backoffInitialMs cfg) (backoffMaxMs cfg) draw
               errorCode_publishFailed now table of
          (retried, table) \<Rightarrow> Inr (result\<lparr>rr_retried := retried\<rparr>, table, messages))
     else
       (case markPublished publishable token now table of
          (published, table) \<Rightarrow> Inr (result\<lparr>rr_published := published\<rparr>, table, messages))))"

subsection \<open>Reading a message back\<close>

lemma date_of_toISOString:
  assumes "0 \<le> utc_year ms" "utc_year ms \<le> 9999"
  shows "date_of_iso (toISOString ms) = Some ms"
proof -
  define day where "day = ms div millisecondsPerDay"
  define t where "t = nat (ms mod millisecondsPerDay)"
  let ?date = "iso_date (year_from_day day) (month_from_day day + 1) (date_from_day day)"
  have y: "0 \<le> year_from_day day" "year_from_day day \<le> 9999" using assms by (simp_all add: utc_year_def day_def)
  have len: "length ?date = 10" by (rule iso_date_length [OF y])
  have t: "t < 86400000" by (simp add: t_def millisecondsPerDay_def nat_less_iff)
  have "t div 1000 div 60 = t div 60000" "t div 60000 div 60 = t div 3600000" by (simp_all flip: div_mult2_eq)
  then have split: "t = t div 3600000 * 3600000 + t div 60000 mod 60 * 60000 + t div 1000 mod 60 * 1000 + t mod 1000"
    using div_mult_mod_eq [of t 1000] div_mult_mod_eq [of "t div 1000" 60] div_mult_mod_eq [of "t div 60000" 60]
    by linarith
  have iso: "toISOString ms = ?date @ ''T'' @ pad_decimal 2 (t div 3600000) @ '':'' @ pad_decimal 2 (t div 60000 mod 60)
      @ '':'' @ pad_decimal 2 (t div 1000 mod 60) @ ''.'' @ pad_decimal 3 (t mod 1000) @ ''Z''"
    by (simp add: toISOString_def Let_def day_def t_def)
  have parts: "take 10 (toISOString ms) = ?date" "take 2 (drop 11 (toISOString ms)) = pad_decimal 2 (t div 3600000)"
    "take 2 (drop 14 (toISOString ms)) = pad_decimal 2 (t div 60000 mod 60)"
    "take 2 (drop 17 (toISOString ms)) = pad_decimal 2 (t div 1000 mod 60)"
    "take 3 (drop 20 (toISOString ms)) = pad_decimal 3 (t mod 1000)"
    unfolding iso using len by simp_all
  have digits: "decimal_value (pad_decimal 2 (t div 3600000)) = t div 3600000"
    "decimal_value (pad_decimal 2 (t div 60000 mod 60)) = t div 60000 mod 60"
    "decimal_value (pad_decimal 2 (t div 1000 mod 60)) = t div 1000 mod 60"
    "decimal_value (pad_decimal 3 (t mod 1000)) = t mod 1000"
    using t by (simp_all add: decimal_value_pad less_trans [OF pos_mod_bound])
  have "ms = day * millisecondsPerDay + int t"
    by (simp add: day_def t_def millisecondsPerDay_def)
  also have "int t = int (t div 3600000) * 3600000 + int (t div 60000 mod 60) * 60000 + int (t div 1000 mod 60) * 1000
      + int (t mod 1000)"
    by (subst split) simp
  finally have "day * millisecondsPerDay + int (t div 3600000) * 3600000 + int (t div 60000 mod 60) * 60000
      + int (t div 1000 mod 60) * 1000 + int (t mod 1000) = ms"
    by linarith
  then show ?thesis
    unfolding date_of_iso_def Let_def parts digits matches_iso_date(2-4) [OF y valid_date_of_day(1)]
      add_diff_cancel_right' valid_date_of_day(2)
    by simp
qed

lemma envelope_split:
  "filter (\<lambda>(key, _). key \<notin> set envelopeKeys)
     ([(''eventId'', a), (''eventType'', b), (''occurredAt'', c)] @ payload_fields p) = payload_fields p"
  by (simp add: envelopeKeys_def payload_fields_def)

lemma parse_published:
  assumes "valid_payload iso4217 p" "isUUID (lr_id row)" "1000 \<le> utc_year (lr_createdAt row)" "utc_year (lr_createdAt row) \<le> 9999"
  shows "parseBookingLifecycleMessage isUUID iso4217 (Some (m_value (toBookingLifecycleMessage row p))) =
    Inr \<lparr>re_eventId = lr_id row, re_occurredAt = lr_createdAt row, re_payload = p\<rparr>"
proof -
  have "json_field ''eventId'' ([(''eventId'', a), (''eventType'', b), (''occurredAt'', c)] @ payload_fields p) = Some a"
    "json_field ''eventType'' ([(''eventId'', a), (''eventType'', b), (''occurredAt'', c)] @ payload_fields p) = Some b"
    "json_field ''occurredAt'' ([(''eventId'', a), (''eventType'', b), (''occurredAt'', c)] @ payload_fields p) = Some c" for a b c
    by (simp_all add: json_field_def)
  then show ?thesis
    using assms date_of_toISOString [of "lr_createdAt row"] parse_payload_json [OF assms(1)]
    unfolding parseBookingLifecycleMessage_def toBookingLifecycleMessage_def BookingLifecycleMessage.select_convs
      option.case json.case envelope_split
    by (simp add: requireString_def payload_json_def del: append.simps)
qed

subsection \<open>The delay of a retry\<close>

lemma retry_delay_bounds:
  assumes "draw < 2 ^ 53"
  shows "min (initialMs * 2 ^ min (attempts - 1) 30) maxMs \<le> retry_delay initialMs maxMs draw attempts"
    "retry_delay initialMs maxMs draw attempts \<le> maxMs"
    "5 * retry_delay initialMs maxMs draw attempts \<le> 6 * (initialMs * 2 ^ min (attempts - 1) 30)"
proof -
  define base where "base = initialMs * 2 ^ min (attempts - 1) 30"
  define q where "q = base * (5 * 2 ^ 53 + draw) div (5 * 2 ^ 53)"
  have r: "retry_delay initialMs maxMs draw attempts = min q maxMs"
    by (simp add: retry_delay_def maximumBackoffExponent_def base_def q_def)
  have "base * (5 * 2 ^ 53) div (5 * 2 ^ 53) \<le> q" unfolding q_def by (intro div_le_mono mult_le_mono) simp_all
  then have low: "base \<le> q" by simp
  have "5 * (q * 2 ^ 53) = q * (5 * 2 ^ 53)" by simp
  also have "\<dots> \<le> base * (5 * 2 ^ 53 + draw)" unfolding q_def by (rule div_times_less_eq_dividend)
  also have "\<dots> \<le> base * (6 * 2 ^ 53)" using assms by (intro mult_le_mono) simp_all
  finally have high: "5 * q \<le> 6 * base" by simp
  show "min (initialMs * 2 ^ min (attempts - 1) 30) maxMs \<le> retry_delay initialMs maxMs draw attempts"
    "retry_delay initialMs maxMs draw attempts \<le> maxMs"
    "5 * retry_delay initialMs maxMs draw attempts \<le> 6 * (initialMs * 2 ^ min (attempts - 1) 30)"
    unfolding base_def [symmetric] r using low high by auto
qed


subsection \<open>What a cycle makes of its rows\<close>

lemma message_of_Inr:
  "message_of iso4217 row = Inr message \<longleftrightarrow>
     (\<exists>payload. parseBookingLifecyclePayload iso4217 (lr_payload row) = Inr payload
        \<and> message = toBookingLifecycleMessage row payload)"
  by (auto simp: message_of_def and_then_Inr_iff)

lemma prepare_sets:
  assumes "prepare iso4217 rows = (messages, publishable, refused)"
  shows "set messages = {m. \<exists>row \<in> set rows. message_of iso4217 row = Inr m}"
    "set publishable = lr_id ` {row \<in> set rows. \<exists>m. message_of iso4217 row = Inr m}"
    "set refused = lr_id ` {row \<in> set rows. \<nexists>m. message_of iso4217 row = Inr m}"
    "length messages = length publishable" "length publishable + length refused = length rows"
  using assms
  by (induction rows arbitrary: messages publishable refused)
    (fastforce split: prod.splits sum.splits)+

lemma prepare_distinct:
  assumes "prepare iso4217 rows = (messages, publishable, refused)" "distinct (map lr_id rows)"
  shows "distinct publishable \<and> distinct refused \<and> set publishable \<inter> set refused = {}"
  using assms
proof (induction rows arbitrary: messages publishable refused)
  case (Cons row rows)
  obtain ms ps rs where p: "prepare iso4217 rows = (ms, ps, rs)" by (cases "prepare iso4217 rows")
  have "lr_id row \<notin> set ps" "lr_id row \<notin> set rs" using Cons.prems(2) by (auto simp: prepare_sets(2,3) [OF p])
  then show ?case using Cons.prems Cons.IH [OF p] p by (auto split: sum.splits)
qed simp

lemma set_readClaimed: "set (readClaimed ids token table) = claimed_row ` {row \<in> set table. held ids token row}"
  by (auto simp: readClaimed_def held_def)

lemma readClaimed_distinct: "distinct (map o_id table) \<Longrightarrow> distinct (map lr_id (readClaimed ids token table))"
  by (simp add: readClaimed_def comp_def claimed_row_def distinct_map_filter)

lemma held_prepared:
  assumes "distinct (map o_id table)" "prepare iso4217 (readClaimed ids token table) = (messages, publishable, refused)"
    "row \<in> set table"
  shows "held publishable token row \<Longrightarrow> \<exists>m \<in> set messages. message_of iso4217 (claimed_row row) = Inr m"
    "held refused token row \<Longrightarrow> \<nexists>m. message_of iso4217 (claimed_row row) = Inr m"
proof -
  have unique: "row' = row" if "o_id row = lr_id (claimed_row row')" "row' \<in> set table" for row'
    using distinct_key_eq [OF assms(1,3) that(2)] that(1) by (simp add: claimed_row_def)
  show "held publishable token row \<Longrightarrow> \<exists>m \<in> set messages. message_of iso4217 (claimed_row row) = Inr m"
    using unique by (auto simp: held_def prepare_sets [OF assms(2)] set_readClaimed)
  show "held refused token row \<Longrightarrow> \<nexists>m. message_of iso4217 (claimed_row row) = Inr m"
    using unique by (auto simp: held_def prepare_sets [OF assms(2)] set_readClaimed)
qed

end
