(* ===== verification/Relay_System.thy ===== *)
theory Relay_System
  imports Lifecycle_Relay Transition_Systems
begin

text \<open>
  Many relay cycles over one table, one clock and one topic. A cycle is known by its claim token and is
  in one of the phases between two statements of \<open>runOnce\<close>; a cycle that stops for good (its process died)
  simply takes no further step. Everything that is not a relay is one rule: it may write new pending
  events, delete finished ones and do as it likes with the rows of other families. The topic is what the
  broker has stored; a publish that is refused may have stored any part of its batch, as the port
  BookingLifecyclePublisher documents. The invariant of the system gives that an event marked as processed
  has reached the topic and that only invalid events are given up.
\<close>

subsection \<open>The system\<close>

datatype cycle =
    Unused
  | Claimed "string list"
  | Prepared "BookingLifecycleMessage list" "string list" "string list"
  | Publishing "BookingLifecycleMessage list" "string list"
  | Acknowledged "string list"
  | Refused "string list"
  | Finished

record relay_state =
  rs_table :: "outbox_row list"
  rs_topic :: "BookingLifecycleMessage list"
  rs_now :: instant
  rs_cycles :: "string \<Rightarrow> cycle"

text \<open>What the rest of the program may do to the table: a row of the family is an old one, or new and pending.\<close>

definition foreign_change :: "outbox_row list \<Rightarrow> outbox_row list \<Rightarrow> bool" where
  "foreign_change table table' \<longleftrightarrow>
     wf_outbox table' \<and> (\<forall>row \<in> set table'. familyPredicate row \<longrightarrow> row \<in> set table \<or> o_status row = OutPending)"

inductive relay_step :: "relay_config \<Rightarrow> (string \<Rightarrow> bool) \<Rightarrow> relay_state \<Rightarrow> relay_state \<Rightarrow> bool"
  for cfg iso4217 where
  foreign: "foreign_change (rs_table s) table \<Longrightarrow> relay_step cfg iso4217 s (s\<lparr>rs_table := table\<rparr>)"
| clock: "rs_now s \<le> t \<Longrightarrow> relay_step cfg iso4217 s (s\<lparr>rs_now := t\<rparr>)"
| claimed: "rs_cycles s token = Unused \<Longrightarrow>
    claimBatch (relay_claim cfg token) (rs_now s) lockedElsewhere (rs_table s) = Inr (claims, table) \<Longrightarrow>
    relay_step cfg iso4217 s
      (s\<lparr>rs_table := table, rs_cycles := (rs_cycles s)(token := Claimed (map oc_id claims))\<rparr>)"
| read: "rs_cycles s token = Claimed ids \<Longrightarrow>
    prepare iso4217 (readClaimed ids token (rs_table s)) = (messages, publishable, refused) \<Longrightarrow>
    relay_step cfg iso4217 s (s\<lparr>rs_cycles := (rs_cycles s)(token := Prepared messages publishable refused)\<rparr>)"
| gave_up: "rs_cycles s token = Prepared messages publishable refused \<Longrightarrow>
    markFailed refused token errorCode_invalid (rs_now s) (rs_table s) = (n, table) \<Longrightarrow>
    relay_step cfg iso4217 s
      (s\<lparr>rs_table := table, rs_cycles := (rs_cycles s)(token := Publishing messages publishable)\<rparr>)"
| acknowledged: "rs_cycles s token = Publishing messages publishable \<Longrightarrow>
    relay_step cfg iso4217 s
      (s\<lparr>rs_topic := rs_topic s @ messages, rs_cycles := (rs_cycles s)(token := Acknowledged publishable)\<rparr>)"
| rejected: "rs_cycles s token = Publishing messages publishable \<Longrightarrow> set written \<subseteq> set messages \<Longrightarrow>
    relay_step cfg iso4217 s
      (s\<lparr>rs_topic := rs_topic s @ written, rs_cycles := (rs_cycles s)(token := Refused publishable)\<rparr>)"
| published: "rs_cycles s token = Acknowledged publishable \<Longrightarrow>
    markPublished publishable token (rs_now s) (rs_table s) = (n, table) \<Longrightarrow>
    relay_step cfg iso4217 s (s\<lparr>rs_table := table, rs_cycles := (rs_cycles s)(token := Finished)\<rparr>)"
| retried: "rs_cycles s token = Refused publishable \<Longrightarrow>
    markRetry publishable token (backoffInitialMs cfg) (backoffMaxMs cfg) draw errorCode_publishFailed
      (rs_now s) (rs_table s) = (n, table) \<Longrightarrow>
    relay_step cfg iso4217 s (s\<lparr>rs_table := table, rs_cycles := (rs_cycles s)(token := Finished)\<rparr>)"

definition relay_init :: relay_state where
  "relay_init = \<lparr>rs_table = [], rs_topic = [], rs_now = 0, rs_cycles = (\<lambda>_. Unused)\<rparr>"

definition relay_reachable :: "relay_config \<Rightarrow> (string \<Rightarrow> bool) \<Rightarrow> relay_state \<Rightarrow> bool" where
  "relay_reachable cfg iso4217 s \<longleftrightarrow> (relay_step cfg iso4217)\<^sup>*\<^sup>* relay_init s"

subsection \<open>The invariant\<close>

definition on_topic :: "(string \<Rightarrow> bool) \<Rightarrow> BookingLifecycleMessage list \<Rightarrow> outbox_row \<Rightarrow> bool" where
  "on_topic iso4217 topic row \<longleftrightarrow> (\<exists>m \<in> set topic. message_of iso4217 (claimed_row row) = Inr m)"

definition unreadable :: "(string \<Rightarrow> bool) \<Rightarrow> outbox_row \<Rightarrow> bool" where
  "unreadable iso4217 row \<longleftrightarrow> (\<nexists>m. message_of iso4217 (claimed_row row) = Inr m)"

definition leased_by :: "string \<Rightarrow> outbox_row \<Rightarrow> bool" where
  "leased_by token row \<longleftrightarrow> familyPredicate row \<and> o_status row = OutProcessing \<and> o_lockedBy row = Some token"

lemma held_iff: "held ids token row \<longleftrightarrow> leased_by token row \<and> o_id row \<in> set ids"
  by (auto simp: held_def leased_by_def)

fun cycle_ok :: "(string \<Rightarrow> bool) \<Rightarrow> BookingLifecycleMessage list \<Rightarrow> string \<Rightarrow> cycle \<Rightarrow> outbox_row \<Rightarrow> bool" where
  "cycle_ok iso4217 topic token Unused row \<longleftrightarrow> \<not> leased_by token row"
| "cycle_ok iso4217 topic token (Claimed ids) row \<longleftrightarrow> True"
| "cycle_ok iso4217 topic token (Prepared messages publishable refused) row \<longleftrightarrow>
     (held publishable token row \<longrightarrow> on_topic iso4217 messages row) \<and> (held refused token row \<longrightarrow> unreadable iso4217 row)"
| "cycle_ok iso4217 topic token (Publishing messages publishable) row \<longleftrightarrow>
     (held publishable token row \<longrightarrow> on_topic iso4217 messages row)"
| "cycle_ok iso4217 topic token (Acknowledged publishable) row \<longleftrightarrow>
     (held publishable token row \<longrightarrow> on_topic iso4217 topic row)"
| "cycle_ok iso4217 topic token (Refused publishable) row \<longleftrightarrow> True"
| "cycle_ok iso4217 topic token Finished row \<longleftrightarrow> True"

definition row_ok :: "(string \<Rightarrow> bool) \<Rightarrow> BookingLifecycleMessage list \<Rightarrow> outbox_row \<Rightarrow> bool" where
  "row_ok iso4217 topic row \<longleftrightarrow>
     (o_status row = OutProcessed \<longrightarrow> on_topic iso4217 topic row) \<and> (o_status row = OutFailed \<longrightarrow> unreadable iso4217 row)"

definition genuine :: "(string \<Rightarrow> bool) \<Rightarrow> BookingLifecycleMessage \<Rightarrow> bool" where
  "genuine iso4217 m \<longleftrightarrow> (\<exists>row. message_of iso4217 row = Inr m)"

fun cycle_messages :: "cycle \<Rightarrow> BookingLifecycleMessage list" where
  "cycle_messages (Prepared messages publishable refused) = messages"
| "cycle_messages (Publishing messages publishable) = messages"
| "cycle_messages _ = []"

definition relay_inv :: "(string \<Rightarrow> bool) \<Rightarrow> relay_state \<Rightarrow> bool" where
  "relay_inv iso4217 s \<longleftrightarrow>
     wf_outbox (rs_table s)
     \<and> (\<forall>row \<in> set (rs_table s). familyPredicate row \<longrightarrow> row_ok iso4217 (rs_topic s) row
          \<and> (\<forall>token. cycle_ok iso4217 (rs_topic s) token (rs_cycles s token) row))
     \<and> (\<forall>m \<in> set (rs_topic s). genuine iso4217 m)
     \<and> (\<forall>token. \<forall>m \<in> set (cycle_messages (rs_cycles s token)). genuine iso4217 m)"

lemma cycle_ok_not_held: "\<not> leased_by token row \<Longrightarrow> cycle_ok iso4217 topic token c row"
  by (cases c) (simp_all add: held_iff)

lemma cycle_ok_topic: "cycle_ok iso4217 topic token c row \<Longrightarrow> set topic \<subseteq> set topic' \<Longrightarrow> cycle_ok iso4217 topic' token c row"
  by (cases c) (auto simp: on_topic_def)

lemma row_ok_topic: "row_ok iso4217 topic row \<Longrightarrow> set topic \<subseteq> set topic' \<Longrightarrow> row_ok iso4217 topic' row"
  by (auto simp: row_ok_def on_topic_def)

text \<open>A statement that rewrites the rows it selects, checked row by row.\<close>

lemma relay_inv_update:
  assumes inv: "relay_inv iso4217 s" and wf: "wf_outbox table'" and table: "table' = update_where P g (rs_table s)"
    and family: "\<And>row. familyPredicate (g row) = familyPredicate row"
    and messages: "\<forall>m \<in> set (cycle_messages c). genuine iso4217 m"
    and untouched: "\<And>row. row \<in> set (rs_table s) \<Longrightarrow> familyPredicate row \<Longrightarrow> \<not> P row \<Longrightarrow>
      cycle_ok iso4217 (rs_topic s) token (rs_cycles s token) row \<Longrightarrow> cycle_ok iso4217 (rs_topic s) token c row"
    and touched: "\<And>row. row \<in> set (rs_table s) \<Longrightarrow> familyPredicate row \<Longrightarrow> P row \<Longrightarrow>
      cycle_ok iso4217 (rs_topic s) token (rs_cycles s token) row \<Longrightarrow>
      row_ok iso4217 (rs_topic s) (g row) \<and> cycle_ok iso4217 (rs_topic s) token c (g row) \<and> (\<forall>other. other \<noteq> token \<longrightarrow> \<not> leased_by other (g row))"
  shows "relay_inv iso4217 (s\<lparr>rs_table := table', rs_cycles := (rs_cycles s)(token := c)\<rparr>)"
proof -
  have "row_ok iso4217 (rs_topic s) row \<and> cycle_ok iso4217 (rs_topic s) other (((rs_cycles s)(token := c)) other) row"
    if row: "row \<in> set table'" "familyPredicate row" for row other
  proof -
    obtain r where r: "r \<in> set (rs_table s)" "row = (if P r then g r else r)"
      using row(1) by (auto simp: table update_where_def)
    then have fam: "familyPredicate r" using row(2) family by (auto split: if_splits)
    with inv r(1) have ok: "row_ok iso4217 (rs_topic s) r" "\<And>t. cycle_ok iso4217 (rs_topic s) t (rs_cycles s t) r"
      by (auto simp: relay_inv_def)
    show ?thesis
      using touched [OF r(1) fam _ ok(2)] untouched [OF r(1) fam _ ok(2)] ok r(2)
      by (cases "P r"; cases "other = token") (auto intro: cycle_ok_not_held)
  qed
  then show ?thesis using inv wf messages by (simp add: relay_inv_def)
qed


lemma familyPredicate_leased [simp]: "familyPredicate (leased input now row) = familyPredicate row"
  by (simp add: familyPredicate_def leased_def)

lemma claimed_row_leased [simp]: "claimed_row (leased input now row) = claimed_row row"
  by (simp add: claimed_row_def leased_def)

text \<open>The statements that end a claim, and that they keep the table well formed.\<close>

definition closed :: "OutboxEventStatus \<Rightarrow> (outbox_row \<Rightarrow> outbox_row) \<Rightarrow> instant \<Rightarrow> outbox_row \<Rightarrow> outbox_row" where
  "closed status assignments now row =
     assignments (row\<lparr>o_status := status, o_lockedAt := None, o_lockExpiresAt := None, o_lockedBy := None,
                      o_updatedAt := now\<rparr>)"

lemma finish_eq:
  "finish ids token status assignments now table =
     (affected (held ids token) table, update_where (held ids token) (closed status assignments now) table)"
  by (auto simp: finish_def closed_def held_def affected_def update_where_def)

lemma finish_wf:
  assumes "wf_outbox table" "finish ids token status assignments now table = (n, table')"
    "\<And>row. event_of (closed status assignments now row) = event_of row"
    "\<And>row. lease_state row \<Longrightarrow> o_status row = OutProcessing \<Longrightarrow> lease_state (closed status assignments now row)"
  shows "wf_outbox table'"
proof (rule wf_outbox_update [OF assms(1)])
  have table': "table' = update_where (held ids token) (closed status assignments now) table"
    using assms(2) by (simp add: finish_eq)
  show "map event_of table' = map event_of table" unfolding table' by (rule update_where_map) (simp add: assms(3))
  show "lease_state row" if "row \<in> set table'" for row
    using that assms(1,4) by (auto simp: table' update_where_def wf_outbox_def held_def split: if_splits)
qed

lemma closed_processed:
  assumes "lease_state row" "o_status row = OutProcessing"
  shows "lease_state (closed OutProcessed (\<lambda>row. row\<lparr>o_processedAt := Some now, o_lastErrorCode := None\<rparr>) now row)"
  using assms by (simp add: lease_state_def closed_def)

lemma mark_wf:
  assumes "wf_outbox table"
  shows "markPublished ids token now table = (n, table') \<Longrightarrow> wf_outbox table'"
    "markRetry ids token initialMs maxMs draw code now table = (n, table') \<Longrightarrow> wf_outbox table'"
    "markFailed ids token code now table = (n, table') \<Longrightarrow> wf_outbox table'"
  unfolding markPublished_def markRetry_def markFailed_def
  by (erule finish_wf [OF assms]; simp add: closed_def event_of_def lease_state_def)+

text \<open>A publish, acknowledged or not, only adds to the topic.\<close>

lemma relay_inv_messages:
  "relay_inv iso4217 s \<Longrightarrow> m \<in> set (cycle_messages (rs_cycles s token)) \<Longrightarrow> genuine iso4217 m"
  by (auto simp: relay_inv_def)

lemma relay_inv_written:
  assumes inv: "relay_inv iso4217 s" and "\<forall>m \<in> set written. genuine iso4217 m" "cycle_messages c = []"
    and c: "\<And>row. cycle_ok iso4217 (rs_topic s) token (rs_cycles s token) row \<Longrightarrow>
      cycle_ok iso4217 (rs_topic s @ written) token c row"
  shows "relay_inv iso4217 (s\<lparr>rs_topic := rs_topic s @ written, rs_cycles := (rs_cycles s)(token := c)\<rparr>)"
proof -
  have "row_ok iso4217 (rs_topic s @ written) row
      \<and> cycle_ok iso4217 (rs_topic s @ written) t (((rs_cycles s)(token := c)) t) row"
    if row: "row \<in> set (rs_table s)" "familyPredicate row" for row t
  proof -
    have ok: "row_ok iso4217 (rs_topic s) row" "cycle_ok iso4217 (rs_topic s) t (rs_cycles s t) row"
      using inv row by (auto simp: relay_inv_def)
    then show ?thesis
      using row_ok_topic [OF ok(1), of "rs_topic s @ written"] cycle_ok_topic [OF ok(2), of "rs_topic s @ written"] c
      by auto
  qed
  then show ?thesis using assms by (auto simp: relay_inv_def)
qed

lemma relay_step_claimed:
  assumes "relay_inv iso4217 s" "rs_cycles s token = Unused"
    "claimBatch (relay_claim cfg token) (rs_now s) lockedElsewhere (rs_table s) = Inr (claims, table)"
  shows "relay_inv iso4217 (s\<lparr>rs_table := table, rs_cycles := (rs_cycles s)(token := Claimed (map oc_id claims))\<rparr>)"
proof -
  have wf: "wf_outbox (rs_table s)" using assms(1) by (simp add: relay_inv_def)
  then have d: "distinct (map o_id (rs_table s))" by (simp add: wf_outbox_def)
  show ?thesis
    by (rule relay_inv_update [OF assms(1) claimBatch_wf [OF wf assms(3)] claimBatch_Inr(2) [OF d assms(3)]])
      (auto simp: row_ok_def leased_by_def leased_def relay_claim_def familyPredicate_def)
qed

lemma relay_step_read:
  assumes "relay_inv iso4217 s" "prepare iso4217 (readClaimed ids token (rs_table s)) = (messages, publishable, refused)"
  shows "relay_inv iso4217 (s\<lparr>rs_cycles := (rs_cycles s)(token := Prepared messages publishable refused)\<rparr>)"
proof -
  have d: "distinct (map o_id (rs_table s))" using assms(1) by (simp add: relay_inv_def wf_outbox_def)
  have "genuine iso4217 m" if "m \<in> set messages" for m
    using that unfolding prepare_sets(1) [OF assms(2)] by (auto simp: genuine_def)
  moreover have "cycle_ok iso4217 (rs_topic s) token (Prepared messages publishable refused) row"
    if "row \<in> set (rs_table s)" for row
    using held_prepared [OF d assms(2) that] by (auto simp: on_topic_def unreadable_def)
  ultimately show ?thesis using assms(1) by (simp add: relay_inv_def)
qed

lemma relay_step_gave_up:
  assumes "relay_inv iso4217 s" "rs_cycles s token = Prepared messages publishable refused"
    "markFailed refused token errorCode_invalid (rs_now s) (rs_table s) = (n, table)"
  shows "relay_inv iso4217 (s\<lparr>rs_table := table, rs_cycles := (rs_cycles s)(token := Publishing messages publishable)\<rparr>)"
proof (rule relay_inv_update [OF assms(1)])
  show "wf_outbox table" using assms(1) mark_wf(3) [OF _ assms(3)] by (auto simp: relay_inv_def)
  show "table = update_where (held refused token)
      (closed OutFailed (\<lambda>row. row\<lparr>o_failedAt := Some (rs_now s), o_lastErrorCode := Some errorCode_invalid\<rparr>) (rs_now s))
      (rs_table s)"
    using assms(3) by (simp add: markFailed_def finish_eq)
  show "\<forall>m \<in> set (cycle_messages (Publishing messages publishable)). genuine iso4217 m"
    using relay_inv_messages [OF assms(1), of _ token] assms(2) by simp
qed (auto simp: assms(2) closed_def familyPredicate_def row_ok_def unreadable_def claimed_row_def leased_by_def held_def)

lemma relay_step_published:
  assumes "relay_inv iso4217 s" "rs_cycles s token = Acknowledged publishable"
    "markPublished publishable token (rs_now s) (rs_table s) = (n, table)"
  shows "relay_inv iso4217 (s\<lparr>rs_table := table, rs_cycles := (rs_cycles s)(token := Finished)\<rparr>)"
proof (rule relay_inv_update [OF assms(1)])
  show "wf_outbox table" using assms(1) mark_wf(1) [OF _ assms(3)] by (auto simp: relay_inv_def)
  show "table = update_where (held publishable token)
      (closed OutProcessed (\<lambda>row. row\<lparr>o_processedAt := Some (rs_now s), o_lastErrorCode := None\<rparr>) (rs_now s)) (rs_table s)"
    using assms(3) by (simp add: markPublished_def finish_eq)
qed (auto simp: assms(2) closed_def familyPredicate_def row_ok_def on_topic_def claimed_row_def leased_by_def)

lemma relay_step_retried:
  assumes "relay_inv iso4217 s"
    "markRetry publishable token initialMs maxMs draw code (rs_now s) (rs_table s) = (n, table)"
  shows "relay_inv iso4217 (s\<lparr>rs_table := table, rs_cycles := (rs_cycles s)(token := Finished)\<rparr>)"
proof (rule relay_inv_update [OF assms(1)])
  show "wf_outbox table" using assms(1) mark_wf(2) [OF _ assms(2)] by (auto simp: relay_inv_def)
  show "table = update_where (held publishable token)
      (closed OutPending (\<lambda>row. row\<lparr>o_availableAt := rs_now s + int (retry_delay initialMs maxMs (draw (o_id row))
        (o_attempts row)) * 1000, o_lastErrorCode := Some code\<rparr>) (rs_now s)) (rs_table s)"
    using assms(2) by (simp add: markRetry_def finish_eq)
qed (auto simp: closed_def familyPredicate_def row_ok_def leased_by_def)

lemma relay_step_inv:
  assumes "relay_inv iso4217 s" "relay_step cfg iso4217 s s'"
  shows "relay_inv iso4217 s'"
  using assms(2)
proof cases
  case (foreign table)
  have "cycle_ok iso4217 (rs_topic s) token (rs_cycles s token) row" "row_ok iso4217 (rs_topic s) row"
    if "o_status row = OutPending" for row token
    using that by (auto intro!: cycle_ok_not_held simp: leased_by_def row_ok_def)
  then show ?thesis using assms(1) foreign by (auto simp: relay_inv_def foreign_change_def)
next
  case (clock t)
  then show ?thesis using assms(1) by (simp add: relay_inv_def)
next
  case (acknowledged token messages publishable)
  then show ?thesis
    using relay_inv_written [OF assms(1), of messages "Acknowledged publishable" token]
      relay_inv_messages [OF assms(1), of _ token] by (simp add: on_topic_def bex_Un)
next
  case (rejected token messages publishable written)
  then show ?thesis
    using relay_inv_written [OF assms(1), of written "Refused publishable" token]
      relay_inv_messages [OF assms(1), of _ token] by (auto simp: subset_iff)
qed (auto intro: relay_step_claimed relay_step_read relay_step_gave_up relay_step_published relay_step_retried assms(1))

interpretation relay: transition_system "relay_step cfg iso4217" "relay_inv iso4217" relay_init for cfg iso4217
  by unfold_locales (simp add: relay_inv_def relay_init_def wf_outbox_def, rule relay_step_inv)


subsection \<open>One cycle\<close>

text \<open>A cycle that is not interfered with is a run of the system.\<close>

lemma prepared_steps:
  assumes "rs_cycles s token = Unused"
    "claimBatch (relay_claim cfg token) (rs_now s) lockedElsewhere (rs_table s) = Inr (claims, table1)"
    "prepare iso4217 (readClaimed (map oc_id claims) token table1) = (messages, publishable, refused)"
    "markFailed refused token errorCode_invalid (rs_now s) table1 = (n, table2)"
  shows "(relay_step cfg iso4217)\<^sup>*\<^sup>* s
    (s\<lparr>rs_table := table2, rs_cycles := (rs_cycles s)(token := Publishing messages publishable)\<rparr>)"
proof -
  let ?step = "relay_step cfg iso4217"
  define s1 where "s1 = s\<lparr>rs_table := table1, rs_cycles := (rs_cycles s)(token := Claimed (map oc_id claims))\<rparr>"
  define s2 where "s2 = s1\<lparr>rs_cycles := (rs_cycles s1)(token := Prepared messages publishable refused)\<rparr>"
  have 1: "?step s s1" unfolding s1_def by (rule relay_step.claimed [OF assms(1,2)])
  have 2: "?step s1 s2" unfolding s2_def using assms(3) by (intro relay_step.read) (simp_all add: s1_def)
  have "?step s2 (s2\<lparr>rs_table := table2, rs_cycles := (rs_cycles s2)(token := Publishing messages publishable)\<rparr>)"
    using assms(4) by (intro relay_step.gave_up) (simp_all add: s1_def s2_def)
  from converse_rtranclp_into_rtranclp [OF 1 converse_rtranclp_into_rtranclp [OF 2 r_into_rtranclp [of ?step, OF this]]]
  show ?thesis by (simp add: s1_def s2_def)
qed

text \<open>The state a cycle leaves: its table, what it is known to have stored and its phase.\<close>

definition after_cycle ::
  "relay_state \<Rightarrow> string \<Rightarrow> outbox_row list \<Rightarrow> BookingLifecycleMessage list \<Rightarrow> cycle \<Rightarrow> relay_state" where
  "after_cycle s token table stored c =
     s\<lparr>rs_table := table, rs_topic := rs_topic s @ stored, rs_cycles := (rs_cycles s)(token := c)\<rparr>"

lemma runOnce_steps:
  assumes run: "runOnce cfg iso4217 token (Some ack) draw lockedElsewhere (rs_now s) (rs_table s) = Inr (result, table', offered)"
    and token: "rs_cycles s token = Unused"
  shows "\<exists>c. (relay_step cfg iso4217)\<^sup>*\<^sup>* s (after_cycle s token table' (if ack then offered else []) c)"
proof -
  let ?step = "relay_step cfg iso4217"
  obtain claims table1 where claim: "claimBatch (relay_claim cfg token) (rs_now s) lockedElsewhere (rs_table s) = Inr (claims, table1)"
    using run by (auto simp: runOnce_def and_then_Inr_iff)
  obtain messages publishable refused where
    prep: "prepare iso4217 (readClaimed (map oc_id claims) token table1) = (messages, publishable, refused)"
    by (cases "prepare iso4217 (readClaimed (map oc_id claims) token table1)")
  obtain n table2 where failed: "markFailed refused token errorCode_invalid (rs_now s) table1 = (n, table2)"
    by (cases "markFailed refused token errorCode_invalid (rs_now s) table1")
  define s3 where "s3 = after_cycle s token table2 [] (Publishing messages publishable)"
  have to3: "?step\<^sup>*\<^sup>* s s3" using prepared_steps [OF token claim prep failed] by (simp add: s3_def after_cycle_def)
  note body = run [unfolded runOnce_def option.case claim and_then_simps Let_def prod.case prep failed]
  consider "claims = []" | "claims \<noteq> []" "publishable = []" | "claims \<noteq> []" "publishable \<noteq> []" ack
    | "claims \<noteq> []" "publishable \<noteq> []" "\<not> ack" by blast
  then show ?thesis
  proof cases
    case 1
    then have "?step s (after_cycle s token table' [] (Claimed []))"
      using relay_step.claimed [OF token claim] body by (simp add: after_cycle_def)
    then show ?thesis using 1 body by auto
  next
    case 2
    then show ?thesis using to3 body by (auto simp: s3_def after_cycle_def)
  next
    case 3
    define s4 where "s4 = after_cycle s token table2 messages (Acknowledged publishable)"
    have "?step s3 s4"
      using relay_step.acknowledged [of s3 token messages publishable cfg] by (simp add: s3_def s4_def after_cycle_def)
    moreover have "?step s4 (s4\<lparr>rs_table := table', rs_cycles := (rs_cycles s4)(token := Finished)\<rparr>)"
      using body 3 by (intro relay_step.published [where n = "rr_published result"])
        (auto simp: empty_result_def s4_def after_cycle_def split: prod.splits)
    moreover have "s4\<lparr>rs_table := table', rs_cycles := (rs_cycles s4)(token := Finished)\<rparr> = after_cycle s token table' offered Finished"
      using body 3 by (auto simp: s4_def after_cycle_def split: prod.splits)
    ultimately have "?step\<^sup>*\<^sup>* s (after_cycle s token table' offered Finished)"
      using to3 by (simp add: rtranclp.rtrancl_into_rtrancl)
    then show ?thesis using 3 by auto
  next
    case 4
    define s4 where "s4 = after_cycle s token table2 [] (Refused publishable)"
    have "?step s3 s4"
      using relay_step.rejected [of s3 token messages publishable "[]" cfg] by (simp add: s3_def s4_def after_cycle_def)
    moreover have "?step s4 (s4\<lparr>rs_table := table', rs_cycles := (rs_cycles s4)(token := Finished)\<rparr>)"
      using body 4 by (intro relay_step.retried [where n = "rr_retried result" and draw = draw])
        (auto simp: empty_result_def s4_def after_cycle_def split: prod.splits)
    moreover have "s4\<lparr>rs_table := table', rs_cycles := (rs_cycles s4)(token := Finished)\<rparr> = after_cycle s token table' [] Finished"
      by (simp add: s4_def after_cycle_def)
    ultimately have "?step\<^sup>*\<^sup>* s (after_cycle s token table' [] Finished)"
      using to3 by (simp add: rtranclp.rtrancl_into_rtrancl)
    then show ?thesis using 4 by auto
  qed
qed

text \<open>Every claimed row ends in one of the three ways.\<close>

lemma affected_held:
  assumes "distinct (map o_id table)" "distinct ids" "\<And>i. i \<in> set ids \<Longrightarrow> \<exists>row \<in> set table. o_id row = i \<and> leased_by token row"
  shows "affected (held ids token) table = length ids"
proof -
  have "o_id ` set (filter (held ids token) table) = set ids"
    using assms(3) by (force simp: held_iff)
  then have "card (set ids) = card (set (map o_id (filter (held ids token) table)))" by simp
  also have "\<dots> = length (filter (held ids token) table)"
    using assms(1) by (subst distinct_card) (simp_all add: distinct_map_filter)
  finally show ?thesis using assms(2) by (simp add: affected_def distinct_card)
qed

lemma claimed_held:
  assumes "wf_outbox table" "claimBatch (relay_claim cfg token) now locked table = Inr (claims, table')" "oc \<in> set claims"
  shows "\<exists>row \<in> set table'. o_id row = oc_id oc \<and> leased_by token row"
proof -
  have d: "distinct (map o_id table)" using assms(1) by (simp add: wf_outbox_def)
  obtain row where row: "row \<in> set (eligible_rows (relay_claim cfg token) now locked table)" "oc_id oc = o_id row"
    using assms(3) unfolding claimBatch_Inr(1) [OF d assms(2)] by auto
  have "leased (relay_claim cfg token) now row \<in> set table'"
    using row eligible_row(1) [OF row(1)] unfolding claimBatch_Inr(2) [OF d assms(2)] by (auto simp: update_where_def)
  then show ?thesis using row eligible_row(2) [OF row(1)]
    by (intro bexI) (auto simp: leased_by_def leased_def relay_claim_def familyPredicate_def)
qed

lemma cycle_counts:
  assumes wf: "wf_outbox table"
    and claim: "claimBatch (relay_claim cfg token) now lockedElsewhere table = Inr (claims, table1)"
    and prep: "prepare iso4217 (readClaimed (map oc_id claims) token table1) = (messages, publishable, refused)"
    and failed: "markFailed refused token code now table1 = (n, table2)"
  shows "length publishable + length refused = length claims" "n = length refused"
    "affected (held publishable token) table2 = length publishable"
proof -
  let ?ids = "map oc_id claims"
  have wf1: "wf_outbox table1" by (rule claimBatch_wf [OF wf claim])
  have d: "distinct (map o_id table)" "distinct (map o_id table1)" using wf wf1 by (simp_all add: wf_outbox_def)
  have dids: "distinct ?ids" unfolding claimBatch_Inr(1) [OF d(1) claim] using distinct_eligible [OF d(1)] by (simp add: comp_def)
  have split: "distinct publishable" "distinct refused" "set publishable \<inter> set refused = {}"
    using prepare_distinct [OF prep readClaimed_distinct [OF d(2)]] by simp_all
  have sub: "\<exists>row \<in> set table1. o_id row = i \<and> leased_by token row" if "i \<in> set publishable \<union> set refused" for i
    using that unfolding prepare_sets(2,3) [OF prep] set_readClaimed by (auto simp: held_iff claimed_row_def)
  have "length (readClaimed ?ids token table1) = affected (held ?ids token) table1"
    by (simp add: readClaimed_def affected_def held_def)
  also have "\<dots> = length claims"
    using affected_held [OF d(2) dids] claimed_held [OF wf claim] by auto
  finally show "length publishable + length refused = length claims" using prepare_sets(5) [OF prep] by simp
  have table2: "table2 = update_where (held refused token) (closed OutFailed
      (\<lambda>row. row\<lparr>o_failedAt := Some now, o_lastErrorCode := Some code\<rparr>) now) table1"
    and n: "n = affected (held refused token) table1"
    using failed by (simp_all add: markFailed_def finish_eq)
  show "n = length refused" unfolding n using affected_held [OF d(2) split(2)] sub by blast
  have "\<exists>row \<in> set table2. o_id row = i \<and> leased_by token row" if i: "i \<in> set publishable" for i
  proof -
    obtain row where row: "row \<in> set table1" "o_id row = i" "leased_by token row" using sub i by blast
    then have "\<not> held refused token row" using split(3) i by (auto simp: held_iff)
    then have "row \<in> set table2" using row(1) by (auto simp: table2 update_where_def image_iff)
    then show ?thesis using row by blast
  qed
  moreover have "distinct (map o_id table2)" using mark_wf(3) [OF wf1 failed] by (simp add: wf_outbox_def)
  ultimately show "affected (held publishable token) table2 = length publishable" using affected_held split(1) by blast
qed

lemma runOnce_counts:
  assumes wf: "wf_outbox table" and run: "runOnce cfg iso4217 token (Some ack) draw lockedElsewhere now table = Inr (result, table', offered)"
  shows "rr_claimed result = rr_published result + rr_retried result + rr_failed result"
    "rr_published result = (if ack then length offered else 0)" "rr_retried result = (if ack then 0 else length offered)"
proof -
  obtain claims table1 where claim: "claimBatch (relay_claim cfg token) now lockedElsewhere table = Inr (claims, table1)"
    using run by (auto simp: runOnce_def and_then_Inr_iff)
  obtain messages publishable refused where
    prep: "prepare iso4217 (readClaimed (map oc_id claims) token table1) = (messages, publishable, refused)"
    by (cases "prepare iso4217 (readClaimed (map oc_id claims) token table1)")
  obtain n table2 where failed: "markFailed refused token errorCode_invalid now table1 = (n, table2)"
    by (cases "markFailed refused token errorCode_invalid now table1")
  note counts = cycle_counts [OF wf claim prep failed] prepare_sets(4) [OF prep]
  note body = run [unfolded runOnce_def option.case claim and_then_simps Let_def prod.case prep failed markPublished_def markRetry_def finish_eq]
  show "rr_claimed result = rr_published result + rr_retried result + rr_failed result"
    "rr_published result = (if ack then length offered else 0)" "rr_retried result = (if ack then 0 else length offered)"
    using body counts by (auto simp: empty_result_def split: if_splits)
qed

text \<open>A claim that was recovered under another token leaves nothing for the old one to end.\<close>

lemma finish_not_held:
  assumes "\<And>row. row \<in> set table \<Longrightarrow> \<not> held ids token row"
  shows "finish ids token status assignments now table = (0, table)"
  using assms affected_zero_iff [of "held ids token" table] by (simp add: finish_eq update_where_id)

lemma recovered_not_held:
  assumes "wf_outbox table" "claimBatch (relay_claim cfg newToken) now locked table = Inr (claims, table')"
    "set ids \<subseteq> oc_id ` set claims" "oldToken \<noteq> newToken" "row \<in> set table'"
  shows "\<not> held ids oldToken row"
proof
  assume h: "held ids oldToken row"
  then obtain r where r: "r \<in> set table'" "o_id r = o_id row" "leased_by newToken r"
    using assms(3) claimed_held [OF assms(1,2)] by (fastforce simp: held_iff)
  have "distinct (map o_id table')" using claimBatch_wf [OF assms(1,2)] by (simp add: wf_outbox_def)
  then have "r = row" using distinct_key_eq r assms(5) by metis
  then show False using h r(3) assms(4) by (simp add: held_iff leased_by_def)
qed

subsection \<open>A concrete cycle\<close>

definition demo_payload :: BookingLifecyclePayload where
  "demo_payload = \<lparr>lp_bookingId = ''01HQPG5K000000000000000007'', lp_bookingVersion = 1, lp_fromStatus = None,
     lp_toStatus = Pending, lp_stay = \<lparr>ls_roomId = ''2'', ls_roomTypeId = ''1'', ls_checkIn = ''2024-02-28'',
     ls_checkOut = ''2024-03-01''\<rparr>, lp_amount = 1000, lp_currency = ''VND'', lp_previousStay = None\<rparr>"

definition demo_row :: outbox_row where
  "demo_row = \<lparr>o_id = ''e1'', o_eventType = bookingLifecycleEventType, o_payload = payload_json demo_payload,
     o_availableAt = 3, o_status = OutPending, o_idempotencyKey = ''k'', o_lockedAt = None, o_lockExpiresAt = None,
     o_lockedBy = None, o_processedAt = None, o_attempts = 0, o_lastErrorCode = None, o_failedAt = None,
     o_createdAt = 1709078400000000, o_updatedAt = 1709078400000000\<rparr>"

definition demo_relay :: relay_config where
  "demo_relay = \<lparr>claimBatchSize = 5, claimLeaseMs = 1000, backoffInitialMs = 100, backoffMaxMs = 1000\<rparr>"

lemma demo_payload_valid: "valid_payload (\<lambda>c. c = ''VND'') demo_payload"
proof -
  have iso: "''2024-02-28'' = iso_date 2024 2 28" "''2024-03-01'' = iso_date 2024 3 1" by code_simp+
  have "valid_date 2024 2 28" "valid_date 2024 3 1" by code_simp+
  then have "parseHotelDate ''2024-02-28'' \<noteq> None" "parseHotelDate ''2024-03-01'' \<noteq> None"
    unfolding iso using parseHotelDate_iso [of 2024] by simp_all
  moreover have "hotelDatePattern ''2024-02-28''" "hotelDatePattern ''2024-03-01''" 
    "bookingPublicIdPattern ''01HQPG5K000000000000000007''" "currencyPattern ''VND''" "''2024-02-28'' < ''2024-03-01''"
    by code_simp+
  moreover have "stored_id ''1''" "stored_id ''2''"
    by (simp_all add: stored_id_def decimalIdPattern_def is_digit_def decimal_value_def digit_value_def maxUnsignedBigint_def)
  ultimately show ?thesis
    by (simp add: valid_payload_def demo_payload_def valid_stay_def strict_hotel_date_def bookingLifecycleTransitions_def
        isSafeInteger_def number_max_safe_integer_def)
qed

lemma demo_message: "message_of (\<lambda>c. c = ''VND'') (claimed_row demo_row) = Inr (toBookingLifecycleMessage (claimed_row demo_row) demo_payload)"
  using parse_payload_json [OF demo_payload_valid] by (simp add: message_of_def claimed_row_def demo_row_def)

lemma demo_row_wf: "wf_outbox [demo_row]"
  by (simp add: wf_outbox_def lease_state_def demo_row_def)

lemma demo_cycle:
  "\<exists>result row. runOnce demo_relay (\<lambda>c. c = ''VND'') ''t1'' (Some True) (\<lambda>_. 0) (\<lambda>_. False) 1709078400000000 [demo_row] =
     Inr (result, [row], [toBookingLifecycleMessage (claimed_row demo_row) demo_payload])
     \<and> o_status row = OutProcessed \<and> familyPredicate row \<and> claimed_row row = claimed_row demo_row"
proof -
  have row: "o_id demo_row = ''e1''" "o_eventType demo_row = bookingLifecycleEventType" "o_availableAt demo_row = 3"
    "o_status demo_row = OutPending"
    by (simp_all add: demo_row_def)
  have claim: "claimBatch (relay_claim demo_relay ''t1'') 1709078400000000 (\<lambda>_. False) [demo_row] =
      Inr ([\<lparr>oc_id = ''e1'', oc_attempt = 1\<rparr>], [leased (relay_claim demo_relay ''t1'') 1709078400000000 demo_row])"
    by (simp add: claimBatch_def eventTypePredicate_def selectEligible_def relay_claim_def demo_relay_def expired_lease_def
        due_row_def bookingLifecycleEventTypes_def Let_def demo_row_def leased_def)
  have held: "held ids ''t1'' (leased (relay_claim demo_relay ''t1'') 1709078400000000 demo_row) \<longleftrightarrow> ''e1'' \<in> set ids" for ids
    by (simp add: held_def leased_def familyPredicate_def bookingLifecycleEventTypes_def relay_claim_def row)
  have id: "lr_id (claimed_row demo_row) = ''e1''" by (simp add: claimed_row_def row)
  show ?thesis
    by (simp add: runOnce_def claim readClaimed_def held demo_message id markFailed_def finish_def markPublished_def Let_def)
      (simp add: claimed_row_def familyPredicate_def leased_def row bookingLifecycleEventTypes_def)
qed

lemma demo_reachable:
  "\<exists>s row. relay_reachable demo_relay (\<lambda>c. c = ''VND'') s \<and> row \<in> set (rs_table s) \<and> o_status row = OutProcessed
     \<and> familyPredicate row \<and> claimed_row row = claimed_row demo_row"
proof -
  let ?step = "relay_step demo_relay (\<lambda>c. c = ''VND'')"
  define s1 where "s1 = relay_init\<lparr>rs_table := [demo_row]\<rparr>"
  define s2 where "s2 = s1\<lparr>rs_now := 1709078400000000\<rparr>"
  have 1: "?step relay_init s1"
    unfolding s1_def using demo_row_wf by (intro relay_step.foreign) (simp add: foreign_change_def demo_row_def)
  have 2: "?step s1 s2" unfolding s2_def by (rule relay_step.clock) (simp add: s1_def relay_init_def)
  obtain result row where run: "runOnce demo_relay (\<lambda>c. c = ''VND'') ''t1'' (Some True) (\<lambda>_. 0) (\<lambda>_. False) (rs_now s2) (rs_table s2) =
     Inr (result, [row], [toBookingLifecycleMessage (claimed_row demo_row) demo_payload])"
    and row: "o_status row = OutProcessed" "familyPredicate row" "claimed_row row = claimed_row demo_row"
    using demo_cycle by (auto simp: s1_def s2_def)
  obtain c where "?step\<^sup>*\<^sup>* s2 (after_cycle s2 ''t1'' [row] [toBookingLifecycleMessage (claimed_row demo_row) demo_payload] c)"
    using runOnce_steps [OF run] by (auto simp: s1_def s2_def relay_init_def)
  then have "relay_reachable demo_relay (\<lambda>c. c = ''VND'')
      (after_cycle s2 ''t1'' [row] [toBookingLifecycleMessage (claimed_row demo_row) demo_payload] c)"
    unfolding relay_reachable_def using 1 2 by (meson converse_rtranclp_into_rtranclp)
  then show ?thesis using row by (intro exI conjI) (assumption | simp add: after_cycle_def)+
qed

subsection \<open>Properties of the stream\<close>

text \<open>C25. Delivery, whatever the interleaving of relays, expired leases, crashes and broker failures: a
  booking event marked as processed is on the topic as the message built from it, an event is marked as
  failed only when its payload violates the contract, and every message on the topic is the message of an
  event whose payload satisfies the contract.\<close>

theorem stream_delivers:
  assumes "relay_reachable cfg iso4217 s"
  shows "(\<forall>row \<in> set (rs_table s). o_eventType row \<in> set bookingLifecycleEventTypes \<longrightarrow>
       (o_status row = OutProcessed \<longrightarrow> (\<exists>payload. parseBookingLifecyclePayload iso4217 (o_payload row) = Inr payload
          \<and> toBookingLifecycleMessage (claimed_row row) payload \<in> set (rs_topic s)))
       \<and> (o_status row = OutFailed \<longrightarrow> (\<nexists>payload. parseBookingLifecyclePayload iso4217 (o_payload row) = Inr payload)))
     \<and> (\<forall>m \<in> set (rs_topic s). \<exists>row payload. m = toBookingLifecycleMessage row payload \<and> valid_payload iso4217 payload)"
proof -
  have inv: "relay_inv iso4217 s" using assms unfolding relay_reachable_def by (rule relay.reachable_inv)
  have payload: "lr_payload (claimed_row row) = o_payload row" for row by (simp add: claimed_row_def)
  have "row_ok iso4217 (rs_topic s) row"
    if "row \<in> set (rs_table s)" "o_eventType row \<in> set bookingLifecycleEventTypes" for row
    using inv that by (simp add: relay_inv_def familyPredicate_def)
  then have rows: "o_status row = OutProcessed \<Longrightarrow> \<exists>payload. parseBookingLifecyclePayload iso4217 (o_payload row) = Inr payload
      \<and> toBookingLifecycleMessage (claimed_row row) payload \<in> set (rs_topic s)"
    "o_status row = OutFailed \<Longrightarrow> \<nexists>payload. parseBookingLifecyclePayload iso4217 (o_payload row) = Inr payload"
    if "row \<in> set (rs_table s)" "o_eventType row \<in> set bookingLifecycleEventTypes" for row
    using that by (force simp: row_ok_def on_topic_def unreadable_def message_of_Inr payload)+
  have "\<exists>row payload. m = toBookingLifecycleMessage row payload \<and> valid_payload iso4217 payload"
    if "m \<in> set (rs_topic s)" for m
    using inv that parse_payload_valid by (fastforce simp: relay_inv_def genuine_def message_of_Inr)
  then show ?thesis using rows by blast
qed

theorem stream_delivers_witness:
  "\<exists>s payload. relay_reachable demo_relay (\<lambda>c. c = ''VND'') s
     \<and> toBookingLifecycleMessage (claimed_row demo_row) payload \<in> set (rs_topic s)"
proof -
  obtain s row where s: "relay_reachable demo_relay (\<lambda>c. c = ''VND'') s" "row \<in> set (rs_table s)"
    "o_status row = OutProcessed" "familyPredicate row" "claimed_row row = claimed_row demo_row"
    using demo_reachable by blast
  then show ?thesis using stream_delivers [OF s(1)] by (metis familyPredicate_def)
qed

text \<open>The envelope is a round trip: the consumer's parser reads a published message back into the event's
  identifier, the instant its row was written and its payload, for every payload that satisfies the
  contract, a row identifier that is a UUID and an instant of the years MySQL stores.\<close>

theorem message_round_trip:
  assumes "valid_payload iso4217 payload" "isUUID (lr_id row)"
    "1000 \<le> utc_year (lr_createdAt row)" "utc_year (lr_createdAt row) \<le> 9999"
  shows "parseBookingLifecycleMessage isUUID iso4217 (Some (m_value (toBookingLifecycleMessage row payload))) =
    Inr \<lparr>re_eventId = lr_id row, re_occurredAt = lr_createdAt row, re_payload = payload\<rparr>"
  using parse_published [of iso4217 payload isUUID row] assms by blast

theorem message_round_trip_witness:
  "parseBookingLifecycleMessage (\<lambda>i. i = ''e1'') (\<lambda>c. c = ''VND'')
     (Some (m_value (toBookingLifecycleMessage (claimed_row demo_row) demo_payload))) =
   Inr \<lparr>re_eventId = ''e1'', re_occurredAt = 1709078400000, re_payload = demo_payload\<rparr>"
proof -
  have row: "lr_id (claimed_row demo_row) = ''e1''" "lr_createdAt (claimed_row demo_row) = 1709078400000"
    by (simp_all add: claimed_row_def demo_row_def)
  have "utc_year 1709078400000 = 2024" by code_simp
  then show ?thesis
    using message_round_trip [of "\<lambda>c. c = ''VND''" demo_payload "\<lambda>i. i = ''e1''" "claimed_row demo_row"] demo_payload_valid
    by (simp add: row)
qed

text \<open>A cycle accounts for every row it claims: without interference each claimed row is published, sent
  back for a retry or failed, the publisher's answer decides which of the first two, and the cycle is a run
  of the system of relays.\<close>

theorem cycle_accounts:
  assumes "relay_reachable cfg iso4217 s" "rs_cycles s token = Unused"
    "runOnce cfg iso4217 token (Some acknowledged) draw lockedElsewhere (rs_now s) (rs_table s) = Inr (result, table', offered)"
  shows "rr_claimed result = rr_published result + rr_retried result + rr_failed result
    \<and> rr_published result = (if acknowledged then length offered else 0)
    \<and> rr_retried result = (if acknowledged then 0 else length offered)
    \<and> (\<exists>s'. relay_reachable cfg iso4217 s' \<and> rs_table s' = table'
          \<and> rs_topic s' = rs_topic s @ (if acknowledged then offered else []))"
proof -
  have "relay_inv iso4217 s" using assms(1) unfolding relay_reachable_def by (rule relay.reachable_inv)
  then have wf: "wf_outbox (rs_table s)" by (simp add: relay_inv_def)
  obtain c where "(relay_step cfg iso4217)\<^sup>*\<^sup>* s (after_cycle s token table' (if acknowledged then offered else []) c)"
    using runOnce_steps [OF assms(3,2)] by blast
  then have "relay_reachable cfg iso4217 (after_cycle s token table' (if acknowledged then offered else []) c)"
    using assms(1) unfolding relay_reachable_def by (rule rtranclp_trans [rotated])
  moreover have "rs_table (after_cycle s token table' ms c) = table'" "rs_topic (after_cycle s token table' ms c) = rs_topic s @ ms" for ms
    by (simp_all add: after_cycle_def)
  ultimately show ?thesis using runOnce_counts [OF wf assms(3)] by blast
qed

theorem cycle_accounts_witness:
  "\<exists>result table'. runOnce demo_relay (\<lambda>c. c = ''VND'') ''t1'' (Some True) (\<lambda>_. 0) (\<lambda>_. False) 0 [] = Inr (result, table', [])
     \<and> rr_claimed result = rr_published result + rr_retried result + rr_failed result"
proof -
  have run: "\<exists>result table'. runOnce demo_relay (\<lambda>c. c = ''VND'') ''t1'' (Some True) (\<lambda>_. 0) (\<lambda>_. False)
      (rs_now relay_init) (rs_table relay_init) = Inr (result, table', [])"
    by (simp add: runOnce_def claimBatch_def eventTypePredicate_def relay_claim_def bookingLifecycleEventTypes_def
        selectEligible_def relay_init_def)
  have init: "relay_reachable demo_relay (\<lambda>c. c = ''VND'') relay_init" "rs_cycles relay_init ''t1'' = Unused"
    by (simp_all add: relay_reachable_def relay_init_def)
  show ?thesis using run cycle_accounts [OF init] by (auto simp: relay_init_def)
qed

text \<open>C35. A relay whose claim was recovered cannot end it: once another cycle has claimed its rows, none of
  the three closing statements under the old token changes the table, and each reports no affected row.\<close>

theorem recovered_claim_fences:
  assumes "wf_outbox table" "claimBatch (relay_claim cfg newToken) now lockedElsewhere table = Inr (claims, table')"
    "set ids \<subseteq> oc_id ` set claims" "oldToken \<noteq> newToken"
  shows "markPublished ids oldToken later table' = (0, table')
    \<and> markRetry ids oldToken initialMs maxMs draw code later table' = (0, table')
    \<and> markFailed ids oldToken code later table' = (0, table')"
  using finish_not_held [of table' ids oldToken] recovered_not_held [OF assms]
  by (simp add: markPublished_def markRetry_def markFailed_def)

theorem recovered_claim_fences_witness:
  "\<exists>table'. claimBatch (relay_claim demo_relay ''t2'') 1709078400000000 (\<lambda>_. False) [demo_row] =
     Inr ([\<lparr>oc_id = ''e1'', oc_attempt = 1\<rparr>], table') \<and> markPublished [''e1''] ''t1'' 1709078400000000 table' = (0, table')"
proof -
  obtain table' where claim: "claimBatch (relay_claim demo_relay ''t2'') 1709078400000000 (\<lambda>_. False) [demo_row] =
     Inr ([\<lparr>oc_id = ''e1'', oc_attempt = 1\<rparr>], table')"
    by (simp add: claimBatch_def eventTypePredicate_def selectEligible_def relay_claim_def demo_relay_def expired_lease_def
        due_row_def bookingLifecycleEventTypes_def Let_def demo_row_def leased_def)
  then show ?thesis using recovered_claim_fences [OF demo_row_wf claim, of "[''e1'']" "''t1''"] by simp
qed

text \<open>The delay of a retry: at least the initial delay doubled for every attempt after the first (at most
  thirty times), at most a fifth more, and never above the ceiling.\<close>

theorem retry_delay_in_bounds:
  assumes "draw < 2 ^ 53"
  shows "min (initialMs * 2 ^ min (attempts - 1) 30) maxMs \<le> retry_delay initialMs maxMs draw attempts
    \<and> retry_delay initialMs maxMs draw attempts \<le> maxMs
    \<and> 5 * retry_delay initialMs maxMs draw attempts \<le> 6 * (initialMs * 2 ^ min (attempts - 1) 30)"
  using retry_delay_bounds [OF assms(1)] by blast

theorem retry_delay_in_bounds_witness:
  "retry_delay 100 100000 7 3 \<le> 480 \<and> 400 \<le> retry_delay 100 100000 7 3"
  using retry_delay_in_bounds [of 7 100 3 100000] by simp

end
