(* ===== verification/Poll_Loop.thy ===== *)
theory Poll_Loop
  imports Transition_Systems
begin

text \<open>
  The timer the outbox dispatchers run on (common/outbox/outbox-poll-loop.ts): a state machine over
  the fields of \<open>OutboxPollLoop\<close> whose events are the calls of \<open>start\<close> and \<open>stop\<close>, the timer that
  fires and the cycle that settles. Two counters, which the code does not keep, record how many
  cycles have been started and how many have settled; the lemmas show that cycles never overlap
  and that none is started after \<open>stop\<close>.
\<close>

record poll_loop =
  pl_timer :: bool
  pl_cycle :: bool
  pl_stopping :: bool
  pl_started :: nat
  pl_settled :: nat

definition poll_init :: poll_loop where
  "poll_init = \<lparr>pl_timer = False, pl_cycle = False, pl_stopping = False, pl_started = 0, pl_settled = 0\<rparr>"

definition schedule :: "poll_loop \<Rightarrow> poll_loop" where
  "schedule l = l\<lparr>pl_timer := True\<rparr>"

definition start :: "poll_loop \<Rightarrow> poll_loop" where
  "start l = (if pl_timer l \<or> pl_cycle l \<or> pl_stopping l then l else schedule l)"

definition stop :: "poll_loop \<Rightarrow> poll_loop" where
  "stop l = l\<lparr>pl_stopping := True, pl_timer := False\<rparr>"

text \<open>The callback of the timer, and what runs when the cycle it started settles.\<close>

definition fire :: "poll_loop \<Rightarrow> poll_loop" where
  "fire l = l\<lparr>pl_timer := False, pl_cycle := True, pl_started := pl_started l + 1\<rparr>"

definition settle :: "poll_loop \<Rightarrow> poll_loop" where
  "settle l =
     (let l = l\<lparr>pl_cycle := False, pl_settled := pl_settled l + 1\<rparr>
      in if pl_stopping l then l else schedule l)"

inductive poll_step :: "poll_loop \<Rightarrow> poll_loop \<Rightarrow> bool" where
  started: "poll_step l (start l)"
| stopped: "poll_step l (stop l)"
| fired: "pl_timer l \<Longrightarrow> poll_step l (fire l)"
| settled: "pl_cycle l \<Longrightarrow> poll_step l (settle l)"

definition poll_inv :: "poll_loop \<Rightarrow> bool" where
  "poll_inv l \<longleftrightarrow>
     pl_started l = pl_settled l + (if pl_cycle l then 1 else 0)
     \<and> \<not> (pl_timer l \<and> pl_cycle l) \<and> \<not> (pl_timer l \<and> pl_stopping l)"

lemma poll_step_inv: "poll_inv l \<Longrightarrow> poll_step l l' \<Longrightarrow> poll_inv l'"
  by (erule poll_step.cases)
    (auto simp: poll_inv_def start_def stop_def fire_def settle_def schedule_def Let_def split: if_splits)

interpretation poll: transition_system poll_step poll_inv poll_init
  by unfold_locales (simp add: poll_inv_def poll_init_def, rule poll_step_inv)

lemma stopping_step:
  "poll_inv l \<Longrightarrow> poll_step l l' \<Longrightarrow> pl_stopping l \<longrightarrow> pl_stopping l' \<and> pl_started l' = pl_started l"
  by (erule poll_step.cases)
    (auto simp: poll_inv_def start_def stop_def fire_def settle_def schedule_def Let_def)

text \<open>The cycles of one loop never overlap, however often it is started: at any time at most one more
  cycle was started than has settled. Once \<open>stop\<close> has been called no cycle is ever started again.\<close>

theorem poll_cycles_serial:
  assumes "poll_step\<^sup>*\<^sup>* poll_init l"
  shows "pl_started l \<le> pl_settled l + 1
    \<and> (pl_timer l \<longrightarrow> pl_started l = pl_settled l)
    \<and> (\<forall>l'. poll_step\<^sup>*\<^sup>* (stop l) l' \<longrightarrow> pl_started l' = pl_started l)"
proof -
  have inv: "poll_inv l" using assms by (rule poll.reachable_inv)
  have "pl_started l' = pl_started l" if "poll_step\<^sup>*\<^sup>* (stop l) l'" for l'
  proof -
    have "poll_inv (stop l)" by (rule poll_step_inv [OF inv poll_step.stopped])
    from poll.steps_relation [OF that this, of "\<lambda>a b. pl_stopping a \<longrightarrow> pl_stopping b \<and> pl_started b = pl_started a"]
    have "pl_stopping (stop l) \<longrightarrow> pl_started l' = pl_started (stop l)" using stopping_step by auto
    then show ?thesis by (simp add: stop_def)
  qed
  then show ?thesis using inv by (simp add: poll_inv_def)
qed

theorem poll_cycles_serial_witness:
  "pl_started (fire (start poll_init)) = 1 \<and> pl_settled (fire (start poll_init)) = 0
   \<and> pl_started (settle (stop (fire (start poll_init)))) = 1"
proof -
  have "poll_step poll_init (start poll_init)" by (rule poll_step.started)
  moreover have "poll_step (start poll_init) (fire (start poll_init))"
    by (rule poll_step.fired) (simp add: start_def schedule_def poll_init_def)
  ultimately have "poll_step\<^sup>*\<^sup>* poll_init (fire (start poll_init))" by simp
  note run = poll_cycles_serial [OF this]
  have "pl_started (fire (start poll_init)) = 1" "pl_settled (fire (start poll_init)) = 0"
    by (simp_all add: fire_def start_def schedule_def poll_init_def)
  moreover have "poll_step (stop (fire (start poll_init))) (settle (stop (fire (start poll_init))))"
    by (rule poll_step.settled) (simp add: fire_def stop_def)
  ultimately show ?thesis using run by (metis r_into_rtranclp)
qed

end
