(* ===== verification/Scheduled_Runs.thy ===== *)
theory Scheduled_Runs
  imports Identifiers "HOL-Library.AList"
begin

text \<open>
  The ledger of the scheduled runs (retention/scheduled-run.repository.ts over the table
  \<open>scheduled_runs\<close>): a window of a task is won by inserting its row, recovered when its lease has
  expired, and closed by the holder of its claim token or by whoever finds its attempts spent. The
  database clock, the identifiers a claim draws and whether another insert of the window is still
  uncommitted are arguments. The
  lemmas say what a claim does to the one row of its window.
\<close>

subsection \<open>Rows and results\<close>

datatype ScheduledRunStatus = RunClaimed | RunSucceeded | RunFailed

type_synonym counts = "(string \<times> nat) list"

record run_row =
  sr_id :: string
  sr_taskName :: string
  sr_scheduledFor :: int
  sr_status :: ScheduledRunStatus
  sr_lockedBy :: "string option"
  sr_lockExpiresAt :: "int option"
  sr_attempts :: nat
  sr_startedAt :: int
  sr_finishedAt :: "int option"
  sr_deletedCounts :: "counts option"
  sr_progressedAt :: "int option"
  sr_lastErrorCode :: "string option"

record ScheduledRunClaim =
  sc_id :: string
  sc_taskName :: string
  sc_scheduledFor :: int
  sc_claimToken :: string
  sc_attempt :: nat

datatype ScheduledRunClaimRefusal = Taken | Exhausted

datatype ScheduledRunClaimResult = Granted ScheduledRunClaim | Withheld ScheduledRunClaimRefusal

record ScheduledRunFailure =
  sf_errorCode :: string
  sf_retryable :: bool

record run_claim_input =
  ri_taskName :: string
  ri_scheduledFor :: int
  ri_leaseMs :: int
  ri_maxAttempts :: nat

definition runAbandoned :: string where
  "runAbandoned = ''RETENTION_RUN_ABANDONED''"

definition runStopped :: string where
  "runStopped = ''RETENTION_STOPPED''"

definition retentionContinuationCodes :: "string list" where
  "retentionContinuationCodes =
     [''RETENTION_BUDGET_SPENT'', ''RETENTION_STORAGE_INCOMPLETE'', ''RETENTION_SHUTDOWN'']"

subsection \<open>Counts\<close>

text \<open>\<open>/^[a-z_]+$/\<close>\<close>

definition usableKey :: "string \<Rightarrow> bool" where
  "usableKey table \<longleftrightarrow> table \<noteq> [] \<and> list_all (\<lambda>c. in_range CHR ''a'' CHR ''z'' c \<or> c = CHR ''_'') table"

definition removedRows :: "counts \<Rightarrow> bool" where
  "removedRows counts \<longleftrightarrow> (\<exists>(_, removed) \<in> set counts. removed > 0)"

definition progressedAtExpression :: "counts \<Rightarrow> int \<Rightarrow> int option \<Rightarrow> int option" where
  "progressedAtExpression counts now progressedAt = (if removedRows counts then Some now else progressedAt)"

definition count_of :: "counts \<Rightarrow> string \<Rightarrow> nat" where
  "count_of counts table = (case map_of counts table of None \<Rightarrow> 0 | Some n \<Rightarrow> n)"

definition stored_counts :: "counts option \<Rightarrow> counts" where
  "stored_counts stored = (case stored of None \<Rightarrow> [] | Some c \<Rightarrow> c)"

text \<open>JSON_SET adds every pair to the document or to an empty one; without tables the column is kept.\<close>

definition accumulateCounts :: "counts \<Rightarrow> error + (counts option \<Rightarrow> counts option)" where
  "accumulateCounts counts =
     (let tables = sort (map fst counts) in
      if tables = [] then Inr (\<lambda>stored. stored)
      else case List.find (\<lambda>table. \<not> usableKey table) tables of
        Some table \<Rightarrow> Inl (PlainError (''Unusable deleted_counts key: '' @ table))
      | None \<Rightarrow> Inr (\<lambda>stored. Some (fold
          (\<lambda>table. AList.update table (count_of (stored_counts stored) table + count_of counts table))
          tables (stored_counts stored))))"

subsection \<open>The operations\<close>

definition sameWindow :: "string \<Rightarrow> int \<Rightarrow> run_row \<Rightarrow> bool" where
  "sameWindow taskName scheduledFor row \<longleftrightarrow> sr_taskName row = taskName \<and> sr_scheduledFor row = scheduledFor"

definition leaseExpired :: "int \<Rightarrow> run_row \<Rightarrow> bool" where
  "leaseExpired now row \<longleftrightarrow> (case sr_lockExpiresAt row of None \<Rightarrow> False | Some t \<Rightarrow> t \<le> now)"

definition leaseLive :: "int \<Rightarrow> run_row \<Rightarrow> bool" where
  "leaseLive now row \<longleftrightarrow> (case sr_lockExpiresAt row of None \<Rightarrow> False | Some t \<Rightarrow> t > now)"

text \<open>The attempt that stopped was a continuation, and it removed rows.\<close>

definition continuing :: "run_row \<Rightarrow> bool" where
  "continuing row \<longleftrightarrow>
     (case sr_lastErrorCode row of None \<Rightarrow> False | Some code \<Rightarrow> code \<in> set retentionContinuationCodes)
     \<and> (case sr_progressedAt row of None \<Rightarrow> False | Some t \<Rightarrow> t \<ge> sr_startedAt row)"

definition recovered :: "run_claim_input \<Rightarrow> string \<Rightarrow> int \<Rightarrow> run_row \<Rightarrow> run_row" where
  "recovered input claimToken now row =
     row\<lparr>sr_lockedBy := Some claimToken, sr_lockExpiresAt := Some (now + ri_leaseMs input * 1000),
         sr_attempts := sr_attempts row + (if continuing row then 0 else 1),
         sr_lastErrorCode := None, sr_startedAt := now\<rparr>"

definition closed_run :: "ScheduledRunStatus \<Rightarrow> int \<Rightarrow> run_row \<Rightarrow> run_row" where
  "closed_run status now row =
     row\<lparr>sr_status := status, sr_lockedBy := None, sr_lockExpiresAt := None, sr_finishedAt := Some now\<rparr>"

definition refusalReason :: "string \<Rightarrow> int \<Rightarrow> run_row list \<Rightarrow> ScheduledRunClaimRefusal" where
  "refusalReason taskName scheduledFor table =
     (case List.find (sameWindow taskName scheduledFor) table of
        Some row \<Rightarrow> if sr_status row = RunFailed then Exhausted else Taken
      | None \<Rightarrow> Taken)"

definition recover ::
  "run_claim_input \<Rightarrow> string \<Rightarrow> int \<Rightarrow> run_row list \<Rightarrow> ScheduledRunClaimResult \<times> run_row list" where
  "recover input claimToken now table =
     (let lost = (\<lambda>row. sameWindow (ri_taskName input) (ri_scheduledFor input) row
                    \<and> sr_status row = RunClaimed \<and> leaseExpired now row);
          takes = (\<lambda>row. lost row \<and> sr_attempts row < ri_maxAttempts input);
          table1 = update_where takes (recovered input claimToken now) table in
      if 0 < affected takes table then
        (case List.find (\<lambda>row. sr_lockedBy row = Some claimToken) table1 of
           None \<Rightarrow> (Withheld Taken, table1)
         | Some row \<Rightarrow>
             (Granted \<lparr>sc_id = sr_id row, sc_taskName = ri_taskName input, sc_scheduledFor = ri_scheduledFor input,
                sc_claimToken = claimToken, sc_attempt = sr_attempts row\<rparr>, table1))
      else
        let spent = (\<lambda>row. lost row \<and> sr_attempts row \<ge> ri_maxAttempts input);
            table2 = update_where spent
              (\<lambda>row. (closed_run RunFailed now row)\<lparr>sr_lastErrorCode := Some runAbandoned\<rparr>) table1 in
        if 0 < affected spent table1 then (Withheld Exhausted, table2)
        else (Withheld (refusalReason (ri_taskName input) (ri_scheduledFor input) table2), table2))"

text \<open>
  \<open>contended\<close>: another transaction is inserting the window and has not committed (the lock wait times out).
  A duplicate key, on the window or on the identifier, sends the claim to \<open>recover\<close>.
\<close>

definition claim_run ::
  "run_claim_input \<Rightarrow> string \<Rightarrow> string \<Rightarrow> bool \<Rightarrow> int \<Rightarrow> run_row list
   \<Rightarrow> ScheduledRunClaimResult \<times> run_row list" where
  "claim_run input uuid claimToken contended now table =
     (if contended then (Withheld Taken, table)
      else if \<exists>row \<in> set table. sameWindow (ri_taskName input) (ri_scheduledFor input) row \<or> sr_id row = uuid
      then recover input claimToken now table
      else (Granted \<lparr>sc_id = uuid, sc_taskName = ri_taskName input, sc_scheduledFor = ri_scheduledFor input,
              sc_claimToken = claimToken, sc_attempt = 1\<rparr>,
            table @ [\<lparr>sr_id = uuid, sr_taskName = ri_taskName input, sr_scheduledFor = ri_scheduledFor input,
              sr_status = RunClaimed, sr_lockedBy = Some claimToken,
              sr_lockExpiresAt = Some (now + ri_leaseMs input * 1000), sr_attempts = 1, sr_startedAt = now,
              sr_finishedAt = None, sr_deletedCounts = None, sr_progressedAt = None, sr_lastErrorCode = None\<rparr>]))"

definition holds_run :: "string \<Rightarrow> int \<Rightarrow> run_row \<Rightarrow> bool" where
  "holds_run claimToken now row \<longleftrightarrow>
     sr_lockedBy row = Some claimToken \<and> sr_status row = RunClaimed \<and> leaseLive now row"

definition counted ::
  "(counts option \<Rightarrow> counts option) \<Rightarrow> counts \<Rightarrow> int \<Rightarrow> run_row \<Rightarrow> run_row" where
  "counted accumulate counts now row =
     row\<lparr>sr_deletedCounts := accumulate (sr_deletedCounts row),
         sr_progressedAt := progressedAtExpression counts now (sr_progressedAt row)\<rparr>"

definition complete_run ::
  "ScheduledRunClaim \<Rightarrow> counts \<Rightarrow> int \<Rightarrow> run_row list \<Rightarrow> error + bool \<times> run_row list" where
  "complete_run claim deletedCounts now table =
     and_then (accumulateCounts deletedCounts) (\<lambda>accumulate.
     let hit = holds_run (sc_claimToken claim) now in
     Inr (0 < affected hit table,
          update_where hit (\<lambda>row. counted accumulate deletedCounts now (closed_run RunSucceeded now row)) table))"

definition fail_run ::
  "ScheduledRunClaim \<Rightarrow> ScheduledRunFailure \<Rightarrow> counts \<Rightarrow> nat \<Rightarrow> int \<Rightarrow> run_row list
   \<Rightarrow> error + bool \<times> run_row list" where
  "fail_run claim failure deletedCounts maxAttempts now table =
     (let handBack = sf_retryable failure \<and> sc_attempt claim < maxAttempts in
     and_then (accumulateCounts deletedCounts) (\<lambda>accumulate.
     let hit = holds_run (sc_claimToken claim) now;
         stopped = (\<lambda>row. if handBack then row\<lparr>sr_lockExpiresAt := Some now\<rparr> else closed_run RunFailed now row) in
     Inr (0 < affected hit table,
          update_where hit (\<lambda>row. (counted accumulate deletedCounts now (stopped row))
            \<lparr>sr_lastErrorCode := Some (sf_errorCode failure)\<rparr>) table)))"

definition closeAbandonedBefore :: "int \<Rightarrow> int \<Rightarrow> run_row list \<Rightarrow> nat \<times> run_row list" where
  "closeAbandonedBefore currentWindow now table =
     (let hit = (\<lambda>row. sr_status row = RunClaimed \<and> sr_scheduledFor row < currentWindow \<and> leaseExpired now row) in
      (affected hit table,
       update_where hit (\<lambda>row. (closed_run RunFailed now row)\<lparr>sr_lastErrorCode := Some runStopped\<rparr>) table))"

record run_health =
  rh_failedWindows :: nat
  rh_staleClaims :: nat
  rh_oldestFailedAgeMs :: int

definition microsecondsPerDay :: int where
  "microsecondsPerDay = 86400000000"

definition health :: "int \<Rightarrow> int \<Rightarrow> run_row list \<Rightarrow> run_health" where
  "health recentWindowDays now table =
     (let failed = (\<lambda>row. sr_status row = RunFailed
            \<and> sr_scheduledFor row \<ge> now - recentWindowDays * microsecondsPerDay
            \<and> (case sr_lastErrorCode row of None \<Rightarrow> False | Some code \<Rightarrow> code \<noteq> runStopped));
          stale = (\<lambda>row. sr_status row = RunClaimed \<and> leaseExpired now row
            \<and> (case sr_lastErrorCode row of None \<Rightarrow> True | Some code \<Rightarrow> code \<notin> set retentionContinuationCodes));
          finished = List.map_filter sr_finishedAt (filter failed table) in
      \<lparr>rh_failedWindows = length (filter failed table), rh_staleClaims = length (filter stale table),
       rh_oldestFailedAgeMs = (if finished = [] then 0 else (now - Min (set finished)) div 1000)\<rparr>)"

subsection \<open>What a claim does\<close>

definition window :: "run_row \<Rightarrow> string \<times> int" where
  "window row = (sr_taskName row, sr_scheduledFor row)"

lemma sameWindow_iff: "sameWindow t f row \<longleftrightarrow> window row = (t, f)"
  by (auto simp: sameWindow_def window_def)

lemma window_find:
  assumes "distinct (map window table)" "row \<in> set table" "sameWindow t f row"
  shows "List.find (sameWindow t f) table = Some row"
proof -
  obtain r where r: "List.find (sameWindow t f) table = Some r"
    using assms(2,3) by (cases "List.find (sameWindow t f) table") (auto simp: find_None_iff)
  have "r \<in> set table" "sameWindow t f r" using find_SomeD [OF r] by simp_all
  then have "r = row" using assms distinct_key_eq [OF assms(1), of r row] by (simp add: sameWindow_iff)
  then show ?thesis using r by simp
qed

text \<open>A statement that addresses the one row of a window.\<close>

lemma update_window:
  assumes "distinct (map window table)" "row \<in> set table" "sameWindow t f row"
  shows "update_where (\<lambda>r. sameWindow t f r \<and> P r) g table =
      (if P row then update_where (sameWindow t f) g table else table)"
    and "0 < affected (\<lambda>r. sameWindow t f r \<and> P r) table \<longleftrightarrow> P row"
proof -
  have same: "r = row" if "r \<in> set table" "sameWindow t f r" for r
    using that assms distinct_key_eq [OF assms(1), of r row] by (simp add: sameWindow_iff)
  show "update_where (\<lambda>r. sameWindow t f r \<and> P r) g table = (if P row then update_where (sameWindow t f) g table else table)"
  proof (cases "P row")
    case True
    then have "(sameWindow t f r \<and> P r) = sameWindow t f r" if "r \<in> set table" for r using same [OF that] by auto
    then show ?thesis using True by (auto simp: update_where_def)
  next
    case False
    then show ?thesis using same by (auto intro!: update_where_id)
  qed
  show "0 < affected (\<lambda>r. sameWindow t f r \<and> P r) table \<longleftrightarrow> P row"
    unfolding affected_pos_iff using same assms(2,3) by blast
qed

lemma update_window_absent:
  assumes "\<And>row. row \<in> set table \<Longrightarrow> \<not> sameWindow t f row"
  shows "update_where (\<lambda>r. sameWindow t f r \<and> P r) g table = table" "affected (\<lambda>r. sameWindow t f r \<and> P r) table = 0"
  using assms by (auto simp: update_where_id affected_zero_iff)

definition abandoned :: "int \<Rightarrow> run_row \<Rightarrow> run_row" where
  "abandoned now row = (closed_run RunFailed now row)\<lparr>sr_lastErrorCode := Some runAbandoned\<rparr>"

lemma window_updates [simp]:
  "window (recovered input token now row) = window row" "window (closed_run st now row) = window row"
  "window (counted acc c now row) = window row" "window (row\<lparr>sr_lastErrorCode := e\<rparr>) = window row"
  "window (row\<lparr>sr_lockExpiresAt := x\<rparr>) = window row" "window (abandoned now row) = window row"
  by (simp_all add: window_def recovered_def closed_run_def counted_def abandoned_def)

lemma recover_absent:
  assumes "\<And>row. row \<in> set table \<Longrightarrow> \<not> sameWindow (ri_taskName input) (ri_scheduledFor input) row"
  shows "recover input token now table = (Withheld Taken, table)"
proof -
  have "List.find (sameWindow (ri_taskName input) (ri_scheduledFor input)) table = None"
    using assms by (auto simp: find_None_iff)
  then show ?thesis
    by (simp add: recover_def conj_assoc update_window_absent [OF assms] refusalReason_def)
qed

lemma recover_present:
  assumes d: "distinct (map window table)" and row: "row \<in> set table" "sameWindow (ri_taskName input) (ri_scheduledFor input) row"
    and fresh: "\<And>r. r \<in> set table \<Longrightarrow> sr_lockedBy r \<noteq> Some token"
  shows "recover input token now table =
    (let w = sameWindow (ri_taskName input) (ri_scheduledFor input) in
     if sr_status row = RunClaimed \<and> leaseExpired now row then
       if sr_attempts row < ri_maxAttempts input then
         (Granted \<lparr>sc_id = sr_id row, sc_taskName = ri_taskName input, sc_scheduledFor = ri_scheduledFor input,
            sc_claimToken = token, sc_attempt = sr_attempts row + (if continuing row then 0 else 1)\<rparr>,
          update_where w (recovered input token now) table)
       else (Withheld Exhausted, update_where w (abandoned now) table)
     else (Withheld (if sr_status row = RunFailed then Exhausted else Taken), table))"
proof -
  let ?w = "sameWindow (ri_taskName input) (ri_scheduledFor input)"
  have only: "r = row" if "r \<in> set table" "?w r" for r
    using that row distinct_key_eq [OF d, of r row] by (simp add: sameWindow_iff)
  have "List.find (\<lambda>r. sr_lockedBy r = Some token) (update_where ?w (recovered input token now) table) = Some (recovered input token now row)"
  proof -
    let ?t = "update_where ?w (recovered input token now) table"
    have "recovered input token now row \<in> set ?t" using row by (auto simp: update_where_def)
    moreover have "sr_lockedBy (recovered input token now row) = Some token" by (simp add: recovered_def)
    ultimately obtain r where r: "List.find (\<lambda>r. sr_lockedBy r = Some token) ?t = Some r"
      by (cases "List.find (\<lambda>r. sr_lockedBy r = Some token) ?t") (auto simp: find_None_iff)
    have "r \<in> set ?t" "sr_lockedBy r = Some token" using find_SomeD [OF r] by simp_all
    moreover obtain r0 where r0: "r0 \<in> set table" "r = (if ?w r0 then recovered input token now r0 else r0)"
      using calculation(1) by (auto simp: update_where_def)
    ultimately have "?w r0" using fresh [OF r0(1)] by (auto split: if_splits)
    then have "r = recovered input token now row" using only [OF r0(1)] r0(2) by simp
    then show ?thesis using r by simp
  qed
  then show ?thesis
    using window_find [OF d row]
    by (simp add: recover_def conj_assoc update_window [OF d row] Let_def refusalReason_def recovered_def [of _ _ _ row]
        abandoned_def [abs_def] not_le)
qed

end
