(* ===== verification/Run_Ledger.thy ===== *)
theory Run_Ledger
  imports Scheduled_Runs Transition_Systems
begin

text \<open>
  Many replicas over the ledger of scheduled runs: a step relation over the table, the clock and the
  claims handed out. It notes, beside the table, how often a window was granted, how often an attempt of it
  handed the window back after removing rows, when rows were last removed, how many grants were
  made in the very microsecond of such a removal, and what the applied writes reported as removed. None of
  these notes reads a column the code writes. The invariant holds the checks of the table, the bound on the
  attempts, whose claim a row is, what the row has counted and what its next grant may cost.
\<close>

subsection \<open>Replicas over one ledger\<close>

record run_state =
  xs_table :: "run_row list"
  xs_now :: int
  xs_claims :: "string \<Rightarrow> ScheduledRunClaim option"
  xs_grants :: "string \<times> int \<Rightarrow> nat"
  xs_productive :: "string \<times> int \<Rightarrow> nat"
  xs_ties :: "string \<times> int \<Rightarrow> nat"
  xs_lastRemoval :: "string \<times> int \<Rightarrow> int option"
  xs_removed :: "string \<times> int \<Rightarrow> string \<Rightarrow> nat"

definition claim_window :: "ScheduledRunClaim \<Rightarrow> string \<times> int" where
  "claim_window c = (sc_taskName c, sc_scheduledFor c)"

text \<open>What is noted of a claim that was granted and of a write that was applied.\<close>

definition granted :: "run_state \<Rightarrow> run_row list \<Rightarrow> ScheduledRunClaimResult \<Rightarrow> run_state" where
  "granted s table result =
     (case result of
        Withheld _ \<Rightarrow> s\<lparr>xs_table := table\<rparr>
      | Granted c \<Rightarrow> let w = claim_window c in
          s\<lparr>xs_table := table, xs_claims := (xs_claims s)(sc_claimToken c := Some c),
            xs_grants := (xs_grants s)(w := xs_grants s w + 1),
            xs_ties := (xs_ties s)(w := xs_ties s w + (if xs_lastRemoval s w = Some (xs_now s) then 1 else 0))\<rparr>)"

text \<open>An attempt that stops short for one of the three reasons a backlog may have, and removed a row.\<close>

definition productive_stop :: "ScheduledRunFailure \<Rightarrow> counts \<Rightarrow> bool" where
  "productive_stop failure counts \<longleftrightarrow>
     sf_errorCode failure \<in> {''RETENTION_BUDGET_SPENT'', ''RETENTION_STORAGE_INCOMPLETE'', ''RETENTION_SHUTDOWN''}
     \<and> (\<exists>t. 0 < count_of counts t)"

definition recorded :: "run_state \<Rightarrow> ScheduledRunClaim \<Rightarrow> counts \<Rightarrow> bool \<Rightarrow> bool \<Rightarrow> run_row list \<Rightarrow> run_state" where
  "recorded s c counts productive applied table =
     (let w = claim_window c in
      if \<not> applied then s\<lparr>xs_table := table\<rparr>
      else s\<lparr>xs_table := table,
             xs_productive := (xs_productive s)(w := xs_productive s w + (if productive then 1 else 0)),
             xs_lastRemoval := (xs_lastRemoval s)(w := if \<exists>t. 0 < count_of counts t then Some (xs_now s) else xs_lastRemoval s w),
             xs_removed := (xs_removed s)(w := (\<lambda>t. xs_removed s w t + count_of counts t))\<rparr>)"

inductive run_step :: "nat \<Rightarrow> run_state \<Rightarrow> run_state \<Rightarrow> bool" for maxAttempts where
  clock: "xs_now s \<le> t \<Longrightarrow> run_step maxAttempts s (s\<lparr>xs_now := t\<rparr>)"
| claimed: "ri_maxAttempts input = maxAttempts \<Longrightarrow> xs_claims s claimToken = None \<Longrightarrow>
    claim_run input uuid claimToken contended (xs_now s) (xs_table s) = (result, table) \<Longrightarrow>
    run_step maxAttempts s (granted s table result)"
| completed: "xs_claims s claimToken = Some c \<Longrightarrow> distinct (map fst counts) \<Longrightarrow>
    complete_run c counts (xs_now s) (xs_table s) = Inr (applied, table) \<Longrightarrow>
    run_step maxAttempts s (recorded s c counts False applied table)"
| failed: "xs_claims s claimToken = Some c \<Longrightarrow> distinct (map fst counts) \<Longrightarrow>
    fail_run c failure counts maxAttempts (xs_now s) (xs_table s) = Inr (applied, table) \<Longrightarrow>
    run_step maxAttempts s (recorded s c counts (productive_stop failure counts) applied table)"
| closed: "closeAbandonedBefore currentWindow (xs_now s) (xs_table s) = (n, table) \<Longrightarrow>
    run_step maxAttempts s (s\<lparr>xs_table := table\<rparr>)"

definition run_init :: run_state where
  "run_init = \<lparr>xs_table = [], xs_now = 0, xs_claims = (\<lambda>_. None), xs_grants = (\<lambda>_. 0), xs_productive = (\<lambda>_. 0),
     xs_ties = (\<lambda>_. 0), xs_lastRemoval = (\<lambda>_. None), xs_removed = (\<lambda>_ _. 0)\<rparr>"

definition run_reachable :: "nat \<Rightarrow> run_state \<Rightarrow> bool" where
  "run_reachable maxAttempts s \<longleftrightarrow> (run_step maxAttempts)\<^sup>*\<^sup>* run_init s"

subsection \<open>The invariant\<close>

text \<open>The checks of the table \<open>scheduled_runs\<close>.\<close>

definition run_checks :: "run_row \<Rightarrow> bool" where
  "run_checks row \<longleftrightarrow>
     (sr_lockedBy row = None \<longleftrightarrow> sr_lockExpiresAt row = None)
     \<and> (case sr_status row of
          RunClaimed \<Rightarrow> sr_lockedBy row \<noteq> None \<and> sr_finishedAt row = None
        | RunSucceeded \<Rightarrow> sr_lockedBy row = None \<and> sr_finishedAt row \<noteq> None
        | RunFailed \<Rightarrow> sr_lockedBy row = None \<and> sr_finishedAt row \<noteq> None \<and> sr_lastErrorCode row \<noteq> None)
     \<and> (case sr_finishedAt row of None \<Rightarrow> True | Some t \<Rightarrow> t \<ge> sr_startedAt row)"

text \<open>
  What a row says beside the checks: how far its attempts are, whose claim it is, what it counted, when it
  last removed rows. A claimed row whose next grant may cost no attempt has a credit, and the grants are
  paid for by attempts, productive stops and ties.
\<close>

definition credit :: "run_row \<Rightarrow> nat" where
  "credit row =
     (if sr_status row = RunClaimed
        \<and> (case sr_progressedAt row of None \<Rightarrow> False | Some t \<Rightarrow> t \<ge> sr_startedAt row)
        \<and> (case sr_lastErrorCode row of None \<Rightarrow> True | Some code \<Rightarrow> code \<in> set retentionContinuationCodes)
      then 1 else 0)"

definition run_row_ok :: "nat \<Rightarrow> run_state \<Rightarrow> run_row \<Rightarrow> bool" where
  "run_row_ok maxAttempts s row \<longleftrightarrow>
     run_checks row \<and> sr_startedAt row \<le> xs_now s
     \<and> 1 \<le> sr_attempts row \<and> sr_attempts row \<le> maxAttempts
     \<and> xs_grants s (window row) + credit row
         \<le> sr_attempts row + xs_productive s (window row) + xs_ties s (window row)
     \<and> sr_progressedAt row = xs_lastRemoval s (window row)
     \<and> (\<forall>t. sr_progressedAt row = Some t \<longrightarrow> t \<le> xs_now s)
     \<and> count_of (stored_counts (sr_deletedCounts row)) = xs_removed s (window row)
     \<and> (xs_removed s (window row) = (\<lambda>_. 0) \<longrightarrow>
          xs_lastRemoval s (window row) = None \<and> xs_productive s (window row) = 0 \<and> xs_ties s (window row) = 0)
     \<and> (sr_status row = RunSucceeded \<or> leaseLive (xs_now s) row \<longrightarrow> sr_lastErrorCode row = None)
     \<and> (\<forall>token. sr_lockedBy row = Some token \<longrightarrow> (\<exists>c. xs_claims s token = Some c
          \<and> sc_claimToken c = token \<and> claim_window c = window row \<and> sc_attempt c = sr_attempts row))"

text \<open>What is noted of one window.\<close>

definition noted :: "run_state \<Rightarrow> string \<times> int \<Rightarrow> nat \<times> nat \<times> nat \<times> int option \<times> (string \<Rightarrow> nat)" where
  "noted s w = (xs_grants s w, xs_productive s w, xs_ties s w, xs_lastRemoval s w, xs_removed s w)"

definition run_inv :: "nat \<Rightarrow> run_state \<Rightarrow> bool" where
  "run_inv maxAttempts s \<longleftrightarrow>
     distinct (map window (xs_table s))
     \<and> (\<forall>row \<in> set (xs_table s). run_row_ok maxAttempts s row)
     \<and> (\<forall>w. w \<notin> window ` set (xs_table s) \<longrightarrow> noted s w = (0, 0, 0, None, \<lambda>_. 0))
     \<and> (\<forall>token c. xs_claims s token = Some c \<longrightarrow> sc_claimToken c = token)"

subsection \<open>Lemmas\<close>

lemma count_of_update: "count_of (AList.update k v counts) t = (if t = k then v else count_of counts t)"
  by (simp add: count_of_def update_conv)

lemma count_of_fold:
  "distinct keys \<Longrightarrow> count_of (fold (\<lambda>k. AList.update k (f k)) keys base) t = (if t \<in> set keys then f t else count_of base t)"
proof (induction keys arbitrary: base)
  case (Cons k keys)
  then show ?case by (simp add: count_of_update)
qed simp

lemma count_of_absent: "t \<notin> set (map fst counts) \<Longrightarrow> count_of counts t = 0"
  by (force simp: count_of_def dest!: map_of_SomeD split: option.splits)

lemma accumulated:
  assumes "accumulateCounts counts = Inr acc" "distinct (map fst counts)"
  shows "count_of (stored_counts (acc stored)) t = count_of (stored_counts stored) t + count_of counts t"
proof (cases "counts = []")
  case True
  then show ?thesis using assms(1) by (auto simp: accumulateCounts_def count_of_def)
next
  case False
  then have "sort (map fst counts) \<noteq> []" by (metis length_0_conv length_map length_sort)
  then have "acc stored = Some (fold (\<lambda>t. AList.update t (count_of (stored_counts stored) t + count_of counts t))
      (sort (map fst counts)) (stored_counts stored))"
    using assms(1) by (auto simp: accumulateCounts_def Let_def split: option.splits if_splits)
  then show ?thesis
    using assms(2) count_of_absent [of t counts] by (simp add: stored_counts_def count_of_fold)
qed

text \<open>A row whose lease is over can be recovered, and only then.\<close>

lemma lease_dichotomy: "run_checks row \<Longrightarrow> sr_status row = RunClaimed \<Longrightarrow> leaseExpired now row \<longleftrightarrow> \<not> leaseLive now row"
  by (auto simp: run_checks_def leaseExpired_def leaseLive_def split: option.splits)

lemma leaseLive_mono: "leaseLive now' row \<Longrightarrow> now \<le> now' \<Longrightarrow> leaseLive now row"
  by (auto simp: leaseLive_def split: option.splits)

text \<open>One write to the rows it selects, with the rest of the state as it was.\<close>

lemma run_inv_update:
  assumes inv: "run_inv maxAttempts s" and "\<And>row. window (g row) = window row"
    and "xs_table s' = update_where P g (xs_table s)"
    and rows: "\<And>row. row \<in> set (xs_table s) \<Longrightarrow> P row \<Longrightarrow> run_row_ok maxAttempts s row \<Longrightarrow> run_row_ok maxAttempts s' (g row)"
    and others: "\<And>row. row \<in> set (xs_table s) \<Longrightarrow> \<not> P row \<Longrightarrow> run_row_ok maxAttempts s row \<Longrightarrow> run_row_ok maxAttempts s' row"
    and ghosts: "\<And>w. w \<notin> window ` set (xs_table s) \<Longrightarrow>
noted s' w = noted s w"
    and claims: "\<And>token c. xs_claims s' token = Some c \<Longrightarrow> sc_claimToken c = token"
  shows "run_inv maxAttempts s'"
proof -
  have windows: "map window (xs_table s') = map window (xs_table s)"
    using assms(2,3) by (simp add: update_where_def)
  then have "window ` set (xs_table s') = window ` set (xs_table s)" by (metis set_map)
  moreover have "run_row_ok maxAttempts s' row" if row: "row \<in> set (xs_table s')" for row
  proof -
    obtain r where r: "r \<in> set (xs_table s)" "row = (if P r then g r else r)"
      using row assms(3) by (auto simp: update_where_def)
    moreover have "run_row_ok maxAttempts s r" using inv r(1) by (simp add: run_inv_def)
    ultimately show ?thesis using rows others by simp
  qed
  ultimately show ?thesis using inv windows ghosts claims by (simp add: run_inv_def)
qed


lemma fresh_token:
  assumes "run_inv maxAttempts s" "xs_claims s token = None" "row \<in> set (xs_table s)"
  shows "sr_lockedBy row \<noteq> Some token"
  using assms by (auto simp: run_inv_def run_row_ok_def)

lemma run_row_ok_frame:
  assumes "run_row_ok maxAttempts s row" "xs_now s \<le> xs_now s'"
    "noted s' (window row) = noted s (window row)"
    "\<And>token. sr_lockedBy row = Some token \<Longrightarrow> xs_claims s' token = xs_claims s token"
  shows "run_row_ok maxAttempts s' row"
  using assms leaseLive_mono [of "xs_now s'" row "xs_now s"] by (force simp: run_row_ok_def noted_def)

lemma run_step_insert:
  fixes s t f uuid token x
  defines "row \<equiv> \<lparr>sr_id = uuid, sr_taskName = t, sr_scheduledFor = f, sr_status = RunClaimed, sr_lockedBy = Some token,
      sr_lockExpiresAt = Some x, sr_attempts = 1, sr_startedAt = xs_now s, sr_finishedAt = None, sr_deletedCounts = None,
      sr_progressedAt = None, sr_lastErrorCode = None\<rparr>"
    and "c \<equiv> \<lparr>sc_id = uuid, sc_taskName = t, sc_scheduledFor = f, sc_claimToken = token, sc_attempt = 1\<rparr>"
  assumes inv: "run_inv maxAttempts s" and max: "1 \<le> maxAttempts" and token: "xs_claims s token = None"
    and new: "(t, f) \<notin> window ` set (xs_table s)"
  shows "run_inv maxAttempts (granted s (xs_table s @ [row]) (Granted c))"
proof -
  have w: "claim_window c = (t, f)" "window row = (t, f)" by (simp_all add: c_def row_def claim_window_def window_def)
  have zero: "noted s (t, f) = (0, 0, 0, None, \<lambda>_. 0)" using inv new by (simp add: run_inv_def)
  define s' where "s' = granted s (xs_table s @ [row]) (Granted c)"
  have s': "xs_table s' = xs_table s @ [row]" "xs_now s' = xs_now s" "xs_claims s' = (xs_claims s)(token := Some c)"
    "noted s' (t, f) = (1, 0, 0, None, \<lambda>_. 0)" "\<And>v. v \<noteq> (t, f) \<Longrightarrow> noted s' v = noted s v"
    using zero by (simp_all add: s'_def granted_def Let_def w noted_def, simp_all add: c_def)
  have "run_row_ok maxAttempts s' row"
    using max s'(4) by (simp add: run_row_ok_def run_checks_def s' w stored_counts_def count_of_def fun_eq_iff leaseLive_def noted_def)
      (simp add: row_def c_def w [unfolded row_def c_def] credit_def)
  moreover have "run_row_ok maxAttempts s' r" if r: "r \<in> set (xs_table s)" for r
  proof (rule run_row_ok_frame)
    show "run_row_ok maxAttempts s r" using inv r by (simp add: run_inv_def)
    have "window r \<noteq> (t, f)" using new r by force
    then show "noted s' (window r) = noted s (window r)" by (rule s'(5))
    show "xs_claims s' tk = xs_claims s tk" if "sr_lockedBy r = Some tk" for tk
      using fresh_token [OF inv token r] that by (auto simp: s')
  qed (simp_all add: s')
  moreover have "sc_claimToken d = tk" if "xs_claims s' tk = Some d" for tk d
    using that inv by (auto simp: s' run_inv_def c_def split: if_splits)
  ultimately show ?thesis
    using inv new unfolding s'_def [symmetric] by (auto simp: run_inv_def s' w)
qed


text \<open>A grant that costs no attempt uses the credit of the row, and one in the instant of the last removal is a tie.\<close>

lemma recovered_credit:
  assumes "run_row_ok maxAttempts s row" "sr_status row = RunClaimed"
  shows "credit (recovered input token (xs_now s) row) = (if xs_lastRemoval s (window row) = Some (xs_now s) then 1 else 0)"
    and "continuing row \<Longrightarrow> credit row = 1"
  using assms by (auto simp: run_row_ok_def credit_def recovered_def continuing_def split: option.splits)

lemma run_step_recovered:
  assumes inv: "run_inv maxAttempts s" and token: "xs_claims s token = None" and row: "row \<in> set (xs_table s)"
    and w: "window row = (t, f)" and lost: "sr_status row = RunClaimed" and budget: "sr_attempts row < maxAttempts"
    and c: "c = \<lparr>sc_id = sr_id row, sc_taskName = t, sc_scheduledFor = f, sc_claimToken = token,
      sc_attempt = sr_attempts row + (if continuing row then 0 else 1)\<rparr>"
  shows "run_inv maxAttempts (granted s (update_where (sameWindow t f) (recovered input token (xs_now s)) (xs_table s)) (Granted c))"
proof -
  define s' where "s' = granted s (update_where (sameWindow t f) (recovered input token (xs_now s)) (xs_table s)) (Granted c)"
  have d: "distinct (map window (xs_table s))" using inv by (simp add: run_inv_def)
  have only: "r = row" if "r \<in> set (xs_table s)" "window r = (t, f)" for r
    using that row w distinct_key_eq [OF d, of r row] by simp
  have cw: "claim_window c = (t, f)" "sc_claimToken c = token" by (simp_all add: c claim_window_def)
  have s': "xs_table s' = update_where (sameWindow t f) (recovered input token (xs_now s)) (xs_table s)"
    "xs_now s' = xs_now s" "xs_claims s' = (xs_claims s)(token := Some c)" "\<And>v. v \<noteq> (t, f) \<Longrightarrow> noted s' v = noted s v"
    "xs_grants s' (t, f) = xs_grants s (t, f) + 1" "xs_removed s' (t, f) = xs_removed s (t, f)"
    "xs_productive s' (t, f) = xs_productive s (t, f)" "xs_lastRemoval s' (t, f) = xs_lastRemoval s (t, f)"
    "xs_ties s' (t, f) = xs_ties s (t, f) + (if xs_lastRemoval s (t, f) = Some (xs_now s) then 1 else 0)"
    by (simp_all add: s'_def granted_def Let_def cw noted_def)
  show ?thesis
    unfolding s'_def [symmetric]
  proof (rule run_inv_update [OF inv])
    show "window (recovered input token (xs_now s) r) = window r" for r by simp
    show "xs_table s' = update_where (sameWindow t f) (recovered input token (xs_now s)) (xs_table s)" by (rule s'(1))
    show "run_row_ok maxAttempts s' (recovered input token (xs_now s) r)"
      if "r \<in> set (xs_table s)" "sameWindow t f r" "run_row_ok maxAttempts s r" for r
    proof -
      have r: "r = row" using only that by (simp add: sameWindow_iff)
      then have ok: "run_row_ok maxAttempts s row" using that(3) by simp
      show ?thesis
        unfolding r using ok lost budget w recovered_credit(1) [OF ok lost, of input token] recovered_credit(2) [OF ok lost]
        by (simp add: run_row_ok_def run_checks_def s' cw)
          (auto simp: c claim_window_def recovered_def window_def)
    qed
    show "run_row_ok maxAttempts s' r"
      if r: "r \<in> set (xs_table s)" "\<not> sameWindow t f r" "run_row_ok maxAttempts s r" for r
    proof (rule run_row_ok_frame [OF r(3)])
      show "xs_claims s' tk = xs_claims s tk" if "sr_lockedBy r = Some tk" for tk
        using fresh_token [OF inv token r(1)] that by (auto simp: s')
    qed (use r(2) in \<open>simp_all add: s' sameWindow_iff\<close>)
    show "noted s' v = noted s v" if "v \<notin> window ` set (xs_table s)" for v
      by (rule s'(4)) (use that w imageI [OF row, of window] in auto)
    show "sc_claimToken d = tk" if "xs_claims s' tk = Some d" for tk d
      using that inv cw by (auto simp: s' run_inv_def split: if_splits)
  qed
qed

text \<open>Closing rows, by a claim that finds their attempts spent or when their day is over.\<close>

lemma run_row_ok_closed:
  assumes "run_row_ok maxAttempts s row" "sr_status row = RunClaimed"
  shows "run_row_ok maxAttempts (s\<lparr>xs_table := table\<rparr>) ((closed_run RunFailed (xs_now s) row)\<lparr>sr_lastErrorCode := Some code\<rparr>)"
  using assms by (simp add: run_row_ok_def run_checks_def closed_run_def window_def leaseLive_def credit_def)

lemma run_step_close:
  assumes inv: "run_inv maxAttempts s" and P: "\<And>row. row \<in> set (xs_table s) \<Longrightarrow> P row \<Longrightarrow> sr_status row = RunClaimed"
  shows "run_inv maxAttempts (s\<lparr>xs_table :=
    update_where P (\<lambda>row. (closed_run RunFailed (xs_now s) row)\<lparr>sr_lastErrorCode := Some code\<rparr>) (xs_table s)\<rparr>)"
proof (rule run_inv_update [OF inv])
  fix row assume r: "row \<in> set (xs_table s)" "P row" "run_row_ok maxAttempts s row"
  then show "run_row_ok maxAttempts (s\<lparr>xs_table := update_where P (\<lambda>row. (closed_run RunFailed (xs_now s) row)
      \<lparr>sr_lastErrorCode := Some code\<rparr>) (xs_table s)\<rparr>) ((closed_run RunFailed (xs_now s) row)\<lparr>sr_lastErrorCode := Some code\<rparr>)"
    using P by (intro run_row_ok_closed)
next
  fix row assume r: "run_row_ok maxAttempts s row"
  then show "run_row_ok maxAttempts (s\<lparr>xs_table := update_where P (\<lambda>row. (closed_run RunFailed (xs_now s) row)
      \<lparr>sr_lastErrorCode := Some code\<rparr>) (xs_table s)\<rparr>) row"
    by (rule run_row_ok_frame) (simp_all add: noted_def)
qed (use inv in \<open>simp_all add: run_inv_def noted_def\<close>)

lemma removedRows_iff:
  assumes "distinct (map fst counts)"
  shows "removedRows counts \<longleftrightarrow> (\<exists>t. 0 < count_of counts t)"
proof
  assume "removedRows counts"
  then obtain t n where "(t, n) \<in> set counts" "0 < n" "map_of counts t = Some n"
    using map_of_is_SomeI assms by (fastforce simp: removedRows_def)
  then show "\<exists>t. 0 < count_of counts t" by (intro exI [of _ t]) (simp add: count_of_def)
next
  assume "\<exists>t. 0 < count_of counts t"
  then show "removedRows counts" by (force simp: count_of_def removedRows_def split: option.splits dest: map_of_SomeD)
qed

text \<open>The writes of a holder.\<close>

lemma run_step_recorded:
  assumes inv: "run_inv maxAttempts s" and c: "xs_claims s token = Some c" "distinct (map fst counts)"
    and acc: "accumulateCounts counts = Inr acc"
    and table: "table = update_where (holds_run (sc_claimToken c) (xs_now s)) g (xs_table s)"
    and applied: "applied = (0 < affected (holds_run (sc_claimToken c) (xs_now s)) (xs_table s))"
    and g: "\<And>row. window (g row) = window row" "\<And>row. sr_deletedCounts (g row) = acc (sr_deletedCounts row)"
      "\<And>row. sr_progressedAt (g row) = progressedAtExpression counts (xs_now s) (sr_progressedAt row)"
    and code: "\<And>row. sr_lastErrorCode (g row) = code row" "\<And>row. sr_status row = RunClaimed \<Longrightarrow> sr_startedAt (g row) = sr_startedAt row"
      "\<And>row. sr_attempts (g row) = sr_attempts row"
    and stop: "\<And>row e. sr_status (g row) = RunClaimed \<Longrightarrow> code row = Some e \<Longrightarrow> e \<in> set retentionContinuationCodes \<Longrightarrow>
      (\<exists>t. 0 < count_of counts t) \<Longrightarrow> productive"
    and named: "\<And>row. sr_status (g row) = RunClaimed \<Longrightarrow> code row \<noteq> None" and some: "productive \<Longrightarrow> \<exists>t. 0 < count_of counts t"
    and ok: "\<And>row. run_checks row \<Longrightarrow> sr_status row = RunClaimed \<Longrightarrow> leaseLive (xs_now s) row \<Longrightarrow> sr_startedAt row \<le> xs_now s \<Longrightarrow>
      sr_lastErrorCode row = None \<Longrightarrow> run_checks (g row) \<and> (sr_status (g row) = RunSucceeded \<or> leaseLive (xs_now s) (g row) \<longrightarrow> code row = None)
        \<and> (\<forall>token. sr_lockedBy (g row) = Some token \<longrightarrow> sr_lockedBy row = Some token)"
  shows "run_inv maxAttempts (recorded s c counts productive applied table)"
proof -
  define s' where "s' = recorded s c counts productive applied table"
  let ?hit = "holds_run (sc_claimToken c) (xs_now s)"
  have token: "sc_claimToken c = token" using inv c(1) by (simp add: run_inv_def)
  have hit: "window row = claim_window c \<and> sc_attempt c = sr_attempts row" if "row \<in> set (xs_table s)" "?hit row" for row
    using inv that c(1) by (auto simp: run_inv_def run_row_ok_def holds_run_def token)
  let ?w = "claim_window c"
  have s': "xs_table s' = table" "xs_now s' = xs_now s" "xs_claims s' = xs_claims s"
    by (simp_all add: s'_def recorded_def Let_def)
  have other: "noted s' v = noted s v" if "\<not> applied \<or> v \<noteq> ?w" for v
    using that by (auto simp: s'_def recorded_def Let_def noted_def)
  have hits: "applied \<Longrightarrow> \<exists>r \<in> set (xs_table s). ?hit r" by (simp add: applied affected_pos_iff)
  show ?thesis
    unfolding s'_def [symmetric]
  proof (rule run_inv_update [OF inv g(1)])
    show "xs_table s' = update_where ?hit g (xs_table s)" by (simp add: s' table)
    show "run_row_ok maxAttempts s' (g row)" if row: "row \<in> set (xs_table s)" "?hit row" "run_row_ok maxAttempts s row" for row
    proof -
      have a: "applied" using row(1,2) by (auto simp: applied affected_pos_iff)
      note w = hit [OF row(1,2)]
      have live: "sr_status row = RunClaimed" "leaseLive (xs_now s) row" using row(2) by (simp_all add: holds_run_def)
      note old = row(3) [unfolded run_row_ok_def]
      have none: "sr_lastErrorCode row = None" using old live(2) by blast
      have noted: "xs_grants s' ?w = xs_grants s ?w" "xs_ties s' ?w = xs_ties s ?w"
        "xs_productive s' ?w = xs_productive s ?w + (if productive then 1 else 0)"
        "xs_lastRemoval s' ?w = (if \<exists>t. 0 < count_of counts t then Some (xs_now s) else xs_lastRemoval s ?w)"
        "xs_removed s' ?w = (\<lambda>t. xs_removed s ?w t + count_of counts t)"
        using a by (simp_all add: s'_def recorded_def Let_def)
      have progress: "sr_progressedAt (g row) = xs_lastRemoval s' ?w"
        using old w by (simp add: g(3) progressedAtExpression_def removedRows_iff [OF c(2)] noted(4))
      have paid: "credit (g row) \<le> credit row + (if productive then 1 else 0)"
      proof (cases "\<exists>t. 0 < count_of counts t")
        case True
        then show ?thesis
          using stop [of row] named [of row] by (cases "code row") (auto simp: credit_def code(1))
      next
        case False
        then have "sr_progressedAt (g row) = sr_progressedAt row"
          using g(3) by (simp add: progressedAtExpression_def removedRows_iff [OF c(2)])
        then show ?thesis using code(2) [OF live(1)] live(1) none by (cases "sr_progressedAt row") (auto simp: credit_def)
      qed
      have "count_of (stored_counts (sr_deletedCounts (g row))) = xs_removed s' ?w"
        using old w by (simp add: fun_eq_iff g(2) accumulated [OF acc c(2)] noted(5))
      moreover have "xs_lastRemoval s' ?w = None \<and> xs_productive s' ?w = 0 \<and> xs_ties s' ?w = 0"
        if zero: "xs_removed s' ?w = (\<lambda>_. 0)"
      proof -
        have "xs_removed s ?w = (\<lambda>_. 0)" "\<not> (\<exists>t. 0 < count_of counts t)" using zero noted(5) by (auto simp: fun_eq_iff)
        moreover from this(2) have "\<not> productive" using some by blast
        ultimately show ?thesis using old w noted by auto
      qed
      moreover have "xs_grants s' ?w + credit (g row) \<le> sr_attempts row + xs_productive s' ?w + xs_ties s' ?w"
        using old w paid noted(1-3) by (auto split: if_splits)
      moreover have "\<forall>t. xs_lastRemoval s' ?w = Some t \<longrightarrow> t \<le> xs_now s" using old w noted(4) by auto
      moreover have "sr_startedAt (g row) \<le> xs_now s" "sr_startedAt row \<le> xs_now s"
        using code(2) [OF live(1)] old by simp_all
      moreover note ok [OF _ live this(2) none]
      moreover have "run_checks row" "1 \<le> sr_attempts row" "sr_attempts row \<le> maxAttempts" using old by blast+
      moreover have "\<forall>token. sr_lockedBy row = Some token \<longrightarrow> (\<exists>d. xs_claims s token = Some d
          \<and> sc_claimToken d = token \<and> claim_window d = window row \<and> sc_attempt d = sr_attempts row)" using old by blast
      ultimately show ?thesis
        using w progress unfolding run_row_ok_def g(1) code(1,3) s'(2,3) by auto
    qed
    show "run_row_ok maxAttempts s' row" if row: "row \<in> set (xs_table s)" "\<not> ?hit row" "run_row_ok maxAttempts s row" for row
    proof (rule run_row_ok_frame [OF row(3)])
      show "noted s' (window row) = noted s (window row)"
      proof (rule other)
        have "window row \<noteq> ?w" if a: applied
        proof -
          obtain r where "r \<in> set (xs_table s)" "?hit r" using hits [OF a] by blast
          then show ?thesis
            using hit row(1,2) inv distinct_key_eq [of window "xs_table s" r row] by (auto simp: run_inv_def)
        qed
        then show "\<not> applied \<or> window row \<noteq> ?w" by blast
      qed
    qed (simp_all add: s')
    show "noted s' v = noted s v" if v: "v \<notin> window ` set (xs_table s)" for v
    proof (rule other)
      have "v \<noteq> ?w" if a: applied
      proof -
        obtain r where "r \<in> set (xs_table s)" "?hit r" using hits [OF a] by blast
        then show ?thesis using hit v by force
      qed
      then show "\<not> applied \<or> v \<noteq> ?w" by blast
    qed
    show "sc_claimToken d = tk" if "xs_claims s' tk = Some d" for tk d
      using that inv by (simp add: s' run_inv_def)
  qed
qed

lemma run_step_completed:
  assumes inv: "run_inv maxAttempts s" and c: "xs_claims s token = Some c" "distinct (map fst counts)"
    and run: "complete_run c counts (xs_now s) (xs_table s) = Inr (applied, table)"
  shows "run_inv maxAttempts (recorded s c counts False applied table)"
proof -
  obtain acc where acc: "accumulateCounts counts = Inr acc" using run by (auto simp: complete_run_def and_then_Inr_iff)
  show ?thesis
    by (rule run_step_recorded [OF inv c acc, where g = "\<lambda>row. counted acc counts (xs_now s) (closed_run RunSucceeded (xs_now s) row)"
          and code = sr_lastErrorCode])
      (use run acc in \<open>auto simp: complete_run_def Let_def counted_def closed_run_def run_checks_def window_def leaseLive_def\<close>)
qed

lemma run_step_failed:
  assumes inv: "run_inv maxAttempts s" and c: "xs_claims s token = Some c" "distinct (map fst counts)"
    and run: "fail_run c failure counts maxAttempts (xs_now s) (xs_table s) = Inr (applied, table)"
  shows "run_inv maxAttempts (recorded s c counts (productive_stop failure counts) applied table)"
proof -
  obtain acc where acc: "accumulateCounts counts = Inr acc" using run by (auto simp: fail_run_def Let_def and_then_Inr_iff)
  show ?thesis
    by (rule run_step_recorded [OF inv c acc, where g = "\<lambda>row. (counted acc counts (xs_now s)
          (if sf_retryable failure \<and> sc_attempt c < maxAttempts then row\<lparr>sr_lockExpiresAt := Some (xs_now s)\<rparr>
           else closed_run RunFailed (xs_now s) row))\<lparr>sr_lastErrorCode := Some (sf_errorCode failure)\<rparr>"
          and code = "\<lambda>_. Some (sf_errorCode failure)"])
      (use run acc in \<open>auto simp: fail_run_def Let_def counted_def closed_run_def run_checks_def window_def leaseLive_def
        productive_stop_def retentionContinuationCodes_def split: option.splits\<close>)
qed

lemma run_step_claimed:
  assumes inv: "run_inv maxAttempts s" and max: "1 \<le> maxAttempts" and m: "ri_maxAttempts input = maxAttempts"
    and token: "xs_claims s token = None"
    and run: "claim_run input uuid token contended (xs_now s) (xs_table s) = (result, table)"
  shows "run_inv maxAttempts (granted s table result)"
proof -
  let ?t = "ri_taskName input" and ?f = "ri_scheduledFor input"
  have d: "distinct (map window (xs_table s))" using inv by (simp add: run_inv_def)
  note fresh = fresh_token [OF inv token]
  consider "contended" | "\<not> contended" "(?t, ?f) \<notin> window ` set (xs_table s)"
    | row where "\<not> contended" "row \<in> set (xs_table s)" "window row = (?t, ?f)" by force
  then show ?thesis
  proof cases
    case 1
    then show ?thesis using run inv by (auto simp: claim_run_def granted_def)
  next
    case 2
    then have absent: "\<not> sameWindow ?t ?f r" if "r \<in> set (xs_table s)" for r using that by (force simp: sameWindow_iff)
    show ?thesis
    proof (cases "\<exists>r \<in> set (xs_table s). sr_id r = uuid")
      case True
      then have "claim_run input uuid token contended (xs_now s) (xs_table s) = (Withheld Taken, xs_table s)"
        using 2(1) recover_absent [OF absent] by (auto simp: claim_run_def)
      then show ?thesis using run inv by (simp add: granted_def)
    next
      case False
      then show ?thesis using run 2 absent run_step_insert [OF inv max token 2(2)] by (auto simp: claim_run_def)
    qed
  next
    case row: 3
    have s: "sameWindow ?t ?f row" using row(3) by (simp add: sameWindow_iff)
    have r: "recover input token (xs_now s) (xs_table s) = (result, table)"
      using run row(1,2) s by (auto simp: claim_run_def split: if_splits)
    note present = recover_present [OF d row(2) s fresh, of "xs_now s"]
    consider "sr_status row = RunClaimed" "leaseExpired (xs_now s) row" "sr_attempts row < maxAttempts"
      | "sr_status row = RunClaimed" "leaseExpired (xs_now s) row" "\<not> sr_attempts row < maxAttempts"
      | "\<not> (sr_status row = RunClaimed \<and> leaseExpired (xs_now s) row)" by blast
    then show ?thesis
    proof cases
      case 1
      then show ?thesis
        using r present m run_step_recovered [OF inv token row(2,3) 1(1,3) refl, of input] by (auto simp: Let_def)
    next
      case 2
      have spent: "sr_status r' = RunClaimed" if "r' \<in> set (xs_table s)" "sameWindow ?t ?f r'" for r'
        using that row(2,3) distinct_key_eq [OF d, of r' row] 2(1) by (simp add: sameWindow_iff)
      have "(\<lambda>row. (closed_run RunFailed (xs_now s) row)\<lparr>sr_lastErrorCode := Some runAbandoned\<rparr>) = abandoned (xs_now s)"
        by (simp add: fun_eq_iff abandoned_def)
      then show ?thesis
        using r present m 2 run_step_close [OF inv spent, where code = runAbandoned] by (auto simp: Let_def granted_def)
    next
      case 3
      then show ?thesis using r present inv by (auto simp: Let_def granted_def)
    qed
  qed
qed

lemma run_step_inv:
  assumes "run_inv maxAttempts s" "1 \<le> maxAttempts" "run_step maxAttempts s s'"
  shows "run_inv maxAttempts s'"
  using assms(3)
proof cases
  case (clock t)
  have "run_row_ok maxAttempts s' row" if "row \<in> set (xs_table s)" for row
    by (rule run_row_ok_frame [of _ s]) (use clock that assms(1) in \<open>simp_all add: run_inv_def noted_def\<close>)
  then show ?thesis using assms(1) clock by (simp add: run_inv_def noted_def)
next
  case (closed currentWindow n table)
  then show ?thesis
    using run_step_close [OF assms(1), of "\<lambda>row. sr_status row = RunClaimed \<and> sr_scheduledFor row < currentWindow \<and> leaseExpired (xs_now s) row" runStopped]
    by (auto simp: closeAbandonedBefore_def Let_def)
next
  case (claimed input claimToken uuid contended result table)
  then show ?thesis using run_step_claimed [OF assms(1,2)] by blast
qed (auto intro: run_step_completed run_step_failed assms)


interpretation runs: transition_system "run_step (Suc n)" "run_inv (Suc n)" run_init for n
  by unfold_locales (simp add: run_inv_def run_init_def noted_def, rule run_step_inv, simp_all)

lemma reachable_run_inv: "run_reachable (Suc n) s \<Longrightarrow> run_inv (Suc n) s"
  unfolding run_reachable_def by (rule runs.reachable_inv)

text \<open>No operation touches a row that is not claimed.\<close>

lemma update_where_other: "row \<in> set rows \<Longrightarrow> \<not> P row \<Longrightarrow> row \<in> set (update_where P g rows)"
  by (auto simp: update_where_def image_iff)

lemma recover_table:
  assumes "recover input token now table = (result, table')"
  obtains P g Q h where "table' = update_where Q h (update_where P g table)"
    "\<And>row. P row \<Longrightarrow> sr_status row = RunClaimed" "\<And>row. Q row \<Longrightarrow> sr_status row = RunClaimed"
proof -
  let ?lost = "\<lambda>row. sameWindow (ri_taskName input) (ri_scheduledFor input) row \<and> sr_status row = RunClaimed \<and> leaseExpired now row"
  let ?P = "\<lambda>row. ?lost row \<and> sr_attempts row < ri_maxAttempts input"
  let ?Q = "\<lambda>row. ?lost row \<and> sr_attempts row \<ge> ri_maxAttempts input"
  let ?t = "update_where ?P (recovered input token now) table"
  let ?h = "\<lambda>row. (closed_run RunFailed now row)\<lparr>sr_lastErrorCode := Some runAbandoned\<rparr>"
  have "table' = ?t \<or> table' = update_where ?Q ?h ?t"
    using assms unfolding recover_def Let_def by (simp split: if_splits option.splits)
  then show ?thesis
  proof
    assume "table' = ?t"
    then have "table' = update_where (\<lambda>_. False) id ?t" by (simp add: update_where_id)
    then show ?thesis by (rule that) simp_all
  next
    assume "table' = update_where ?Q ?h ?t"
    then show ?thesis by (rule that) simp_all
  qed
qed

lemma settled_kept:
  assumes "sr_status row \<noteq> RunClaimed" "row \<in> set table"
  shows "complete_run c counts now table = Inr (applied, table') \<Longrightarrow> row \<in> set table'"
    "fail_run c failure counts m now table = Inr (applied, table') \<Longrightarrow> row \<in> set table'"
    "closeAbandonedBefore w now table = (k, table') \<Longrightarrow> row \<in> set table'"
    "claim_run input uuid token contended now table = (result, table') \<Longrightarrow> row \<in> set table'"
proof -
  show "complete_run c counts now table = Inr (applied, table') \<Longrightarrow> row \<in> set table'"
    "fail_run c failure counts m now table = Inr (applied, table') \<Longrightarrow> row \<in> set table'"
    "closeAbandonedBefore w now table = (k, table') \<Longrightarrow> row \<in> set table'"
    using assms by (auto simp: complete_run_def fail_run_def closeAbandonedBefore_def Let_def and_then_Inr_iff holds_run_def
        intro!: update_where_other)
  have "row \<in> set table'" if r: "recover input token now table = (result, table')"
    by (rule recover_table [OF r]) (use assms in \<open>auto intro!: update_where_other\<close>)
  then show "claim_run input uuid token contended now table = (result, table') \<Longrightarrow> row \<in> set table'"
    using assms unfolding claim_run_def by (auto split: if_splits)
qed

lemma granted_table [simp]: "xs_table (granted s table result) = table"
  by (simp add: granted_def Let_def split: ScheduledRunClaimResult.split)

lemma recorded_table [simp]: "xs_table (recorded s c counts productive applied table) = table"
  by (simp add: recorded_def Let_def)

lemma settled_step:
  assumes "run_step m s s'" "row \<in> set (xs_table s)" "sr_status row \<noteq> RunClaimed"
  shows "row \<in> set (xs_table s')"
  using assms(1) by cases (use assms(2) settled_kept [OF assms(3,2)] in auto)

subsection \<open>A concrete window\<close>

definition demo_run_input :: run_claim_input where
  "demo_run_input = \<lparr>ri_taskName = ''auth-sessions'', ri_scheduledFor = 0, ri_leaseMs = 600000, ri_maxAttempts = 3\<rparr>"

definition demo_claimed :: run_state where
  "demo_claimed = granted run_init (snd (claim_run demo_run_input ''r1'' ''t1'' False 0 []))
     (fst (claim_run demo_run_input ''r1'' ''t1'' False 0 []))"

definition demo_succeeded :: run_state where
  "demo_succeeded = recorded demo_claimed (the (xs_claims demo_claimed ''t1'')) [(''auth_sessions'', 5)] False True
     (snd (sum.projr (complete_run (the (xs_claims demo_claimed ''t1'')) [(''auth_sessions'', 5)] 0 (xs_table demo_claimed))))"

definition demo_run_row :: run_row where
  "demo_run_row = \<lparr>sr_id = ''r1'', sr_taskName = ''auth-sessions'', sr_scheduledFor = 0, sr_status = RunSucceeded,
     sr_lockedBy = None, sr_lockExpiresAt = None, sr_attempts = 1, sr_startedAt = 0, sr_finishedAt = Some 0,
     sr_deletedCounts = Some [(''auth_sessions'', 5)], sr_progressedAt = Some 0, sr_lastErrorCode = None\<rparr>"

lemma demo_claimed_eq:
  "demo_claimed = run_init\<lparr>xs_table := [demo_run_row\<lparr>sr_status := RunClaimed, sr_lockedBy := Some ''t1'',
      sr_lockExpiresAt := Some 600000000, sr_finishedAt := None, sr_deletedCounts := None, sr_progressedAt := None\<rparr>],
     xs_claims := (\<lambda>_. None)(''t1'' := Some \<lparr>sc_id = ''r1'', sc_taskName = ''auth-sessions'', sc_scheduledFor = 0,
       sc_claimToken = ''t1'', sc_attempt = 1\<rparr>),
     xs_grants := (\<lambda>_. 0)((''auth-sessions'', 0) := 1)\<rparr>"
  by (simp add: demo_claimed_def claim_run_def demo_run_input_def granted_def Let_def claim_window_def run_init_def
      demo_run_row_def fun_eq_iff)

lemma demo_complete:
  "complete_run (the (xs_claims demo_claimed ''t1'')) [(''auth_sessions'', 5)] 0 (xs_table demo_claimed) = Inr (True, [demo_run_row])"
proof -
  have "usableKey ''auth_sessions''" by code_simp
  then show ?thesis
    by (simp add: demo_claimed_eq complete_run_def accumulateCounts_def holds_run_def leaseLive_def affected_def demo_run_row_def
        counted_def closed_run_def progressedAtExpression_def removedRows_def stored_counts_def count_of_def Let_def)
qed

lemma demo_succeeded_reachable: "run_reachable (Suc 2) demo_succeeded" "xs_table demo_succeeded = [demo_run_row]"
proof -
  have 1: "run_step (Suc 2) run_init demo_claimed"
    unfolding demo_claimed_def
    by (rule run_step.claimed [where input = demo_run_input and claimToken = "''t1''" and uuid = "''r1''" and contended = False])
      (simp_all add: run_init_def demo_run_input_def prod_eq_iff)
  have "run_step (Suc 2) demo_claimed demo_succeeded"
    unfolding demo_succeeded_def
    by (rule run_step.completed [where claimToken = "''t1''"])
      (use demo_complete in \<open>simp_all add: demo_claimed_eq run_init_def\<close>)
  with 1 show "run_reachable (Suc 2) demo_succeeded" by (auto simp: run_reachable_def)
  show "xs_table demo_succeeded = [demo_run_row]" using demo_complete by (simp add: demo_succeeded_def)
qed

subsection \<open>Properties of the ledger\<close>

lemma continuing_iff:
  "continuing row \<longleftrightarrow> sr_lastErrorCode row \<in> {Some ''RETENTION_BUDGET_SPENT'', Some ''RETENTION_STORAGE_INCOMPLETE'', Some ''RETENTION_SHUTDOWN''}
     \<and> (\<exists>t. sr_progressedAt row = Some t \<and> sr_startedAt row \<le> t)"
  by (auto simp: continuing_def retentionContinuationCodes_def split: option.splits)

text \<open>C36. The election of a window: a claim under fresh identifiers inserts a window nobody has taken; it
  recovers one whose lease has expired while attempts are left, with a new holder, lease and start and no error
  code, charging an attempt unless the previous one stopped on its budget, on a shutdown or on a refusing provider and
  removed rows since it started; it closes a window whose attempts are spent; and it leaves a
  window that is held or settled untouched, naming a failed one exhausted and any other one taken.\<close>

theorem window_election:
  assumes "run_reachable (Suc n) s" "xs_claims s token = None" "\<forall>row \<in> set (xs_table s). sr_id row \<noteq> uuid"
  shows "claim_run input uuid token False (xs_now s) (xs_table s) =
    (let w = sameWindow (ri_taskName input) (ri_scheduledFor input);
         grant = (\<lambda>i attempt. Granted \<lparr>sc_id = i, sc_taskName = ri_taskName input, sc_scheduledFor = ri_scheduledFor input,
            sc_claimToken = token, sc_attempt = attempt\<rparr>) in
     case List.find w (xs_table s) of
       None \<Rightarrow> (grant uuid 1, xs_table s @ [\<lparr>sr_id = uuid, sr_taskName = ri_taskName input,
         sr_scheduledFor = ri_scheduledFor input, sr_status = RunClaimed, sr_lockedBy = Some token,
         sr_lockExpiresAt = Some (xs_now s + ri_leaseMs input * 1000), sr_attempts = 1, sr_startedAt = xs_now s,
         sr_finishedAt = None, sr_deletedCounts = None, sr_progressedAt = None, sr_lastErrorCode = None\<rparr>])
     | Some row \<Rightarrow>
         if sr_status row = RunClaimed \<and> leaseExpired (xs_now s) row then
           if sr_attempts row < ri_maxAttempts input then
             let attempts = sr_attempts row
                   + (if sr_lastErrorCode row \<in> {Some ''RETENTION_BUDGET_SPENT'', Some ''RETENTION_STORAGE_INCOMPLETE'', Some ''RETENTION_SHUTDOWN''}
                         \<and> (\<exists>t. sr_progressedAt row = Some t \<and> sr_startedAt row \<le> t) then 0 else 1) in
             (grant (sr_id row) attempts,
              update_where w (\<lambda>row. row\<lparr>sr_lockedBy := Some token, sr_lockExpiresAt := Some (xs_now s + ri_leaseMs input * 1000),
                sr_attempts := attempts, sr_lastErrorCode := None, sr_startedAt := xs_now s\<rparr>) (xs_table s))
           else (Withheld Exhausted, update_where w
             (\<lambda>row. (closed_run RunFailed (xs_now s) row)\<lparr>sr_lastErrorCode := Some runAbandoned\<rparr>) (xs_table s))
         else (Withheld (if sr_status row = RunFailed then Exhausted else Taken), xs_table s))"
proof (cases "List.find (sameWindow (ri_taskName input) (ri_scheduledFor input)) (xs_table s)")
  case None
  then have "\<not> (\<exists>row \<in> set (xs_table s). sameWindow (ri_taskName input) (ri_scheduledFor input) row \<or> sr_id row = uuid)"
    using assms(3) by (auto simp: find_None_iff)
  then show ?thesis using None by (simp add: claim_run_def Let_def)
next
  case (Some row)
  note inv = reachable_run_inv [OF assms(1)]
  have d: "distinct (map window (xs_table s))" using inv by (simp add: run_inv_def)
  have row: "row \<in> set (xs_table s)" "sameWindow (ri_taskName input) (ri_scheduledFor input) row"
    using find_SomeD [OF Some] by simp_all
  have "abandoned (xs_now s) = (\<lambda>row. (closed_run RunFailed (xs_now s) row)\<lparr>sr_lastErrorCode := Some runAbandoned\<rparr>)"
    by (simp add: fun_eq_iff abandoned_def)
  moreover have "claim_run input uuid token False (xs_now s) (xs_table s) = recover input token (xs_now s) (xs_table s)"
    using row by (auto simp: claim_run_def)
  moreover have "update_where (sameWindow (ri_taskName input) (ri_scheduledFor input)) (recovered input token (xs_now s)) (xs_table s) =
      update_where (sameWindow (ri_taskName input) (ri_scheduledFor input)) (\<lambda>r. r\<lparr>sr_lockedBy := Some token,
        sr_lockExpiresAt := Some (xs_now s + ri_leaseMs input * 1000), sr_attempts := sr_attempts row + (if continuing row then 0 else 1),
        sr_lastErrorCode := None, sr_startedAt := xs_now s\<rparr>) (xs_table s)"
  proof -
    have "r = row" if "r \<in> set (xs_table s)" "sameWindow (ri_taskName input) (ri_scheduledFor input) r" for r
      using that row distinct_key_eq [OF d, of r row] by (simp add: sameWindow_iff)
    then show ?thesis unfolding update_where_def by (intro map_cong [OF refl]) (auto simp: recovered_def)
  qed
  ultimately show ?thesis
    unfolding continuing_iff [symmetric]
    using recover_present [OF d row fresh_token [OF inv assms(2)], of "xs_now s"] Some by (simp add: Let_def)
qed

theorem window_election_witness:
  "claim_run demo_run_input ''r2'' ''t2'' False (xs_now demo_succeeded) [demo_run_row] = (Withheld Taken, [demo_run_row])"
proof -
  have "xs_claims demo_succeeded ''t2'' = None" by (simp add: demo_succeeded_def recorded_def Let_def demo_claimed_eq)
  from window_election [OF demo_succeeded_reachable(1) this, of "''r2''" demo_run_input] show ?thesis
    unfolding demo_succeeded_reachable(2) by (simp add: demo_run_row_def demo_run_input_def sameWindow_def)
qed

text \<open>A settled window is settled for good: once its row says succeeded or failed, no step of any replica
  changes that row, and nobody holds it.\<close>

theorem settled_windows_final:
  assumes "run_reachable (Suc n) s" "(run_step (Suc n))\<^sup>*\<^sup>* s s'" "row \<in> set (xs_table s)" "sr_status row \<noteq> RunClaimed"
  shows "row \<in> set (xs_table s') \<and> sr_lockedBy row = None \<and> sr_finishedAt row \<noteq> None"
proof -
  have "row \<in> set (xs_table s')"
    using assms(2)
  proof (induction rule: rtranclp_induct)
    case (step y z)
    then show ?case using settled_step assms(4) by blast
  qed (rule assms(3))
  moreover have "run_checks row" using reachable_run_inv [OF assms(1)] assms(3) by (simp add: run_inv_def run_row_ok_def)
  ultimately show ?thesis using assms(4) by (cases "sr_status row") (simp_all add: run_checks_def)
qed

theorem settled_windows_final_witness:
  "demo_run_row \<in> set (xs_table (demo_succeeded\<lparr>xs_now := 7\<rparr>))"
proof -
  have "(run_step (Suc 2))\<^sup>*\<^sup>* demo_succeeded (demo_succeeded\<lparr>xs_now := 7\<rparr>)"
    by (rule r_into_rtranclp, rule run_step.clock) (simp add: demo_succeeded_def recorded_def Let_def demo_claimed_eq run_init_def)
  moreover have "demo_run_row \<in> set (xs_table demo_succeeded)" "sr_status demo_run_row \<noteq> RunClaimed"
    by (simp_all add: demo_succeeded_reachable(2) demo_run_row_def)
  ultimately show ?thesis using settled_windows_final [OF demo_succeeded_reachable(1)] by blast
qed



text \<open>A succeeded window carries no error code: whatever its earlier attempts recorded was cleared when
  the window was taken over.\<close>

theorem succeeded_code_cleared:
  assumes "run_reachable (Suc n) s" "row \<in> set (xs_table s)" "sr_status row = RunSucceeded"
  shows "sr_lastErrorCode row = None"
  using reachable_run_inv [OF assms(1)] assms(2,3) by (simp add: run_inv_def run_row_ok_def)

theorem succeeded_code_cleared_witness: "sr_lastErrorCode demo_run_row = None"
  using succeeded_code_cleared [OF demo_succeeded_reachable(1), of demo_run_row] demo_succeeded_reachable(2)
  by (simp add: demo_run_row_def)

text \<open>The ledger accounts for what was removed: the counts of a row are, table by table, the sum of what
  the writes applied to its window reported, over all its attempts.\<close>

theorem ledger_counts_accumulate:
  assumes "run_reachable (Suc n) s" "row \<in> set (xs_table s)"
  shows "count_of (stored_counts (sr_deletedCounts row)) t = xs_removed s (sr_taskName row, sr_scheduledFor row) t"
  using reachable_run_inv [OF assms(1)] assms(2) by (simp add: run_inv_def run_row_ok_def window_def)

theorem ledger_counts_accumulate_witness: "xs_removed demo_succeeded (''auth-sessions'', 0) ''auth_sessions'' = 5"
  using ledger_counts_accumulate [OF demo_succeeded_reachable(1), of demo_run_row "''auth_sessions''"] demo_succeeded_reachable(2)
  by (simp add: demo_run_row_def stored_counts_def count_of_def)

end
