(* ===== verification/Retention_Run.thy ===== *)
theory Retention_Run
  imports Run_Ledger Hotel_Date
begin

text \<open>
  The runs of the retention (retention/retention-run.service.ts, retention/retention-window.ts): the day a
  run belongs to, the loop of batches that stops when nothing waits, on shutdown or when its budget is
  spent, and the task around it that claims its window first and records how it ended. What a batch
  returns, whether the process is stopping and what the process clock reads after each batch are
  functions of the number of the batch; what other replicas do to the ledger while the batches run is an
  argument as well, and so is which statement of the database fails, before or after it took effect. A loop that never stops is the value \<open>None\<close>, and the lemmas show when it does stop.
\<close>

subsection \<open>The day of a run\<close>

text \<open>Milliseconds; \<open>zoneOffset\<close> is what Intl says about the hotel's timezone at an instant.\<close>

definition localDayStart :: "(int \<Rightarrow> int) \<Rightarrow> int \<Rightarrow> int" where
  "localDayStart zoneOffset databaseNow =
     (let offsetNow = zoneOffset databaseNow;
          wallClock = databaseNow + offsetNow;
          localMidnight = wallClock div millisecondsPerDay * millisecondsPerDay;
          offsetAtMidnight = zoneOffset (localMidnight - offsetNow)
      in localMidnight - offsetAtMidnight)"

subsection \<open>The batches\<close>

datatype thrown = StatementTimeout | OtherThrown

record RetentionBatchOutcome =
  bo_counts :: counts
  bo_moreWaiting :: bool
  bo_retryableFailures :: "nat option"

record batch_progress =
  bp_counts :: counts
  bp_batches :: nat
  bp_retryableFailures :: nat

datatype batch_end = Drained | Interrupted | BudgetSpent | Threw thrown

definition no_progress :: batch_progress where
  "no_progress = \<lparr>bp_counts = [], bp_batches = 0, bp_retryableFailures = 0\<rparr>"

definition add_counts :: "counts \<Rightarrow> counts \<Rightarrow> counts" where
  "add_counts batch counts = fold (\<lambda>(table, removed) c. AList.update table (count_of c table + removed) c) batch counts"

definition add_batch :: "RetentionBatchOutcome \<Rightarrow> batch_progress \<Rightarrow> batch_progress" where
  "add_batch outcome p =
     p\<lparr>bp_counts := add_counts (bo_counts outcome) (bp_counts p), bp_batches := bp_batches p + 1,
       bp_retryableFailures := bp_retryableFailures p
         + (case bo_retryableFailures outcome of None \<Rightarrow> 0 | Some n \<Rightarrow> n)\<rparr>"

record batch_env =
  runBatch :: "nat \<Rightarrow> thrown + RetentionBatchOutcome"
  shouldStop :: "nat \<Rightarrow> bool"
  dateNow :: "nat \<Rightarrow> int"

partial_function (option) batches ::
  "batch_env \<Rightarrow> int \<Rightarrow> batch_progress \<Rightarrow> (batch_end \<times> batch_progress) option" where
  "batches env deadline p =
     (let k = bp_batches p in
      case runBatch env k of
        Inl e \<Rightarrow> Some (Threw e, p)
      | Inr outcome \<Rightarrow>
          let p = add_batch outcome p in
          if \<not> bo_moreWaiting outcome then Some (Drained, p)
          else if shouldStop env k then Some (Interrupted, p)
          else if dateNow env k \<ge> deadline then Some (BudgetSpent, p)
          else batches env deadline p)"

subsection \<open>One task\<close>

definition classify :: "thrown \<Rightarrow> string" where
  "classify e = (case e of StatementTimeout \<Rightarrow> ''RETENTION_STATEMENT_TIMEOUT'' | OtherThrown \<Rightarrow> ''RETENTION_TASK_FAILED'')"

definition claimLost :: string where
  "claimLost = ''RETENTION_CLAIM_LOST''"

datatype run_verdict = RunCompleted | RunIncomplete | RunRefused ScheduledRunClaimRefusal | RunFailedTask

record RetentionRunOutcome =
  ro_taskName :: string
  ro_outcome :: run_verdict
  ro_counts :: counts
  ro_batches :: nat
  ro_budgetSpent :: bool
  ro_retryableFailures :: "nat option"
  ro_errorCode :: "string option"

text \<open>The fields of the configuration a run reads.\<close>

record run_config =
  runBudgetMs :: int
  claimLeaseMs_run :: int
  maxAttempts_run :: nat

record task_env =
  te_uuid :: string
  te_claimToken :: string
  te_contended :: bool
  te_startNow :: int
  te_unavailable :: "thrown option"
  te_claimFails :: "(bool \<times> thrown) option"
  te_batches :: batch_env
  te_deadlineBase :: int
  te_others :: "run_row list \<Rightarrow> run_row list"
  te_endNow :: int
  te_endFails :: "(bool \<times> thrown) option"

definition task_outcome :: "string \<Rightarrow> run_verdict \<Rightarrow> batch_progress \<Rightarrow> bool \<Rightarrow> nat option \<Rightarrow> string option \<Rightarrow> RetentionRunOutcome" where
  "task_outcome taskName verdict p budgetSpent retryable errorCode =
     \<lparr>ro_taskName = taskName, ro_outcome = verdict, ro_counts = bp_counts p, ro_batches = bp_batches p,
      ro_budgetSpent = budgetSpent, ro_retryableFailures = retryable, ro_errorCode = errorCode\<rparr>"

text \<open>The three ways to stop short, by the code they record.\<close>

definition incompleteCode :: "batch_end \<Rightarrow> string" where
  "incompleteCode stop =
     (if stop = Interrupted then ''RETENTION_SHUTDOWN''
      else if stop = BudgetSpent then ''RETENTION_BUDGET_SPENT'' else ''RETENTION_STORAGE_INCOMPLETE'')"

text \<open>A write to the ledger: its counts may be unusable, and the statement may fail before or after it took effect.\<close>

definition write_end ::
  "(bool \<times> thrown) option \<Rightarrow> error + bool \<times> run_row list \<Rightarrow> run_row list \<Rightarrow> (thrown + bool) \<times> run_row list" where
  "write_end fails result table =
     (case result of
        Inl _ \<Rightarrow> (Inl OtherThrown, table)
      | Inr (applied, written) \<Rightarrow>
          (case fails of
             None \<Rightarrow> (Inr applied, written)
           | Some (effective, e) \<Rightarrow> (Inl e, if effective then written else table)))"

text \<open>What the run writes down, and what it throws when that fails; a batch that threw is reported all the same.\<close>

definition record_end ::
  "run_config \<Rightarrow> ScheduledRunClaim \<Rightarrow> batch_end \<Rightarrow> batch_progress \<Rightarrow> (bool \<times> thrown) option \<Rightarrow> int \<Rightarrow> run_row list
   \<Rightarrow> (thrown + RetentionRunOutcome) \<times> run_row list" where
  "record_end cfg c stop p fails now table =
     (let spent = (stop = BudgetSpent); retryable = Some (bp_retryableFailures p) in
      case stop of
        Threw e \<Rightarrow>
          (Inr (task_outcome (sc_taskName c) RunFailedTask p False None (Some (classify e))),
           snd (write_end fails (fail_run c \<lparr>sf_errorCode = classify e, sf_retryable = True\<rparr> (bp_counts p)
                  (maxAttempts_run cfg) now table) table))
      | _ \<Rightarrow>
          if spent \<or> stop = Interrupted \<or> bp_retryableFailures p > 0 then
            (case write_end fails (fail_run c \<lparr>sf_errorCode = incompleteCode stop, sf_retryable = True\<rparr> (bp_counts p)
                    (maxAttempts_run cfg) now table) table of
               (Inl e, table) \<Rightarrow> (Inl e, table)
             | (Inr handedBack, table) \<Rightarrow>
                 (Inr (task_outcome (sc_taskName c) RunIncomplete p spent retryable
                    (Some (if handedBack then incompleteCode stop else claimLost))), table))
          else
            (case write_end fails (complete_run c (bp_counts p) now table) table of
               (Inl e, table) \<Rightarrow> (Inl e, table)
             | (Inr written, table) \<Rightarrow>
                 (Inr (task_outcome (sc_taskName c) (if written then RunCompleted else RunFailedTask) p spent retryable
                    (if written then None else Some claimLost)), table)))"

definition run_input :: "run_config \<Rightarrow> string \<Rightarrow> int \<Rightarrow> run_claim_input" where
  "run_input cfg taskName scheduledFor = \<lparr>ri_taskName = taskName, ri_scheduledFor = scheduledFor,
     ri_leaseMs = claimLeaseMs_run cfg, ri_maxAttempts = maxAttempts_run cfg\<rparr>"

definition runTask ::
  "run_config \<Rightarrow> string \<Rightarrow> int \<Rightarrow> task_env \<Rightarrow> run_row list
   \<Rightarrow> ((thrown + RetentionRunOutcome) \<times> run_row list) option" where
  "runTask cfg taskName scheduledFor env table =
     (case te_unavailable env of Some e \<Rightarrow> Some (Inl e, table) | None \<Rightarrow>
      case claim_run (run_input cfg taskName scheduledFor) (te_uuid env) (te_claimToken env) (te_contended env)
             (te_startNow env) table of
        (result, claimed) \<Rightarrow>
          (case te_claimFails env of
             Some (effective, e) \<Rightarrow> Some (Inl e, if effective then claimed else table)
           | None \<Rightarrow>
          (case result of
             Withheld reason \<Rightarrow> Some (Inr (task_outcome taskName (RunRefused reason) no_progress False None None), claimed)
           | Granted c \<Rightarrow>
               (case batches (te_batches env) (te_deadlineBase env + runBudgetMs cfg) no_progress of
                  None \<Rightarrow> None
                | Some (stop, p) \<Rightarrow>
                    Some (record_end cfg c stop p (te_endFails env) (te_endNow env) (te_others env claimed))))))"

subsection \<open>All tasks\<close>

definition retentionTaskNames :: "string list" where
  "retentionTaskNames = [''auth-sessions'', ''idempotency-keys'', ''storage-tasks'', ''notification-events'',
     ''export-results'', ''booking-lifecycle-events'']"

text \<open>A task that throws is recorded as failed and does not stop the rest.\<close>

fun runTasks ::
  "run_config \<Rightarrow> int \<Rightarrow> (string \<Rightarrow> task_env) \<Rightarrow> (string \<Rightarrow> bool) \<Rightarrow> string list \<Rightarrow> run_row list
   \<Rightarrow> (RetentionRunOutcome list \<times> run_row list) option" where
  "runTasks cfg scheduledFor envs stopping [] table = Some ([], table)"
| "runTasks cfg scheduledFor envs stopping (taskName # rest) table =
     (if stopping taskName then Some ([], table)
      else case runTask cfg taskName scheduledFor (envs taskName) table of
        None \<Rightarrow> None
      | Some (r, table) \<Rightarrow>
          let outcome = (case r of
                Inr outcome \<Rightarrow> outcome
              | Inl e \<Rightarrow> task_outcome taskName RunFailedTask no_progress False None (Some (classify e))) in
          map_option (\<lambda>(outcomes, table). (outcome # outcomes, table))
            (runTasks cfg scheduledFor envs stopping rest table))"

text \<open>What the whole run is answered before its tasks; there a failure is the failure of the run.\<close>

record run_env =
  ra_unavailable :: "thrown option"
  ra_clock :: "thrown + int"
  ra_closeNow :: int
  ra_closeFails :: "(bool \<times> thrown) option"

definition runAll ::
  "run_config \<Rightarrow> (int \<Rightarrow> int) \<Rightarrow> run_env \<Rightarrow> (string \<Rightarrow> task_env) \<Rightarrow> (string \<Rightarrow> bool) \<Rightarrow> run_row list
   \<Rightarrow> ((thrown + RetentionRunOutcome list) \<times> run_row list) option" where
  "runAll cfg zoneOffset env envs stopping table =
     (case ra_unavailable env of Some e \<Rightarrow> Some (Inl e, table) | None \<Rightarrow>
      case ra_clock env of Inl e \<Rightarrow> Some (Inl e, table) | Inr now \<Rightarrow>
      let scheduledFor = localDayStart zoneOffset (now div 1000) * 1000;
          closed = snd (closeAbandonedBefore scheduledFor (ra_closeNow env) table) in
      case ra_closeFails env of Some (effective, e) \<Rightarrow> Some (Inl e, if effective then closed else table) | None \<Rightarrow>
      map_option (\<lambda>(outcomes, table). (Inr outcomes, table)) (runTasks cfg scheduledFor envs stopping retentionTaskNames closed))"

subsection \<open>The loop\<close>

lemma add_batch_batches [simp]: "bp_batches (add_batch outcome p) = Suc (bp_batches p)"
  by (simp add: add_batch_def)

lemma batches_returns:
  assumes "deadline \<le> dateNow env k" "bp_batches p \<le> k"
  shows "\<exists>stop p'. batches env deadline p = Some (stop, p') \<and> bp_batches p' \<le> Suc k"
  using assms(2)
proof (induction "k - bp_batches p" arbitrary: p)
  case 0
  then have "bp_batches p = k" by simp
  then show ?case
    using assms(1) by (subst batches.simps) (simp add: Let_def split: sum.split)
next
  case (Suc n)
  have ih: "\<exists>stop p'. batches env deadline (add_batch outcome p) = Some (stop, p') \<and> bp_batches p' \<le> Suc k" for outcome
    by (rule Suc.hyps) (use Suc.hyps(2) in simp_all)
  show ?case
    using ih Suc.prems by (subst batches.simps) (auto simp: Let_def split: sum.split)
qed

text \<open>How a loop that drained its task ended.\<close>

definition refusals :: "batch_env \<Rightarrow> nat \<Rightarrow> nat" where
  "refusals env k = (case runBatch env k of Inl _ \<Rightarrow> 0
     | Inr outcome \<Rightarrow> (case bo_retryableFailures outcome of None \<Rightarrow> 0 | Some n \<Rightarrow> n))"

definition drained_after :: "batch_env \<Rightarrow> batch_progress \<Rightarrow> batch_progress \<Rightarrow> nat \<Rightarrow> bool" where
  "drained_after env p p' k \<longleftrightarrow>
     bp_batches p \<le> k \<and> bp_batches p' = Suc k \<and> (\<exists>outcome. runBatch env k = Inr outcome \<and> \<not> bo_moreWaiting outcome)
     \<and> bp_retryableFailures p' = bp_retryableFailures p + (\<Sum>i = bp_batches p..k. refusals env i)"

lemma drained_after_last:
  "runBatch env (bp_batches p) = Inr outcome \<Longrightarrow> \<not> bo_moreWaiting outcome \<Longrightarrow>
   drained_after env p (add_batch outcome p) (bp_batches p)"
  by (simp add: drained_after_def add_batch_def refusals_def)

lemma drained_after_more:
  assumes "runBatch env (bp_batches p) = Inr outcome" "drained_after env (add_batch outcome p) p' k"
  shows "drained_after env p p' k"
proof -
  have k: "Suc (bp_batches p) \<le> k" using assms(2) by (simp add: drained_after_def)
  have "(\<Sum>i = bp_batches p..k. refusals env i) = refusals env (bp_batches p) + (\<Sum>i = Suc (bp_batches p)..k. refusals env i)"
    using k by (simp add: sum.atLeast_Suc_atMost)
  then show ?thesis
    using assms k by (auto simp: drained_after_def add_batch_def refusals_def)
qed

lemma batches_drained:
  assumes "batches env deadline p = Some (Drained, p')"
  shows "\<exists>k. drained_after env p p' k"
proof -
  have "fst r = Drained \<longrightarrow> (\<exists>k. drained_after env p (snd r) k)" if "batches env deadline p = Some r" for r
  proof (rule batches.raw_induct [of "\<lambda>env deadline p r. fst r = Drained \<longrightarrow> (\<exists>k. drained_after env p (snd r) k)", OF _ that])
    fix loop env deadline p r
    assume ih: "\<And>env deadline p r. loop env deadline p = Some r \<Longrightarrow> fst r = Drained \<longrightarrow> (\<exists>k. drained_after env p (snd r) k)"
      and body: "(let k = bp_batches p in case runBatch env k of Inl e \<Rightarrow> Some (Threw e, p)
        | Inr outcome \<Rightarrow> let p = add_batch outcome p in
            if \<not> bo_moreWaiting outcome then Some (Drained, p)
            else if shouldStop env k then Some (Interrupted, p)
            else if deadline \<le> dateNow env k then Some (BudgetSpent, p) else loop env deadline p) = Some r"
    show "fst r = Drained \<longrightarrow> (\<exists>k. drained_after env p (snd r) k)"
    proof
      assume d: "fst r = Drained"
      then obtain outcome where o: "runBatch env (bp_batches p) = Inr outcome"
        using body by (cases "runBatch env (bp_batches p)") auto
      have "\<not> bo_moreWaiting outcome \<and> r = (Drained, add_batch outcome p) \<or> loop env deadline (add_batch outcome p) = Some r"
        using body [unfolded Let_def o sum.case] d by (simp split: if_split_asm; force)
      then consider "\<not> bo_moreWaiting outcome" "r = (Drained, add_batch outcome p)"
        | "loop env deadline (add_batch outcome p) = Some r" by blast
      then show "\<exists>k. drained_after env p (snd r) k"
      proof cases
        case 1
        then show ?thesis using drained_after_last [OF o] by auto
      next
        case 2
        then obtain k where "drained_after env (add_batch outcome p) (snd r) k" using ih d by blast
        then show ?thesis using drained_after_more [OF o] by blast
      qed
    qed
  qed
  then show ?thesis using assms by fastforce
qed

lemma claim_run_granted:
  "claim_run input uuid token contended now table = (Granted c, table') \<Longrightarrow>
   sc_taskName c = ri_taskName input \<and> sc_scheduledFor c = ri_scheduledFor input \<and> sc_claimToken c = token"
  by (auto simp: claim_run_def recover_def Let_def split: if_splits option.splits)

lemma record_end_task: "record_end cfg c stop p fails now table = (Inr outcome, table') \<Longrightarrow> ro_taskName outcome = sc_taskName c"
  by (auto simp: record_end_def task_outcome_def Let_def split: batch_end.splits sum.splits prod.splits if_splits)

lemma runTask_returns:
  assumes "te_deadlineBase env + runBudgetMs cfg \<le> dateNow (te_batches env) k"
  shows "\<exists>r table'. runTask cfg taskName scheduledFor env table = Some (r, table')
    \<and> (\<forall>outcome. r = Inr outcome \<longrightarrow> ro_taskName outcome = taskName)"
proof -
  let ?input = "run_input cfg taskName scheduledFor"
  obtain result t where claim: "claim_run ?input (te_uuid env) (te_claimToken env) (te_contended env) (te_startNow env) table = (result, t)"
    by (cases "claim_run ?input (te_uuid env) (te_claimToken env) (te_contended env) (te_startNow env) table")
  obtain stop p where b: "batches (te_batches env) (te_deadlineBase env + runBudgetMs cfg) no_progress = Some (stop, p)"
    using batches_returns [OF assms, of no_progress] by (auto simp: no_progress_def)
  have task: "sc_taskName c = taskName" if "result = Granted c" for c
    using claim_run_granted [of ?input] claim that by (auto simp: run_input_def)
  have named: "ro_taskName outcome = taskName" if "result = Granted c"
      "fst (record_end cfg c stop p (te_endFails env) (te_endNow env) (te_others env t)) = Inr outcome" for c outcome
    using that task record_end_task [of cfg c stop p _ _ _ outcome] by (metis prod.collapse)
  consider e where "te_unavailable env = Some e" | effective e where "te_unavailable env = None" "te_claimFails env = Some (effective, e)"
    | "te_unavailable env = None" "te_claimFails env = None" by (cases "te_unavailable env"; cases "te_claimFails env") auto
  then show ?thesis
  proof cases
    case 3
    show ?thesis
    proof (cases result)
      case (Granted c)
      then have "runTask cfg taskName scheduledFor env table =
          Some (record_end cfg c stop p (te_endFails env) (te_endNow env) (te_others env t))"
        using 3 claim b by (simp add: runTask_def)
      then show ?thesis using named [OF Granted] by (metis prod.collapse)
    qed (use 3 claim in \<open>simp add: runTask_def task_outcome_def\<close>)
  qed (simp_all add: runTask_def claim)
qed

lemma runTasks_returns:
  assumes "\<And>task. task \<in> set tasks \<Longrightarrow> \<exists>k. te_deadlineBase (envs task) + runBudgetMs cfg \<le> dateNow (te_batches (envs task)) k"
  shows "\<exists>outcomes table'. runTasks cfg scheduledFor envs stopping tasks table = Some (outcomes, table')
    \<and> map ro_taskName outcomes = takeWhile (\<lambda>task. \<not> stopping task) tasks"
  using assms
proof (induction tasks arbitrary: table)
  case (Cons task tasks)
  obtain k where "te_deadlineBase (envs task) + runBudgetMs cfg \<le> dateNow (te_batches (envs task)) k"
    using Cons.prems by auto
  then obtain r t where r: "runTask cfg task scheduledFor (envs task) table = Some (r, t)"
    "\<And>outcome. r = Inr outcome \<Longrightarrow> ro_taskName outcome = task"
    using runTask_returns by meson
  moreover obtain outcomes table' where "runTasks cfg scheduledFor envs stopping tasks t = Some (outcomes, table')"
    "map ro_taskName outcomes = takeWhile (\<lambda>task. \<not> stopping task) tasks" using Cons.IH [of t] Cons.prems by auto
  ultimately show ?case by (cases r) (auto simp: task_outcome_def)
qed simp

text \<open>A claim that was handed out stays on record.\<close>

lemma claims_kept: "run_step m s s' \<Longrightarrow> xs_claims s token = Some c \<Longrightarrow> xs_claims s' token = Some c"
  by (erule run_step.cases)
    (auto simp: granted_def recorded_def Let_def dest: claim_run_granted split: ScheduledRunClaimResult.split)

lemma claims_kept_steps: "(run_step m)\<^sup>*\<^sup>* s s' \<Longrightarrow> xs_claims s token = Some c \<Longrightarrow> xs_claims s' token = Some c"
  by (induction rule: rtranclp_induct) (auto intro: claims_kept)

text \<open>In a timezone of constant offset a window is the local day that contains the instant.\<close>

lemma localDayStart_constant:
  "localDayStart (\<lambda>_. offset) now \<le> now" "now < localDayStart (\<lambda>_. offset) now + millisecondsPerDay"
  "(localDayStart (\<lambda>_. offset) now + offset) mod millisecondsPerDay = 0"
proof -
  have "(now + offset) div millisecondsPerDay * millisecondsPerDay = now + offset - (now + offset) mod millisecondsPerDay"
    by (simp add: minus_mod_eq_div_mult)
  then show "localDayStart (\<lambda>_. offset) now \<le> now" "now < localDayStart (\<lambda>_. offset) now + millisecondsPerDay"
    using pos_mod_sign [of millisecondsPerDay "now + offset"] pos_mod_bound [of millisecondsPerDay "now + offset"]
    by (simp_all add: localDayStart_def Let_def millisecondsPerDay_def)
  show "(localDayStart (\<lambda>_. offset) now + offset) mod millisecondsPerDay = 0"
    by (simp add: localDayStart_def Let_def)
qed

subsection \<open>Properties of the runs\<close>

text \<open>C38. A run of the retention returns: when the process clock passes the deadline of every task after some
  batch, the run ends. It rejects exactly when the connection, the reading of the clock or the closing of
  abandoned windows fails, with that error; otherwise it has one outcome per task, in the order of the list and up
  to the first task before which a shutdown is asked for, whatever the batches throw, whatever the ledger
  refuses and whichever statements of the tasks on the ledger fail.\<close>

theorem retention_run_returns:
  assumes "\<forall>task \<in> set retentionTaskNames. \<exists>k. te_deadlineBase (envs task) + runBudgetMs cfg \<le> dateNow (te_batches (envs task)) k"
  shows "\<exists>result table'. runAll cfg zoneOffset env envs stopping table = Some (result, table')
    \<and> (case result of
         Inl e \<Rightarrow> ra_unavailable env = Some e \<or> ra_clock env = Inl e \<or> (\<exists>effective. ra_closeFails env = Some (effective, e))
       | Inr outcomes \<Rightarrow> ra_unavailable env = None \<and> (\<exists>now. ra_clock env = Inr now) \<and> ra_closeFails env = None
           \<and> map ro_taskName outcomes = takeWhile (\<lambda>task. \<not> stopping task) retentionTaskNames)"
proof -
  consider e where "ra_unavailable env = Some e" | e where "ra_unavailable env = None" "ra_clock env = Inl e"
    | now effective e where "ra_unavailable env = None" "ra_clock env = Inr now" "ra_closeFails env = Some (effective, e)"
    | now where "ra_unavailable env = None" "ra_clock env = Inr now" "ra_closeFails env = None"
    by (cases "ra_unavailable env"; cases "ra_clock env"; cases "ra_closeFails env") auto
  then show ?thesis
  proof cases
    case 4
    let ?day = "localDayStart zoneOffset (now div 1000) * 1000"
    obtain outcomes table' where "runTasks cfg ?day envs stopping retentionTaskNames
        (snd (closeAbandonedBefore ?day (ra_closeNow env) table)) = Some (outcomes, table')"
      "map ro_taskName outcomes = takeWhile (\<lambda>task. \<not> stopping task) retentionTaskNames"
      using runTasks_returns [of retentionTaskNames envs cfg] assms by metis
    then show ?thesis using 4 by (simp add: runAll_def Let_def)
  qed (simp_all add: runAll_def Let_def)
qed

definition demo_task_env :: task_env where
  "demo_task_env = \<lparr>te_uuid = ''r1'', te_claimToken = ''t1'', te_contended = False, te_startNow = 0,
     te_unavailable = None, te_claimFails = None,
     te_batches = \<lparr>runBatch = (\<lambda>_. Inr \<lparr>bo_counts = [], bo_moreWaiting = False, bo_retryableFailures = None\<rparr>),
       shouldStop = (\<lambda>_. False), dateNow = (\<lambda>k. int k * 1000)\<rparr>,
     te_deadlineBase = 0, te_others = id, te_endNow = 1, te_endFails = None\<rparr>"

definition demo_run_config :: run_config where
  "demo_run_config = \<lparr>runBudgetMs = 5000, claimLeaseMs_run = 600000, maxAttempts_run = 3\<rparr>"

definition demo_run_env :: run_env where
  "demo_run_env = \<lparr>ra_unavailable = None, ra_clock = Inr 0, ra_closeNow = 0, ra_closeFails = None\<rparr>"

theorem retention_run_returns_witness:
  "\<exists>outcomes table'. runAll demo_run_config (\<lambda>_. 25200000) demo_run_env (\<lambda>_. demo_task_env) (\<lambda>task. task = ''storage-tasks'') [] = Some (Inr outcomes, table')
     \<and> map ro_taskName outcomes = [''auth-sessions'', ''idempotency-keys'']"
proof -
  have "te_deadlineBase demo_task_env + runBudgetMs demo_run_config \<le> dateNow (te_batches demo_task_env) 5"
    by (simp add: demo_task_env_def demo_run_config_def)
  then have "\<forall>task \<in> set retentionTaskNames. \<exists>k. te_deadlineBase demo_task_env + runBudgetMs demo_run_config
      \<le> dateNow (te_batches demo_task_env) k" by blast
  from retention_run_returns [OF this, of "\<lambda>_. 25200000" demo_run_env "\<lambda>task. task = ''storage-tasks''" "[]"]
  obtain result table' where r: "runAll demo_run_config (\<lambda>_. 25200000) demo_run_env (\<lambda>_. demo_task_env) (\<lambda>task. task = ''storage-tasks'') []
      = Some (result, table')"
    "case result of Inl e \<Rightarrow> False | Inr outcomes \<Rightarrow> map ro_taskName outcomes = [''auth-sessions'', ''idempotency-keys'']"
    by (auto simp: demo_run_env_def retentionTaskNames_def cong: sum.case_cong)
  then show ?thesis by (cases result) auto
qed

text \<open>C39. A task reports its window as completed only when it is done and the ledger says so. The last batch said
  that nothing was waiting, and no provider refused a row in any batch. Whatever steps other replicas took on
  the ledger in between, when the task closed its window the row of that window was still claimed under the
  task's own token and attempt with a lease in the future; it is that row that is now succeeded, and
  the row of no other window was touched.\<close>

theorem completed_only_when_drained:
  assumes "run_reachable (Suc n) s" "maxAttempts_run cfg = Suc n" "xs_claims s (te_claimToken env) = None"
    and "te_startNow env = xs_now s"
    and "claim_run (run_input cfg taskName scheduledFor) (te_uuid env) (te_claimToken env) (te_contended env) (xs_now s) (xs_table s)
      = (Granted c, t)"
    and "(run_step (Suc n))\<^sup>*\<^sup>* (granted s t (Granted c)) s2" "te_others env t = xs_table s2" "te_endNow env = xs_now s2"
    and "runTask cfg taskName scheduledFor env (xs_table s) = Some (Inr outcome, table')" "ro_outcome outcome = RunCompleted"
  shows "(\<exists>k last. runBatch (te_batches env) k = Inr last \<and> \<not> bo_moreWaiting last \<and> ro_batches outcome = Suc k
        \<and> (\<forall>i \<le> k. refusals (te_batches env) i = 0))
    \<and> (\<exists>row \<in> set (xs_table s2). window row = (taskName, scheduledFor) \<and> sr_status row = RunClaimed
        \<and> sr_lockedBy row = Some (te_claimToken env) \<and> sr_attempts row = sc_attempt c
        \<and> (\<exists>x. sr_lockExpiresAt row = Some x \<and> xs_now s2 < x)
        \<and> (\<exists>closed \<in> set table'. sr_id closed = sr_id row \<and> window closed = window row
             \<and> sr_status closed = RunSucceeded \<and> sr_finishedAt closed = Some (xs_now s2)))
    \<and> (\<forall>row \<in> set (xs_table s2). window row \<noteq> (taskName, scheduledFor) \<longrightarrow> row \<in> set table')"
proof -
  obtain stop p where
    b: "batches (te_batches env) (te_deadlineBase env + runBudgetMs cfg) no_progress = Some (stop, p)"
    and e: "record_end cfg c stop p (te_endFails env) (te_endNow env) (xs_table s2) = (Inr outcome, table')"
    using assms(4,5,7,9,10) by (auto simp: runTask_def split: option.splits prod.splits)
  have d: "stop = Drained" "bp_retryableFailures p = 0" "ro_batches outcome = bp_batches p"
    "complete_run c (bp_counts p) (xs_now s2) (xs_table s2) = Inr (True, table')"
    using e assms(8,10) by (auto simp: record_end_def write_end_def task_outcome_def Let_def
        split: batch_end.splits sum.splits prod.splits option.splits if_splits)
  obtain k where "drained_after (te_batches env) no_progress p k"
    using batches_drained b unfolding d(1) by blast
  then obtain last where k: "bp_batches p = Suc k" "runBatch (te_batches env) k = Inr last" "\<not> bo_moreWaiting last"
    "(\<Sum>i = 0..k. refusals (te_batches env) i) = 0"
    using d(2) by (auto simp: drained_after_def no_progress_def)
  let ?s1 = "granted s t (Granted c)"
  have c: "sc_claimToken c = te_claimToken env" "claim_window c = (taskName, scheduledFor)"
    using claim_run_granted [OF assms(5)] by (simp_all add: run_input_def claim_window_def)
  have step: "run_step (Suc n) s ?s1"
    by (rule run_step.claimed [OF _ assms(3,5)]) (simp add: run_input_def assms(2))
  then have "run_reachable (Suc n) s2"
    using assms(1,6) unfolding run_reachable_def by (meson rtranclp.rtrancl_into_rtrancl rtranclp_trans)
  then have inv: "run_inv (Suc n) s2" by (rule reachable_run_inv)
  have claim: "xs_claims s2 (te_claimToken env) = Some c"
    by (rule claims_kept_steps [OF assms(6)]) (simp add: granted_def Let_def c(1))
  have held: "window row = (taskName, scheduledFor) \<and> sr_attempts row = sc_attempt c"
    if "row \<in> set (xs_table s2)" "sr_lockedBy row = Some (te_claimToken env)" for row
    using inv that claim c(2) by (auto simp: run_inv_def run_row_ok_def)
  obtain acc where acc: "accumulateCounts (bp_counts p) = Inr acc" using d(4) by (auto simp: complete_run_def and_then_Inr_iff)
  let ?g = "\<lambda>row. counted acc (bp_counts p) (xs_now s2) (closed_run RunSucceeded (xs_now s2) row)"
  have w: "0 < affected (holds_run (te_claimToken env) (xs_now s2)) (xs_table s2)"
    "table' = update_where (holds_run (te_claimToken env) (xs_now s2)) ?g (xs_table s2)"
    using d(4) acc by (simp_all add: complete_run_def Let_def c(1))
  then obtain row where row: "row \<in> set (xs_table s2)" "holds_run (te_claimToken env) (xs_now s2) row" "?g row \<in> set table'"
    by (auto simp: affected_pos_iff update_where_def)
  have closed: "sr_id (?g row) = sr_id row" "window (?g row) = window row" "sr_status (?g row) = RunSucceeded"
    "sr_finishedAt (?g row) = Some (xs_now s2)" by (simp_all add: counted_def closed_run_def window_def)
  have live: "sr_status row = RunClaimed" "sr_lockedBy row = Some (te_claimToken env)" "\<exists>x. sr_lockExpiresAt row = Some x \<and> xs_now s2 < x"
    using row(2) by (auto simp: holds_run_def leaseLive_def split: option.splits)
  have others: "row \<in> set table'" if "row \<in> set (xs_table s2)" "window row \<noteq> (taskName, scheduledFor)" for row
    unfolding w(2) by (rule update_where_other [OF that(1)]) (use held [OF that(1)] that(2) in \<open>auto simp: holds_run_def\<close>)
  show ?thesis
  proof (intro conjI)
    have "\<forall>i \<le> k. refusals (te_batches env) i = 0" using k(4) by auto
    then show "\<exists>k last. runBatch (te_batches env) k = Inr last \<and> \<not> bo_moreWaiting last \<and> ro_batches outcome = Suc k
        \<and> (\<forall>i \<le> k. refusals (te_batches env) i = 0)"
      using k(1-3) d(3) by (intro exI [of _ k] exI [of _ last]) simp
    have "\<exists>closed \<in> set table'. sr_id closed = sr_id row \<and> window closed = window row
        \<and> sr_status closed = RunSucceeded \<and> sr_finishedAt closed = Some (xs_now s2)"
      by (rule bexI [OF _ row(3)]) (use closed in simp)
    then show "\<exists>row \<in> set (xs_table s2). window row = (taskName, scheduledFor) \<and> sr_status row = RunClaimed
        \<and> sr_lockedBy row = Some (te_claimToken env) \<and> sr_attempts row = sc_attempt c
        \<and> (\<exists>x. sr_lockExpiresAt row = Some x \<and> xs_now s2 < x)
        \<and> (\<exists>closed \<in> set table'. sr_id closed = sr_id row \<and> window closed = window row
             \<and> sr_status closed = RunSucceeded \<and> sr_finishedAt closed = Some (xs_now s2))"
      using live held [OF row(1) live(2)] by (intro bexI [OF _ row(1)] conjI) simp_all
    show "\<forall>row \<in> set (xs_table s2). window row \<noteq> (taskName, scheduledFor) \<longrightarrow> row \<in> set table'" using others by blast
  qed
qed

theorem completed_only_when_drained_witness:
  "\<exists>outcome table'. runTask demo_run_config ''auth-sessions'' 0 demo_task_env [] = Some (Inr outcome, table')
     \<and> (\<exists>closed \<in> set table'. window closed = (''auth-sessions'', 0) \<and> sr_status closed = RunSucceeded \<and> sr_finishedAt closed = Some 1)"
proof -
  let ?claim = "claim_run (run_input demo_run_config ''auth-sessions'' 0) ''r1'' ''t1'' False 0 []"
  obtain c t where ct: "?claim = (Granted c, t)" by (simp add: claim_run_def)
  let ?s1 = "granted run_init t (Granted c)"
  have b: "batches (te_batches demo_task_env) 5000 no_progress = Some (Drained, \<lparr>bp_counts = [], bp_batches = 1, bp_retryableFailures = 0\<rparr>)"
    by (subst batches.simps) (simp add: demo_task_env_def Let_def add_batch_def no_progress_def add_counts_def)
  have "\<exists>outcome table'. runTask demo_run_config ''auth-sessions'' 0 demo_task_env [] = Some (Inr outcome, table')
      \<and> ro_outcome outcome = RunCompleted"
    using b by (simp add: runTask_def demo_run_config_def run_input_def claim_run_def demo_task_env_def record_end_def write_end_def complete_run_def accumulateCounts_def Let_def affected_def holds_run_def
        leaseLive_def task_outcome_def)
  then obtain outcome table' where run: "runTask demo_run_config ''auth-sessions'' 0 demo_task_env [] = Some (Inr outcome, table')"
    "ro_outcome outcome = RunCompleted" by blast
  have "(run_step (Suc 2))\<^sup>*\<^sup>* ?s1 (?s1\<lparr>xs_now := 1\<rparr>)"
    by (rule r_into_rtranclp, rule run_step.clock) (simp add: granted_def run_init_def Let_def)
  then show ?thesis
    using completed_only_when_drained [of 2 run_init demo_run_config demo_task_env "''auth-sessions''" 0 c t "?s1\<lparr>xs_now := 1\<rparr>" outcome table']
      ct run by (fastforce simp: run_reachable_def run_init_def demo_task_env_def demo_run_config_def)
qed

end
