(* ===== verification/Retention_Purge.thy ===== *)
theory Retention_Purge
  imports Retention_Run Relay_System Hotel_System
begin

text \<open>
  The purges of the retention (retention/retention-due.ts, retention/retention-delete.repository.ts, \<open>purge\<close>
  of retention/retention-tasks.service.ts): which retry keys and which booking events are due, and the
  bounded delete of the oldest of them. The lemmas show that the batches of a purge together delete exactly
  what was due, and that a purge is a step of the hotel system and of the relay system, so that their
  invariants survive it.
\<close>

subsection \<open>What is due\<close>

record RetentionWindowConfiguration =
  timeZone :: string
  notificationEventHours :: int
  bookingLifecycleEventHours :: int
  exportTerminalHours :: int
  sessionHours :: int

definition retention_windows :: "string \<Rightarrow> RetentionWindowConfiguration" where
  "retention_windows zone =
     \<lparr>timeZone = zone, notificationEventHours = 720, bookingLifecycleEventHours = 720, exportTerminalHours = 192,
      sessionHours = 24\<rparr>"

definition microsecondsPerHour :: int where
  "microsecondsPerHour = 3600000000"

definition keys_due :: "instant \<Rightarrow> idempotency_row \<Rightarrow> bool" where
  "keys_due now row \<longleftrightarrow> ik_expiresAt row \<le> now"

definition lifecycle_due :: "RetentionWindowConfiguration \<Rightarrow> instant \<Rightarrow> outbox_row \<Rightarrow> bool" where
  "lifecycle_due windows now row \<longleftrightarrow>
     o_eventType row \<in> set bookingLifecycleEventTypes \<and> o_status row = OutProcessed
     \<and> o_availableAt row \<le> now - bookingLifecycleEventHours windows * microsecondsPerHour"

subsection \<open>Bounded deletes\<close>

text \<open>DELETE with ORDER BY the anchor and the identity and LIMIT.\<close>

definition deleteBatch ::
  "('r \<Rightarrow> bool) \<Rightarrow> ('r \<Rightarrow> instant) \<Rightarrow> ('r \<Rightarrow> 'k :: linorder) \<Rightarrow> nat \<Rightarrow> 'r list \<Rightarrow> nat \<times> 'r list" where
  "deleteBatch due anchor identity batchSize table =
     (let doomed = take batchSize (sort_key (\<lambda>row. (anchor row, identity row)) (filter due table)) in
      (length doomed, delete_where (\<lambda>row. identity row \<in> identity ` set doomed) table))"

definition purge ::
  "string \<Rightarrow> ('r \<Rightarrow> bool) \<Rightarrow> ('r \<Rightarrow> instant) \<Rightarrow> ('r \<Rightarrow> 'k :: linorder) \<Rightarrow> nat \<Rightarrow> 'r list
   \<Rightarrow> RetentionBatchOutcome \<times> 'r list" where
  "purge tableName due anchor identity batchSize table =
     (case deleteBatch due anchor identity batchSize table of (deleted, table) \<Rightarrow>
        (\<lparr>bo_counts = (if deleted > 0 then [(tableName, deleted)] else []), bo_moreWaiting = (deleted = batchSize),
          bo_retryableFailures = None\<rparr>, table))"

text \<open>The batches of one run, each on the table the previous one left.\<close>

fun purge_batches ::
  "string \<Rightarrow> ('r \<Rightarrow> bool) \<Rightarrow> ('r \<Rightarrow> instant) \<Rightarrow> ('r \<Rightarrow> 'k :: linorder) \<Rightarrow> nat \<Rightarrow> nat \<Rightarrow> 'r list
   \<Rightarrow> RetentionBatchOutcome list \<times> 'r list" where
  "purge_batches tableName due anchor identity batchSize 0 table = ([], table)"
| "purge_batches tableName due anchor identity batchSize (Suc n) table =
     (case purge tableName due anchor identity batchSize table of (outcome, table) \<Rightarrow>
      case purge_batches tableName due anchor identity batchSize n table of (outcomes, table) \<Rightarrow>
        (outcome # outcomes, table))"

subsection \<open>Lemmas\<close>

lemma due_left:
  assumes "distinct (map identity table)"
  shows "sort_key key (filter due (delete_where (\<lambda>row. identity row \<in> identity ` set (take n (sort_key key (filter due table)))) table))
    = drop n (sort_key key (filter due table))"
proof -
  let ?s = "sort_key key (filter due table)"
  let ?kept = "\<lambda>row. identity row \<notin> identity ` set (take n ?s)"
  have d: "distinct (map identity ?s)" using assms by (simp add: distinct_map_filter)
  have "identity row \<notin> identity ` set (take n ?s)" if "row \<in> set (drop n ?s)" for row
  proof
    assume "identity row \<in> identity ` set (take n ?s)"
    moreover have "map identity ?s = map identity (take n ?s) @ map identity (drop n ?s)" by (simp flip: map_append)
    ultimately show False using d that by (metis distinct_append disjoint_iff image_eqI set_map)
  qed
  then have drop: "filter ?kept (drop n ?s) = drop n ?s" by (simp add: filter_id_conv)
  have "filter ?kept (take n ?s) = []" by (simp add: filter_empty_conv)
  then have "filter ?kept ?s = drop n ?s" using drop filter_append [of ?kept "take n ?s" "drop n ?s"] by simp
  moreover have "sort_key key (filter due (delete_where (\<lambda>row. identity row \<in> identity ` set (take n ?s)) table)) = filter ?kept ?s"
    by (simp add: delete_where_def filter_sort [symmetric] conj_commute)
  ultimately show ?thesis by simp
qed


lemma deleteBatch_props:
  assumes "distinct (map identity table)" "deleteBatch due anchor identity batchSize table = (deleted, table')"
  shows "deleted = min batchSize (length (filter due table))"
    "length (filter due table') = length (filter due table) - batchSize"
    "filter (\<lambda>row. \<not> due row) table' = filter (\<lambda>row. \<not> due row) table"
    "distinct (map identity table')" "\<exists>kept. table' = filter kept table"
proof -
  let ?s = "sort_key (\<lambda>row. (anchor row, identity row)) (filter due table)"
  let ?P = "\<lambda>row. identity row \<in> identity ` set (take batchSize ?s)"
  have t: "table' = delete_where ?P table" and n: "deleted = length (take batchSize ?s)"
    using assms(2) by (simp_all add: deleteBatch_def Let_def)
  show "deleted = min batchSize (length (filter due table))" by (simp add: n)
  have "length (filter due table') = length (sort_key (\<lambda>row. (anchor row, identity row)) (filter due table'))" by simp
  also have "\<dots> = length ?s - batchSize" unfolding t due_left [OF assms(1)] by simp
  finally show "length (filter due table') = length (filter due table) - batchSize" by simp
  have hit: "due row" if row: "row \<in> set table" "?P row" for row
  proof -
    obtain r where "r \<in> set (take batchSize ?s)" "identity row = identity r" using row(2) by blast
    then have "r \<in> set table" "due r" "identity row = identity r" by (auto dest: in_set_takeD)
    then show ?thesis using distinct_key_eq [OF assms(1) row(1)] by metis
  qed
  show "filter (\<lambda>row. \<not> due row) table' = filter (\<lambda>row. \<not> due row) table"
    unfolding t delete_where_def filter_filter by (rule filter_cong [OF refl]) (use hit in blast)
  show "distinct (map identity table')" using assms(1) by (simp add: t delete_where_def distinct_map_filter)
  show "\<exists>kept. table' = filter kept table" by (auto simp: t delete_where_def)
qed

lemma none_due: "length (filter due table) = 0 \<Longrightarrow> filter (\<lambda>row. \<not> due row) table = table"
  by (simp add: filter_empty_conv filter_id_conv)

lemma purge_drains_batches:
  assumes "distinct (map identity table)" "0 < batchSize" "n = length (filter due table) div batchSize"
    "purge_batches tableName due anchor identity batchSize (Suc n) table = (outcomes, table')"
  shows "table' = filter (\<lambda>row. \<not> due row) table
    \<and> map bo_moreWaiting outcomes = replicate n True @ [False]
    \<and> (\<Sum>outcome \<leftarrow> outcomes. count_of (bo_counts outcome) tableName) = length (filter due table)"
  using assms
proof (induction n arbitrary: table outcomes)
  case (0 table outcomes)
  obtain deleted t where del: "deleteBatch due anchor identity batchSize table = (deleted, t)"
    by (cases "deleteBatch due anchor identity batchSize table")
  note p = deleteBatch_props [OF 0(1) del]
  have less: "length (filter due table) < batchSize" using 0(2,3) by (simp add: div_eq_0_iff)
  then have "t = filter (\<lambda>row. \<not> due row) table" using none_due [of due t] p(2,3) by simp
  then show ?case using 0(4) del less p(1) by (auto simp: purge_def count_of_def)
next
  case (Suc n table outcomes)
  obtain deleted t where del: "deleteBatch due anchor identity batchSize table = (deleted, t)"
    by (cases "deleteBatch due anchor identity batchSize table")
  note p = deleteBatch_props [OF Suc(2) del]
  have more: "batchSize \<le> length (filter due table)"
    using Suc(3,4) by (metis Zero_not_Suc div_less not_le)
  have n: "n = length (filter due t) div batchSize" using Suc(3,4) more by (simp add: p(2) le_div_geq)
  obtain os where os: "purge_batches tableName due anchor identity batchSize (Suc n) t = (os, table')"
    "outcomes = \<lparr>bo_counts = [(tableName, deleted)], bo_moreWaiting = True, bo_retryableFailures = None\<rparr> # os"
    using Suc(5) del p(1) more Suc(3) unfolding purge_batches.simps(2) [of _ _ _ _ _ "Suc n"]
    by (auto simp: purge_def simp del: purge_batches.simps split: prod.splits)
  from Suc.IH [OF p(4) Suc(3) n os(1)] show ?case
    using os(2) p more by (simp add: count_of_def)
qed

subsection \<open>Purges as steps\<close>

lemma keys_purge_step:
  assumes "deleteBatch (keys_due now) ik_expiresAt ik_id batchSize (idempotencyKeys db) = (n, keys)"
  shows "hotel_step cfg collate db (db\<lparr>idempotencyKeys := keys\<rparr>)"
  using assms hotel_step.keys_purged [of cfg collate db] by (auto simp: deleteBatch_def delete_where_def Let_def)

lemma wf_outbox_filter: "wf_outbox table \<Longrightarrow> wf_outbox (filter kept table)"
  by (simp add: wf_outbox_def distinct_map_filter)

lemma lifecycle_purge_step:
  assumes "wf_outbox (rs_table s)"
    "deleteBatch (lifecycle_due windows now) o_availableAt o_id batchSize (rs_table s) = (n, table')"
  shows "relay_step cfg iso4217 s (s\<lparr>rs_table := table'\<rparr>)"
proof (rule relay_step.foreign)
  have "distinct (map o_id (rs_table s))" using assms(1) by (simp add: wf_outbox_def)
  then obtain kept where "table' = filter kept (rs_table s)" using deleteBatch_props(5) assms(2) by blast
  then show "foreign_change (rs_table s) table'" using wf_outbox_filter [OF assms(1)] by (auto simp: foreign_change_def)
qed

subsection \<open>Properties of the purges\<close>

text \<open>The bounded batches of a purge add up to one unbounded delete: batch after batch removes the oldest
  due rows until a batch is not full, and then exactly the due rows are gone, the reported counts add up to
  their number, and every batch but the last reported that more was waiting.\<close>

theorem purge_equals_delete:
  assumes "distinct (map identity table)" "0 < batchSize"
    "purge_batches tableName due anchor identity batchSize (Suc (length (filter due table) div batchSize)) table = (outcomes, table')"
  shows "table' = filter (\<lambda>row. \<not> due row) table
    \<and> map bo_moreWaiting outcomes = replicate (length (filter due table) div batchSize) True @ [False]
    \<and> (\<Sum>outcome \<leftarrow> outcomes. count_of (bo_counts outcome) tableName) = length (filter due table)"
  by (rule purge_drains_batches [OF assms(1,2) refl assms(3)])

theorem purge_equals_delete_witness:
  "\<exists>outcomes. purge_batches ''t'' (\<lambda>n. n < 3) int (\<lambda>n :: nat. n) 2 2 [1, 5, 2, 0] = (outcomes, [5])"
proof -
  obtain outcomes table' where p: "purge_batches ''t'' (\<lambda>n. n < 3) int (\<lambda>n :: nat. n) 2 2 [1, 5, 2, 0] = (outcomes, table')"
    by (cases "purge_batches ''t'' (\<lambda>n. n < 3) int (\<lambda>n :: nat. n) 2 2 [1, 5, 2, 0]")
  have two: "Suc (length (filter (\<lambda>n :: nat. n < 3) [1, 5, 2, 0]) div 2) = 2" by simp
  have "table' = filter (\<lambda>n. \<not> n < 3) [1, 5, 2, 0]"
    using purge_equals_delete [of "\<lambda>n :: nat. n" "[1, 5, 2, 0]" 2 "''t''" "\<lambda>n. n < 3" int outcomes table', unfolded two, OF _ _ p]
    by (simp del: filter.simps)
  then have "table' = [5]" by simp
  then show ?thesis using p by blast
qed

text \<open>C40. No event is purged before it was delivered: in every reachable state of the relays, each booking
  event that a purge removes is on the topic as the message built from it, and the purged state is reachable
  again.\<close>

theorem purged_events_delivered:
  assumes "relay_reachable cfg iso4217 s"
    "deleteBatch (lifecycle_due windows now) o_availableAt o_id batchSize (rs_table s) = (n, table')"
  shows "relay_reachable cfg iso4217 (s\<lparr>rs_table := table'\<rparr>)
    \<and> (\<forall>row \<in> set (rs_table s) - set table'. \<exists>payload. parseBookingLifecyclePayload iso4217 (o_payload row) = Inr payload
         \<and> toBookingLifecycleMessage (claimed_row row) payload \<in> set (rs_topic s))"
proof -
  have inv: "relay_inv iso4217 s" using assms(1) unfolding relay_reachable_def by (rule relay.reachable_inv)
  then have wf: "wf_outbox (rs_table s)" by (simp add: relay_inv_def)
  then have d: "distinct (map o_id (rs_table s))" by (simp add: wf_outbox_def)
  have "relay_reachable cfg iso4217 (s\<lparr>rs_table := table'\<rparr>)"
    using assms(1) lifecycle_purge_step [OF wf assms(2)] unfolding relay_reachable_def
    by (rule rtranclp.rtrancl_into_rtrancl)
  moreover have "\<exists>payload. parseBookingLifecyclePayload iso4217 (o_payload row) = Inr payload
      \<and> toBookingLifecycleMessage (claimed_row row) payload \<in> set (rs_topic s)"
    if row: "row \<in> set (rs_table s)" "row \<notin> set table'" for row
  proof -
    have "row \<notin> set (filter (\<lambda>row. \<not> lifecycle_due windows now row) table')" using row(2) by simp
    then have "lifecycle_due windows now row"
      unfolding deleteBatch_props(3) [OF d assms(2)] using row(1) by simp
    then have "on_topic iso4217 (rs_topic s) row"
      using inv row(1) by (auto simp: relay_inv_def row_ok_def lifecycle_due_def familyPredicate_def)
    then show ?thesis by (auto simp: on_topic_def message_of_Inr claimed_row_def)
  qed
  ultimately show ?thesis by blast
qed

theorem purged_events_delivered_witness:
  "\<exists>s now n table'. relay_reachable demo_relay (\<lambda>c. c = ''VND'') s
     \<and> deleteBatch (lifecycle_due (retention_windows ''UTC'') now) o_availableAt o_id 5
         (rs_table s) = (Suc n, table')
     \<and> relay_reachable demo_relay (\<lambda>c. c = ''VND'') (s\<lparr>rs_table := table'\<rparr>)"
proof -
  obtain s row where s: "relay_reachable demo_relay (\<lambda>c. c = ''VND'') s" "row \<in> set (rs_table s)"
    "o_status row = OutProcessed" "familyPredicate row" using demo_reachable by blast
  let ?due = "lifecycle_due (retention_windows ''UTC'')
    (o_availableAt row + 720 * microsecondsPerHour)"
  obtain deleted table' where del: "deleteBatch ?due o_availableAt o_id 5 (rs_table s) = (deleted, table')"
    by (cases "deleteBatch ?due o_availableAt o_id 5 (rs_table s)")
  have inv: "relay_inv (\<lambda>c. c = ''VND'') s" using s(1) unfolding relay_reachable_def by (rule relay.reachable_inv)
  then have "distinct (map o_id (rs_table s))" by (simp add: relay_inv_def wf_outbox_def)
  from deleteBatch_props(1) [OF this del] have "deleted = min 5 (length (filter ?due (rs_table s)))" .
  moreover have "row \<in> set (filter ?due (rs_table s))"
    using s by (simp add: lifecycle_due_def familyPredicate_def retention_windows_def)
  then have "0 < length (filter ?due (rs_table s))" by (rule length_pos_if_in_set)
  ultimately have "0 < deleted" by simp
  then obtain n where "deleted = Suc n" using gr0_conv_Suc by blast
  then show ?thesis using purged_events_delivered [OF s(1) del] s(1) del by blast
qed

end
