(* ===== verification/Booking_Stats.thy ===== *)
theory Booking_Stats
  imports Outbox Lifecycle_Relay "HOL-Library.Multiset"
begin

text \<open>
  The read model of booking statistics: one fact per booking, written by a consumer of the lifecycle topic
  (reports/booking-stats-fact.mapper.ts, booking-stats-fact.repository.ts, booking-stats-projection.service.ts,
  booking-stats-batch.ts) and emptied by the rebuild command (booking-stats-rebuild.service.ts). The guarded
  upsert is the sequence of assignments the statement has, evaluated from left to right on the row as already
  updated, as MySQL does. A message is its decoded value, \<open>None\<close> when there is none or it is no JSON. The
  order of \<open>localeCompare\<close> is given by a parameter, the sort keys of the locale. The lemmas show that a batch
  keeps, per booking, exactly the newest of what is stored and what it brings.
\<close>

subsection \<open>Facts\<close>

record BookingStatsFactRow =
  sf_bookingPublicId :: string
  sf_bookingVersion :: int
  sf_status :: BookingStatus
  sf_roomId :: string
  sf_roomTypeId :: string
  sf_checkIn :: hotel_date
  sf_checkOut :: hotel_date
  sf_priceAmount :: int
  sf_currency :: string
  sf_lastEventId :: string
  sf_lastOccurredAt :: int

text \<open>A row of \<open>booking_stats_facts\<close>: the fact and the two timestamps of the table.\<close>

record booking_stats_fact =
  st_fact :: BookingStatsFactRow
  st_createdAt :: instant
  st_updatedAt :: instant

record ReceivedStatsMessage =
  rm_partition :: nat
  rm_offset :: nat
  rm_value :: "json option"

record BookingStatsBatchResult =
  br_received :: nat
  br_applied :: nat
  br_skipped :: nat

definition toBookingStatsFact :: "ReceivedBookingLifecycleEvent \<Rightarrow> BookingStatsFactRow" where
  "toBookingStatsFact event =
     (let payload = re_payload event in
      \<lparr>sf_bookingPublicId = lp_bookingId payload,
       sf_bookingVersion = lp_bookingVersion payload,
       sf_status = lp_toStatus payload,
       sf_roomId = ls_roomId (lp_stay payload),
       sf_roomTypeId = ls_roomTypeId (lp_stay payload),
       sf_checkIn = ls_checkIn (lp_stay payload),
       sf_checkOut = ls_checkOut (lp_stay payload),
       sf_priceAmount = lp_amount payload,
       sf_currency = lp_currency payload,
       sf_lastEventId = re_eventId event,
       sf_lastOccurredAt = re_occurredAt event\<rparr>)"

subsection \<open>The guarded upsert\<close>

text \<open>The checks of the table.\<close>

definition chk_booking_stats_facts :: "BookingStatsFactRow \<Rightarrow> bool" where
  "chk_booking_stats_facts f \<longleftrightarrow> sf_checkIn f < sf_checkOut f \<and> sf_bookingVersion f \<ge> 1
     \<and> sf_priceAmount f \<le> int number_max_safe_integer"

text \<open>Per replaced column, the assignment of the incoming value.\<close>

definition replacedColumns :: "(BookingStatsFactRow \<Rightarrow> BookingStatsFactRow \<Rightarrow> BookingStatsFactRow) list" where
  "replacedColumns =
     [\<lambda>incoming row. row\<lparr>sf_status := sf_status incoming\<rparr>,
      \<lambda>incoming row. row\<lparr>sf_roomId := sf_roomId incoming\<rparr>,
      \<lambda>incoming row. row\<lparr>sf_roomTypeId := sf_roomTypeId incoming\<rparr>,
      \<lambda>incoming row. row\<lparr>sf_checkIn := sf_checkIn incoming\<rparr>,
      \<lambda>incoming row. row\<lparr>sf_checkOut := sf_checkOut incoming\<rparr>,
      \<lambda>incoming row. row\<lparr>sf_priceAmount := sf_priceAmount incoming\<rparr>,
      \<lambda>incoming row. row\<lparr>sf_currency := sf_currency incoming\<rparr>,
      \<lambda>incoming row. row\<lparr>sf_lastEventId := sf_lastEventId incoming\<rparr>,
      \<lambda>incoming row. row\<lparr>sf_lastOccurredAt := sf_lastOccurredAt incoming\<rparr>]"

definition guardedAssignments :: "(BookingStatsFactRow \<Rightarrow> BookingStatsFactRow \<Rightarrow> BookingStatsFactRow) list" where
  "guardedAssignments =
     map (\<lambda>column incoming row. if sf_bookingVersion incoming > sf_bookingVersion row then column incoming row else row)
       replacedColumns
     @ [\<lambda>incoming row. row\<lparr>sf_bookingVersion := max (sf_bookingVersion row) (sf_bookingVersion incoming)\<rparr>]"

text \<open>\<open>ON DUPLICATE KEY UPDATE\<close>: the assignments in order; \<open>updated_at\<close> moves when a column changes.\<close>

definition on_duplicate_key :: "instant \<Rightarrow> BookingStatsFactRow \<Rightarrow> booking_stats_fact \<Rightarrow> booking_stats_fact" where
  "on_duplicate_key now incoming stored =
     (let row = foldl (\<lambda>row assign. assign incoming row) (st_fact stored) guardedAssignments in
      if row = st_fact stored then stored else stored\<lparr>st_fact := row, st_updatedAt := now\<rparr>)"

definition fact_key :: "booking_stats_fact \<Rightarrow> string" where
  "fact_key stored = sf_bookingPublicId (st_fact stored)"

definition upsert_row ::
  "instant \<Rightarrow> BookingStatsFactRow \<Rightarrow> booking_stats_fact list \<Rightarrow> error + booking_stats_fact list" where
  "upsert_row now incoming table =
     (if \<not> chk_booking_stats_facts incoming then Inl (DatabaseError ''ER_CHECK_CONSTRAINT_VIOLATED'')
      else if \<exists>stored \<in> set table. fact_key stored = sf_bookingPublicId incoming then
        let table' = update_where (\<lambda>stored. fact_key stored = sf_bookingPublicId incoming) (on_duplicate_key now incoming) table in
        if \<exists>stored \<in> set table'. fact_key stored = sf_bookingPublicId incoming \<and> \<not> chk_booking_stats_facts (st_fact stored)
        then Inl (DatabaseError ''ER_CHECK_CONSTRAINT_VIOLATED'')
        else Inr table'
      else Inr (table @ [\<lparr>st_fact = incoming, st_createdAt = now, st_updatedAt = now\<rparr>]))"

text \<open>One statement: its rows in the order of the values list, at one reading of the clock.\<close>

fun upsert_statement ::
  "instant \<Rightarrow> BookingStatsFactRow list \<Rightarrow> booking_stats_fact list \<Rightarrow> error + booking_stats_fact list" where
  "upsert_statement now [] table = Inr table"
| "upsert_statement now (incoming # rows) table =
     and_then (upsert_row now incoming table) (upsert_statement now rows)"

definition bookingStatsUpsertChunkSize :: nat where
  "bookingStatsUpsertChunkSize = 500"

text \<open>The loop over the chunks; \<open>clock start\<close> is the time of the statement of the chunk that begins at \<open>start\<close>.\<close>

function upsert_from ::
  "(nat \<Rightarrow> instant) \<Rightarrow> BookingStatsFactRow list \<Rightarrow> nat \<Rightarrow> booking_stats_fact list \<Rightarrow> error + booking_stats_fact list" where
  "upsert_from clock rows start table =
     (if start < length rows then
        and_then (upsert_statement (clock start) (take bookingStatsUpsertChunkSize (drop start rows)) table)
          (upsert_from clock rows (start + bookingStatsUpsertChunkSize))
      else Inr table)"
  by pat_completeness auto
termination
  by (relation "measure (\<lambda>(clock, rows, start, table). length rows - start)") (auto simp: bookingStatsUpsertChunkSize_def)

declare upsert_from.simps [simp del]

definition upsert ::
  "(nat \<Rightarrow> instant) \<Rightarrow> BookingStatsFactRow list \<Rightarrow> booking_stats_fact list \<Rightarrow> error + booking_stats_fact list" where
  "upsert clock rows table = upsert_from clock rows 0 table"

subsection \<open>The projection\<close>

definition toFact :: "(string \<Rightarrow> bool) \<Rightarrow> (string \<Rightarrow> bool) \<Rightarrow> ReceivedStatsMessage \<Rightarrow> BookingStatsFactRow option" where
  "toFact isUUID iso4217 message =
     (case parseBookingLifecycleMessage isUUID iso4217 (rm_value message) of
        Inr event \<Rightarrow> Some (toBookingStatsFact event)
      | Inl _ \<Rightarrow> None)"

text \<open>\<open>newest.set\<close>: a key that is present keeps its place in the map.\<close>

definition map_set :: "BookingStatsFactRow \<Rightarrow> BookingStatsFactRow list \<Rightarrow> BookingStatsFactRow list" where
  "map_set row newest =
     (if \<exists>known \<in> set newest. sf_bookingPublicId known = sf_bookingPublicId row
      then update_where (\<lambda>known. sf_bookingPublicId known = sf_bookingPublicId row) (\<lambda>_. row) newest
      else newest @ [row])"

definition keep_newest :: "BookingStatsFactRow \<Rightarrow> BookingStatsFactRow list \<Rightarrow> BookingStatsFactRow list" where
  "keep_newest row newest =
     (case List.find (\<lambda>known. sf_bookingPublicId known = sf_bookingPublicId row) newest of
        None \<Rightarrow> map_set row newest
      | Some known \<Rightarrow> if sf_bookingVersion row > sf_bookingVersion known then map_set row newest else newest)"

fun collect_facts ::
  "(string \<Rightarrow> bool) \<Rightarrow> (string \<Rightarrow> bool) \<Rightarrow> ReceivedStatsMessage list \<Rightarrow> BookingStatsFactRow list \<times> nat
   \<Rightarrow> BookingStatsFactRow list \<times> nat" where
  "collect_facts isUUID iso4217 [] acc = acc"
| "collect_facts isUUID iso4217 (message # messages) (newest, skipped) =
     (case toFact isUUID iso4217 message of
        None \<Rightarrow> collect_facts isUUID iso4217 messages (newest, skipped + 1)
      | Some row \<Rightarrow> collect_facts isUUID iso4217 messages (keep_newest row newest, skipped))"

text \<open>
  What a batch meets around it: the sort keys of the locale, an error of the connection or of the commit, and
  the clock of the statements.
\<close>

record stats_batch_env =
  be_localeKey :: "string \<Rightarrow> string"
  be_unavailable :: "error option"
  be_clock :: "nat \<Rightarrow> instant"

definition applyBatch ::
  "(string \<Rightarrow> bool) \<Rightarrow> (string \<Rightarrow> bool) \<Rightarrow> stats_batch_env \<Rightarrow> ReceivedStatsMessage list \<Rightarrow> booking_stats_fact list
   \<Rightarrow> error + BookingStatsBatchResult \<times> booking_stats_fact list" where
  "applyBatch isUUID iso4217 env messages table =
     (let (newest, skipped) = collect_facts isUUID iso4217 messages ([], 0);
          rows = sort_key (\<lambda>row. be_localeKey env (sf_bookingPublicId row)) newest in
      and_then (if rows = [] then Inr table
                else case be_unavailable env of Some e \<Rightarrow> Inl e | None \<Rightarrow> upsert (be_clock env) rows table) (\<lambda>table'.
      Inr (\<lparr>br_received = length messages, br_applied = length rows, br_skipped = skipped\<rparr>, table')))"

subsection \<open>Batches and offsets\<close>

text \<open>
  The consumer's state: the facts, the offset the client fetches next and the committed offset of each
  partition. A batch returns its answer with the state, since an error after the handler keeps what the
  handler wrote.
\<close>

record stats_state =
  ss_facts :: "booking_stats_fact list"
  ss_position :: "nat \<Rightarrow> nat"
  ss_committed :: "nat \<Rightarrow> nat"

record fetched_batch =
  fb_partition :: nat
  fb_messages :: "(nat \<times> json option) list"
  fb_isRunning :: bool
  fb_isStale :: bool
  fb_commitFails :: "error option"
  fb_heartbeatFails :: "error option"

definition consumeBookingStatsBatch ::
  "(string \<Rightarrow> bool) \<Rightarrow> (string \<Rightarrow> bool) \<Rightarrow> stats_batch_env \<Rightarrow> fetched_batch \<Rightarrow> stats_state \<Rightarrow> (error + unit) \<times> stats_state" where
  "consumeBookingStatsBatch isUUID iso4217 env payload st =
     (if \<not> fb_isRunning payload \<or> fb_isStale payload \<or> fb_messages payload = [] then (Inr (), st)
      else
      case applyBatch isUUID iso4217 env
             (map (\<lambda>(offset, v). \<lparr>rm_partition = fb_partition payload, rm_offset = offset, rm_value = v\<rparr>) (fb_messages payload))
             (ss_facts st) of
        Inl e \<Rightarrow> (Inl e, st)
      | Inr (result, table) \<Rightarrow>
          let last_offset = fst (last (fb_messages payload));
              resolved = st\<lparr>ss_facts := table, ss_position := (ss_position st)(fb_partition payload := last_offset + 1)\<rparr> in
          case fb_commitFails payload of
            Some e \<Rightarrow> (Inl e, resolved)
          | None \<Rightarrow>
              let committed = resolved\<lparr>ss_committed := (ss_committed st)(fb_partition payload := last_offset + 1)\<rparr> in
              case fb_heartbeatFails payload of Some e \<Rightarrow> (Inl e, committed) | None \<Rightarrow> (Inr (), committed))"

subsection \<open>The rebuild\<close>

definition bookingStatsRebuildDeleteBatchSize :: nat where
  "bookingStatsRebuildDeleteBatchSize = 1000"

text \<open>\<open>DELETE FROM booking_stats_facts ORDER BY booking_public_id LIMIT ?\<close>\<close>

definition delete_chunk :: "booking_stats_fact list \<Rightarrow> booking_stats_fact list" where
  "delete_chunk table =
     delete_where (\<lambda>stored. stored \<in> set (take bookingStatsRebuildDeleteBatchSize (sort_key fact_key table))) table"

text \<open>
  The command is a sequence of statements, on the connection, on the broker and on the table, and anything may
  happen between two of them; \<open>rebuild_statement\<close> is one statement. \<open>Deleting n\<close> is the loop of the deletes with
  \<open>n\<close> rows gone, \<open>AskingAgain n\<close> the second question about the members.
\<close>

datatype rebuild_phase = Connecting | AskingMembers | AskingTopic | Rewinding | Deleting nat | AskingAgain nat

datatype rebuild_progress = Proceeding rebuild_phase | Rebuilt nat

text \<open>What a statement is answered. A rewind or a delete that fails may have taken effect.\<close>

record rebuild_answers =
  rb_unavailable :: "error option"
  rb_active :: "error + bool"
  rb_topicExists :: "error + bool"
  rb_earliest :: "nat \<Rightarrow> nat"
  rb_resetFails :: "(bool \<times> error) option"
  rb_deleteFails :: "(bool \<times> error) option"

fun rebuild_statement ::
  "rebuild_answers \<Rightarrow> rebuild_phase \<Rightarrow> stats_state \<Rightarrow> (error + rebuild_progress) \<times> stats_state" where
  "rebuild_statement answers Connecting st =
     ((case rb_unavailable answers of Some e \<Rightarrow> Inl e | None \<Rightarrow> Inr (Proceeding AskingMembers)), st)"
| "rebuild_statement answers AskingMembers st =
     (and_then (rb_active answers) (\<lambda>active.
      if active then Inl (PlainError ''BOOKING_STATS_CONSUMER_ACTIVE'') else Inr (Proceeding AskingTopic)), st)"
| "rebuild_statement answers AskingTopic st =
     (and_then (rb_topicExists answers) (\<lambda>exists.
      if \<not> exists then Inl (PlainError ''BOOKING_STATS_TOPIC_MISSING'') else Inr (Proceeding Rewinding)), st)"
| "rebuild_statement answers Rewinding st =
     (case rb_resetFails answers of
        Some (effective, e) \<Rightarrow> (Inl e, if effective then st\<lparr>ss_committed := rb_earliest answers\<rparr> else st)
      | None \<Rightarrow> (Inr (Proceeding (Deleting 0)), st\<lparr>ss_committed := rb_earliest answers\<rparr>))"
| "rebuild_statement answers (Deleting gone) st =
     (let table = delete_chunk (ss_facts st); deleted = length (ss_facts st) - length table in
      case rb_deleteFails answers of
        Some (effective, e) \<Rightarrow> (Inl e, if effective then st\<lparr>ss_facts := table\<rparr> else st)
      | None \<Rightarrow>
          (Inr (Proceeding (if deleted < bookingStatsRebuildDeleteBatchSize then AskingAgain (gone + deleted)
                            else Deleting (gone + deleted))), st\<lparr>ss_facts := table\<rparr>))"
| "rebuild_statement answers (AskingAgain gone) st =
     (and_then (rb_active answers) (\<lambda>active.
      if active then Inl (PlainError ''BOOKING_STATS_CONSUMER_JOINED'') else Inr (Rebuilt gone)), st)"

subsection \<open>Lemmas on the upsert\<close>

text \<open>The newer of two facts; an older or equal version changes nothing.\<close>

definition newer :: "BookingStatsFactRow \<Rightarrow> BookingStatsFactRow \<Rightarrow> BookingStatsFactRow" where
  "newer incoming stored = (if sf_bookingVersion incoming > sf_bookingVersion stored then incoming else stored)"

lemma guarded_fold:
  assumes "sf_bookingPublicId incoming = sf_bookingPublicId row"
  shows "foldl (\<lambda>row assign. assign incoming row) row guardedAssignments = newer incoming row"
proof (cases "sf_bookingVersion incoming > sf_bookingVersion row")
  case True
  then show ?thesis
    using assms by (cases incoming, cases row) (simp add: guardedAssignments_def replacedColumns_def newer_def split del: if_split)
next
  case False
  then have "max (sf_bookingVersion row) (sf_bookingVersion incoming) = sf_bookingVersion row" by simp
  then show ?thesis
    using False by (simp add: guardedAssignments_def replacedColumns_def newer_def split del: if_split)
qed

lemma on_duplicate_fact:
  "fact_key stored = sf_bookingPublicId incoming \<Longrightarrow> st_fact (on_duplicate_key now incoming stored) = newer incoming (st_fact stored)"
  by (simp add: on_duplicate_key_def fact_key_def guarded_fold Let_def)

lemma newer_key: "sf_bookingPublicId incoming = sf_bookingPublicId stored \<Longrightarrow> sf_bookingPublicId (newer incoming stored) = sf_bookingPublicId stored"
  by (simp add: newer_def)

lemma on_duplicate_key_key [simp]:
  "fact_key stored = sf_bookingPublicId incoming \<Longrightarrow> fact_key (on_duplicate_key now incoming stored) = fact_key stored"
  using on_duplicate_fact [of stored incoming now] by (simp add: fact_key_def newer_key)

definition wf_facts :: "booking_stats_fact list \<Rightarrow> bool" where
  "wf_facts table \<longleftrightarrow> distinct (map fact_key table) \<and> (\<forall>stored \<in> set table. chk_booking_stats_facts (st_fact stored))"

text \<open>The table as the function it stores.\<close>

definition fact_of :: "booking_stats_fact list \<Rightarrow> string \<Rightarrow> BookingStatsFactRow option" where
  "fact_of table i = map_option st_fact (List.find (\<lambda>stored. fact_key stored = i) table)"

definition absorb :: "BookingStatsFactRow \<Rightarrow> (string \<Rightarrow> BookingStatsFactRow option) \<Rightarrow> string \<Rightarrow> BookingStatsFactRow option" where
  "absorb f m = m(sf_bookingPublicId f \<mapsto> (case m (sf_bookingPublicId f) of None \<Rightarrow> f | Some g \<Rightarrow> newer f g))"

lemma find_update_where:
  assumes "\<And>r. P r \<Longrightarrow> key r = k \<Longrightarrow> key (f r) = key r" "\<And>r. P r \<longleftrightarrow> key r = k"
  shows "List.find (\<lambda>r. key r = i) (update_where P f rows) =
    (if i = k then map_option f (List.find (\<lambda>r. key r = i) rows) else List.find (\<lambda>r. key r = i) rows)"
  using assms by (induction rows) auto

lemma upsert_row_ok:
  assumes "wf_facts table" "chk_booking_stats_facts f"
  obtains table' where "upsert_row now f table = Inr table'" "wf_facts table'" "fact_of table' = absorb f (fact_of table)"
proof (cases "\<exists>stored \<in> set table. fact_key stored = sf_bookingPublicId f")
  case True
  let ?P = "\<lambda>stored. fact_key stored = sf_bookingPublicId f"
  let ?t = "update_where ?P (on_duplicate_key now f) table"
  have chk: "chk_booking_stats_facts (st_fact s)" if "s \<in> set ?t" for s
    using that assms by (auto simp: row_simps wf_facts_def on_duplicate_fact newer_def)
  have keys: "map fact_key ?t = map fact_key table" by (rule map_update_where) simp
  have find: "List.find (\<lambda>r. fact_key r = i) ?t = (if i = sf_bookingPublicId f
      then map_option (on_duplicate_key now f) (List.find (\<lambda>r. fact_key r = i) table)
      else List.find (\<lambda>r. fact_key r = i) table)" for i
    by (rule find_update_where) auto
  obtain s where s: "List.find ?P table = Some s" "?P s"
    using True by (metis (mono_tags, lifting) find_None_iff find_SomeD not_None_eq)
  have "fact_of ?t = absorb f (fact_of table)"
    using s by (auto simp: fun_eq_iff fact_of_def absorb_def find on_duplicate_fact)
  moreover have "upsert_row now f table = Inr ?t" using True assms(2) chk by (auto simp: upsert_row_def)
  moreover have "wf_facts ?t" using assms(1) keys chk by (simp add: wf_facts_def)
  ultimately show ?thesis using that by blast
next
  case False
  let ?t = "table @ [\<lparr>st_fact = f, st_createdAt = now, st_updatedAt = now\<rparr>]"
  have none: "List.find (\<lambda>r. fact_key r = sf_bookingPublicId f) table = None" using False by (auto simp: find_None_iff)
  have app: "List.find P (xs @ [x]) = (case List.find P xs of None \<Rightarrow> if P x then Some x else None | Some y \<Rightarrow> Some y)"
    for P and xs :: "booking_stats_fact list" and x
    by (induction xs) auto
  have "fact_of ?t = absorb f (fact_of table)"
    using none by (auto simp: fun_eq_iff fact_of_def absorb_def app fact_key_def split: option.splits)
  moreover have "upsert_row now f table = Inr ?t" using False assms(2) by (auto simp: upsert_row_def)
  moreover have "wf_facts ?t" using assms False by (auto simp: wf_facts_def fact_key_def)
  ultimately show ?thesis using that by blast
qed

lemma upsert_statement_ok:
  assumes "wf_facts table" "\<forall>f \<in> set rows. chk_booking_stats_facts f"
  shows "\<exists>table'. upsert_statement now rows table = Inr table' \<and> wf_facts table'
    \<and> fact_of table' = fold absorb rows (fact_of table)"
  using assms
proof (induction rows arbitrary: table)
  case (Cons f rows)
  obtain table' where t: "upsert_row now f table = Inr table'" "wf_facts table'" "fact_of table' = absorb f (fact_of table)"
    by (rule upsert_row_ok [of table f now]) (use Cons.prems in auto)
  then show ?case using Cons.IH [OF t(2)] Cons.prems by simp
qed simp

lemma upsert_from_ok:
  assumes "wf_facts table" "\<forall>f \<in> set rows. chk_booking_stats_facts f"
  shows "\<exists>table'. upsert_from clock rows start table = Inr table' \<and> wf_facts table'
    \<and> fact_of table' = fold absorb (drop start rows) (fact_of table)"
  using assms
proof (induction clock rows start table rule: upsert_from.induct)
  case (1 clock rows start table)
  show ?case
  proof (cases "start < length rows")
    case True
    let ?chunk = "take bookingStatsUpsertChunkSize (drop start rows)"
    have "\<forall>f \<in> set ?chunk. chk_booking_stats_facts f" using 1(3) by (meson in_set_dropD in_set_takeD)
    then obtain table' where t: "upsert_statement (clock start) ?chunk table = Inr table'" "wf_facts table'"
      "fact_of table' = fold absorb ?chunk (fact_of table)"
      using upsert_statement_ok [OF 1(2)] by blast
    have "drop start rows = ?chunk @ drop (start + bookingStatsUpsertChunkSize) rows"
      by (metis add.commute append_take_drop_id drop_drop)
    then have "fold absorb (drop start rows) m = fold absorb (drop (start + bookingStatsUpsertChunkSize) rows) (fold absorb ?chunk m)" for m
      by (metis fold_append comp_apply)
    then show ?thesis
      using 1(1) [OF True t(2) 1(3)] True t by (simp add: upsert_from.simps [of clock rows start table])
  qed (use 1 in \<open>simp add: upsert_from.simps\<close>)
qed

subsection \<open>A batch against its reference\<close>

text \<open>
  The reference: every message of the batch absorbed one by one, in the order of the offsets, with no
  deduplication, no sort and no chunks.
\<close>

definition absorb_messages ::
  "(string \<Rightarrow> bool) \<Rightarrow> (string \<Rightarrow> bool) \<Rightarrow> ReceivedStatsMessage list \<Rightarrow> (string \<Rightarrow> BookingStatsFactRow option)
   \<Rightarrow> string \<Rightarrow> BookingStatsFactRow option" where
  "absorb_messages isUUID iso4217 messages = fold absorb (List.map_filter (toFact isUUID iso4217) messages)"

lemma newer_assoc: "newer f (newer g h) = newer (newer f g) h"
  by (auto simp: newer_def)

lemma absorb_other: "sf_bookingPublicId f \<noteq> i \<Longrightarrow> absorb f m i = m i"
  by (simp add: absorb_def)

lemma absorb_commute:
  assumes "sf_bookingPublicId f \<noteq> sf_bookingPublicId g"
  shows "absorb f (absorb g m) = absorb g (absorb f m)"
  using assms by (auto simp: absorb_def fun_eq_iff)

lemma absorb_absorb:
  assumes "sf_bookingPublicId f = sf_bookingPublicId g"
  shows "absorb f (absorb g m) = absorb (newer f g) m"
  using assms by (auto simp: absorb_def fun_eq_iff newer_key newer_assoc split: option.splits)

lemma fold_absorb_commute:
  assumes "\<forall>g \<in> set gs. sf_bookingPublicId f \<noteq> sf_bookingPublicId g"
  shows "fold absorb gs (absorb f m) = absorb f (fold absorb gs m)"
  using assms
proof (induction gs arbitrary: m)
  case (Cons g gs)
  then have "absorb g (absorb f m) = absorb f (absorb g m)" by (intro absorb_commute) auto
  then show ?case using Cons by simp
qed simp

lemma find_key_split:
  assumes "List.find (\<lambda>k. sf_bookingPublicId k = i) newest = Some g" "distinct (map sf_bookingPublicId newest)"
  obtains xs ys where "newest = xs @ g # ys" "sf_bookingPublicId g = i"
    "\<forall>h \<in> set xs \<union> set ys. sf_bookingPublicId h \<noteq> i"
proof -
  have g: "g \<in> set newest" "sf_bookingPublicId g = i" using find_SomeD [OF assms(1)] by auto
  then obtain xs ys where n: "newest = xs @ g # ys" by (meson split_list)
  have "i \<notin> sf_bookingPublicId ` (set xs \<union> set ys)" using assms(2) g(2) by (auto simp: n)
  then have "\<forall>h \<in> set xs \<union> set ys. sf_bookingPublicId h \<noteq> i" by blast
  then show ?thesis using that n g(2) by blast
qed

lemma keep_newest_absorb:
  assumes "distinct (map sf_bookingPublicId newest)"
  shows "distinct (map sf_bookingPublicId (keep_newest f newest)) \<and> set (keep_newest f newest) \<subseteq> insert f (set newest)
    \<and> fold absorb (keep_newest f newest) m = absorb f (fold absorb newest m)"
proof (cases "List.find (\<lambda>k. sf_bookingPublicId k = sf_bookingPublicId f) newest")
  case None
  then have fresh: "\<forall>k \<in> set newest. sf_bookingPublicId k \<noteq> sf_bookingPublicId f" by (auto simp: find_None_iff)
  then have "keep_newest f newest = newest @ [f]" using None by (auto simp: keep_newest_def map_set_def)
  moreover have "sf_bookingPublicId f \<notin> sf_bookingPublicId ` set newest" using fresh by force
  ultimately show ?thesis using assms by simp
next
  case (Some g)
  then obtain xs ys where n: "newest = xs @ g # ys" "sf_bookingPublicId g = sf_bookingPublicId f"
    and rest: "\<forall>h \<in> set xs \<union> set ys. sf_bookingPublicId h \<noteq> sf_bookingPublicId f"
    using assms by (rule find_key_split)
  have keep: "keep_newest f newest = xs @ newer f g # ys"
  proof (cases "sf_bookingVersion f > sf_bookingVersion g")
    case True
    have "update_where (\<lambda>k. sf_bookingPublicId k = sf_bookingPublicId f) (\<lambda>_. f) zs = zs"
      if "set zs \<subseteq> set xs \<union> set ys" for zs
      using that rest by (intro update_where_id) blast
    then have "map_set f newest = xs @ f # ys"
      using n by (auto simp: map_set_def update_where_def)
    then show ?thesis using True Some by (simp add: keep_newest_def newer_def)
  next
    case False
    then show ?thesis using Some n by (simp add: keep_newest_def newer_def)
  qed
  have key: "sf_bookingPublicId (newer f g) = sf_bookingPublicId g" by (rule newer_key) (simp add: n)
  have apart: "fold absorb ys (absorb h m') = absorb h (fold absorb ys m')"
    if "sf_bookingPublicId h = sf_bookingPublicId f" for h m'
    using rest that by (intro fold_absorb_commute) auto
  have "fold absorb newest m = absorb g (fold absorb (xs @ ys) m)"
    using n by (simp add: apart)
  moreover have "fold absorb (keep_newest f newest) m = absorb (newer f g) (fold absorb (xs @ ys) m)"
    unfolding keep using n key by (simp add: apart)
  ultimately have "fold absorb (keep_newest f newest) m = absorb f (fold absorb newest m)"
    using n(2) by (simp add: absorb_absorb)
  moreover have "distinct (map sf_bookingPublicId (keep_newest f newest))" using assms n key unfolding keep by simp
  moreover have "set (keep_newest f newest) \<subseteq> insert f (set newest)" using n unfolding keep by (auto simp: newer_def)
  ultimately show ?thesis by blast
qed

lemma collect_facts_absorb:
  assumes "distinct (map sf_bookingPublicId newest)" "collect_facts isUUID iso4217 messages (newest, skipped) = (rows, n)"
  shows "distinct (map sf_bookingPublicId rows)
    \<and> set rows \<subseteq> set newest \<union> set (List.map_filter (toFact isUUID iso4217) messages)
    \<and> fold absorb rows m = absorb_messages isUUID iso4217 messages (fold absorb newest m)
    \<and> n + length (List.map_filter (toFact isUUID iso4217) messages) = skipped + length messages"
  using assms
proof (induction messages arbitrary: newest skipped)
  case (Cons message messages)
  show ?case
  proof (cases "toFact isUUID iso4217 message")
    case None
    then show ?thesis using Cons.IH [of newest "skipped + 1"] Cons.prems by (simp add: absorb_messages_def map_filter_simps)
  next
    case (Some f)
    note k = keep_newest_absorb [OF Cons.prems(1), of f m]
    have c: "collect_facts isUUID iso4217 messages (keep_newest f newest, skipped) = (rows, n)"
      using Cons.prems(2) Some by simp
    show ?thesis
      using Cons.IH [OF _ c] k Some by (auto simp: absorb_messages_def map_filter_simps)
  qed
qed (auto simp: absorb_messages_def map_filter_simps)

text \<open>The order of the rows does not matter, since their bookings are distinct.\<close>

lemma fold_absorb_perm:
  assumes "distinct (map sf_bookingPublicId xs)" "mset xs = mset ys"
  shows "fold absorb xs m = fold absorb ys m"
  using assms
proof (induction xs arbitrary: ys m)
  case (Cons f xs)
  have "f \<in> set ys" using Cons.prems(2) by (metis list.set_intros(1) mset_eq_setD)
  then obtain us vs where ys: "ys = us @ f # vs" by (meson split_list)
  then have eq: "mset xs = mset (us @ vs)" using Cons.prems(2) by simp
  have "\<forall>g \<in> set (us @ vs). sf_bookingPublicId f \<noteq> sf_bookingPublicId g"
    using Cons.prems(1) eq [THEN mset_eq_setD] by fastforce
  then have "fold absorb ys m = fold absorb (us @ vs) (absorb f m)"
    by (simp add: ys fold_absorb_commute)
  then show ?case using Cons.IH [OF _ eq] Cons.prems(1) by simp
qed simp

lemma toFact_chk: "toFact isUUID iso4217 message = Some f \<Longrightarrow> chk_booking_stats_facts f"
proof -
  assume "toFact isUUID iso4217 message = Some f"
  then obtain event where e: "parseBookingLifecycleMessage isUUID iso4217 (rm_value message) = Inr event" "f = toBookingStatsFact event"
    by (auto simp: toFact_def split: sum.splits)
  from e(1) have "\<exists>j. parseBookingLifecyclePayload iso4217 j = Inr (re_payload event)"
    unfolding parseBookingLifecycleMessage_def
    by (auto simp: step_simps split: option.splits json.splits if_splits)
  then have "valid_payload iso4217 (re_payload event)" using parse_payload_valid by blast
  then show ?thesis
    by (auto simp: e(2) toBookingStatsFact_def chk_booking_stats_facts_def valid_payload_def valid_stay_def isSafeInteger_def Let_def)
qed

lemma map_filter_chk: "f \<in> set (List.map_filter (toFact isUUID iso4217) messages) \<Longrightarrow> chk_booking_stats_facts f"
  by (auto simp: map_filter_def dest: toFact_chk)

lemma applyBatch_ok:
  assumes "wf_facts table" "be_unavailable env = None"
  shows "\<exists>result table'. applyBatch isUUID iso4217 env messages table = Inr (result, table') \<and> wf_facts table'
    \<and> fact_of table' = absorb_messages isUUID iso4217 messages (fact_of table)
    \<and> br_received result = length messages
    \<and> br_skipped result + length (List.map_filter (toFact isUUID iso4217) messages) = length messages"
proof -
  obtain newest skipped where c: "collect_facts isUUID iso4217 messages ([], 0) = (newest, skipped)" by fastforce
  let ?rows = "sort_key (\<lambda>row. be_localeKey env (sf_bookingPublicId row)) newest"
  have n: "distinct (map sf_bookingPublicId newest)" "set newest \<subseteq> set (List.map_filter (toFact isUUID iso4217) messages)"
    "fold absorb newest (fact_of table) = absorb_messages isUUID iso4217 messages (fact_of table)"
    "skipped + length (List.map_filter (toFact isUUID iso4217) messages) = length messages"
    using collect_facts_absorb [OF _ c, of "fact_of table"] by auto
  have sorted: "fold absorb ?rows (fact_of table) = fold absorb newest (fact_of table)"
    by (rule fold_absorb_perm [symmetric]) (use n in auto)
  have "\<forall>f \<in> set ?rows. chk_booking_stats_facts f" using n(2) map_filter_chk by (auto simp: subset_iff)
  then obtain table' where t: "upsert_from (be_clock env) ?rows 0 table = Inr table'" "wf_facts table'"
    "fact_of table' = fold absorb ?rows (fact_of table)"
    using upsert_from_ok [OF assms(1), of ?rows "be_clock env" 0] by auto
  have "(if ?rows = [] then Inr table else upsert (be_clock env) ?rows table) = Inr table'"
    using t(1) by (cases "?rows = []") (simp_all add: upsert_def upsert_from.simps)
  then show ?thesis
    using assms(2) t n(3,4) sorted unfolding applyBatch_def c
    by (cases "?rows = []") (simp_all add: Let_def)
qed

lemma applyBatch_unavailable:
  assumes "wf_facts table" "applyBatch isUUID iso4217 env messages table = Inr (result, table')"
  shows "wf_facts table' \<and> fact_of table' = absorb_messages isUUID iso4217 messages (fact_of table)"
proof (cases "be_unavailable env")
  case None
  then show ?thesis using applyBatch_ok [OF assms(1) None, of isUUID iso4217 messages] assms(2) by auto
next
  case (Some e)
  obtain newest skipped where c: "collect_facts isUUID iso4217 messages ([], 0) = (newest, skipped)" by fastforce
  have empty: "sort_key g newest = [] \<longleftrightarrow> newest = []" for g :: "BookingStatsFactRow \<Rightarrow> string"
    by (metis length_0_conv length_sort)
  have "newest = []" "table' = table"
    using assms(2) Some by (auto simp: applyBatch_def c Let_def empty split: if_splits)
  moreover have "fold absorb newest (fact_of table) = absorb_messages isUUID iso4217 messages (fact_of table)"
    using collect_facts_absorb [OF _ c, of "fact_of table"] by auto
  ultimately show ?thesis using assms(1) by simp
qed

end
