(* ===== verification/Stats_System.thy ===== *)
theory Stats_System
  imports Booking_Stats Relay_System
begin

text \<open>
  The consumer of the booking topic among everything that may happen to it: messages are appended to the
  partitions and old ones expire, members join, restart and leave, a batch is fetched from the position of
  the client and may fail at any of its statements, a member that lost its partition finishes a batch that
  its successor handles too, and rebuild commands run statement by statement, any number of them, with anything
  in between, failing or killed anywhere. Two notes are kept beside the program's state: whether a member joined
  while a rebuild was under way, and for every rebuild whether a member left during it. The
  invariant gives that the facts are the newest of what was committed, unless a member joined during a rebuild.
\<close>

subsection \<open>The system\<close>

record rebuild_run =
  rn_phase :: rebuild_phase
  rn_left :: bool

text \<open>A rebuild is under way once it has been told that there is no member.\<close>

definition under_way :: "rebuild_run \<Rightarrow> bool" where
  "under_way r \<longleftrightarrow> rn_phase r \<noteq> Connecting \<and> rn_phase r \<noteq> AskingMembers"

record stats_world =
  sw_log :: "nat \<Rightarrow> json option list"
  sw_earliest :: "nat \<Rightarrow> nat"
  sw_consumer :: stats_state
  sw_active :: bool
  sw_rebuilds :: "rebuild_run list"
  sw_overlap :: bool

definition value_fact :: "(string \<Rightarrow> bool) \<Rightarrow> (string \<Rightarrow> bool) \<Rightarrow> json option \<Rightarrow> BookingStatsFactRow option" where
  "value_fact isUUID iso4217 v = toFact isUUID iso4217 \<lparr>rm_partition = 0, rm_offset = 0, rm_value = v\<rparr>"

text \<open>At most \<open>n\<close> messages of a partition from an offset on, with their offsets.\<close>

definition slice :: "json option list \<Rightarrow> nat \<Rightarrow> nat \<Rightarrow> (nat \<times> json option) list" where
  "slice messages start n = map (\<lambda>offset. (offset, messages ! offset)) [start..<min (start + n) (length messages)]"

definition start_position :: "stats_world \<Rightarrow> nat \<Rightarrow> nat" where
  "start_position w p = max (ss_committed (sw_consumer w) p) (sw_earliest w p)"

text \<open>
  The world after a statement of a rebuild. One that succeeds, and during which no member left, puts an end to an
  overlap: were a member of those that joined still there, the second question would have found it.
\<close>

definition rebuild_after :: "rebuild_run \<Rightarrow> error + rebuild_progress \<Rightarrow> stats_world \<Rightarrow> stats_world" where
  "rebuild_after r result w =
     (let others = remove1 r (sw_rebuilds w) in
      case result of
        Inl e \<Rightarrow> w\<lparr>sw_rebuilds := others\<rparr>
      | Inr (Proceeding phase) \<Rightarrow> w\<lparr>sw_rebuilds := others @ [\<lparr>rn_phase = phase, rn_left = (rn_left r \<and> under_way r)\<rparr>]\<rparr>
      | Inr (Rebuilt n) \<Rightarrow> w\<lparr>sw_rebuilds := others, sw_overlap := sw_overlap w \<and> rn_left r\<rparr>)"

inductive stats_step :: "(string \<Rightarrow> bool) \<Rightarrow> (string \<Rightarrow> bool) \<Rightarrow> stats_world \<Rightarrow> stats_world \<Rightarrow> bool"
  for isUUID iso4217 where
  appended: "stats_step isUUID iso4217 w (w\<lparr>sw_log := (sw_log w)(p := sw_log w p @ [v])\<rparr>)"
| expired: "sw_earliest w p \<le> n \<Longrightarrow> n \<le> length (sw_log w p) \<Longrightarrow>
    stats_step isUUID iso4217 w (w\<lparr>sw_earliest := (sw_earliest w)(p := n)\<rparr>)"
| joined: "stats_step isUUID iso4217 w
    (w\<lparr>sw_active := True, sw_consumer := (sw_consumer w)\<lparr>ss_position := start_position w\<rparr>,
       sw_overlap := sw_overlap w \<or> (\<exists>r \<in> set (sw_rebuilds w). under_way r)\<rparr>)"
| left_group: "stats_step isUUID iso4217 w
    (w\<lparr>sw_active := False, sw_rebuilds := map (\<lambda>r. r\<lparr>rn_left := rn_left r \<or> sw_active w\<rparr>) (sw_rebuilds w)\<rparr>)"
| fetched: "sw_active w \<Longrightarrow> fb_partition payload = p \<Longrightarrow>
    fb_messages payload = slice (sw_log w p) (max (ss_position (sw_consumer w) p) (sw_earliest w p)) n \<Longrightarrow>
    consumeBookingStatsBatch isUUID iso4217 env payload (sw_consumer w) = (answer, st) \<Longrightarrow>
    stats_step isUUID iso4217 w (w\<lparr>sw_consumer := st\<rparr>)"
| redelivered: "rm_value ` set messages \<subseteq> (\<Union>p. set (sw_log w p)) \<Longrightarrow>
    applyBatch isUUID iso4217 env messages (ss_facts (sw_consumer w)) = Inr (result, table) \<Longrightarrow>
    stats_step isUUID iso4217 w (w\<lparr>sw_consumer := (sw_consumer w)\<lparr>ss_facts := table\<rparr>\<rparr>)"
| rebuild_started: "stats_step isUUID iso4217 w
    (w\<lparr>sw_rebuilds := sw_rebuilds w @ [\<lparr>rn_phase = Connecting, rn_left = False\<rparr>]\<rparr>)"
| rebuild_moved: "r \<in> set (sw_rebuilds w) \<Longrightarrow> (\<And>b. rb_active answers = Inr b \<Longrightarrow> b = sw_active w) \<Longrightarrow>
    rb_earliest answers = sw_earliest w \<Longrightarrow> rebuild_statement answers (rn_phase r) (sw_consumer w) = (result, st) \<Longrightarrow>
    stats_step isUUID iso4217 w (rebuild_after r result (w\<lparr>sw_consumer := st\<rparr>))"
| rebuild_killed: "stats_step isUUID iso4217 w (w\<lparr>sw_rebuilds := remove1 r (sw_rebuilds w)\<rparr>)"

definition stats_init :: stats_world where
  "stats_init = \<lparr>sw_log = (\<lambda>_. []), sw_earliest = (\<lambda>_. 0),
     sw_consumer = \<lparr>ss_facts = [], ss_position = (\<lambda>_. 0), ss_committed = (\<lambda>_. 0)\<rparr>, sw_active = False,
     sw_rebuilds = [], sw_overlap = False\<rparr>"

definition stats_reachable :: "(string \<Rightarrow> bool) \<Rightarrow> (string \<Rightarrow> bool) \<Rightarrow> stats_world \<Rightarrow> bool" where
  "stats_reachable isUUID iso4217 w \<longleftrightarrow> (stats_step isUUID iso4217)\<^sup>*\<^sup>* stats_init w"

subsection \<open>What absorbing does\<close>

text \<open>A stored fact only gives way to a newer one, and everything absorbed is stored or older than what is.\<close>

definition covers :: "(string \<Rightarrow> BookingStatsFactRow option) \<Rightarrow> BookingStatsFactRow \<Rightarrow> bool" where
  "covers m f \<longleftrightarrow> (\<exists>g. m (sf_bookingPublicId f) = Some g \<and> sf_bookingVersion f \<le> sf_bookingVersion g)"

lemma absorb_covers_old: "covers m g \<Longrightarrow> covers (absorb f m) g"
  by (auto simp: covers_def absorb_def newer_def)

lemma absorb_covers_new: "covers (absorb f m) f"
  by (auto simp: covers_def absorb_def newer_def split: option.splits)

lemma fold_absorb_covers_old: "covers m g \<Longrightarrow> covers (fold absorb fs m) g"
  by (induction fs arbitrary: m) (auto intro: absorb_covers_old)

lemma fold_absorb_covers_new: "f \<in> set fs \<Longrightarrow> covers (fold absorb fs m) f"
  by (induction fs arbitrary: m) (auto intro: absorb_covers_new fold_absorb_covers_old)

definition keyed :: "(string \<Rightarrow> BookingStatsFactRow option) \<Rightarrow> bool" where
  "keyed m \<longleftrightarrow> (\<forall>i g. m i = Some g \<longrightarrow> sf_bookingPublicId g = i)"

lemma fact_of_keyed: "keyed (fact_of table)"
  by (auto simp: keyed_def fact_of_def fact_key_def dest: find_SomeD)

lemma absorb_keyed: "keyed m \<Longrightarrow> keyed (absorb f m)"
  by (auto simp: keyed_def absorb_def newer_def split: option.splits)

lemma fold_absorb_origin: "fold absorb fs m i = Some g \<Longrightarrow> m i = Some g \<or> g \<in> set fs"
proof (induction fs arbitrary: m)
  case (Cons f fs)
  then have "absorb f m i = Some g \<or> g \<in> set fs" by simp
  then show ?case by (auto simp: absorb_def newer_def split: if_splits option.splits)
qed simp

lemma toFact_value: "toFact isUUID iso4217 message = value_fact isUUID iso4217 (rm_value message)"
  by (simp add: toFact_def value_fact_def)

lemma absorb_messages_value:
  "absorb_messages isUUID iso4217 messages = fold absorb (List.map_filter (value_fact isUUID iso4217) (map rm_value messages))"
  unfolding absorb_messages_def by (simp add: map_filter_def toFact_value filter_map comp_def)

subsection \<open>The invariant\<close>

definition applied_below :: "stats_world \<Rightarrow> nat \<Rightarrow> nat" where
  "applied_below w p =
     (if sw_active w then max (ss_position (sw_consumer w) p) (ss_committed (sw_consumer w) p) else ss_committed (sw_consumer w) p)"

definition facts_of :: "stats_world \<Rightarrow> string \<Rightarrow> BookingStatsFactRow option" where
  "facts_of w = fact_of (ss_facts (sw_consumer w))"

definition topic_facts :: "(string \<Rightarrow> bool) \<Rightarrow> (string \<Rightarrow> bool) \<Rightarrow> stats_world \<Rightarrow> BookingStatsFactRow set" where
  "topic_facts isUUID iso4217 w = {f. \<exists>p. \<exists>v \<in> set (sw_log w p). value_fact isUUID iso4217 v = Some f}"

text \<open>Every message below what is applied is in the facts, itself or by a newer one.\<close>

definition caught_up :: "(string \<Rightarrow> bool) \<Rightarrow> (string \<Rightarrow> bool) \<Rightarrow> stats_world \<Rightarrow> bool" where
  "caught_up isUUID iso4217 w \<longleftrightarrow>
     (\<forall>p offset f. sw_earliest w p \<le> offset \<and> offset < applied_below w p
        \<and> value_fact isUUID iso4217 (sw_log w p ! offset) = Some f \<longrightarrow> covers (facts_of w) f)"

text \<open>A rebuild that has rewound the group has nothing to lose, unless a member joined or left in the meantime.\<close>

definition at_start :: "stats_world \<Rightarrow> bool" where
  "at_start w \<longleftrightarrow> (\<forall>p. ss_committed (sw_consumer w) p \<le> sw_earliest w p)"

definition rewound :: "rebuild_run \<Rightarrow> bool" where
  "rewound r \<longleftrightarrow> (case rn_phase r of Deleting n \<Rightarrow> True | AskingAgain n \<Rightarrow> True | _ \<Rightarrow> False)"

definition rebuild_ok :: "stats_world \<Rightarrow> rebuild_run \<Rightarrow> bool" where
  "rebuild_ok w r \<longleftrightarrow>
     (rewound r \<and> \<not> rn_left r \<and> \<not> sw_active w \<longrightarrow> at_start w)
     \<and> (\<not> sw_overlap w \<and> under_way r \<longrightarrow> \<not> sw_active w \<and> (rewound r \<longrightarrow> at_start w))"

definition stats_inv :: "(string \<Rightarrow> bool) \<Rightarrow> (string \<Rightarrow> bool) \<Rightarrow> stats_world \<Rightarrow> bool" where
  "stats_inv isUUID iso4217 w \<longleftrightarrow>
     wf_facts (ss_facts (sw_consumer w))
     \<and> (\<forall>i g. facts_of w i = Some g \<longrightarrow> g \<in> topic_facts isUUID iso4217 w)
     \<and> (\<forall>p. applied_below w p \<le> length (sw_log w p) \<and> sw_earliest w p \<le> length (sw_log w p))
     \<and> (\<not> sw_overlap w \<longrightarrow> caught_up isUUID iso4217 w)
     \<and> (\<forall>r \<in> set (sw_rebuilds w). rebuild_ok w r)"

lemma stats_invD:
  assumes "stats_inv isUUID iso4217 w"
  shows "wf_facts (ss_facts (sw_consumer w))"
    and "facts_of w i = Some g \<Longrightarrow> g \<in> topic_facts isUUID iso4217 w"
    and "applied_below w p \<le> length (sw_log w p)" "sw_earliest w p \<le> length (sw_log w p)"
    and "\<not> sw_overlap w \<Longrightarrow> caught_up isUUID iso4217 w"
    and "r \<in> set (sw_rebuilds w) \<Longrightarrow> rebuild_ok w r"
  using assms unfolding stats_inv_def by blast+

lemma stats_invI:
  assumes "wf_facts (ss_facts (sw_consumer w))" "\<And>i g. facts_of w i = Some g \<Longrightarrow> g \<in> topic_facts isUUID iso4217 w"
    and "\<And>p. applied_below w p \<le> length (sw_log w p)" "\<And>p. sw_earliest w p \<le> length (sw_log w p)"
    and "\<not> sw_overlap w \<Longrightarrow> caught_up isUUID iso4217 w" "\<And>r. r \<in> set (sw_rebuilds w) \<Longrightarrow> rebuild_ok w r"
  shows "stats_inv isUUID iso4217 w"
  unfolding stats_inv_def using assms by blast

lemma caught_upD:
  "caught_up isUUID iso4217 w \<Longrightarrow> sw_earliest w p \<le> offset \<Longrightarrow> offset < applied_below w p \<Longrightarrow>
    value_fact isUUID iso4217 (sw_log w p ! offset) = Some f \<Longrightarrow> covers (facts_of w) f"
  unfolding caught_up_def by blast

lemma caught_up_at_start: "at_start w \<Longrightarrow> \<not> sw_active w \<Longrightarrow> caught_up isUUID iso4217 w"
  by (auto simp: caught_up_def at_start_def applied_below_def dest: order.strict_trans2)

text \<open>Absorbing messages of the topic keeps the invariant, up to the offsets that are applied with it.\<close>

lemma inv_absorbed:
  assumes inv: "stats_inv isUUID iso4217 w"
    and batch: "applyBatch isUUID iso4217 env messages (ss_facts (sw_consumer w)) = Inr (result, table)"
    and sent: "rm_value ` set messages \<subseteq> (\<Union>p. set (sw_log w p))"
    and w': "ss_facts (sw_consumer w') = table" "sw_log w' = sw_log w" "sw_earliest w' = sw_earliest w" "sw_overlap w' = sw_overlap w"
    and bound: "\<And>p. applied_below w' p \<le> length (sw_log w p)"
    and fresh: "\<And>p offset. sw_earliest w p \<le> offset \<Longrightarrow> offset < applied_below w' p \<Longrightarrow>
      offset < applied_below w p \<or> sw_log w p ! offset \<in> rm_value ` set messages"
    and rebuilds: "\<And>r. r \<in> set (sw_rebuilds w') \<Longrightarrow> rebuild_ok w' r"
  shows "stats_inv isUUID iso4217 w'"
proof -
  let ?fs = "List.map_filter (value_fact isUUID iso4217) (map rm_value messages)"
  have t: "wf_facts table" "fact_of table = fold absorb ?fs (facts_of w)"
    using applyBatch_unavailable [OF stats_invD(1) [OF inv] batch] by (simp_all add: facts_of_def absorb_messages_value)
  have fs: "f \<in> set ?fs \<longleftrightarrow> (\<exists>v \<in> rm_value ` set messages. value_fact isUUID iso4217 v = Some f)" for f
    by (auto simp: map_filter_def) force
  have topic: "topic_facts isUUID iso4217 w' = topic_facts isUUID iso4217 w" by (simp add: topic_facts_def w')
  have facts: "facts_of w' = fold absorb ?fs (facts_of w)" by (simp add: facts_of_def w' t(2) [unfolded facts_of_def])
  have origin: "g \<in> topic_facts isUUID iso4217 w" if "fold absorb ?fs (facts_of w) i = Some g" for i g
    using fold_absorb_origin [OF that] stats_invD(2) [OF inv] fs sent unfolding topic_facts_def by blast
  have covered: "caught_up isUUID iso4217 w'" if "\<not> sw_overlap w"
  proof -
    have "covers (fold absorb ?fs (facts_of w)) f"
      if "sw_earliest w p \<le> offset" "offset < applied_below w' p" "value_fact isUUID iso4217 (sw_log w p ! offset) = Some f" for p offset f
      using fresh [OF that(1,2)] caught_upD [OF stats_invD(5) [OF inv \<open>\<not> sw_overlap w\<close>] that(1) _ that(3)]
        fold_absorb_covers_old fold_absorb_covers_new fs that(3) by blast
    then show ?thesis unfolding caught_up_def facts w' by blast
  qed
  show ?thesis
    by (rule stats_invI) (use t(1) origin covered bound stats_invD(4) [OF inv] rebuilds in \<open>simp_all add: w' topic facts\<close>)
qed

lemma slice_props:
  assumes "slice messages start n \<noteq> []"
  shows "fst (last (slice messages start n)) + 1 = min (start + n) (length messages)"
    and "start \<le> offset \<Longrightarrow> offset < min (start + n) (length messages) \<Longrightarrow> messages ! offset \<in> snd ` set (slice messages start n)"
    and "snd ` set (slice messages start n) \<subseteq> set messages"
proof -
  let ?stop = "min (start + n) (length messages)"
  have lt: "start < ?stop" using assms by (auto simp: slice_def not_le)
  then have ne: "[start..<?stop] \<noteq> []" and lst: "last [start..<?stop] = ?stop - 1" "0 < ?stop"
    using last_upt [of start ?stop] by auto
  show "fst (last (slice messages start n)) + 1 = ?stop"
    unfolding slice_def last_map [OF ne] lst(1) using lst(2) by simp
  show "start \<le> offset \<Longrightarrow> offset < ?stop \<Longrightarrow> messages ! offset \<in> snd ` set (slice messages start n)"
    by (force simp: slice_def)
  show "snd ` set (slice messages start n) \<subseteq> set messages" by (auto simp: slice_def)
qed

text \<open>What a batch that is not refused outright does to the state.\<close>

lemma consume_cases:
  assumes "consumeBookingStatsBatch isUUID iso4217 env payload st = (answer, st')"
  obtains "st' = st"
  | result table offset where "fb_messages payload \<noteq> []"
    "applyBatch isUUID iso4217 env
       (map (\<lambda>(offset, v). \<lparr>rm_partition = fb_partition payload, rm_offset = offset, rm_value = v\<rparr>) (fb_messages payload))
       (ss_facts st) = Inr (result, table)"
    "offset = fst (last (fb_messages payload)) + 1" "ss_facts st' = table"
    "ss_position st' = (ss_position st)(fb_partition payload := offset)"
    "ss_committed st' = ss_committed st \<or> ss_committed st' = (ss_committed st)(fb_partition payload := offset)"
  using assms unfolding consumeBookingStatsBatch_def
  by (auto simp: Let_def split: if_splits sum.splits option.splits)

lemma fetched_inv:
  assumes inv: "stats_inv isUUID iso4217 w" and active: "sw_active w" and p: "fb_partition payload = p"
    and messages: "fb_messages payload = slice (sw_log w p) (max (ss_position (sw_consumer w) p) (sw_earliest w p)) n"
    and consumed: "consumeBookingStatsBatch isUUID iso4217 env payload (sw_consumer w) = (answer, st)"
  shows "stats_inv isUUID iso4217 (w\<lparr>sw_consumer := st\<rparr>)"
  using consumed
proof (cases rule: consume_cases)
  case 1
  then show ?thesis using inv by simp
next
  case (2 result table offset)
  let ?start = "max (ss_position (sw_consumer w) p) (sw_earliest w p)"
  let ?stop = "min (?start + n) (length (sw_log w p))"
  note s = slice_props [of "sw_log w p" ?start n, folded messages, OF 2(1)]
  have sent: "rm_value ` set (map (\<lambda>(offset, v). \<lparr>rm_partition = fb_partition payload, rm_offset = offset, rm_value = v\<rparr>) (fb_messages payload))
      = snd ` set (fb_messages payload)"
    by (force simp: image_iff)
  have offset: "offset = ?stop" using 2(3) s(1) by simp
  let ?w = "w\<lparr>sw_consumer := st\<rparr>"
  have start: "ss_position (sw_consumer w) p \<le> applied_below w p" using active by (simp add: applied_below_def)
  have below: "applied_below ?w q \<le> (if q = p then max ?stop (applied_below w p) else applied_below w q)" for q
    using 2(5,6) active offset p by (auto simp: applied_below_def)
  show ?thesis
  proof (rule inv_absorbed [OF inv 2(2)])
    show "applied_below ?w q \<le> length (sw_log w q)" for q
      using below [of q] stats_invD(3) [OF inv, of q] by (auto split: if_splits)
    show "offset' < applied_below w q \<or> sw_log w q ! offset' \<in> rm_value ` set (map (\<lambda>(offset, v).
        \<lparr>rm_partition = fb_partition payload, rm_offset = offset, rm_value = v\<rparr>) (fb_messages payload))"
      if "sw_earliest w q \<le> offset'" "offset' < applied_below ?w q" for q offset'
    proof (cases "offset' < applied_below w q")
      case False
      with that below [of q] have "q = p" "offset' < ?stop" by (auto split: if_splits)
      moreover have "?start \<le> offset'" using False start that(1) \<open>q = p\<close> by simp
      ultimately show ?thesis using s(2) [of offset'] sent by simp
    qed simp
    show "rebuild_ok ?w r" if "r \<in> set (sw_rebuilds ?w)" for r
      using stats_invD(6) [OF inv, of r] that active by (simp add: rebuild_ok_def)
  qed (use 2(4) s(3) sent in \<open>auto simp: subset_iff\<close>)
qed

subsection \<open>The rebuild\<close>

lemma delete_chunk_subset: "\<exists>P. delete_chunk table = filter P table"
  by (auto simp: delete_chunk_def delete_where_def)

text \<open>The statement that ends the deletes leaves the table empty.\<close>

lemma delete_chunk_all:
  assumes "length table - length (delete_chunk table) < bookingStatsRebuildDeleteBatchSize" "distinct (map fact_key table)"
  shows "delete_chunk table = []"
proof -
  let ?n = bookingStatsRebuildDeleteBatchSize
  let ?gone = "set (take ?n (sort_key fact_key table))"
  have d: "distinct table" "distinct (sort_key fact_key table)" using assms(2) by (simp_all add: distinct_map)
  have sub: "?gone \<subseteq> set table" by (metis set_sort set_take_subset)
  have "set (filter (\<lambda>s. s \<in> ?gone) table) = ?gone" using sub by auto
  then have "length (filter (\<lambda>s. s \<in> ?gone) table) = card ?gone"
    using distinct_card [OF distinct_filter [OF d(1)], of "\<lambda>s. s \<in> ?gone"] by simp
  also have "\<dots> = min (length table) ?n" using d(2) by (simp add: distinct_card distinct_take)
  finally have "length table - length (delete_chunk table) = min (length table) ?n"
    using sum_length_filter_compl [of "\<lambda>s. s \<in> ?gone" table] by (simp add: delete_chunk_def delete_where_def)
  then have "length table \<le> ?n" using assms(1) by simp
  then show ?thesis by (auto simp: delete_chunk_def delete_where_def)
qed

lemma deletes_end_empty:
  assumes "rebuild_statement answers (Deleting gone) st = (Inr (Proceeding (AskingAgain m)), st')" "wf_facts (ss_facts st)"
  shows "ss_facts st' = [] \<and> m = gone + length (ss_facts st)"
  using assms delete_chunk_all [of "ss_facts st"] by (auto simp: wf_facts_def Let_def split: option.splits if_splits)

text \<open>What a statement of the rebuild does to the table and to the offsets.\<close>

lemma statement_effect:
  assumes "rebuild_statement answers phase st = (result, st')"
  shows "(\<exists>P. ss_facts st' = filter P (ss_facts st)) \<and> ss_position st' = ss_position st
    \<and> (ss_committed st' = ss_committed st \<or> phase = Rewinding \<and> ss_committed st' = rb_earliest answers)
    \<and> ((\<forall>n. phase \<noteq> Deleting n) \<longrightarrow> ss_facts st' = ss_facts st)"
proof -
  have same: "\<exists>P. table = filter P table" for table :: "booking_stats_fact list" by (rule exI [of _ "\<lambda>_. True"]) simp
  show ?thesis
    using assms same delete_chunk_subset by (cases phase) (auto simp: Let_def split: option.splits if_splits)
qed

text \<open>Where a statement leads.\<close>

lemma statement_phase:
  assumes "rebuild_statement answers phase st = (Inr (Proceeding phase'), st')"
  shows "phase = Connecting \<and> phase' = AskingMembers
    \<or> phase = AskingMembers \<and> phase' = AskingTopic \<and> rb_active answers = Inr False
    \<or> phase = AskingTopic \<and> phase' = Rewinding
    \<or> phase = Rewinding \<and> phase' = Deleting 0 \<and> ss_committed st' = rb_earliest answers
    \<or> (\<exists>n m. phase = Deleting n \<and> (phase' = Deleting m \<or> phase' = AskingAgain m))"
  using assms by (cases phase) (auto simp: and_then_Inr_iff Let_def split: option.splits if_splits)

lemma statement_rebuilt:
  "rebuild_statement answers phase st = (Inr (Rebuilt n), st') \<Longrightarrow> phase = AskingAgain n \<and> rb_active answers = Inr False \<and> st' = st"
  by (cases phase) (auto simp: and_then_Inr_iff Let_def split: option.splits if_splits)

subsection \<open>Steps and reachable states\<close>

lemma find_filter_key:
  assumes "List.find (\<lambda>s. fact_key s = i) (filter P table) = Some s" "distinct (map fact_key table)"
  shows "List.find (\<lambda>s. fact_key s = i) table = Some s"
proof -
  have "s \<in> set table" "fact_key s = i" using find_SomeD [OF assms(1)] by auto
  then show ?thesis using find_unique [OF assms(2)] by auto
qed

text \<open>What deletes, rewinds and the loss of an overlap keep, whatever the rebuilds are.\<close>

lemma emptied_parts:
  assumes "stats_inv isUUID iso4217 w" "ss_facts st = filter P (ss_facts (sw_consumer w))"
  shows "wf_facts (ss_facts st)" "fact_of (ss_facts st) i = Some g \<Longrightarrow> g \<in> topic_facts isUUID iso4217 w"
proof -
  have wf: "wf_facts (ss_facts (sw_consumer w))" by (rule stats_invD(1) [OF assms(1)])
  then show "wf_facts (ss_facts st)" by (simp add: wf_facts_def assms(2) distinct_map_filter)
  assume "fact_of (ss_facts st) i = Some g"
  then obtain s where s: "List.find (\<lambda>s. fact_key s = i) (filter P (ss_facts (sw_consumer w))) = Some s" "g = st_fact s"
    unfolding fact_of_def assms(2) by blast
  have "distinct (map fact_key (ss_facts (sw_consumer w)))" using wf by (simp add: wf_facts_def)
  then have "facts_of w i = Some g" using find_filter_key [OF s(1)] s(2) by (simp add: facts_of_def fact_of_def)
  then show "g \<in> topic_facts isUUID iso4217 w" by (rule stats_invD(2) [OF assms(1)])
qed

lemma rebuild_after_simps [simp]:
  "sw_log (rebuild_after r result w) = sw_log w" "sw_earliest (rebuild_after r result w) = sw_earliest w"
  "sw_consumer (rebuild_after r result w) = sw_consumer w" "sw_active (rebuild_after r result w) = sw_active w"
  by (simp_all add: rebuild_after_def Let_def split: sum.split rebuild_progress.split)

lemma rebuild_after_overlap:
  "sw_overlap (rebuild_after r result w) \<longleftrightarrow> sw_overlap w \<and> (\<forall>n. result = Inr (Rebuilt n) \<longrightarrow> rn_left r)"
  by (simp add: rebuild_after_def Let_def split: sum.split rebuild_progress.split)

lemma in_rebuild_after:
  assumes "x \<in> set (sw_rebuilds (rebuild_after r result w))"
  shows "x \<in> set (sw_rebuilds w)
    \<or> (\<exists>phase. result = Inr (Proceeding phase) \<and> x = \<lparr>rn_phase = phase, rn_left = (rn_left r \<and> under_way r)\<rparr>)"
  using assms notin_set_remove1 by (auto simp: rebuild_after_def Let_def split: sum.splits rebuild_progress.splits) fastforce+

lemma rebuild_moved_inv:
  assumes inv: "stats_inv isUUID iso4217 w" and r: "r \<in> set (sw_rebuilds w)"
    and truth: "\<And>b. rb_active answers = Inr b \<Longrightarrow> b = sw_active w" and e: "rb_earliest answers = sw_earliest w"
    and run: "rebuild_statement answers (rn_phase r) (sw_consumer w) = (result, st)"
  shows "stats_inv isUUID iso4217 (rebuild_after r result (w\<lparr>sw_consumer := st\<rparr>))"
proof -
  let ?w = "rebuild_after r result (w\<lparr>sw_consumer := st\<rparr>)"
  note effect = statement_effect [OF run]
  have old: "rebuild_ok w x" if "x \<in> set (sw_rebuilds w)" for x by (rule stats_invD(6) [OF inv that])
  have keep: "at_start ?w" if "at_start w"
    using that effect e by (auto simp: at_start_def)
  have rewind: "at_start ?w" if "result = Inr (Proceeding (Deleting 0))" "rn_phase r = Rewinding"
    using statement_phase [of answers "rn_phase r" "sw_consumer w" "Deleting 0" st] run that e by (auto simp: at_start_def)
  have ended: "at_start w \<and> \<not> sw_active w" if "result = Inr (Rebuilt n)" "\<not> rn_left r" for n
    using statement_rebuilt [of answers "rn_phase r" "sw_consumer w" n st] run that truth old [OF r]
    by (auto simp: rebuild_ok_def rewound_def)
  obtain P where P: "ss_facts st = filter P (ss_facts (sw_consumer w))" using effect by blast
  have topic: "topic_facts isUUID iso4217 ?w = topic_facts isUUID iso4217 w" by (simp add: topic_facts_def)
  show ?thesis
  proof (rule stats_invI)
    show "wf_facts (ss_facts (sw_consumer ?w))" using emptied_parts(1) [OF inv P] by simp
    show "facts_of ?w i = Some g \<Longrightarrow> g \<in> topic_facts isUUID iso4217 ?w" for i g
      using emptied_parts(2) [OF inv P] topic by (simp add: facts_of_def)
    show "applied_below ?w p \<le> length (sw_log ?w p)" for p
      using stats_invD(3,4) [OF inv, of p] effect e by (auto simp: applied_below_def split: if_splits)
    show "sw_earliest ?w p \<le> length (sw_log ?w p)" for p using stats_invD(4) [OF inv] by simp
  next
    assume no: "\<not> sw_overlap ?w"
    show "caught_up isUUID iso4217 ?w"
    proof (cases "sw_overlap w")
      case True
      then obtain n where "result = Inr (Rebuilt n)" "\<not> rn_left r" using no by (auto simp: rebuild_after_overlap)
      then show ?thesis using ended keep caught_up_at_start [of ?w] by simp
    next
      case False
      note old_r = old [OF r, unfolded rebuild_ok_def]
      show ?thesis
      proof (cases "rewound r \<or> rn_phase r = Rewinding")
        case True
        then have "\<not> sw_active w" using old_r False by (auto simp: under_way_def rewound_def)
        moreover have "at_start ?w \<or> ss_committed st = ss_committed (sw_consumer w) \<and> ss_facts st = ss_facts (sw_consumer w)"
        proof (cases "rewound r")
          case True
          then have "at_start w" using old_r False by (auto simp: under_way_def rewound_def)
          then show ?thesis using keep by simp
        next
          case False
          then have "rn_phase r = Rewinding" using True by simp
          then show ?thesis using effect e by (auto simp: at_start_def)
        qed
        ultimately show ?thesis
          using caught_up_at_start [of ?w] stats_invD(5) [OF inv False] effect
          by (auto simp: caught_up_def applied_below_def facts_of_def)
      next
        case early: False
        then have "ss_facts st = ss_facts (sw_consumer w)" "ss_committed st = ss_committed (sw_consumer w)"
          using effect by (auto simp: rewound_def)
        then show ?thesis using stats_invD(5) [OF inv False] effect by (simp add: caught_up_def applied_below_def facts_of_def)
      qed
    qed
  next
    fix x assume x: "x \<in> set (sw_rebuilds ?w)"
    have carried: "rebuild_ok ?w y" if y: "y \<in> set (sw_rebuilds w)" for y
      using old [OF y] keep ended old [OF r] unfolding rebuild_ok_def rebuild_after_overlap by auto
    from in_rebuild_after [OF x] consider "x \<in> set (sw_rebuilds w)"
      | phase where "result = Inr (Proceeding phase)" "x = \<lparr>rn_phase = phase, rn_left = (rn_left r \<and> under_way r)\<rparr>" by auto
    then show "rebuild_ok ?w x"
    proof cases
      case 1
      then show ?thesis by (rule carried)
    next
      case 2
      then show ?thesis
        using statement_phase [of answers "rn_phase r" "sw_consumer w" phase st] run carried [OF r] rewind truth
        by (auto simp: rebuild_ok_def under_way_def rewound_def)
    qed
  qed
qed

lemma stats_step_inv:
  assumes "stats_step isUUID iso4217 w w'" "stats_inv isUUID iso4217 w"
  shows "stats_inv isUUID iso4217 w'"
  using assms
proof (induction rule: stats_step.induct)
  case (appended w p v)
  let ?w = "w\<lparr>sw_log := (sw_log w)(p := sw_log w p @ [v])\<rparr>"
  have same: "applied_below ?w = applied_below w" "facts_of ?w = facts_of w"
    by (simp_all add: applied_below_def fun_eq_iff facts_of_def)
  have log: "sw_log ?w q ! offset = sw_log w q ! offset" if "offset < applied_below w q" for q offset
    using that stats_invD(3) [OF appended, of q] by (auto simp: nth_append)
  have topic: "topic_facts isUUID iso4217 w \<subseteq> topic_facts isUUID iso4217 ?w" by (auto simp: topic_facts_def)
  have len: "length (sw_log w q) \<le> length (sw_log ?w q)" for q by simp
  show ?case
  proof (rule stats_invI)
    show "wf_facts (ss_facts (sw_consumer ?w))" using stats_invD(1) [OF appended] by simp
    show "facts_of ?w i = Some g \<Longrightarrow> g \<in> topic_facts isUUID iso4217 ?w" for i g
      using stats_invD(2) [OF appended] topic same by auto
    show "applied_below ?w q \<le> length (sw_log ?w q)" for q using stats_invD(3) [OF appended, of q] len [of q] same by simp
    show "sw_earliest ?w q \<le> length (sw_log ?w q)" for q using stats_invD(4) [OF appended, of q] len [of q] by simp
    show "caught_up isUUID iso4217 ?w" if "\<not> sw_overlap ?w"
      unfolding caught_up_def same
    proof (intro allI impI, elim conjE)
      fix q offset f
      assume a: "sw_earliest ?w q \<le> offset" "offset < applied_below w q" "value_fact isUUID iso4217 (sw_log ?w q ! offset) = Some f"
      show "covers (facts_of w) f"
        by (rule caught_upD [OF stats_invD(5) [OF appended], of q offset]) (use a that log [OF a(2)] in simp_all)
    qed
    show "rebuild_ok ?w r" if "r \<in> set (sw_rebuilds ?w)" for r
      using stats_invD(6) [OF appended, of r] that by (simp add: rebuild_ok_def at_start_def)
  qed
next
  case (expired w p n)
  then have "at_start w \<Longrightarrow> at_start (w\<lparr>sw_earliest := (sw_earliest w)(p := n)\<rparr>)"
    by (auto simp: at_start_def dest: order_trans)
  with expired show ?case
    unfolding stats_inv_def caught_up_def rebuild_ok_def applied_below_def facts_of_def topic_facts_def by (auto split: if_splits)
next
  case (joined w)
  let ?w = "w\<lparr>sw_active := True, sw_consumer := (sw_consumer w)\<lparr>ss_position := start_position w\<rparr>,
    sw_overlap := sw_overlap w \<or> (\<exists>r \<in> set (sw_rebuilds w). under_way r)\<rparr>"
  have below: "applied_below ?w p = max (ss_committed (sw_consumer w) p) (sw_earliest w p)" for p
    by (simp add: applied_below_def start_position_def)
  have old: "ss_committed (sw_consumer w) p \<le> applied_below w p" for p by (simp add: applied_below_def)
  have same: "facts_of ?w = facts_of w" "topic_facts isUUID iso4217 ?w = topic_facts isUUID iso4217 w"
    by (simp_all add: facts_of_def topic_facts_def)
  show ?case
  proof (rule stats_invI)
    show "applied_below ?w p \<le> length (sw_log ?w p)" for p
      using stats_invD(3,4) [OF joined, of p] old [of p] by (simp add: below)
    show "caught_up isUUID iso4217 ?w" if "\<not> sw_overlap ?w"
      unfolding caught_up_def same below
    proof (intro allI impI, elim conjE)
      fix p offset f
      assume a: "sw_earliest ?w p \<le> offset" "offset < max (ss_committed (sw_consumer w) p) (sw_earliest w p)"
        "value_fact isUUID iso4217 (sw_log ?w p ! offset) = Some f"
      then have "offset < applied_below w p" using old [of p] by auto
      then show "covers (facts_of w) f"
        using caught_upD [OF stats_invD(5) [OF joined]] a(1,3) that by simp
    qed
    show "rebuild_ok ?w r" if "r \<in> set (sw_rebuilds ?w)" for r using that by (auto simp: rebuild_ok_def)
  qed (use stats_invD [OF joined] same in auto)
next
  case (left_group w)
  let ?w = "w\<lparr>sw_active := False, sw_rebuilds := map (\<lambda>r. r\<lparr>rn_left := rn_left r \<or> sw_active w\<rparr>) (sw_rebuilds w)\<rparr>"
  have below: "applied_below ?w p \<le> applied_below w p" for p by (simp add: applied_below_def)
  have same: "facts_of ?w = facts_of w" "topic_facts isUUID iso4217 ?w = topic_facts isUUID iso4217 w"
    by (simp_all add: facts_of_def topic_facts_def)
  show ?case
  proof (rule stats_invI)
    show "applied_below ?w p \<le> length (sw_log ?w p)" for p
      using stats_invD(3) [OF left_group, of p] below [of p] by simp
    show "caught_up isUUID iso4217 ?w" if "\<not> sw_overlap ?w"
      unfolding caught_up_def same
    proof (intro allI impI, elim conjE)
      fix p offset f
      assume a: "sw_earliest ?w p \<le> offset" "offset < applied_below ?w p" "value_fact isUUID iso4217 (sw_log ?w p ! offset) = Some f"
      then have "offset < applied_below w p" using below [of p] by simp
      then show "covers (facts_of w) f"
        using caught_upD [OF stats_invD(5) [OF left_group]] a(1,3) that by simp
    qed
    show "rebuild_ok ?w r" if "r \<in> set (sw_rebuilds ?w)" for r
      using that stats_invD(6) [OF left_group] by (auto simp: rebuild_ok_def at_start_def rewound_def under_way_def)
  qed (use stats_invD [OF left_group] same in auto)
next
  case (fetched w payload p n env answer st)
  then show ?case by (intro fetched_inv)
next
  case (redelivered messages w env result table)
  let ?w = "w\<lparr>sw_consumer := (sw_consumer w)\<lparr>ss_facts := table\<rparr>\<rparr>"
  have "applied_below ?w = applied_below w" by (simp add: applied_below_def fun_eq_iff)
  then show ?case
    by (intro inv_absorbed [OF redelivered(3,2,1)])
      (use stats_invD(6) [OF redelivered(3)] in \<open>simp_all add: stats_invD(3) [OF redelivered(3)] rebuild_ok_def at_start_def\<close>)
next
  case (rebuild_started w)
  then show ?case
    by (auto simp: stats_inv_def caught_up_def applied_below_def facts_of_def topic_facts_def rebuild_ok_def rewound_def under_way_def at_start_def)
next
  case (rebuild_moved r w answers result st)
  then show ?case by (intro rebuild_moved_inv)
next
  case (rebuild_killed w r)
  have "set (remove1 r (sw_rebuilds w)) \<subseteq> set (sw_rebuilds w)" by (rule set_remove1_subset)
  with rebuild_killed show ?case
    by (auto simp: stats_inv_def caught_up_def applied_below_def facts_of_def topic_facts_def rebuild_ok_def at_start_def)
qed

lemma stats_init_inv: "stats_inv isUUID iso4217 stats_init"
  by (auto simp: stats_inv_def stats_init_def wf_facts_def facts_of_def fact_of_def applied_below_def caught_up_def)

interpretation stats: transition_system "stats_step isUUID iso4217" "stats_inv isUUID iso4217" stats_init for isUUID iso4217
  by unfold_locales (rule stats_init_inv, rule stats_step_inv)

lemma stats_reachable_inv: "stats_reachable isUUID iso4217 w \<Longrightarrow> stats_inv isUUID iso4217 w"
  unfolding stats_reachable_def by (rule stats.reachable_inv)

subsection \<open>A concrete delivery\<close>

definition demo_value :: "json option" where
  "demo_value = Some (m_value (toBookingLifecycleMessage (claimed_row demo_row) demo_payload))"

definition demo_event_fact :: BookingStatsFactRow where
  "demo_event_fact = toBookingStatsFact \<lparr>re_eventId = ''e1'', re_occurredAt = 1709078400000, re_payload = demo_payload\<rparr>"

definition demo_batch_env :: stats_batch_env where
  "demo_batch_env = \<lparr>be_localeKey = id, be_unavailable = None, be_clock = (\<lambda>_. 7)\<rparr>"

definition demo_joined :: stats_world where
  "demo_joined = stats_init\<lparr>sw_log := (\<lambda>_. [])(0 := [demo_value]), sw_active := True\<rparr>"

definition demo_delivered :: stats_world where
  "demo_delivered = demo_joined\<lparr>sw_consumer := \<lparr>ss_facts = [\<lparr>st_fact = demo_event_fact, st_createdAt = 7, st_updatedAt = 7\<rparr>],
     ss_position = (\<lambda>_. 0)(0 := 1), ss_committed = (\<lambda>_. 0)(0 := 1)\<rparr>\<rparr>"

lemma demo_value_fact: "value_fact (\<lambda>i. i = ''e1'') (\<lambda>c. c = ''VND'') demo_value = Some demo_event_fact"
proof -
  have row: "lr_id (claimed_row demo_row) = ''e1''" "lr_createdAt (claimed_row demo_row) = 1709078400000"
    by (simp_all add: claimed_row_def demo_row_def)
  have "utc_year 1709078400000 = 2024" by code_simp
  then have "parseBookingLifecycleMessage (\<lambda>i. i = ''e1'') (\<lambda>c. c = ''VND'') demo_value =
      Inr \<lparr>re_eventId = ''e1'', re_occurredAt = 1709078400000, re_payload = demo_payload\<rparr>"
    using parse_published [of "\<lambda>c. c = ''VND''" demo_payload "\<lambda>i. i = ''e1''" "claimed_row demo_row"] demo_payload_valid
    by (simp add: row demo_value_def)
  then show ?thesis by (simp add: value_fact_def toFact_def demo_event_fact_def)
qed

lemma demo_batch:
  "applyBatch (\<lambda>i. i = ''e1'') (\<lambda>c. c = ''VND'') demo_batch_env [\<lparr>rm_partition = 0, rm_offset = 0, rm_value = demo_value\<rparr>] [] =
     Inr (\<lparr>br_received = 1, br_applied = 1, br_skipped = 0\<rparr>, [\<lparr>st_fact = demo_event_fact, st_createdAt = 7, st_updatedAt = 7\<rparr>])"
proof -
  have f: "toFact (\<lambda>i. i = ''e1'') (\<lambda>c. c = ''VND'') \<lparr>rm_partition = 0, rm_offset = 0, rm_value = demo_value\<rparr> = Some demo_event_fact"
    using demo_value_fact by (simp add: toFact_value)
  then have "chk_booking_stats_facts demo_event_fact" by (rule toFact_chk)
  then show ?thesis
    by (simp add: applyBatch_def f keep_newest_def map_set_def upsert_def upsert_from.simps bookingStatsUpsertChunkSize_def
        upsert_row_def demo_batch_env_def)
qed

lemma demo_delivered_reachable: "stats_reachable (\<lambda>i. i = ''e1'') (\<lambda>c. c = ''VND'') demo_delivered"
proof -
  let ?step = "stats_step (\<lambda>i. i = ''e1'') (\<lambda>c. c = ''VND'')"
  let ?w1 = "stats_init\<lparr>sw_log := (sw_log stats_init)(0 := sw_log stats_init 0 @ [demo_value])\<rparr>"
  let ?payload = "\<lparr>fb_partition = 0, fb_messages = [(0, demo_value)], fb_isRunning = True, fb_isStale = False,
    fb_commitFails = None, fb_heartbeatFails = None\<rparr>"
  have "?step stats_init ?w1" by (rule stats_step.appended)
  moreover have "?step ?w1 demo_joined"
    using stats_step.joined [of "\<lambda>i. i = ''e1''" "\<lambda>c. c = ''VND''" ?w1]
    by (simp add: demo_joined_def stats_init_def start_position_def [abs_def])
  moreover have "?step demo_joined demo_delivered"
  proof -
    have "consumeBookingStatsBatch (\<lambda>i. i = ''e1'') (\<lambda>c. c = ''VND'') demo_batch_env ?payload (sw_consumer demo_joined)
        = (Inr (), sw_consumer demo_delivered)"
      using demo_batch by (simp add: consumeBookingStatsBatch_def demo_joined_def demo_delivered_def stats_init_def)
    from stats_step.fetched [where w = demo_joined and n = 1, OF _ refl _ this] show ?thesis
      by (simp add: demo_joined_def demo_delivered_def stats_init_def slice_def)
  qed
  ultimately show ?thesis unfolding stats_reachable_def by (meson converse_rtranclp_into_rtranclp rtranclp.rtrancl_refl)
qed

subsection \<open>Properties of the projection\<close>

text \<open>C27. A batch is equivalent to its reference: deduplication, sorting, chunks and the guarded assignments
  together store, for every booking, what absorbing the messages one by one in the order of their offsets
  gives, where a fact replaces a stored one only if its version is greater. The batch is never refused by the
  checks of the table, and every message is counted as applied to a booking or as skipped.\<close>

theorem batch_absorbs:
  assumes "wf_facts table" "be_unavailable env = None"
  shows "\<exists>result table'. applyBatch isUUID iso4217 env messages table = Inr (result, table') \<and> wf_facts table'
    \<and> fact_of table' = fold absorb (List.map_filter (toFact isUUID iso4217) messages) (fact_of table)
    \<and> br_received result = length messages
    \<and> br_skipped result = length (filter (\<lambda>m. toFact isUUID iso4217 m = None) messages)"
proof -
  have "length (List.map_filter (toFact isUUID iso4217) messages) = length (filter (\<lambda>m. toFact isUUID iso4217 m \<noteq> None) messages)"
    by (simp add: map_filter_def comp_def)
  then have "length messages = length (List.map_filter (toFact isUUID iso4217) messages)
      + length (filter (\<lambda>m. toFact isUUID iso4217 m = None) messages)"
    using sum_length_filter_compl [of "\<lambda>m. toFact isUUID iso4217 m = None" messages] by simp
  then show ?thesis
    using applyBatch_ok [OF assms, of isUUID iso4217 messages] by (auto simp: absorb_messages_def)
qed

theorem batch_absorbs_witness:
  "\<exists>result table'. applyBatch (\<lambda>i. i = ''e1'') (\<lambda>c. c = ''VND'') demo_batch_env
     [\<lparr>rm_partition = 0, rm_offset = 0, rm_value = demo_value\<rparr>] [] = Inr (result, table') \<and> wf_facts table' \<and> br_skipped result = 0"
proof -
  have wf: "wf_facts []" "be_unavailable demo_batch_env = None" by (simp_all add: wf_facts_def demo_batch_env_def)
  have f: "toFact (\<lambda>i. i = ''e1'') (\<lambda>c. c = ''VND'') \<lparr>rm_partition = 0, rm_offset = 0, rm_value = demo_value\<rparr> = Some demo_event_fact"
    using demo_value_fact by (simp add: toFact_value)
  show ?thesis
    using batch_absorbs [OF wf, of "\<lambda>i. i = ''e1''" "\<lambda>c. c = ''VND''" "[\<lparr>rm_partition = 0, rm_offset = 0, rm_value = demo_value\<rparr>]"]
    by (auto simp: f)
qed

text \<open>C26. The projection is consistent, whatever fails, restarts, is delivered twice or is rebuilt, by any number of
  commands interleaved statement by statement with everything else: every committed message that the topic
  retains is in the facts, itself or by a newer version of its booking. The exception is a member that joins
  after a rebuild was told that there is none and before that rebuild ended; it lasts until a rebuild succeeds during which
  no member left the group. In every state, each fact is what some message of the topic carries.\<close>

theorem projection_consistent:
  assumes "stats_reachable isUUID iso4217 w"
  shows "(\<not> sw_overlap w \<longrightarrow> (\<forall>p offset f. sw_earliest w p \<le> offset \<and> offset < ss_committed (sw_consumer w) p
            \<and> value_fact isUUID iso4217 (sw_log w p ! offset) = Some f \<longrightarrow>
          (\<exists>g. fact_of (ss_facts (sw_consumer w)) (sf_bookingPublicId f) = Some g
             \<and> sf_bookingVersion f \<le> sf_bookingVersion g)))
    \<and> (\<forall>i g. fact_of (ss_facts (sw_consumer w)) i = Some g \<longrightarrow> sf_bookingPublicId g = i
          \<and> (\<exists>p. \<exists>v \<in> set (sw_log w p). value_fact isUUID iso4217 v = Some g))"
proof -
  note inv = stats_reachable_inv [OF assms]
  have "ss_committed (sw_consumer w) p \<le> applied_below w p" for p by (simp add: applied_below_def)
  then have "covers (facts_of w) f" if "\<not> sw_overlap w" "sw_earliest w p \<le> offset" "offset < ss_committed (sw_consumer w) p"
    "value_fact isUUID iso4217 (sw_log w p ! offset) = Some f" for p offset f
    using caught_upD [OF stats_invD(5) [OF inv that(1)] that(2) _ that(4)] that(3) less_le_trans by blast
  moreover have "sf_bookingPublicId g = i" if "facts_of w i = Some g" for i g
    using that fact_of_keyed by (simp add: keyed_def facts_of_def)
  ultimately show ?thesis
    using stats_invD(2) [OF inv] unfolding covers_def facts_of_def topic_facts_def by blast
qed

theorem projection_consistent_witness:
  "\<exists>g. fact_of (ss_facts (sw_consumer demo_delivered)) ''01HQPG5K000000000000000007'' = Some g \<and> 1 \<le> sf_bookingVersion g"
proof -
  have "\<not> sw_overlap demo_delivered" "sw_earliest demo_delivered 0 \<le> 0" "(0::nat) < ss_committed (sw_consumer demo_delivered) 0"
    "sw_log demo_delivered 0 ! 0 = demo_value" "sf_bookingPublicId demo_event_fact = ''01HQPG5K000000000000000007''"
    "sf_bookingVersion demo_event_fact = 1"
    by (simp_all add: demo_delivered_def demo_joined_def stats_init_def demo_event_fact_def toBookingStatsFact_def demo_payload_def)
  then show ?thesis
    using conjunct1 [OF projection_consistent [OF demo_delivered_reachable], rule_format, of 0 0 demo_event_fact] demo_value_fact
    by simp
qed

text \<open>What the exception allows: a rebuild succeeds although the table it leaves misses a message that was
  committed and that nobody will read again, because a member joined and left between its two questions.\<close>

theorem rebuild_may_miss:
  "\<exists>isUUID iso4217 w r answers st n f. stats_reachable isUUID iso4217 w \<and> r \<in> set (sw_rebuilds w)
     \<and> rb_active answers = Inr (sw_active w) \<and> rb_earliest answers = sw_earliest w
     \<and> rebuild_statement answers (rn_phase r) (sw_consumer w) = (Inr (Rebuilt n), st)
     \<and> value_fact isUUID iso4217 (sw_log w 0 ! 0) = Some f \<and> sw_earliest w 0 = 0 \<and> ss_committed st 0 = 1 \<and> ss_facts st = []"
proof -
  let ?step = "stats_step (\<lambda>i. i = ''e1'') (\<lambda>c. c = ''VND'')"
  let ?logged = "stats_init\<lparr>sw_log := (\<lambda>_. [])(0 := [demo_value])\<rparr>"
  let ?at = "\<lambda>phase. ?logged\<lparr>sw_rebuilds := [\<lparr>rn_phase = phase, rn_left = False\<rparr>]\<rparr>"
  let ?answers = "\<lparr>rb_unavailable = None, rb_active = Inr False, rb_topicExists = Inr True, rb_earliest = (\<lambda>_. 0),
    rb_resetFails = None, rb_deleteFails = None\<rparr>"
  let ?payload = "\<lparr>fb_partition = 0, fb_messages = [(0, demo_value)], fb_isRunning = True, fb_isStale = False,
    fb_commitFails = None, fb_heartbeatFails = None\<rparr>"
  let ?one = "\<lparr>ss_facts = [\<lparr>st_fact = demo_event_fact, st_createdAt = 7, st_updatedAt = 7\<rparr>],
     ss_position = (\<lambda>_. 0)(0 := 1), ss_committed = (\<lambda>_. 0)(0 := 1)\<rparr>"
  let ?joined = "(?at (Deleting 0))\<lparr>sw_active := True, sw_overlap := True\<rparr>"
  let ?read = "?joined\<lparr>sw_consumer := ?one\<rparr>"
  let ?emptied = "?read\<lparr>sw_consumer := ?one\<lparr>ss_facts := []\<rparr>, sw_rebuilds := [\<lparr>rn_phase = AskingAgain 1, rn_left = False\<rparr>]\<rparr>"
  let ?left = "?emptied\<lparr>sw_active := False, sw_rebuilds := [\<lparr>rn_phase = AskingAgain 1, rn_left = True\<rparr>]\<rparr>"
  have moved: "?step (?at phase) (?at phase')"
    if "rebuild_statement ?answers phase (sw_consumer stats_init) = (Inr (Proceeding phase'), sw_consumer stats_init)" for phase phase'
    using stats_step.rebuild_moved [where w = "?at phase" and r = "\<lparr>rn_phase = phase, rn_left = False\<rparr>" and answers = ?answers
        and result = "Inr (Proceeding phase')" and st = "sw_consumer stats_init"] that
    by (simp add: rebuild_after_def Let_def stats_init_def)
  have "?step\<^sup>*\<^sup>* stats_init ?logged"
    using stats_step.appended [of _ _ stats_init 0 demo_value] by (simp add: stats_init_def r_into_rtranclp)
  moreover have "?step ?logged (?at Connecting)" using stats_step.rebuild_started [of _ _ ?logged] by (simp add: stats_init_def)
  moreover have "?step (?at Connecting) (?at AskingMembers)" "?step (?at AskingMembers) (?at AskingTopic)"
    "?step (?at AskingTopic) (?at Rewinding)" "?step (?at Rewinding) (?at (Deleting 0))"
    by (rule moved, simp add: stats_init_def)+
  moreover have "?step (?at (Deleting 0)) ?joined"
    using stats_step.joined [of _ _ "?at (Deleting 0)"] by (simp add: under_way_def start_position_def [abs_def] stats_init_def)
  moreover have "?step ?joined ?read"
  proof -
    have "consumeBookingStatsBatch (\<lambda>i. i = ''e1'') (\<lambda>c. c = ''VND'') demo_batch_env ?payload (sw_consumer ?joined) = (Inr (), ?one)"
      using demo_batch by (simp add: consumeBookingStatsBatch_def stats_init_def)
    from stats_step.fetched [where w = ?joined and n = 1, OF _ refl _ this] show ?thesis by (simp add: stats_init_def slice_def)
  qed
  moreover have "?step ?read ?emptied"
    using stats_step.rebuild_moved [where w = ?read and r = "\<lparr>rn_phase = Deleting 0, rn_left = False\<rparr>"
        and answers = "?answers\<lparr>rb_active := Inr True\<rparr>" and result = "Inr (Proceeding (AskingAgain 1))" and st = "?one\<lparr>ss_facts := []\<rparr>"]
    by (simp add: rebuild_after_def Let_def stats_init_def delete_chunk_def delete_where_def bookingStatsRebuildDeleteBatchSize_def under_way_def)
  moreover have "?step ?emptied ?left" using stats_step.left_group [of _ _ ?emptied] by simp
  ultimately have "stats_reachable (\<lambda>i. i = ''e1'') (\<lambda>c. c = ''VND'') ?left"
    unfolding stats_reachable_def by (meson rtranclp.rtrancl_into_rtrancl)
  moreover have "rebuild_statement ?answers (AskingAgain 1) (sw_consumer ?left) = (Inr (Rebuilt 1), sw_consumer ?left)" by simp
  ultimately show ?thesis
    using demo_value_fact
    by (intro exI [of _ "\<lambda>i. i = ''e1''"] exI [of _ "\<lambda>c. c = ''VND''"] exI [of _ ?left]
        exI [of _ "\<lparr>rn_phase = AskingAgain 1, rn_left = True\<rparr>"] exI [of _ ?answers] exI [of _ "sw_consumer ?left"] exI [of _ 1]
        exI [of _ demo_event_fact]) (simp add: stats_init_def)
qed

end
