(* ===== verification/Stats_Report.thy ===== *)
theory Stats_Report
  imports Booking_Stats
begin

text \<open>
  The report on the statistics: the aggregate statement (reports/booking-stats-query.sql.ts and
  booking-stats-query.repository.ts), its folding into totals and buckets (booking-stats-report.ts) and the
  service with its refusals (booking-stats-report.service.ts, booking-stats.errors.ts). Counts and sums are
  the numbers whose decimal texts the driver returns. The lemmas show that grouping in SQL and folding the
  groups again counts every fact of the range once.
\<close>

subsection \<open>The aggregate\<close>

datatype BookingStatsGrouping = GroupDay | GroupMonth

record BookingStatsQuery =
  sq_from :: hotel_date
  sq_to :: hotel_date
  sq_roomTypeId :: "string option"
  sq_groupBy :: "BookingStatsGrouping option"

record BookingStatsAggregateRow =
  ar_period :: "string option"
  ar_status :: BookingStatus
  ar_currency :: string
  ar_bookings :: nat
  ar_amount :: "int option"

definition bookingStatsErrors_rangeInvalid :: error where
  "bookingStatsErrors_rangeInvalid = ApplicationException 400 ''BOOKING_STATS_RANGE_INVALID''"

definition bookingStatsErrors_disabled :: error where
  "bookingStatsErrors_disabled = ApplicationException 503 ''BOOKING_STATS_DISABLED''"

definition bookingStatsErrors_amountOutOfRange :: error where
  "bookingStatsErrors_amountOutOfRange = ApplicationException 422 ''BOOKING_STATS_AMOUNT_OUT_OF_RANGE''"

text \<open>The bucket of a stay: \<open>DATE_FORMAT\<close> with \<open>%Y-%m-%d\<close>, with \<open>%Y-%m-01\<close>, or NULL.\<close>

fun periodExpressions :: "BookingStatsGrouping option \<Rightarrow> hotel_date \<Rightarrow> string option" where
  "periodExpressions None checkIn = None"
| "periodExpressions (Some GroupDay) checkIn = Some checkIn"
| "periodExpressions (Some GroupMonth) checkIn = Some (take 8 checkIn @ ''01'')"

text \<open>The WHERE clause; an empty room type is no condition.\<close>

definition in_report :: "BookingStatsQuery \<Rightarrow> BookingStatsFactRow \<Rightarrow> bool" where
  "in_report query f \<longleftrightarrow> sf_checkIn f \<ge> sq_from query \<and> sf_checkIn f < sq_to query
     \<and> (case sq_roomTypeId query of None \<Rightarrow> True | Some t \<Rightarrow> t = [] \<or> sf_roomTypeId f = t)"

definition group_key :: "BookingStatsQuery \<Rightarrow> BookingStatsFactRow \<Rightarrow> string option \<times> BookingStatus \<times> string" where
  "group_key query f = (periodExpressions (sq_groupBy query) (sf_checkIn f), sf_status f, sf_currency f)"

text \<open>The position of a status in the column's ENUM, by which it is ordered.\<close>

fun enum_index :: "BookingStatus \<Rightarrow> nat" where
  "enum_index Pending = 1" | "enum_index Confirmed = 2" | "enum_index Rejected = 3"
| "enum_index CancelledByUser = 4" | "enum_index CancelledByAdmin = 5" | "enum_index Completed = 6"

definition bookingStatsAggregateStatement ::
  "BookingStatsQuery \<Rightarrow> BookingStatsFactRow list \<Rightarrow> BookingStatsAggregateRow list" where
  "bookingStatsAggregateStatement query facts =
     (let selected = filter (in_report query) facts;
          groups = sort_key (\<lambda>(period, status, currency).
                     (case period of None \<Rightarrow> [] | Some p \<Rightarrow> p, enum_index status, currency))
                   (set_spread (map (group_key query) selected)) in
      map (\<lambda>(period, status, currency).
        let rows = filter (\<lambda>f. group_key query f = (period, status, currency)) selected in
        \<lparr>ar_period = period, ar_status = status, ar_currency = currency, ar_bookings = length rows,
         ar_amount = (if rows = [] then None else Some (sum_list (map sf_priceAmount rows)))\<rparr>) groups)"

text \<open>\<open>SELECT MAX(last_occurred_at)\<close>\<close>

definition asOf :: "BookingStatsFactRow list \<Rightarrow> int option" where
  "asOf facts = (if facts = [] then None else Some (Max (set (map sf_lastOccurredAt facts))))"

subsection \<open>Folding the groups\<close>

record BookingStatsSummary =
  bs_bookings :: nat
  bs_byStatus :: "BookingStatus \<Rightarrow> nat"
  bs_projectedRevenue :: "(string \<times> int) list"

record BookingStatsBucket =
  bk_period :: string
  bk_summary :: BookingStatsSummary

definition bookingStatsRevenueStatuses :: "BookingStatus list" where
  "bookingStatsRevenueStatuses = [Confirmed, Completed]"

text \<open>A \<open>Map\<close> as its entries in insertion order.\<close>

definition entries_set :: "'k \<Rightarrow> 'v \<Rightarrow> ('k \<times> 'v) list \<Rightarrow> ('k \<times> 'v) list" where
  "entries_set k v entries =
     (if map_of entries k = None then entries @ [(k, v)] else update_where (\<lambda>e. fst e = k) (\<lambda>_. (k, v)) entries)"

record SummaryBuilder =
  sb_bookings :: nat
  sb_byStatus :: "BookingStatus \<Rightarrow> nat"
  sb_revenue :: "(string \<times> int) list"

definition new_SummaryBuilder :: SummaryBuilder where
  "new_SummaryBuilder = \<lparr>sb_bookings = 0, sb_byStatus = (\<lambda>_. 0), sb_revenue = []\<rparr>"

definition add_row :: "BookingStatsAggregateRow \<Rightarrow> SummaryBuilder \<Rightarrow> SummaryBuilder" where
  "add_row row b =
     (let counted = b\<lparr>sb_bookings := sb_bookings b + ar_bookings row,
                      sb_byStatus := (sb_byStatus b)(ar_status row := sb_byStatus b (ar_status row) + ar_bookings row)\<rparr> in
      if ar_status row \<notin> set bookingStatsRevenueStatuses then counted
      else
        let amount = (case ar_amount row of None \<Rightarrow> 0 | Some a \<Rightarrow> a);
            before = (case map_of (sb_revenue b) (ar_currency row) of None \<Rightarrow> 0 | Some a \<Rightarrow> a) in
        counted\<lparr>sb_revenue := entries_set (ar_currency row) (before + amount) (sb_revenue b)\<rparr>)"

definition build_summary :: "(string \<Rightarrow> string) \<Rightarrow> SummaryBuilder \<Rightarrow> error + BookingStatsSummary" where
  "build_summary localeKey b =
     (let revenue = sort_key (localeKey \<circ> fst) (sb_revenue b) in
      if \<exists>(currency, amount) \<in> set revenue. amount > int number_max_safe_integer then Inl bookingStatsErrors_amountOutOfRange
      else Inr \<lparr>bs_bookings = sb_bookings b, bs_byStatus = sb_byStatus b, bs_projectedRevenue = revenue\<rparr>)"

fun summarize_rows ::
  "BookingStatsAggregateRow list \<Rightarrow> SummaryBuilder \<times> (string \<times> SummaryBuilder) list
   \<Rightarrow> SummaryBuilder \<times> (string \<times> SummaryBuilder) list" where
  "summarize_rows [] acc = acc"
| "summarize_rows (row # rows) (totals, buckets) =
     summarize_rows rows
       (add_row row totals,
        case ar_period row of
          None \<Rightarrow> buckets
        | Some period \<Rightarrow>
            entries_set period
              (add_row row (case map_of buckets period of None \<Rightarrow> new_SummaryBuilder | Some b \<Rightarrow> b)) buckets)"

fun build_buckets :: "(string \<Rightarrow> string) \<Rightarrow> (string \<times> SummaryBuilder) list \<Rightarrow> error + BookingStatsBucket list" where
  "build_buckets localeKey [] = Inr []"
| "build_buckets localeKey ((period, b) # rest) =
     and_then (build_summary localeKey b) (\<lambda>summary.
     and_then (build_buckets localeKey rest) (\<lambda>buckets.
     Inr (\<lparr>bk_period = period, bk_summary = summary\<rparr> # buckets)))"

definition summarizeBookingStats ::
  "(string \<Rightarrow> string) \<Rightarrow> BookingStatsAggregateRow list \<Rightarrow> error + BookingStatsSummary \<times> BookingStatsBucket list" where
  "summarizeBookingStats localeKey rows =
     (let (totals, buckets) = summarize_rows rows (new_SummaryBuilder, []) in
      and_then (build_summary localeKey totals) (\<lambda>summary.
      and_then (build_buckets localeKey (sort_key (localeKey \<circ> fst) buckets)) (\<lambda>list.
      Inr (summary, list))))"

subsection \<open>The service\<close>

record BookingStatsReport =
  rp_from :: hotel_date
  rp_to :: hotel_date
  rp_roomTypeId :: "string option"
  rp_groupBy :: "BookingStatsGrouping option"
  rp_asOf :: "string option"
  rp_totals :: BookingStatsSummary
  rp_buckets :: "BookingStatsBucket list"

definition bookingStatsMaxRangeDays :: int where
  "bookingStatsMaxRangeDays = 366"

definition stats_report ::
  "(string \<Rightarrow> string) \<Rightarrow> bool \<Rightarrow> error option \<Rightarrow> BookingStatsQuery \<Rightarrow> booking_stats_fact list \<Rightarrow> error + BookingStatsReport" where
  "stats_report localeKey enabled unavailable query table =
     (if \<not> enabled then Inl bookingStatsErrors_disabled
      else
      case hotelDateSpanDays (sq_from query) (sq_to query) of
        None \<Rightarrow> Inl bookingStatsErrors_rangeInvalid
      | Some days \<Rightarrow>
          if \<not> (days \<ge> 1 \<and> days \<le> bookingStatsMaxRangeDays) then Inl bookingStatsErrors_rangeInvalid
          else
          case unavailable of Some e \<Rightarrow> Inl e | None \<Rightarrow>
          and_then (summarizeBookingStats localeKey (bookingStatsAggregateStatement query (map st_fact table))) (\<lambda>(totals, buckets).
          Inr \<lparr>rp_from = sq_from query, rp_to = sq_to query, rp_roomTypeId = sq_roomTypeId query,
               rp_groupBy = sq_groupBy query, rp_asOf = map_option toISOString (asOf (map st_fact table)),
               rp_totals = totals, rp_buckets = buckets\<rparr>))"

subsection \<open>Counting through groups\<close>

definition row_key :: "BookingStatsAggregateRow \<Rightarrow> string option \<times> BookingStatus \<times> string" where
  "row_key row = (ar_period row, ar_status row, ar_currency row)"

lemma sum_list_filter_or:
  fixes g :: "'a \<Rightarrow> 'b::comm_monoid_add"
  assumes "\<And>x. \<not> (P x \<and> Q x)"
  shows "sum_list (map g (filter P xs)) + sum_list (map g (filter Q xs)) = sum_list (map g (filter (\<lambda>x. P x \<or> Q x) xs))"
  using assms by (induction xs) (auto simp: ac_simps)

lemma sum_over_groups:
  fixes g :: "'a \<Rightarrow> 'b::comm_monoid_add"
  assumes "distinct ks"
  shows "sum_list (map (\<lambda>k. sum_list (map g (filter (\<lambda>x. key x = k) xs))) ks) = sum_list (map g (filter (\<lambda>x. key x \<in> set ks) xs))"
  using assms
proof (induction ks)
  case (Cons k ks)
  then have "sum_list (map g (filter (\<lambda>x. key x = k) xs)) + sum_list (map g (filter (\<lambda>x. key x \<in> set ks) xs))
      = sum_list (map g (filter (\<lambda>x. key x = k \<or> key x \<in> set ks) xs))"
    by (intro sum_list_filter_or) auto
  then show ?case using Cons by simp
qed simp

lemma aggregate_rows:
  obtains groups where "distinct groups" "set groups = group_key query ` set (filter (in_report query) facts)"
    "bookingStatsAggregateStatement query facts = map (\<lambda>k. \<lparr>ar_period = fst k, ar_status = fst (snd k), ar_currency = snd (snd k),
       ar_bookings = sum_list (map (\<lambda>_. 1) (filter (\<lambda>f. group_key query f = k) (filter (in_report query) facts))),
       ar_amount = Some (sum_list (map sf_priceAmount (filter (\<lambda>f. group_key query f = k) (filter (in_report query) facts))))\<rparr>) groups"
proof -
  let ?selected = "filter (in_report query) facts"
  let ?groups = "sort_key (\<lambda>(period, status, currency). (case period of None \<Rightarrow> [] | Some p \<Rightarrow> p, enum_index status, currency))
    (set_spread (map (group_key query) ?selected))"
  have groups: "distinct ?groups" "set ?groups = group_key query ` set ?selected"
    by (simp_all add: distinct_set_spread set_set_spread)
  show ?thesis
    by (rule that [OF groups]) (auto simp: bookingStatsAggregateStatement_def sum_list_triv Let_def filter_empty_conv set_set_spread split: prod.splits)
qed

lemma aggregate_sums:
  fixes R :: "string option \<times> BookingStatus \<times> string \<Rightarrow> bool"
  shows "sum_list (map ar_bookings (filter (R \<circ> row_key) (bookingStatsAggregateStatement query facts))) =
      length (filter (R \<circ> group_key query) (filter (in_report query) facts))"
    and "sum_list (map (the \<circ> ar_amount) (filter (R \<circ> row_key) (bookingStatsAggregateStatement query facts))) =
      sum_list (map sf_priceAmount (filter (R \<circ> group_key query) (filter (in_report query) facts)))"
    and "(\<exists>row \<in> set (bookingStatsAggregateStatement query facts). R (row_key row)) \<longleftrightarrow>
      (\<exists>f \<in> set (filter (in_report query) facts). R (group_key query f))"
    and "row \<in> set (bookingStatsAggregateStatement query facts) \<Longrightarrow> ar_amount row \<noteq> None"
proof -
  let ?selected = "filter (in_report query) facts"
  obtain groups where groups: "distinct groups" "set groups = group_key query ` set ?selected"
    and rows: "bookingStatsAggregateStatement query facts = map (\<lambda>k. \<lparr>ar_period = fst k, ar_status = fst (snd k), ar_currency = snd (snd k),
       ar_bookings = sum_list (map (\<lambda>_. 1) (filter (\<lambda>f. group_key query f = k) ?selected)),
       ar_amount = Some (sum_list (map sf_priceAmount (filter (\<lambda>f. group_key query f = k) ?selected)))\<rparr>) groups"
    by (rule aggregate_rows)
  have kept: "filter (\<lambda>f. group_key query f \<in> set (filter R groups)) ?selected = filter (R \<circ> group_key query) ?selected"
    using groups(2) by (intro filter_cong) auto
  have "sum_list (map ar_bookings (filter (R \<circ> row_key) (bookingStatsAggregateStatement query facts))) =
      sum_list (map (\<lambda>k. sum_list (map (\<lambda>_. 1) (filter (\<lambda>f. group_key query f = k) ?selected))) (filter R groups))"
    by (simp add: rows filter_map comp_def row_key_def)
  also have "\<dots> = sum_list (map (\<lambda>_. 1) (filter (R \<circ> group_key query) ?selected))"
    using sum_over_groups [OF distinct_filter [OF groups(1)], of "\<lambda>_. 1 :: nat" "group_key query" ?selected R] unfolding kept .
  also have "\<dots> = length (filter (R \<circ> group_key query) ?selected)" by (simp add: sum_list_triv)
  finally show "sum_list (map ar_bookings (filter (R \<circ> row_key) (bookingStatsAggregateStatement query facts))) =
      length (filter (R \<circ> group_key query) ?selected)" .
  have "sum_list (map (the \<circ> ar_amount) (filter (R \<circ> row_key) (bookingStatsAggregateStatement query facts))) =
      sum_list (map (\<lambda>k. sum_list (map sf_priceAmount (filter (\<lambda>f. group_key query f = k) ?selected))) (filter R groups))"
    by (simp add: rows filter_map comp_def row_key_def)
  also have "\<dots> = sum_list (map sf_priceAmount (filter (R \<circ> group_key query) ?selected))"
    using sum_over_groups [OF distinct_filter [OF groups(1)], of sf_priceAmount "group_key query" ?selected R] kept by simp
  finally show "sum_list (map (the \<circ> ar_amount) (filter (R \<circ> row_key) (bookingStatsAggregateStatement query facts))) =
      sum_list (map sf_priceAmount (filter (R \<circ> group_key query) ?selected))" .
  show "(\<exists>row \<in> set (bookingStatsAggregateStatement query facts). R (row_key row)) \<longleftrightarrow> (\<exists>f \<in> set ?selected. R (group_key query f))"
    using groups(2) by (auto simp: rows row_key_def)
  show "row \<in> set (bookingStatsAggregateStatement query facts) \<Longrightarrow> ar_amount row \<noteq> None" by (auto simp: rows)
qed

subsection \<open>The builder\<close>

lemma entries_set_keys: "distinct (map fst es) \<Longrightarrow> distinct (map fst (entries_set k v es))"
  by (auto simp: entries_set_def map_of_eq_None_iff map_update_key [of fst])

lemma entries_set_map_of: "map_of (entries_set k v es) = (map_of es)(k \<mapsto> v)"
proof (cases "map_of es k = None")
  case True
  then show ?thesis by (auto simp: entries_set_def fun_eq_iff map_add_def split: option.split)
next
  case False
  let ?u = "\<lambda>es. update_where (\<lambda>e. fst e = k) (\<lambda>_. (k, v)) es"
  have "map_of (?u es) i = map_of es i" if "i \<noteq> k" for i
    using that by (induction es) auto
  moreover have "k \<in> fst ` set es \<Longrightarrow> map_of (?u es) k = Some v" by (induction es) auto
  ultimately show ?thesis using False by (auto simp: entries_set_def map_of_eq_None_iff fun_eq_iff)
qed

definition earns :: "BookingStatsAggregateRow \<Rightarrow> bool" where
  "earns row \<longleftrightarrow> ar_status row \<in> set bookingStatsRevenueStatuses"

text \<open>What a builder holds after some rows.\<close>

definition tallies :: "BookingStatsAggregateRow list \<Rightarrow> SummaryBuilder \<Rightarrow> bool" where
  "tallies rows b \<longleftrightarrow>
     sb_bookings b = sum_list (map ar_bookings rows)
     \<and> (\<forall>s. sb_byStatus b s = sum_list (map ar_bookings (filter (\<lambda>r. ar_status r = s) rows)))
     \<and> distinct (map fst (sb_revenue b))
     \<and> (\<forall>c. map_of (sb_revenue b) c =
          (if \<exists>r \<in> set rows. earns r \<and> ar_currency r = c
           then Some (sum_list (map (\<lambda>r. case ar_amount r of None \<Rightarrow> 0 | Some a \<Rightarrow> a) (filter (\<lambda>r. earns r \<and> ar_currency r = c) rows)))
           else None))"

lemma tallies_new: "tallies [] new_SummaryBuilder"
  by (simp add: tallies_def new_SummaryBuilder_def)

lemma tallies_add:
  assumes "tallies rows b"
  shows "tallies (rows @ [row]) (add_row row b)"
proof -
  let ?amount = "\<lambda>r. case ar_amount r of None \<Rightarrow> 0 | Some a \<Rightarrow> a"
  have counts: "sb_bookings (add_row row b) = sb_bookings b + ar_bookings row"
    "sb_byStatus (add_row row b) = (sb_byStatus b)(ar_status row := sb_byStatus b (ar_status row) + ar_bookings row)"
    by (simp_all add: add_row_def Let_def)
  have revenue: "sb_revenue (add_row row b) = (if earns row
      then entries_set (ar_currency row) ((case map_of (sb_revenue b) (ar_currency row) of None \<Rightarrow> 0 | Some a \<Rightarrow> a) + ?amount row) (sb_revenue b)
      else sb_revenue b)"
    by (simp add: add_row_def earns_def Let_def)
  have none: "filter (\<lambda>r. earns r \<and> ar_currency r = c) rows = []" if "\<not> (\<exists>r \<in> set rows. earns r \<and> ar_currency r = c)" for c
    using that by (auto simp: filter_empty_conv)
  have m: "map_of (sb_revenue b) c = (if \<exists>r \<in> set rows. earns r \<and> ar_currency r = c
      then Some (sum_list (map ?amount (filter (\<lambda>r. earns r \<and> ar_currency r = c) rows))) else None)" for c
    using assms by (simp add: tallies_def)
  have "map_of (sb_revenue (add_row row b)) c = (if \<exists>r \<in> set (rows @ [row]). earns r \<and> ar_currency r = c
      then Some (sum_list (map ?amount (filter (\<lambda>r. earns r \<and> ar_currency r = c) (rows @ [row])))) else None)" for c
    by (cases "earns row \<and> ar_currency row = c") (auto simp: revenue entries_set_map_of m none)
  moreover have "distinct (map fst (sb_revenue (add_row row b)))"
    using assms by (simp add: revenue entries_set_keys tallies_def)
  moreover have "sb_byStatus (add_row row b) s = sum_list (map ar_bookings (filter (\<lambda>r. ar_status r = s) (rows @ [row])))" for s
    using assms by (simp add: counts tallies_def)
  ultimately show ?thesis using assms by (simp add: tallies_def counts)
qed

lemma tallies_fold: "tallies rows b \<Longrightarrow> tallies (rows @ new_rows) (fold add_row new_rows b)"
proof (induction new_rows arbitrary: rows b)
  case (Cons row new_rows)
  then show ?case using Cons.IH [OF tallies_add [OF Cons.prems, of row]] by simp
qed simp

lemma summarize_rows_eq:
  assumes "summarize_rows rows (totals, buckets) = (totals', buckets')"
  shows "totals' = fold add_row rows totals
    \<and> (distinct (map fst buckets) \<longrightarrow> distinct (map fst buckets'))
    \<and> map_of buckets' p = (let rs = filter (\<lambda>r. ar_period r = Some p) rows in
        if rs = [] then map_of buckets p
        else Some (fold add_row rs (case map_of buckets p of None \<Rightarrow> new_SummaryBuilder | Some b \<Rightarrow> b)))"
  using assms
proof (induction rows arbitrary: totals buckets)
  case (Cons row rows)
  show ?case
  proof (cases "ar_period row")
    case None
    then show ?thesis using Cons.IH [of "add_row row totals" buckets] Cons.prems by simp
  next
    case (Some q)
    let ?b = "add_row row (case map_of buckets q of None \<Rightarrow> new_SummaryBuilder | Some b \<Rightarrow> b)"
    have "summarize_rows rows (add_row row totals, entries_set q ?b buckets) = (totals', buckets')"
      using Cons.prems Some by simp
    from Cons.IH [OF this] show ?thesis
      using Some entries_set_keys [of buckets q ?b] by (auto simp: entries_set_map_of Let_def)
  qed
qed (simp add: Let_def)

text \<open>The reference: what a summary says about a list of facts.\<close>

definition earning :: "BookingStatsFactRow \<Rightarrow> bool" where
  "earning f \<longleftrightarrow> sf_status f = Confirmed \<or> sf_status f = Completed"

definition summarizes :: "BookingStatsFactRow list \<Rightarrow> BookingStatsSummary \<Rightarrow> bool" where
  "summarizes facts s \<longleftrightarrow>
     bs_bookings s = length facts
     \<and> (\<forall>st. bs_byStatus s st = length (filter (\<lambda>f. sf_status f = st) facts))
     \<and> distinct (map fst (bs_projectedRevenue s))
     \<and> set (bs_projectedRevenue s) =
         (\<lambda>c. (c, sum_list (map sf_priceAmount (filter (\<lambda>f. earning f \<and> sf_currency f = c) facts))))
           ` sf_currency ` {f \<in> set facts. earning f}"

lemma build_summary_Inr:
  assumes "build_summary localeKey b = Inr s"
  shows "bs_bookings s = sb_bookings b" "bs_byStatus s = sb_byStatus b" "set (bs_projectedRevenue s) = set (sb_revenue b)"
    "distinct (map fst (sb_revenue b)) \<Longrightarrow> distinct (map fst (bs_projectedRevenue s))"
    "\<forall>(c, a) \<in> set (bs_projectedRevenue s). a \<le> int number_max_safe_integer"
proof -
  have s: "s = \<lparr>bs_bookings = sb_bookings b, bs_byStatus = sb_byStatus b,
      bs_projectedRevenue = sort_key (localeKey \<circ> fst) (sb_revenue b)\<rparr>"
    and ok: "\<forall>(c, a) \<in> set (sb_revenue b). a \<le> int number_max_safe_integer"
    using assms by (auto simp: build_summary_def Let_def split: if_splits)
  show "bs_bookings s = sb_bookings b" "bs_byStatus s = sb_byStatus b" "set (bs_projectedRevenue s) = set (sb_revenue b)"
    "\<forall>(c, a) \<in> set (bs_projectedRevenue s). a \<le> int number_max_safe_integer"
    using ok by (simp_all add: s)
  show "distinct (map fst (sb_revenue b)) \<Longrightarrow> distinct (map fst (bs_projectedRevenue s))"
    by (simp add: s distinct_map_sort_key)
qed

lemma graph_eq: "(\<And>c a. (c, a) \<in> X \<longleftrightarrow> c \<in> C \<and> a = S c) \<Longrightarrow> X = (\<lambda>c. (c, S c)) ` C"
  by auto

text \<open>A builder over the groups that satisfy \<open>R\<close> summarizes the facts of these groups.\<close>

lemma tallies_summarizes:
  assumes b: "tallies (filter (R \<circ> row_key) (bookingStatsAggregateStatement query facts)) b" and s: "build_summary localeKey b = Inr s"
  shows "summarizes (filter (R \<circ> group_key query) (filter (in_report query) facts)) s"
proof -
  let ?rows = "bookingStatsAggregateStatement query facts"
  let ?fs = "filter (R \<circ> group_key query) (filter (in_report query) facts)"
  let ?amount = "\<lambda>r. case ar_amount r of None \<Rightarrow> 0 | Some a \<Rightarrow> a"
  note built = build_summary_Inr [OF s]
  have narrow: "filter P (filter (R \<circ> row_key) ?rows) = filter ((\<lambda>k. R k \<and> Q k) \<circ> row_key) ?rows"
    "filter P' ?fs = filter ((\<lambda>k. R k \<and> Q k) \<circ> group_key query) (filter (in_report query) facts)"
    if "\<And>r. P r = Q (row_key r)" "\<And>f. P' f = Q (group_key query f)" for P P' Q
    using that by (auto intro!: filter_cong)
  have "bs_bookings s = length ?fs"
    using b aggregate_sums(1) [of R query facts] by (simp add: built tallies_def)
  moreover have "bs_byStatus s st = length (filter (\<lambda>f. sf_status f = st) ?fs)" for st
  proof -
    have "bs_byStatus s st = sum_list (map ar_bookings (filter (\<lambda>r. ar_status r = st) (filter (R \<circ> row_key) ?rows)))"
      using b by (simp add: built tallies_def)
    then show ?thesis
      using narrow [of "\<lambda>r. ar_status r = st" "\<lambda>k. fst (snd k) = st" "\<lambda>f. sf_status f = st"]
        aggregate_sums(1) [of "\<lambda>k. R k \<and> fst (snd k) = st" query facts]
      by (simp add: row_key_def group_key_def)
  qed
  moreover have "set (bs_projectedRevenue s) =
      (\<lambda>c. (c, sum_list (map sf_priceAmount (filter (\<lambda>f. earning f \<and> sf_currency f = c) ?fs)))) ` sf_currency ` {f \<in> set ?fs. earning f}"
  proof -
    have amount: "map ?amount rs = map (the \<circ> ar_amount) rs" if "set rs \<subseteq> set ?rows" for rs
      using that aggregate_sums(4) by (fastforce intro!: map_cong split: option.splits)
    have Q: "earns r \<and> ar_currency r = c \<longleftrightarrow> (\<lambda>(p, st, cur). st \<in> set bookingStatsRevenueStatuses \<and> cur = c) (row_key r)"
      "earning f \<and> sf_currency f = c \<longleftrightarrow> (\<lambda>(p, st, cur). st \<in> set bookingStatsRevenueStatuses \<and> cur = c) (group_key query f)" for r f c
      by (auto simp: earns_def earning_def row_key_def group_key_def bookingStatsRevenueStatuses_def)
    have m: "map_of (sb_revenue b) c = (if \<exists>f \<in> set ?fs. earning f \<and> sf_currency f = c
        then Some (sum_list (map sf_priceAmount (filter (\<lambda>f. earning f \<and> sf_currency f = c) ?fs))) else None)" for c
    proof -
      let ?Q = "\<lambda>(p, st, cur). st \<in> set bookingStatsRevenueStatuses \<and> cur = c"
      note n = narrow [of "\<lambda>r. earns r \<and> ar_currency r = c" ?Q "\<lambda>f. earning f \<and> sf_currency f = c", OF Q]
      note a = aggregate_sums(2,3) [where R = "\<lambda>k. R k \<and> ?Q k" and query = query and facts = facts]
      have ex: "(\<exists>r \<in> set (filter (R \<circ> row_key) ?rows). earns r \<and> ar_currency r = c) \<longleftrightarrow> (\<exists>f \<in> set ?fs. earning f \<and> sf_currency f = c)"
        unfolding Q using a(2) by auto
      have sums: "sum_list (map ?amount (filter (\<lambda>r. earns r \<and> ar_currency r = c) (filter (R \<circ> row_key) ?rows)))
          = sum_list (map sf_priceAmount (filter (\<lambda>f. earning f \<and> sf_currency f = c) ?fs))"
        unfolding n using a(1) by (subst amount) auto
      have "map_of (sb_revenue b) c = (if \<exists>r \<in> set (filter (R \<circ> row_key) ?rows). earns r \<and> ar_currency r = c
          then Some (sum_list (map ?amount (filter (\<lambda>r. earns r \<and> ar_currency r = c) (filter (R \<circ> row_key) ?rows)))) else None)"
        using b unfolding tallies_def by blast
      then show ?thesis unfolding ex sums .
    qed
    have d: "distinct (map fst (sb_revenue b))" using b by (simp add: tallies_def)
    have "(c, a) \<in> set (sb_revenue b) \<longleftrightarrow> c \<in> sf_currency ` {f \<in> set ?fs. earning f}
        \<and> a = sum_list (map sf_priceAmount (filter (\<lambda>f. earning f \<and> sf_currency f = c) ?fs))" for c a
      unfolding map_of_eq_Some_iff [OF d, symmetric] m [of c] by auto
    then show ?thesis unfolding built(3) by (rule graph_eq)
  qed
  moreover have "distinct (map fst (bs_projectedRevenue s))" using b built(4) by (simp add: tallies_def)
  ultimately show ?thesis by (simp add: summarizes_def)
qed

lemma build_buckets_Inr:
  assumes "build_buckets localeKey bs = Inr list"
  shows "map bk_period list = map fst bs
    \<and> (\<forall>k \<in> set list. \<exists>b. (bk_period k, b) \<in> set bs \<and> build_summary localeKey b = Inr (bk_summary k))"
  using assms
proof (induction bs arbitrary: list)
  case (Cons e bs)
  obtain p b where e: "e = (p, b)" by fastforce
  from Cons.prems obtain s rest where "build_summary localeKey b = Inr s" "build_buckets localeKey bs = Inr rest"
    "list = \<lparr>bk_period = p, bk_summary = s\<rparr> # rest"
    by (auto simp: e step_simps)
  then show ?case using Cons.IH by (auto simp: e)
qed simp

lemma report_Inr:
  assumes "stats_report localeKey enabled unavailable query table = Inr r"
  obtains totals buckets where
    "summarize_rows (bookingStatsAggregateStatement query (map st_fact table)) (new_SummaryBuilder, []) = (totals, buckets)"
    "build_summary localeKey totals = Inr (rp_totals r)"
    "build_buckets localeKey (sort_key (localeKey \<circ> fst) buckets) = Inr (rp_buckets r)"
proof -
  obtain totals buckets where t: "summarize_rows (bookingStatsAggregateStatement query (map st_fact table)) (new_SummaryBuilder, []) = (totals, buckets)"
    by fastforce
  show ?thesis
    using assms by (intro that [OF t])
      (auto simp: stats_report_def summarizeBookingStats_def t step_simps split: if_splits option.splits prod.splits)
qed

lemma some_image:
  assumes "\<And>p. p \<in> A \<longleftrightarrow> (\<exists>x \<in> S. h x = Some p)"
  shows "Some ` A = {h x | x. x \<in> S} - {None}"
proof (rule set_eqI)
  fix v
  show "v \<in> Some ` A \<longleftrightarrow> v \<in> {h x | x. x \<in> S} - {None}"
  proof (cases v)
    case (Some p)
    have "v \<in> {h x | x. x \<in> S} - {None} \<longleftrightarrow> (\<exists>x \<in> S. h x = Some p)" unfolding Some by (auto simp: eq_commute [of "Some p"])
    then show ?thesis using assms [of p] by (simp add: Some image_iff)
  qed auto
qed

lemma report_parts:
  assumes "stats_report localeKey enabled unavailable query table = Inr r"
  shows "summarizes (filter (in_report query) (map st_fact table)) (rp_totals r)"
    and "distinct (map bk_period (rp_buckets r))"
    and "Some ` set (map bk_period (rp_buckets r)) =
      {periodExpressions (sq_groupBy query) (sf_checkIn f) | f. f \<in> set (filter (in_report query) (map st_fact table))} - {None}"
    and "\<forall>k \<in> set (rp_buckets r). summarizes (filter (\<lambda>f. in_report query f
        \<and> periodExpressions (sq_groupBy query) (sf_checkIn f) = Some (bk_period k)) (map st_fact table)) (bk_summary k)"
    and "\<forall>(c, amount) \<in> set (bs_projectedRevenue (rp_totals r)). amount \<le> int number_max_safe_integer"
proof -
  let ?facts = "map st_fact table"
  let ?rows = "bookingStatsAggregateStatement query ?facts"
  obtain totals buckets where t: "summarize_rows ?rows (new_SummaryBuilder, []) = (totals, buckets)"
    and total_summary: "build_summary localeKey totals = Inr (rp_totals r)"
    and built: "build_buckets localeKey (sort_key (localeKey \<circ> fst) buckets) = Inr (rp_buckets r)"
    using assms by (rule report_Inr)
  note rows = summarize_rows_eq [OF t]
  have "tallies (filter ((\<lambda>_. True) \<circ> row_key) ?rows) totals"
    using tallies_fold [OF tallies_new, of ?rows] rows by simp
  from tallies_summarizes [OF this total_summary] show "summarizes (filter (in_report query) ?facts) (rp_totals r)"
    by simp
  show "\<forall>(c, amount) \<in> set (bs_projectedRevenue (rp_totals r)). amount \<le> int number_max_safe_integer"
    by (rule build_summary_Inr(5) [OF total_summary])
  have keys: "distinct (map fst buckets)" using rows by simp
  have b: "map bk_period (rp_buckets r) = map fst (sort_key (localeKey \<circ> fst) buckets)"
    "\<forall>k \<in> set (rp_buckets r). \<exists>b. (bk_period k, b) \<in> set buckets \<and> build_summary localeKey b = Inr (bk_summary k)"
    using build_buckets_Inr [OF built] by simp_all
  show "distinct (map bk_period (rp_buckets r))" unfolding b(1) using keys by (simp add: distinct_map_sort_key)
  have lookup: "map_of buckets p = (if filter (\<lambda>r. ar_period r = Some p) ?rows = [] then None
      else Some (fold add_row (filter (\<lambda>r. ar_period r = Some p) ?rows) new_SummaryBuilder))" for p
    using summarize_rows_eq [OF t, of p] by (simp add: Let_def)
  have "p \<in> fst ` set buckets \<longleftrightarrow> (\<exists>f \<in> set (filter (in_report query) ?facts). periodExpressions (sq_groupBy query) (sf_checkIn f) = Some p)" for p
  proof -
    have "p \<in> fst ` set buckets \<longleftrightarrow> (\<exists>row \<in> set ?rows. fst (row_key row) = Some p)"
    proof -
      have "p \<in> fst ` set buckets \<longleftrightarrow> map_of buckets p \<noteq> None" by (simp add: map_of_eq_None_iff)
      also have "\<dots> \<longleftrightarrow> filter (\<lambda>r. ar_period r = Some p) ?rows \<noteq> []" by (simp only: lookup split: if_split) simp
      finally show ?thesis by (simp add: filter_empty_conv row_key_def)
    qed
    also have "\<dots> \<longleftrightarrow> (\<exists>f \<in> set (filter (in_report query) ?facts). fst (group_key query f) = Some p)"
      by (rule aggregate_sums(3) [where R = "\<lambda>k. fst k = Some p"])
    finally show ?thesis by (simp add: group_key_def)
  qed
  then show "Some ` set (map bk_period (rp_buckets r)) =
      {periodExpressions (sq_groupBy query) (sf_checkIn f) | f. f \<in> set (filter (in_report query) ?facts)} - {None}"
    using some_image [of "fst ` set buckets" "set (filter (in_report query) ?facts)"
        "\<lambda>f. periodExpressions (sq_groupBy query) (sf_checkIn f)"] unfolding b(1) by simp
  show "\<forall>k \<in> set (rp_buckets r). summarizes (filter (\<lambda>f. in_report query f
        \<and> periodExpressions (sq_groupBy query) (sf_checkIn f) = Some (bk_period k)) ?facts) (bk_summary k)"
  proof
    fix k
    assume "k \<in> set (rp_buckets r)"
    then obtain b where k: "map_of buckets (bk_period k) = Some b" "build_summary localeKey b = Inr (bk_summary k)"
      using b(2) keys by (metis map_of_eq_Some_iff)
    let ?R = "\<lambda>k'. fst k' = Some (bk_period k)"
    have "tallies (filter (?R \<circ> row_key) ?rows) b"
      using k(1) lookup [of "bk_period k"] tallies_fold [OF tallies_new, of "filter (?R \<circ> row_key) ?rows"]
      by (auto simp: row_key_def comp_def split: if_splits)
    from tallies_summarizes [OF this k(2)]
    show "summarizes (filter (\<lambda>f. in_report query f \<and> periodExpressions (sq_groupBy query) (sf_checkIn f) = Some (bk_period k)) ?facts) (bk_summary k)"
      by (simp add: group_key_def comp_def conj_commute)
  qed
qed

subsection \<open>Properties of the report\<close>

text \<open>C28. A report counts every booking once. Its totals summarize the facts whose check-in is in the range and
  whose room type is the one asked for: their number, the number per status, and per currency the sum over
  the confirmed and completed ones, which fits a JSON number. There is one bucket per day or month that has
  such a fact, and it summarizes exactly the facts of that day or month.\<close>

theorem report_counts:
  assumes "stats_report localeKey enabled unavailable query table = Inr r"
  shows "summarizes (filter (in_report query) (map st_fact table)) (rp_totals r)
    \<and> (\<forall>(c, amount) \<in> set (bs_projectedRevenue (rp_totals r)). amount \<le> int number_max_safe_integer)
    \<and> Some ` set (map bk_period (rp_buckets r)) =
        {periodExpressions (sq_groupBy query) (sf_checkIn f) | f. f \<in> set (filter (in_report query) (map st_fact table))} - {None}
    \<and> (\<forall>k \<in> set (rp_buckets r). summarizes (filter (\<lambda>f. in_report query f
          \<and> periodExpressions (sq_groupBy query) (sf_checkIn f) = Some (bk_period k)) (map st_fact table)) (bk_summary k))"
  using report_parts [OF assms] by blast

definition demo_fact :: BookingStatsFactRow where
  "demo_fact = \<lparr>sf_bookingPublicId = ''b1'', sf_bookingVersion = 2, sf_status = Confirmed, sf_roomId = ''2'', sf_roomTypeId = ''1'',
     sf_checkIn = ''2024-02-28'', sf_checkOut = ''2024-03-01'', sf_priceAmount = 1000, sf_currency = ''VND'', sf_lastEventId = ''e1'',
     sf_lastOccurredAt = 1709078400000\<rparr>"

definition demo_stats_query :: BookingStatsQuery where
  "demo_stats_query = \<lparr>sq_from = ''2024-02-01'', sq_to = ''2024-03-01'', sq_roomTypeId = None, sq_groupBy = Some GroupMonth\<rparr>"

lemma demo_report:
  "\<exists>r. stats_report id True None demo_stats_query [\<lparr>st_fact = demo_fact, st_createdAt = 0, st_updatedAt = 0\<rparr>] = Inr r
     \<and> bs_projectedRevenue (rp_totals r) = [(''VND'', 1000)] \<and> map bk_period (rp_buckets r) = [''2024-02-01'']"
proof -
  have days: "hotelDateSpanDays ''2024-02-01'' ''2024-03-01'' = Some 29" by code_simp
  have order: "''2024-02-01'' \<le> ''2024-02-28''" "''2024-02-28'' < ''2024-03-01''" by code_simp+
  show ?thesis
    by (simp add: stats_report_def demo_stats_query_def demo_fact_def days bookingStatsMaxRangeDays_def summarizeBookingStats_def
        bookingStatsAggregateStatement_def in_report_def order group_key_def add_row_def new_SummaryBuilder_def
        bookingStatsRevenueStatuses_def entries_set_def build_summary_def number_max_safe_integer_def Let_def)
qed

theorem report_counts_witness:
  "\<exists>r :: BookingStatsReport. summarizes [demo_fact] (rp_totals r) \<and> bs_projectedRevenue (rp_totals r) = [(''VND'', 1000)]"
proof -
  obtain r where r: "stats_report id True None demo_stats_query [\<lparr>st_fact = demo_fact, st_createdAt = 0, st_updatedAt = 0\<rparr>] = Inr r"
    "bs_projectedRevenue (rp_totals r) = [(''VND'', 1000)]"
    using demo_report by blast
  have "''2024-02-01'' \<le> ''2024-02-28''" "''2024-02-28'' < ''2024-03-01''" by code_simp+
  then have "in_report demo_stats_query demo_fact" by (simp add: in_report_def demo_stats_query_def demo_fact_def)
  then have "summarizes [demo_fact] (rp_totals r)" using report_counts [OF r(1)] by simp
  then show ?thesis using r(2) by blast
qed

end
