(* ===== verification/Mail_Event.thy ===== *)
theory Mail_Event
  imports Lifecycle Bookings Text_Search
begin

text \<open>
  The notification events (notifications/notification-event.ts): the four kinds of mail a booking
  transaction asks for, and the strict parser the mail worker applies to the payload of such an event. The
  ISO 4217 table of class-validator is the parameter \<open>iso4217\<close>. The lemmas show that what the parser returns
  is well typed and that it reads every well-typed event back from its payload.
\<close>

subsection \<open>Events\<close>

record NotificationBookingSnapshot =
  ns_roomId :: string
  ns_roomNumber :: string
  ns_checkIn :: hotel_date
  ns_checkOut :: hotel_date
  ns_status :: BookingStatus
  ns_amount :: int
  ns_currency :: string

record NotificationChangeEndpoint =
  nc_roomId :: string
  nc_checkIn :: hotel_date
  nc_checkOut :: hotel_date

record NotificationEventBase =
  ne_bookingId :: string
  ne_ownerUserId :: string
  ne_bookingVersion :: int

datatype NotificationEvent =
    BookingConfirmedEvent NotificationEventBase NotificationBookingSnapshot
  | BookingRejectedEvent NotificationEventBase NotificationBookingSnapshot string
  | BookingChangedEvent NotificationEventBase NotificationBookingSnapshot string
      NotificationChangeEndpoint NotificationChangeEndpoint
  | BookingCancelledByAdminEvent NotificationEventBase NotificationBookingSnapshot string

definition notificationEventTypes :: "string list" where
  "notificationEventTypes = [''booking.confirmed'', ''booking.rejected'', ''booking.changed'', ''booking.cancelled_by_admin'']"

text \<open>
  The errors of the mail worker: an event that breaks the contract, with its code and message, a delivery
  that cannot be prepared, with its code, and anything else.
\<close>

datatype mail_error = NotificationEventError string string | DeliveryPreparationError string | UnexpectedError error

definition invalid_mail :: "string \<Rightarrow> mail_error" where
  "invalid_mail path = NotificationEventError ''NOTIFICATION_EVENT_INVALID'' (''Invalid notification event field: '' @ path)"

definition unsupportedType :: mail_error where
  "unsupportedType = NotificationEventError ''NOTIFICATION_EVENT_TYPE_UNSUPPORTED'' ''Notification event type is unsupported.''"

definition unsupportedVersion :: mail_error where
  "unsupportedVersion =
     NotificationEventError ''NOTIFICATION_EVENT_VERSION_UNSUPPORTED'' ''Notification event schema version is unsupported.''"

subsection \<open>The checks\<close>

definition requireRecord_mail :: "json option \<Rightarrow> string \<Rightarrow> mail_error + (string \<times> json) list" where
  "requireRecord_mail input path = (case input of Some (JObj entries) \<Rightarrow> Inr entries | _ \<Rightarrow> Inl (invalid_mail path))"

definition requireExactKeys :: "(string \<times> json) list \<Rightarrow> string list \<Rightarrow> string \<Rightarrow> mail_error + unit" where
  "requireExactKeys value expected path = require (sort (map fst value) = sort expected) (invalid_mail path)"

text \<open>A control character other than tab, line feed and carriage return, or DEL.\<close>

definition hasUnsafeBodyControl :: "string \<Rightarrow> bool" where
  "hasUnsafeBodyControl value \<longleftrightarrow>
     (\<exists>c \<in> set value. let code = of_char c :: nat in code = 127 \<or> code < 32 \<and> code \<noteq> 9 \<and> code \<noteq> 10 \<and> code \<noteq> 13)"

definition requireString_mail ::
  "json option \<Rightarrow> string \<Rightarrow> nat \<Rightarrow> nat \<Rightarrow> (string \<Rightarrow> bool) \<Rightarrow> bool \<Rightarrow> mail_error + string" where
  "requireString_mail value path minimum maximum pattern requireTrimmed =
     (case value of
        Some (JStr s) \<Rightarrow>
          if length s < minimum \<or> length s > maximum \<or> hasUnsafeBodyControl s \<or> requireTrimmed \<and> trim s \<noteq> s \<or> \<not> pattern s
          then Inl (invalid_mail path) else Inr s
      | _ \<Rightarrow> Inl (invalid_mail path))"

definition any_text :: "string \<Rightarrow> bool" where
  "any_text s \<longleftrightarrow> True"

definition requireSafeInteger :: "json option \<Rightarrow> string \<Rightarrow> int \<Rightarrow> mail_error + int" where
  "requireSafeInteger value path minimum =
     (case value of
        Some (JNum n) \<Rightarrow> if isSafeInteger n \<and> minimum \<le> n then Inr n else Inl (invalid_mail path)
      | _ \<Rightarrow> Inl (invalid_mail path))"

definition requireCurrency :: "(string \<Rightarrow> bool) \<Rightarrow> json option \<Rightarrow> mail_error + string" where
  "requireCurrency iso4217 value =
     and_then (requireString_mail value ''booking.price.currency'' 3 3 currencyPattern False) (\<lambda>currency.
     if \<not> iso4217 currency then Inl (invalid_mail ''booking.price.currency'') else Inr currency)"

definition requireEnum :: "json option \<Rightarrow> string \<Rightarrow> BookingStatus list \<Rightarrow> mail_error + BookingStatus" where
  "requireEnum value path allowed =
     (case value of
        Some (JStr s) \<Rightarrow> or_throw (List.find (\<lambda>st. show_BookingStatus st = s) allowed) (invalid_mail path)
      | _ \<Rightarrow> Inl (invalid_mail path))"

definition requireHotelDate_mail :: "json option \<Rightarrow> string \<Rightarrow> mail_error + hotel_date" where
  "requireHotelDate_mail value path =
     and_then (requireString_mail value path 10 10 hotelDatePattern False) (\<lambda>date.
     case date_parse date of
       None \<Rightarrow> Inl (invalid_mail path)
     | Some ms \<Rightarrow> if take 10 (toISOString ms) \<noteq> date then Inl (invalid_mail path) else Inr date)"

text \<open>The second component is the reason, \<open>None\<close> when none is required.\<close>

definition requireBookingSnapshot ::
  "(string \<Rightarrow> bool) \<Rightarrow> json option \<Rightarrow> BookingStatus list \<Rightarrow> bool \<Rightarrow> mail_error + NotificationBookingSnapshot \<times> string option" where
  "requireBookingSnapshot iso4217 input expectedStatuses reasonRequired =
     and_then (requireRecord_mail input ''booking'') (\<lambda>value.
     and_then (requireExactKeys value
        ([''room'', ''checkIn'', ''checkOut'', ''status'', ''price''] @ (if reasonRequired then [''reason''] else [])) ''booking'') (\<lambda>_.
     and_then (requireRecord_mail (json_field ''room'' value) ''booking.room'') (\<lambda>room.
     and_then (requireExactKeys room [''id'', ''roomNumber''] ''booking.room'') (\<lambda>_.
     and_then (requireRecord_mail (json_field ''price'' value) ''booking.price'') (\<lambda>price.
     and_then (requireExactKeys price [''amount'', ''currency''] ''booking.price'') (\<lambda>_.
     and_then (requireHotelDate_mail (json_field ''checkIn'' value) ''booking.checkIn'') (\<lambda>checkIn.
     and_then (requireHotelDate_mail (json_field ''checkOut'' value) ''booking.checkOut'') (\<lambda>checkOut.
     if checkIn \<ge> checkOut then Inl (invalid_mail ''booking.checkOut'') else
     and_then (requireEnum (json_field ''status'' value) ''booking.status'' expectedStatuses) (\<lambda>status.
     and_then (requireString_mail (json_field ''id'' room) ''booking.room.id'' 1 20 decimalIdPattern False) (\<lambda>roomId.
     and_then (requireString_mail (json_field ''roomNumber'' room) ''booking.room.roomNumber'' 1 50 any_text True) (\<lambda>roomNumber.
     and_then (requireSafeInteger (json_field ''amount'' price) ''booking.price.amount'' 0) (\<lambda>amount.
     and_then (requireCurrency iso4217 (json_field ''currency'' price)) (\<lambda>currency.
     let snapshot = \<lparr>ns_roomId = roomId, ns_roomNumber = roomNumber, ns_checkIn = checkIn, ns_checkOut = checkOut,
                     ns_status = status, ns_amount = amount, ns_currency = currency\<rparr> in
     if \<not> reasonRequired then Inr (snapshot, None)
     else
     and_then (requireString_mail (json_field ''reason'' value) ''booking.reason'' 1 1000 any_text True) (\<lambda>reason.
     Inr (snapshot, Some reason)))))))))))))))"

definition requireChangeEndpoint :: "json option \<Rightarrow> string \<Rightarrow> mail_error + NotificationChangeEndpoint" where
  "requireChangeEndpoint input path =
     and_then (requireRecord_mail input path) (\<lambda>value.
     and_then (requireExactKeys value [''roomId'', ''checkIn'', ''checkOut''] path) (\<lambda>_.
     and_then (requireHotelDate_mail (json_field ''checkIn'' value) (path @ ''.checkIn'')) (\<lambda>checkIn.
     and_then (requireHotelDate_mail (json_field ''checkOut'' value) (path @ ''.checkOut'')) (\<lambda>checkOut.
     if checkIn \<ge> checkOut then Inl (invalid_mail (path @ ''.checkOut'')) else
     and_then (requireString_mail (json_field ''roomId'' value) (path @ ''.roomId'') 1 20 decimalIdPattern False) (\<lambda>roomId.
     Inr \<lparr>nc_roomId = roomId, nc_checkIn = checkIn, nc_checkOut = checkOut\<rparr>)))))"

definition basePayloadKeys :: "string list" where
  "basePayloadKeys = [''schemaVersion'', ''bookingId'', ''ownerUserId'', ''bookingVersion'', ''booking'']"

definition with_reason ::
  "(NotificationBookingSnapshot \<Rightarrow> string \<Rightarrow> mail_error + 'a) \<Rightarrow> NotificationBookingSnapshot \<times> string option \<Rightarrow> mail_error + 'a" where
  "with_reason f parsed = (case parsed of (snapshot, Some reason) \<Rightarrow> f snapshot reason | (snapshot, None) \<Rightarrow> Inl (invalid_mail ''booking.reason''))"

definition parseNotificationEvent :: "(string \<Rightarrow> bool) \<Rightarrow> string \<Rightarrow> json \<Rightarrow> mail_error + NotificationEvent" where
  "parseNotificationEvent iso4217 eventType payload =
     and_then (require (eventType \<in> set notificationEventTypes) unsupportedType) (\<lambda>_.
     and_then (requireRecord_mail (Some payload) ''payload'') (\<lambda>value.
     and_then (requireSafeInteger (json_field ''schemaVersion'' value) ''schemaVersion'' 1) (\<lambda>schemaVersion.
     and_then (require (schemaVersion = 1) unsupportedVersion) (\<lambda>_.
     and_then (requireExactKeys value
        (basePayloadKeys @ (if eventType = ''booking.changed'' then [''before'', ''after''] else [])) ''payload'') (\<lambda>_.
     and_then (requireString_mail (json_field ''bookingId'' value) ''bookingId'' 26 26 bookingPublicIdPattern False) (\<lambda>bookingId.
     and_then (requireString_mail (json_field ''ownerUserId'' value) ''ownerUserId'' 1 20 decimalIdPattern False) (\<lambda>ownerUserId.
     and_then (requireSafeInteger (json_field ''bookingVersion'' value) ''bookingVersion'' 1) (\<lambda>bookingVersion.
     let common = \<lparr>ne_bookingId = bookingId, ne_ownerUserId = ownerUserId, ne_bookingVersion = bookingVersion\<rparr>;
         booking = json_field ''booking'' value in
     if eventType = ''booking.confirmed'' then
       and_then (requireBookingSnapshot iso4217 booking [Confirmed] False) (\<lambda>(snapshot, _).
       Inr (BookingConfirmedEvent common snapshot))
     else if eventType = ''booking.rejected'' then
       and_then (requireBookingSnapshot iso4217 booking [Rejected] True) (with_reason (\<lambda>snapshot reason.
       Inr (BookingRejectedEvent common snapshot reason)))
     else if eventType = ''booking.cancelled_by_admin'' then
       and_then (requireBookingSnapshot iso4217 booking [CancelledByAdmin] True) (with_reason (\<lambda>snapshot reason.
       Inr (BookingCancelledByAdminEvent common snapshot reason)))
     else
       and_then (requireBookingSnapshot iso4217 booking [Pending, Confirmed] True) (with_reason (\<lambda>snapshot reason.
       and_then (requireChangeEndpoint (json_field ''before'' value) ''before'') (\<lambda>before.
       and_then (requireChangeEndpoint (json_field ''after'' value) ''after'') (\<lambda>after.
       if nc_roomId after \<noteq> ns_roomId snapshot \<or> nc_checkIn after \<noteq> ns_checkIn snapshot \<or> nc_checkOut after \<noteq> ns_checkOut snapshot
       then Inl (invalid_mail ''after'')
       else if nc_roomId before = nc_roomId after \<and> nc_checkIn before = nc_checkIn after \<and> nc_checkOut before = nc_checkOut after
       then Inl (invalid_mail ''before'')
       else Inr (BookingChangedEvent common snapshot reason before after)))))))))))))"

subsection \<open>Well-typed events\<close>

definition clean_text :: "nat \<Rightarrow> string \<Rightarrow> bool" where
  "clean_text maximum s \<longleftrightarrow> 1 \<le> length s \<and> length s \<le> maximum \<and> \<not> hasUnsafeBodyControl s \<and> trim s = s"

definition typed_stay :: "hotel_date \<Rightarrow> hotel_date \<Rightarrow> bool" where
  "typed_stay checkIn checkOut \<longleftrightarrow> strict_hotel_date checkIn \<and> strict_hotel_date checkOut \<and> checkIn < checkOut"

definition typed_snapshot :: "(string \<Rightarrow> bool) \<Rightarrow> BookingStatus list \<Rightarrow> NotificationBookingSnapshot \<Rightarrow> bool" where
  "typed_snapshot iso4217 statuses s \<longleftrightarrow>
     decimalIdPattern (ns_roomId s) \<and> clean_text 50 (ns_roomNumber s) \<and> typed_stay (ns_checkIn s) (ns_checkOut s)
     \<and> ns_status s \<in> set statuses \<and> 0 \<le> ns_amount s \<and> isSafeInteger (ns_amount s)
     \<and> currencyPattern (ns_currency s) \<and> iso4217 (ns_currency s)"

definition typed_endpoint :: "NotificationChangeEndpoint \<Rightarrow> bool" where
  "typed_endpoint e \<longleftrightarrow> decimalIdPattern (nc_roomId e) \<and> typed_stay (nc_checkIn e) (nc_checkOut e)"

definition typed_base :: "NotificationEventBase \<Rightarrow> bool" where
  "typed_base b \<longleftrightarrow> bookingPublicIdPattern (ne_bookingId b) \<and> decimalIdPattern (ne_ownerUserId b)
     \<and> 1 \<le> ne_bookingVersion b \<and> isSafeInteger (ne_bookingVersion b)"

fun typed_event :: "(string \<Rightarrow> bool) \<Rightarrow> NotificationEvent \<Rightarrow> bool" where
  "typed_event iso4217 (BookingConfirmedEvent b s) \<longleftrightarrow> typed_base b \<and> typed_snapshot iso4217 [Confirmed] s"
| "typed_event iso4217 (BookingRejectedEvent b s r) \<longleftrightarrow> typed_base b \<and> typed_snapshot iso4217 [Rejected] s \<and> clean_text 1000 r"
| "typed_event iso4217 (BookingCancelledByAdminEvent b s r) \<longleftrightarrow>
     typed_base b \<and> typed_snapshot iso4217 [CancelledByAdmin] s \<and> clean_text 1000 r"
| "typed_event iso4217 (BookingChangedEvent b s r before after) \<longleftrightarrow>
     typed_base b \<and> typed_snapshot iso4217 [Pending, Confirmed] s \<and> clean_text 1000 r
     \<and> typed_endpoint before \<and> typed_endpoint after \<and> before \<noteq> after
     \<and> after = \<lparr>nc_roomId = ns_roomId s, nc_checkIn = ns_checkIn s, nc_checkOut = ns_checkOut s\<rparr>"

fun event_type_of :: "NotificationEvent \<Rightarrow> string" where
  "event_type_of (BookingConfirmedEvent b s) = ''booking.confirmed''"
| "event_type_of (BookingRejectedEvent b s r) = ''booking.rejected''"
| "event_type_of (BookingChangedEvent b s r before after) = ''booking.changed''"
| "event_type_of (BookingCancelledByAdminEvent b s r) = ''booking.cancelled_by_admin''"

subsection \<open>What the checks accept\<close>

lemma requireRecord_mail_Inr: "requireRecord_mail v path = Inr entries \<longleftrightarrow> v = Some (JObj entries)"
  by (auto simp: requireRecord_mail_def split: option.splits json.splits)

lemma requireExactKeys_Inr: "requireExactKeys value expected path = Inr u \<longleftrightarrow> sort (map fst value) = sort expected"
  by (simp add: requireExactKeys_def require_Inr_iff)

lemma requireString_mail_Inr:
  "requireString_mail v path minimum maximum pattern trimmed = Inr s \<longleftrightarrow>
     v = Some (JStr s) \<and> minimum \<le> length s \<and> length s \<le> maximum \<and> \<not> hasUnsafeBodyControl s
     \<and> (trimmed \<longrightarrow> trim s = s) \<and> pattern s"
  by (auto simp: requireString_mail_def not_less split: option.splits json.splits if_splits)

lemma requireSafeInteger_Inr:
  "requireSafeInteger v path k = Inr n \<longleftrightarrow> v = Some (JNum n) \<and> isSafeInteger n \<and> k \<le> n"
  by (auto simp: requireSafeInteger_def split: option.splits json.splits if_splits)

lemma requireEnum_Inr:
  "requireEnum v path allowed = Inr st \<longleftrightarrow> v = Some (JStr (show_BookingStatus st)) \<and> st \<in> set allowed"
proof -
  have "List.find (\<lambda>st. show_BookingStatus st = s) allowed = Some st \<longleftrightarrow> s = show_BookingStatus st \<and> st \<in> set allowed" for s
    by (induction allowed) (auto simp: show_BookingStatus_inj)
  then show ?thesis by (auto simp: requireEnum_def or_throw_Inr_iff split: option.splits json.splits)
qed

text \<open>No character of the fixed formats is a control character.\<close>

definition plain_char :: "char \<Rightarrow> bool" where
  "plain_char c \<longleftrightarrow> 32 \<le> (of_char c :: nat) \<and> (of_char c :: nat) < 127"

lemma plain_text: "list_all plain_char s \<Longrightarrow> \<not> hasUnsafeBodyControl s"
  by (force simp: hasUnsafeBodyControl_def plain_char_def list_all_iff Let_def)

lemma in_range_plain: "in_range a b c \<Longrightarrow> plain_char a \<Longrightarrow> plain_char b \<Longrightarrow> plain_char c"
  by (simp add: in_range_def plain_char_def less_eq_char_def)

lemma is_digit_plain: "is_digit c \<Longrightarrow> plain_char c"
  by (auto simp: is_digit_def plain_char_def less_eq_char_def)

lemma format_plain:
  "decimalIdPattern s \<Longrightarrow> list_all plain_char s" "currencyPattern s \<Longrightarrow> list_all plain_char s"
  "bookingPublicIdPattern s \<Longrightarrow> list_all plain_char s" "hotelDatePattern s \<Longrightarrow> list_all plain_char s"
proof -
  have ends: "plain_char CHR ''0''" "plain_char CHR ''7''" "plain_char CHR ''A''" "plain_char CHR ''H''" "plain_char CHR ''P''"
    "plain_char CHR ''T''" "plain_char CHR ''V''" "plain_char CHR ''Z''" "plain_char CHR ''-''" "\<forall>c \<in> set ''JKMN''. plain_char c"
    by (simp_all add: plain_char_def)
  show "decimalIdPattern s \<Longrightarrow> list_all plain_char s"
    by (auto simp: decimalIdPattern_def list_all_iff is_digit_plain)
  show "currencyPattern s \<Longrightarrow> list_all plain_char s"
    using ends in_range_plain by (auto simp: currencyPattern_def list_all_iff)
  show "bookingPublicIdPattern s \<Longrightarrow> list_all plain_char s"
  proof -
    assume p: "bookingPublicIdPattern s"
    then obtain c cs where s: "s = c # cs" by (cases s) (simp_all add: bookingPublicIdPattern_def)
    show ?thesis
      using p ends in_range_plain is_digit_plain unfolding s bookingPublicIdPattern_def by (simp add: list_all_iff) blast
  qed
  show "hotelDatePattern s \<Longrightarrow> list_all plain_char s"
  proof -
    assume p: "hotelDatePattern s"
    then have "length s = 10" by (simp add: hotelDatePattern_def matches_date_def)
    then obtain c0 c1 c2 c3 c4 c5 c6 c7 c8 c9 where s: "s = [c0, c1, c2, c3, c4, c5, c6, c7, c8, c9]"
      by (auto simp: length_Suc_conv eval_nat_numeral)
    show ?thesis using p ends is_digit_plain by (simp add: s hotelDatePattern_def matches_date_def)
  qed
qed

lemmas format_clean = format_plain [THEN plain_text]

lemma format_length:
  "decimalIdPattern s \<Longrightarrow> 1 \<le> length s \<and> length s \<le> 20" "currencyPattern s \<Longrightarrow> length s = 3"
  "bookingPublicIdPattern s \<Longrightarrow> length s = 26" "hotelDatePattern s \<Longrightarrow> length s = 10"
  by (simp_all add: decimalIdPattern_def currencyPattern_def bookingPublicIdPattern_def hotelDatePattern_def matches_date_def Suc_le_eq)

text \<open>A format is accepted exactly when it matches; lengths and control characters add nothing.\<close>

lemma requireFormat_Inr:
  "requireString_mail v path 1 20 decimalIdPattern False = Inr s \<longleftrightarrow> v = Some (JStr s) \<and> decimalIdPattern s"
  "requireString_mail v path 26 26 bookingPublicIdPattern False = Inr s \<longleftrightarrow> v = Some (JStr s) \<and> bookingPublicIdPattern s"
  "requireString_mail v path 1 maximum any_text True = Inr s \<longleftrightarrow> v = Some (JStr s) \<and> clean_text maximum s"
  using format_clean format_length
  by (auto simp: requireString_mail_Inr clean_text_def any_text_def)

lemma requireCurrency_Inr:
  "requireCurrency iso4217 v = Inr s \<longleftrightarrow> v = Some (JStr s) \<and> currencyPattern s \<and> iso4217 s"
  using format_clean format_length
  by (auto simp: requireCurrency_def step_simps requireString_mail_Inr)

lemma requireHotelDate_mail_Inr: "requireHotelDate_mail v path = Inr d \<longleftrightarrow> v = Some (JStr d) \<and> strict_hotel_date d"
proof -
  have str: "requireString_mail v path 10 10 hotelDatePattern False = Inr s \<longleftrightarrow> v = Some (JStr s) \<and> hotelDatePattern s" for s
    using format_clean(4) format_length(4) by (auto simp: requireString_mail_Inr)
  have "requireHotelDate_mail v path = Inr d \<longleftrightarrow> v = Some (JStr d) \<and> hotelDatePattern d
      \<and> (\<exists>ms. date_parse d = Some ms \<and> take 10 (toISOString ms) = d)"
    unfolding requireHotelDate_mail_def and_then_Inr_iff str
    by (auto split: option.splits if_splits)
  then show ?thesis using date_parse_strict by (auto simp: strict_hotel_date_def)
qed

lemmas mail_require_Inr = requireRecord_mail_Inr requireExactKeys_Inr requireFormat_Inr requireSafeInteger_Inr requireEnum_Inr
  requireCurrency_Inr requireHotelDate_mail_Inr

lemma requireBookingSnapshot_typed:
  assumes "requireBookingSnapshot iso4217 v statuses reasonRequired = Inr (s, r)"
  shows "typed_snapshot iso4217 statuses s \<and> (if reasonRequired then \<exists>reason. r = Some reason \<and> clean_text 1000 reason else r = None)"
  using assms unfolding requireBookingSnapshot_def
  by (auto simp: step_simps mail_require_Inr typed_snapshot_def typed_stay_def Let_def simp del: sort_key_simps One_nat_def split: if_splits)

lemma requireChangeEndpoint_typed: "requireChangeEndpoint v path = Inr e \<Longrightarrow> typed_endpoint e"
  unfolding requireChangeEndpoint_def
  by (auto simp: step_simps mail_require_Inr typed_endpoint_def typed_stay_def simp del: sort_key_simps One_nat_def split: if_splits)

lemma with_reason_Inr: "with_reason f p = Inr x \<longleftrightarrow> (\<exists>snapshot reason. p = (snapshot, Some reason) \<and> f snapshot reason = Inr x)"
  by (auto simp: with_reason_def split: prod.splits option.splits)

lemma event_typed:
  assumes "parseNotificationEvent iso4217 eventType payload = Inr e"
  shows "typed_event iso4217 e \<and> event_type_of e = eventType"
proof -
  note parsed = assms [unfolded parseNotificationEvent_def and_then_Inr_iff require_Inr_iff Let_def]
  note hints = step_simps mail_require_Inr with_reason_Inr typed_base_def
  from parsed have "eventType \<in> set notificationEventTypes" by blast
  then consider "eventType = ''booking.confirmed''" | "eventType = ''booking.rejected''" | "eventType = ''booking.changed''"
    | "eventType = ''booking.cancelled_by_admin''"
    by (auto simp: notificationEventTypes_def)
  then show ?thesis
  proof cases
    case 1
    with parsed show ?thesis
      by (auto simp: hints simp del: sort_key_simps One_nat_def dest!: requireBookingSnapshot_typed)
  next
    case 2
    with parsed show ?thesis
      by (auto simp: hints simp del: sort_key_simps One_nat_def dest!: requireBookingSnapshot_typed)
  next
    case 3
    with parsed show ?thesis
      by (auto simp: hints simp del: sort_key_simps One_nat_def split: if_splits
          dest!: requireBookingSnapshot_typed requireChangeEndpoint_typed)
  next
    case 4
    with parsed show ?thesis
      by (auto simp: hints simp del: sort_key_simps One_nat_def dest!: requireBookingSnapshot_typed)
  qed
qed

subsection \<open>The events of the booking transactions\<close>

definition base_of :: "booking_row \<Rightarrow> NotificationEventBase" where
  "base_of b = \<lparr>ne_bookingId = b_publicId b, ne_ownerUserId = show_nat (b_userId b), ne_bookingVersion = int (b_version b)\<rparr>"

definition snapshot_of :: "booking_row \<Rightarrow> room_row \<Rightarrow> NotificationBookingSnapshot" where
  "snapshot_of b room =
     \<lparr>ns_roomId = show_nat (r_id room), ns_roomNumber = r_roomNumber room, ns_checkIn = b_checkIn b,
      ns_checkOut = b_checkOut b, ns_status = b_status b, ns_amount = int (b_priceAmount b), ns_currency = b_currency b\<rparr>"

definition before_of :: "BookingChangeOutboxDetail \<Rightarrow> NotificationChangeEndpoint" where
  "before_of d = \<lparr>nc_roomId = show_nat (before_roomId d), nc_checkIn = before_checkIn d, nc_checkOut = before_checkOut d\<rparr>"

definition after_of :: "BookingChangeOutboxDetail \<Rightarrow> NotificationChangeEndpoint" where
  "after_of d = \<lparr>nc_roomId = show_nat (after_roomId d), nc_checkIn = after_checkIn d, nc_checkOut = after_checkOut d\<rparr>"

text \<open>The event that a transaction means by the payload it writes.\<close>

fun intended :: "booking_row \<Rightarrow> room_row \<Rightarrow> string option \<Rightarrow> BookingChangeOutboxDetail option \<Rightarrow> NotificationEvent \<Rightarrow> bool" where
  "intended b room None None e \<longleftrightarrow> e = BookingConfirmedEvent (base_of b) (snapshot_of b room)"
| "intended b room (Some r) None e \<longleftrightarrow>
     e = BookingRejectedEvent (base_of b) (snapshot_of b room) r \<or> e = BookingCancelledByAdminEvent (base_of b) (snapshot_of b room) r"
| "intended b room (Some r) (Some d) e \<longleftrightarrow>
     e = BookingChangedEvent (base_of b) (snapshot_of b room) r (before_of d) (after_of d)"
| "intended b room None (Some d) e \<longleftrightarrow> False"

definition booking_fields :: "NotificationBookingSnapshot \<Rightarrow> string option \<Rightarrow> (string \<times> json) list" where
  "booking_fields s reason =
     [(''room'', JObj [(''id'', JStr (ns_roomId s)), (''roomNumber'', JStr (ns_roomNumber s))]),
      (''checkIn'', JStr (ns_checkIn s)), (''checkOut'', JStr (ns_checkOut s)),
      (''status'', JStr (show_BookingStatus (ns_status s))),
      (''price'', JObj [(''amount'', JNum (ns_amount s)), (''currency'', JStr (ns_currency s))])]
     @ (case reason of None \<Rightarrow> [] | Some r \<Rightarrow> [(''reason'', JStr r)])"

lemma snapshot_read:
  assumes "typed_snapshot iso4217 statuses s" "case reason of None \<Rightarrow> True | Some r \<Rightarrow> clean_text 1000 r"
  shows "requireBookingSnapshot iso4217 (Some (JObj (booking_fields s reason))) statuses (reason \<noteq> None) = Inr (s, reason)"
proof -
  have keys: "sort (map fst (booking_fields s reason)) =
      sort ([''room'', ''checkIn'', ''checkOut'', ''status'', ''price''] @ (if reason \<noteq> None then [''reason''] else []))"
    by (cases reason) (simp_all add: booking_fields_def)
  have look: "json_field ''room'' (booking_fields s reason) = Some (JObj [(''id'', JStr (ns_roomId s)), (''roomNumber'', JStr (ns_roomNumber s))])"
    "json_field ''checkIn'' (booking_fields s reason) = Some (JStr (ns_checkIn s))"
    "json_field ''checkOut'' (booking_fields s reason) = Some (JStr (ns_checkOut s))"
    "json_field ''status'' (booking_fields s reason) = Some (JStr (show_BookingStatus (ns_status s)))"
    "json_field ''price'' (booking_fields s reason) = Some (JObj [(''amount'', JNum (ns_amount s)), (''currency'', JStr (ns_currency s))])"
    "json_field ''reason'' (booking_fields s (Some r)) = Some (JStr r)" for r
    by (simp_all add: booking_fields_def json_field_def)
  have "requireBookingSnapshot iso4217 (Some (JObj (booking_fields s reason))) statuses (reason \<noteq> None) = Inr (s, reason)
    \<longleftrightarrow> True"
    unfolding requireBookingSnapshot_def and_then_Inr_iff mail_require_Inr
    using assms keys look
    by (cases reason)
      (auto simp: json_field_def typed_snapshot_def typed_stay_def not_le Let_def and_then_Inr_iff mail_require_Inr
        simp del: sort_key_simps One_nat_def)
  then show ?thesis by simp
qed

lemma endpoint_read:
  assumes "typed_endpoint e"
  shows "requireChangeEndpoint (Some (JObj [(''roomId'', JStr (nc_roomId e)), (''checkIn'', JStr (nc_checkIn e)), (''checkOut'', JStr (nc_checkOut e))])) path
    = Inr e"
  unfolding requireChangeEndpoint_def using assms
  by (auto simp: and_then_Inr_iff mail_require_Inr json_field_def typed_endpoint_def typed_stay_def not_le
      simp del: sort_key_simps One_nat_def)

lemma mail_payload_fields:
  "mail_payload b room reason change = JObj ([(''schemaVersion'', JNum 1), (''bookingId'', JStr (ne_bookingId (base_of b))),
     (''ownerUserId'', JStr (ne_ownerUserId (base_of b))), (''bookingVersion'', JNum (ne_bookingVersion (base_of b))),
     (''booking'', JObj (booking_fields (snapshot_of b room) reason))]
   @ (case change of None \<Rightarrow> [] | Some d \<Rightarrow>
       [(''before'', JObj [(''roomId'', JStr (nc_roomId (before_of d))), (''checkIn'', JStr (nc_checkIn (before_of d))),
                           (''checkOut'', JStr (nc_checkOut (before_of d)))]),
        (''after'', JObj [(''roomId'', JStr (nc_roomId (after_of d))), (''checkIn'', JStr (nc_checkIn (after_of d))),
                          (''checkOut'', JStr (nc_checkOut (after_of d)))])]))"
  by (simp add: mail_payload_def base_of_def snapshot_of_def before_of_def after_of_def booking_fields_def json_of_id_def
      change_json_def split: option.splits)

lemma intended_read:
  assumes "intended b room reason change e" "typed_event iso4217 e"
  shows "parseNotificationEvent iso4217 (event_type_of e) (mail_payload b room reason change) = Inr e"
proof -
  note fields = mail_payload_fields [of b room reason change]
  have base: "base = \<lparr>ne_bookingId = ne_bookingId base, ne_ownerUserId = ne_ownerUserId base, ne_bookingVersion = ne_bookingVersion base\<rparr>"
    for base :: NotificationEventBase by simp
  show ?thesis
  proof (cases reason)
    case None
    then have e: "e = BookingConfirmedEvent (base_of b) (snapshot_of b room)" "change = None"
      using assms(1) by (cases change; simp)+
    have s: "requireBookingSnapshot iso4217 (Some (JObj (booking_fields (snapshot_of b room) None))) [Confirmed] False = Inr (snapshot_of b room, None)"
      using snapshot_read [of iso4217 "[Confirmed]" "snapshot_of b room" None] assms(2) e by simp
    show ?thesis
      using assms(2) unfolding parseNotificationEvent_def fields
      by (auto simp: e None and_then_Inr_iff mail_require_Inr json_field_def notificationEventTypes_def basePayloadKeys_def
          require_Inr_iff s typed_base_def isSafeInteger_def number_max_safe_integer_def Let_def simp del: sort_key_simps One_nat_def)
  next
    case (Some r)
    show ?thesis
    proof (cases change)
      case None
      have s: "requireBookingSnapshot iso4217 (Some (JObj (booking_fields (snapshot_of b room) (Some r)))) statuses True
          = Inr (snapshot_of b room, Some r)" if "typed_snapshot iso4217 statuses (snapshot_of b room)" "clean_text 1000 r" for statuses
        using snapshot_read [of iso4217 statuses "snapshot_of b room" "Some r"] that by simp
      show ?thesis
        using assms unfolding parseNotificationEvent_def fields
        by (auto simp: Some None and_then_Inr_iff mail_require_Inr json_field_def notificationEventTypes_def basePayloadKeys_def
            require_Inr_iff s typed_base_def isSafeInteger_def number_max_safe_integer_def Let_def with_reason_def
            simp del: sort_key_simps One_nat_def)
    next
      case (Some d)
      have e: "e = BookingChangedEvent (base_of b) (snapshot_of b room) r (before_of d) (after_of d)"
        using assms(1) \<open>reason = Some r\<close> Some by simp
      have s: "requireBookingSnapshot iso4217 (Some (JObj (booking_fields (snapshot_of b room) (Some r)))) [Pending, Confirmed] True
          = Inr (snapshot_of b room, Some r)"
        using snapshot_read [of iso4217 "[Pending, Confirmed]" "snapshot_of b room" "Some r"] assms(2) e by simp
      have ends: "typed_endpoint (before_of d)" "typed_endpoint (after_of d)" "before_of d \<noteq> after_of d"
        "after_of d = \<lparr>nc_roomId = ns_roomId (snapshot_of b room), nc_checkIn = ns_checkIn (snapshot_of b room), nc_checkOut = ns_checkOut (snapshot_of b room)\<rparr>"
        using assms(2) unfolding e typed_event.simps by blast+
      have differ: "nc_roomId (before_of d) = nc_roomId (after_of d) \<Longrightarrow> nc_checkIn (before_of d) = nc_checkIn (after_of d)
          \<Longrightarrow> nc_checkOut (before_of d) \<noteq> nc_checkOut (after_of d)"
        using ends(3) by (cases "before_of d", cases "after_of d") simp
      have same: "nc_roomId (after_of d) = ns_roomId (snapshot_of b room)" "nc_checkIn (after_of d) = ns_checkIn (snapshot_of b room)"
        "nc_checkOut (after_of d) = ns_checkOut (snapshot_of b room)"
        using ends(4) by simp_all
      have base: "typed_base (base_of b)" using assms(2) unfolding e typed_event.simps by blast
      show ?thesis
        using base differ same unfolding parseNotificationEvent_def fields
        by (auto simp: e \<open>reason = Some r\<close> Some and_then_Inr_iff mail_require_Inr json_field_def notificationEventTypes_def basePayloadKeys_def
            require_Inr_iff s endpoint_read [OF ends(1), simplified same] endpoint_read [OF ends(2), simplified same] typed_base_def isSafeInteger_def
            number_max_safe_integer_def Let_def with_reason_def simp del: sort_key_simps One_nat_def)
    qed
  qed
qed

subsection \<open>Properties of the contract\<close>

text \<open>What the parser returns is well typed, whatever is in the payload: the event has the type it was asked
  for, a status of that type, identifiers of their format, a stay of two existing days in order, an amount
  that is a safe integer, a currency of ISO 4217, texts without control characters, and for a change an end
  point that is the booking's and differs from the start.\<close>

theorem mail_events_typed:
  assumes "parseNotificationEvent iso4217 eventType payload = Inr e"
  shows "typed_event iso4217 e \<and> event_type_of e = eventType"
  by (rule event_typed [OF assms])

text \<open>C29. The worker reads what a booking transaction writes: the payload of a transition, a rejection, a
  cancellation or a change is read back as the event it means whenever that event is well typed.\<close>

theorem mail_intent_read:
  assumes "intended b room reason change e" "typed_event iso4217 e"
  shows "parseNotificationEvent iso4217 (event_type_of e) (mail_payload b room reason change) = Inr e"
  by (rule intended_read [OF assms])

end
