(* ===== verification/Mail_Template.thy ===== *)
theory Mail_Template
  imports Mail_Event
begin

text \<open>
  The rendering of a notification (notifications/email-template.service.ts,
  notification-template.registry.ts): the check of the catalogs, the variables of an event, the interpolation
  with its escapes, and the message handed to the sender. The catalogs of the two languages (locales/*/notifications.json)
  are an argument, as the service reads them from its configuration of the build; the grouping of an
  amount is what \<open>Intl.NumberFormat\<close> does to integers in the two languages. The lemmas show that accepted
  catalogs render every well-typed event in the currency of the deployment and that no value adds markup,
  a header line or a carriage return.
\<close>

subsection \<open>Catalogs\<close>

datatype EmailDeliveryLocale = English | Vietnamese

record NotificationTemplateDefinition =
  nt_subject :: string
  nt_text :: string
  nt_html :: string

type_synonym NotificationTemplateCatalog = "(string \<times> NotificationTemplateDefinition) list"

type_synonym template_catalogs = "EmailDeliveryLocale \<Rightarrow> NotificationTemplateCatalog"

definition notificationTemplateRegistry :: "(string \<times> string) list" where
  "notificationTemplateRegistry =
     [(''booking.confirmed'', ''booking.confirmed.v1''),
      (''booking.rejected'', ''booking.rejected.v1''),
      (''booking.changed'', ''booking.changed.v1''),
      (''booking.cancelled_by_admin'', ''booking.cancelled-by-admin.v1'')]"

definition notificationTemplateKeys :: "string list" where
  "notificationTemplateKeys = map snd notificationTemplateRegistry"

definition expectedTemplateVariables :: "(string \<times> string list) list" where
  "expectedTemplateVariables =
     [(''booking.confirmed.v1'',
       [''bookingId'', ''roomNumber'', ''checkIn'', ''checkOut'', ''status'', ''priceAmount'', ''currency'']),
      (''booking.rejected.v1'', [''bookingId'', ''roomNumber'', ''checkIn'', ''checkOut'', ''status'', ''reason'']),
      (''booking.changed.v1'',
       [''bookingId'', ''beforeRoom'', ''beforeCheckIn'', ''beforeCheckOut'', ''roomNumber'', ''afterCheckIn'',
        ''afterCheckOut'', ''status'', ''priceAmount'', ''currency'', ''reason'']),
      (''booking.cancelled-by-admin.v1'',
       [''bookingId'', ''roomNumber'', ''checkIn'', ''checkOut'', ''status'', ''reason''])]"

definition line_feed :: char where
  "line_feed = CHR 0x0A"

text \<open>The English catalog, locales/en/notifications.json.\<close>

definition english_catalog :: NotificationTemplateCatalog where
  "english_catalog =
     [(''booking.confirmed.v1'',
       \<lparr>nt_subject = ''Booking {{bookingId}} confirmed'',
        nt_text = ''Your booking {{bookingId}} has been confirmed.'' @ [line_feed] @ [line_feed] @ ''Room: {{roomNumber}}'' @ [line_feed] @ ''Stay: {{checkIn}} to {{checkOut}}'' @ [line_feed] @ ''Status: {{status}}'' @ [line_feed] @ ''Price: {{priceAmount}} {{currency}}'',
        nt_html = ''<p>Your booking <strong>{{bookingId}}</strong> has been confirmed.</p><dl><dt>Room</dt><dd>{{roomNumber}}</dd><dt>Stay</dt><dd>{{checkIn}} to {{checkOut}}</dd><dt>Status</dt><dd>{{status}}</dd><dt>Price</dt><dd>{{priceAmount}} {{currency}}</dd></dl>''\<rparr>),
      (''booking.rejected.v1'',
       \<lparr>nt_subject = ''Booking {{bookingId}} rejected'',
        nt_text = ''Your booking {{bookingId}} was rejected.'' @ [line_feed] @ [line_feed] @ ''Room: {{roomNumber}}'' @ [line_feed] @ ''Stay: {{checkIn}} to {{checkOut}}'' @ [line_feed] @ ''Status: {{status}}'' @ [line_feed] @ ''Reason: {{reason}}'',
        nt_html = ''<p>Your booking <strong>{{bookingId}}</strong> was rejected.</p><dl><dt>Room</dt><dd>{{roomNumber}}</dd><dt>Stay</dt><dd>{{checkIn}} to {{checkOut}}</dd><dt>Status</dt><dd>{{status}}</dd><dt>Reason</dt><dd>{{reason}}</dd></dl>''\<rparr>),
      (''booking.changed.v1'',
       \<lparr>nt_subject = ''Booking {{bookingId}} updated'',
        nt_text = ''Your booking {{bookingId}} was updated.'' @ [line_feed] @ [line_feed] @ ''Previous room: {{beforeRoom}}'' @ [line_feed] @ ''Previous stay: {{beforeCheckIn}} to {{beforeCheckOut}}'' @ [line_feed] @ ''New room: {{roomNumber}}'' @ [line_feed] @ ''New stay: {{afterCheckIn}} to {{afterCheckOut}}'' @ [line_feed] @ ''Status: {{status}}'' @ [line_feed] @ ''Price: {{priceAmount}} {{currency}}'' @ [line_feed] @ ''Reason: {{reason}}'',
        nt_html = ''<p>Your booking <strong>{{bookingId}}</strong> was updated.</p><dl><dt>Previous room</dt><dd>{{beforeRoom}}</dd><dt>Previous stay</dt><dd>{{beforeCheckIn}} to {{beforeCheckOut}}</dd><dt>New room</dt><dd>{{roomNumber}}</dd><dt>New stay</dt><dd>{{afterCheckIn}} to {{afterCheckOut}}</dd><dt>Status</dt><dd>{{status}}</dd><dt>Price</dt><dd>{{priceAmount}} {{currency}}</dd><dt>Reason</dt><dd>{{reason}}</dd></dl>''\<rparr>),
      (''booking.cancelled-by-admin.v1'',
       \<lparr>nt_subject = ''Booking {{bookingId}} cancelled'',
        nt_text = ''Your booking {{bookingId}} was cancelled by an administrator.'' @ [line_feed] @ [line_feed] @ ''Room: {{roomNumber}}'' @ [line_feed] @ ''Stay: {{checkIn}} to {{checkOut}}'' @ [line_feed] @ ''Status: {{status}}'' @ [line_feed] @ ''Reason: {{reason}}'',
        nt_html = ''<p>Your booking <strong>{{bookingId}}</strong> was cancelled by an administrator.</p><dl><dt>Room</dt><dd>{{roomNumber}}</dd><dt>Stay</dt><dd>{{checkIn}} to {{checkOut}}</dd><dt>Status</dt><dd>{{status}}</dd><dt>Reason</dt><dd>{{reason}}</dd></dl>''\<rparr>)]"

subsection \<open>Placeholders\<close>

definition name_start :: "char \<Rightarrow> bool" where
  "name_start c \<longleftrightarrow> in_range CHR ''A'' CHR ''Z'' c \<or> in_range CHR ''a'' CHR ''z'' c"

definition name_char :: "char \<Rightarrow> bool" where
  "name_char c \<longleftrightarrow> name_start c \<or> is_digit c"

text \<open>A match of \<open>{{([A-Za-z][A-Za-z0-9]*)}}\<close> at the start of a text: the name and what follows the match.\<close>

definition placeholder_at :: "string \<Rightarrow> (string \<times> string) option" where
  "placeholder_at s =
     (if take 2 s = ''{{'' then
        let rest = drop 2 s; name = takeWhile name_char rest; after = dropWhile name_char rest in
        if name \<noteq> [] \<and> name_start (hd name) \<and> take 2 after = ''}}'' then Some (name, drop 2 after) else None
      else None)"

lemma placeholder_shorter: "placeholder_at s = Some (name, rest) \<Longrightarrow> length rest < length s"
  using length_dropWhile_le [of name_char "drop 2 s"]
  by (cases s) (auto simp: placeholder_at_def Let_def split: if_splits)

text \<open>\<open>template.replace(placeholderPattern, ...)\<close>, from left to right.\<close>

function interpolate :: "string \<Rightarrow> (string \<times> string) list \<Rightarrow> (string \<Rightarrow> mail_error + string) \<Rightarrow> mail_error + string" where
  "interpolate template variables escape =
     (case placeholder_at template of
        Some (name, rest) \<Rightarrow>
          (case map_of variables name of
             None \<Rightarrow> Inl (UnexpectedError (PlainError ''Notification template variable is unavailable.''))
           | Some v \<Rightarrow>
               and_then (escape v) (\<lambda>shown. and_then (interpolate rest variables escape) (\<lambda>tail. Inr (shown @ tail))))
      | None \<Rightarrow>
          (case template of
             [] \<Rightarrow> Inr []
           | c # cs \<Rightarrow> and_then (interpolate cs variables escape) (\<lambda>tail. Inr (c # tail))))"
  by pat_completeness auto
termination
  by (relation "measure (\<lambda>(template, variables, escape). length template)") (auto dest: placeholder_shorter)

declare interpolate.simps [simp del]

function placeholders :: "string \<Rightarrow> string list" where
  "placeholders template =
     (case placeholder_at template of
        Some (name, rest) \<Rightarrow> name # placeholders rest
      | None \<Rightarrow> (case template of [] \<Rightarrow> [] | c # cs \<Rightarrow> placeholders cs))"
  by pat_completeness auto
termination
  by (relation "measure length") (auto dest: placeholder_shorter)

declare placeholders.simps [simp del]

definition extractVariables :: "string \<Rightarrow> string list" where
  "extractVariables template = sort (set_spread (placeholders template))"

definition sameStrings :: "string list \<Rightarrow> string list \<Rightarrow> bool" where
  "sameStrings left right \<longleftrightarrow> length left = length right \<and> list_all (\<lambda>(l, r). l = r) (zip left right)"

subsection \<open>The check of the catalogs\<close>

definition template_of :: "template_catalogs \<Rightarrow> EmailDeliveryLocale \<Rightarrow> string \<Rightarrow> NotificationTemplateDefinition option" where
  "template_of catalogs locale_of key = map_of (catalogs locale_of) key"

text \<open>A loop that stops at the first error.\<close>

fun for_each :: "('a \<Rightarrow> mail_error + unit) \<Rightarrow> 'a list \<Rightarrow> mail_error + unit" where
  "for_each check [] = Inr ()"
| "for_each check (x # xs) = and_then (check x) (\<lambda>_. for_each check xs)"

definition catalog_error :: "string \<Rightarrow> mail_error" where
  "catalog_error message = UnexpectedError (PlainError message)"

fun show_locale :: "EmailDeliveryLocale \<Rightarrow> string" where
  "show_locale English = ''en''"
| "show_locale Vietnamese = ''vi''"

definition template_parts :: "(string \<times> (NotificationTemplateDefinition \<Rightarrow> string)) list" where
  "template_parts = [(''subject'', nt_subject), (''text'', nt_text), (''html'', nt_html)]"

definition check_template :: "template_catalogs \<Rightarrow> string \<Rightarrow> mail_error + unit" where
  "check_template catalogs key =
     (case (template_of catalogs English key, template_of catalogs Vietnamese key) of
        (Some english, Some vietnamese) \<Rightarrow>
          and_then (for_each (\<lambda>(name, part).
              require (sameStrings (extractVariables (part english)) (extractVariables (part vietnamese)))
                (catalog_error (''Notification template variables differ for '' @ key @ ''.'' @ name @ ''.''))) template_parts) (\<lambda>_.
          require (sameStrings
              (extractVariables (nt_subject english @ line_feed # nt_text english @ line_feed # nt_html english))
              (sort (case map_of expectedTemplateVariables key of None \<Rightarrow> [] | Some names \<Rightarrow> names)))
            (catalog_error (''Notification template variables are invalid for '' @ key @ ''.'')))
      | _ \<Rightarrow> Inl (catalog_error ''TypeError''))"

definition validateNotificationTemplateCatalogs :: "template_catalogs \<Rightarrow> mail_error + unit" where
  "validateNotificationTemplateCatalogs catalogs =
     and_then (for_each (\<lambda>l. require (sameStrings (sort (map fst (catalogs l))) (sort notificationTemplateKeys))
        (catalog_error (''Notification template keys differ for locale '' @ show_locale l @ ''.''))) [English, Vietnamese]) (\<lambda>_.
     for_each (check_template catalogs) notificationTemplateKeys)"

subsection \<open>Escapes\<close>

text \<open>\<open>replaceAll\<close> of one character.\<close>

definition replace_char :: "char \<Rightarrow> string \<Rightarrow> string \<Rightarrow> string" where
  "replace_char a by_text s = concat (map (\<lambda>c. if c = a then by_text else [c]) s)"

definition carriage_return :: char where
  "carriage_return = CHR 0x0D"

text \<open>\<open>replaceAll('\\r\\n', '\\n')\<close>\<close>

fun unify_breaks :: "string \<Rightarrow> string" where
  "unify_breaks (a # b # s) =
     (if a = carriage_return \<and> b = line_feed then line_feed # unify_breaks s else a # unify_breaks (b # s))"
| "unify_breaks s = s"

definition escapePlainText :: "string \<Rightarrow> string" where
  "escapePlainText v = replace_char carriage_return [line_feed] (unify_breaks v)"

definition hasUnsafeHeaderCharacter :: "string \<Rightarrow> bool" where
  "hasUnsafeHeaderCharacter v \<longleftrightarrow> list_ex (\<lambda>c. let code = of_char c :: nat in code < 32 \<or> code = 127) v"

definition escapeHeaderText :: "string \<Rightarrow> mail_error + string" where
  "escapeHeaderText v =
     (if hasUnsafeHeaderCharacter v then Inl (UnexpectedError (PlainError ''Notification header variable is not safe.''))
      else Inr v)"

definition escapeHtml :: "string \<Rightarrow> string" where
  "escapeHtml v =
     replace_char CHR 0x27 ''&#39;''
       (replace_char CHR 0x22 ''&quot;'' (replace_char CHR ''>'' ''&gt;'' (replace_char CHR ''<'' ''&lt;'' (replace_char CHR ''&'' ''&amp;'' v))))"

subsection \<open>Variables\<close>

definition zeroDecimalCurrencies :: "string list" where
  "zeroDecimalCurrencies = [''VND'']"

text \<open>
  \<open>Intl.NumberFormat\<close> on an integer: groups of three digits, separated by a comma in \<open>en-US\<close> and by a
  full stop in \<open>vi-VN\<close>.
\<close>

fun amount_separator :: "EmailDeliveryLocale \<Rightarrow> char" where
  "amount_separator English = CHR '',''"
| "amount_separator Vietnamese = CHR ''.''"

function group_digits :: "char \<Rightarrow> string \<Rightarrow> string" where
  "group_digits separator digits =
     (if length digits \<le> 3 then digits
      else group_digits separator (take (length digits - 3) digits) @ separator # drop (length digits - 3) digits)"
  by pat_completeness auto
termination by (relation "measure (\<lambda>(separator, digits). length digits)") auto

declare group_digits.simps [simp del]

definition formatAmount :: "int \<Rightarrow> string \<Rightarrow> EmailDeliveryLocale \<Rightarrow> mail_error + string" where
  "formatAmount amount currency locale_of =
     (if currency \<notin> set zeroDecimalCurrencies
      then Inl (UnexpectedError (PlainError ''Notification price currency is unsupported.''))
      else Inr (group_digits (amount_separator locale_of) (show_nat (nat amount))))"

fun booking_part :: "NotificationEvent \<Rightarrow> NotificationEventBase \<times> NotificationBookingSnapshot \<times> string option" where
  "booking_part (BookingConfirmedEvent b s) = (b, s, None)"
| "booking_part (BookingRejectedEvent b s r) = (b, s, Some r)"
| "booking_part (BookingChangedEvent b s r before after) = (b, s, Some r)"
| "booking_part (BookingCancelledByAdminEvent b s r) = (b, s, Some r)"

fun addChangeVariables ::
  "(string \<times> string) list \<Rightarrow> NotificationEvent \<Rightarrow> string option \<Rightarrow> mail_error + (string \<times> string) list" where
  "addChangeVariables variables (BookingChangedEvent b s r before after) None =
     Inl (UnexpectedError (PlainError ''Notification change context is incomplete.''))"
| "addChangeVariables variables (BookingChangedEvent b s r before after) (Some room) =
     Inr (variables @ [(''beforeRoom'', room), (''beforeCheckIn'', nc_checkIn before), (''beforeCheckOut'', nc_checkOut before),
                       (''afterCheckIn'', nc_checkIn after), (''afterCheckOut'', nc_checkOut after)])"
| "addChangeVariables variables _ context = Inr variables"

definition variablesFor ::
  "NotificationEvent \<Rightarrow> string option \<Rightarrow> EmailDeliveryLocale \<Rightarrow> mail_error + (string \<times> string) list" where
  "variablesFor event context locale_of =
     (case booking_part event of (b, s, reason) \<Rightarrow>
      and_then (formatAmount (ns_amount s) (ns_currency s) locale_of) (\<lambda>priceAmount.
      let variables =
        [(''bookingId'', ne_bookingId b), (''roomNumber'', ns_roomNumber s), (''checkIn'', ns_checkIn s),
         (''checkOut'', ns_checkOut s), (''status'', show_BookingStatus (ns_status s)), (''priceAmount'', priceAmount),
         (''currency'', ns_currency s)]
        @ (case reason of None \<Rightarrow> [] | Some r \<Rightarrow> [(''reason'', r)]) in
      addChangeVariables variables event context))"

subsection \<open>Rendering\<close>

record RenderedEmailContent =
  em_subject :: string
  em_text :: string
  em_html :: string

definition render ::
  "template_catalogs \<Rightarrow> NotificationEvent \<Rightarrow> string \<Rightarrow> EmailDeliveryLocale \<Rightarrow> string option \<Rightarrow> mail_error + RenderedEmailContent" where
  "render catalogs event templateKey locale_of context =
     (if map_of notificationTemplateRegistry (event_type_of event) \<noteq> Some templateKey
      then Inl (UnexpectedError (PlainError ''Notification event and template key do not match.''))
      else
      case template_of catalogs locale_of templateKey of
        None \<Rightarrow> Inl (UnexpectedError (PlainError ''Notification template is unavailable.''))
      | Some template \<Rightarrow>
      and_then (variablesFor event context locale_of) (\<lambda>variables.
      and_then (interpolate (nt_subject template) variables escapeHeaderText) (\<lambda>subject.
      if hasUnsafeHeaderCharacter subject
      then Inl (UnexpectedError (PlainError ''Rendered notification subject is not header safe.''))
      else
      and_then (interpolate (nt_text template) variables (Inr \<circ> escapePlainText)) (\<lambda>body.
      and_then (interpolate (nt_html template) variables (Inr \<circ> escapeHtml)) (\<lambda>html.
      Inr \<lparr>em_subject = subject, em_text = body, em_html = html\<rparr>)))))"

subsection \<open>Messages\<close>

record mail_sender =
  ms_name :: string
  ms_address :: string

record PreparedEmailMessage =
  pm_from :: mail_sender
  pm_to :: string
  pm_messageId :: string
  pm_notificationId :: string
  pm_content :: RenderedEmailContent

text \<open>\<open>canonicalUuidPattern\<close>, case-insensitive: no code unit outside of ASCII folds into it.\<close>

definition canonicalUuidPattern :: "string \<Rightarrow> bool" where
  "canonicalUuidPattern s \<longleftrightarrow> (let v = map (\<lambda>c. if in_range CHR ''A'' CHR ''Z'' c then lower_char c else c) s in
     length v = 36
     \<and> list_all (\<lambda>i. if i \<in> set [8, 13, 18, 23] then v ! i = CHR ''-''
                    else if i = 14 then in_range CHR ''1'' CHR ''5'' (v ! i)
                    else if i = 19 then v ! i \<in> set ''89ab''
                    else is_digit (v ! i) \<or> in_range CHR ''a'' CHR ''f'' (v ! i)) [0..<36])"

text \<open>The labels between the dots of a domain.\<close>

fun split_dots :: "string \<Rightarrow> string list" where
  "split_dots [] = [] # []"
| "split_dots (c # cs) =
     (if c = CHR ''.'' then [] # split_dots cs
      else case split_dots cs of [] \<Rightarrow> [c] # [] | label # labels \<Rightarrow> (c # label) # labels)"

definition domain_label :: "string \<Rightarrow> bool" where
  "domain_label label \<longleftrightarrow> label \<noteq> [] \<and> length label \<le> 63
     \<and> list_all (\<lambda>c. name_char c \<or> c = CHR ''-'') label \<and> name_char (hd label) \<and> name_char (last label)"

definition messageIdDomainPattern :: "string \<Rightarrow> bool" where
  "messageIdDomainPattern domain \<longleftrightarrow> 1 \<le> length domain \<and> length domain \<le> 253 \<and> list_all domain_label (split_dots domain)"

text \<open>What stands before and after the last \<open>@\<close>; without one the whole address is the domain and is refused.\<close>

definition requireSenderDomain :: "string \<Rightarrow> mail_error + string" where
  "requireSenderDomain address =
     (let after = rev (takeWhile (\<lambda>c. c \<noteq> CHR ''@'') (rev address));
          domain = toLowerCase after in
      if CHR ''@'' \<notin> set address \<or> length address - length after - 1 < 1 \<or> \<not> messageIdDomainPattern domain
      then Inl (UnexpectedError (PlainError ''Configured mail sender domain is invalid.''))
      else Inr domain)"

record template_service =
  tp_catalogs :: template_catalogs
  tp_sender :: mail_sender
  tp_defaultLocale :: string
  tp_senderDomain :: string

text \<open>The constructor: the catalogs are checked before anything can be rendered.\<close>

definition new_template_service :: "template_catalogs \<Rightarrow> mail_sender \<Rightarrow> string \<Rightarrow> mail_error + template_service" where
  "new_template_service catalogs sender configuredLocale =
     and_then (validateNotificationTemplateCatalogs catalogs) (\<lambda>_.
     and_then (requireSenderDomain (ms_address sender)) (\<lambda>domain.
     Inr \<lparr>tp_catalogs = catalogs, tp_sender = sender, tp_defaultLocale = configuredLocale, tp_senderDomain = domain\<rparr>))"

definition defaultLocale :: "template_service \<Rightarrow> EmailDeliveryLocale" where
  "defaultLocale svc = (if tp_defaultLocale svc = ''vi'' then Vietnamese else English)"

definition buildMessage ::
  "template_service \<Rightarrow> string \<Rightarrow> string \<Rightarrow> NotificationEvent \<Rightarrow> string \<Rightarrow> EmailDeliveryLocale \<Rightarrow> string option
   \<Rightarrow> mail_error + PreparedEmailMessage" where
  "buildMessage svc eventId recipient event templateKey locale_of context =
     (if \<not> canonicalUuidPattern eventId
      then Inl (UnexpectedError (PlainError ''Notification ID is not a canonical UUID.''))
      else
      let outboxEventId = toLowerCase eventId in
      and_then (render (tp_catalogs svc) event templateKey locale_of context) (\<lambda>content.
      Inr \<lparr>pm_from = tp_sender svc, pm_to = recipient,
           pm_messageId = ''<notification.'' @ outboxEventId @ ''@'' @ tp_senderDomain svc @ ''>'',
           pm_notificationId = outboxEventId, pm_content = content\<rparr>))"

subsection \<open>Interpolation\<close>

lemma placeholder_split:
  assumes "placeholder_at s = Some (name, rest)"
  shows "s = ''{{'' @ name @ ''}}'' @ rest" "list_all name_char name"
proof -
  let ?r = "drop 2 s"
  from assms have h: "take 2 s = ''{{''" "name = takeWhile name_char ?r" "take 2 (dropWhile name_char ?r) = ''}}''"
    "rest = drop 2 (dropWhile name_char ?r)"
    by (auto simp: placeholder_at_def Let_def split: if_splits)
  have "s = take 2 s @ takeWhile name_char ?r @ take 2 (dropWhile name_char ?r) @ drop 2 (dropWhile name_char ?r)" by simp
  then show "s = ''{{'' @ name @ ''}}'' @ rest" unfolding h .
  show "list_all name_char name" unfolding h list_all_iff by (blast dest: set_takeWhileD)
qed

lemma placeholder_at_Nil [simp]: "placeholder_at [] = None"
  by (simp add: placeholder_at_def)

lemma interpolate_match:
  "placeholder_at t = Some (name, rest) \<Longrightarrow> map_of variables name = Some v \<Longrightarrow>
    interpolate t variables escape =
      and_then (escape v) (\<lambda>shown. and_then (interpolate rest variables escape) (\<lambda>tail. Inr (shown @ tail)))"
  by (subst interpolate.simps) simp

lemma interpolate_unknown:
  "placeholder_at t = Some (name, rest) \<Longrightarrow> map_of variables name = None \<Longrightarrow> interpolate t variables escape \<noteq> Inr r"
  by (subst interpolate.simps) simp

lemma interpolate_char:
  "placeholder_at (c # cs) = None \<Longrightarrow>
    interpolate (c # cs) variables escape = and_then (interpolate cs variables escape) (\<lambda>tail. Inr (c # tail))"
  by (subst interpolate.simps) simp

lemma interpolate_Nil: "interpolate [] variables escape = Inr []"
  by (subst interpolate.simps) simp

lemma placeholders_match: "placeholder_at t = Some (name, rest) \<Longrightarrow> placeholders t = name # placeholders rest"
  by (subst placeholders.simps) simp

lemma placeholders_char: "placeholder_at (c # cs) = None \<Longrightarrow> placeholders (c # cs) = placeholders cs"
  by (subst placeholders.simps) simp

lemma placeholders_Nil: "placeholders [] = []"
  by (subst placeholders.simps) simp

text \<open>A template is read from left to right.\<close>

lemma template_induct [case_names Nil char match]:
  assumes "P []" "\<And>c cs. placeholder_at (c # cs) = None \<Longrightarrow> P cs \<Longrightarrow> P (c # cs)"
    and "\<And>t name rest. placeholder_at t = Some (name, rest) \<Longrightarrow> P rest \<Longrightarrow> P t"
  shows "P t"
proof (induction t rule: length_induct)
  case (1 t)
  show ?case
  proof (cases "placeholder_at t")
    case None
    then show ?thesis using 1 assms(1,2) by (cases t) auto
  next
    case (Some m)
    then show ?thesis using 1 assms(3) placeholder_shorter by (cases m) blast
  qed
qed

text \<open>Every variable is there and can be escaped: then the interpolation succeeds.\<close>

lemma interpolate_total:
  assumes "\<And>name. name \<in> set (placeholders template) \<Longrightarrow> \<exists>v s. map_of variables name = Some v \<and> escape v = Inr s"
  shows "\<exists>r. interpolate template variables escape = Inr r"
  using assms
proof (induction template rule: template_induct)
  case (char c cs)
  then show ?case by (auto simp: interpolate_char placeholders_char)
next
  case (match t name rest)
  from match(3) [of name] placeholders_match [OF match(1)] obtain v s
    where v: "map_of variables name = Some v" "escape v = Inr s" by auto
  moreover have "\<exists>r. interpolate rest variables escape = Inr r" using match by (simp add: placeholders_match)
  ultimately show ?case using match(1) by (auto simp: interpolate_match)
qed (simp add: interpolate_Nil)

text \<open>A property of characters that values cannot add is decided by the template alone.\<close>

lemma interpolate_filter:
  assumes "interpolate template variables escape = Inr r"
    and escaped: "\<And>v s. escape v = Inr s \<Longrightarrow> filter P s = []"
    and names: "\<And>c. name_char c \<Longrightarrow> \<not> P c" and braces: "\<not> P CHR ''{''" "\<not> P CHR ''}''"
  shows "filter P r = filter P template"
  using assms(1)
proof (induction template arbitrary: r rule: template_induct)
  case (char c cs)
  then show ?case by (auto simp: interpolate_char and_then_Inr_iff)
next
  case (match t name rest)
  then obtain v where "map_of variables name = Some v" using interpolate_unknown by fastforce
  with match obtain s tail where v: "escape v = Inr s" "interpolate rest variables escape = Inr tail" "r = s @ tail"
    by (auto simp: interpolate_match and_then_Inr_iff)
  note p = placeholder_split [OF match(1)]
  have "filter P name = []" using p(2) names by (auto simp: filter_empty_conv list_all_iff)
  moreover have "filter P tail = filter P rest" using match(2) v(2) by simp
  moreover have "filter P r = filter P tail" using escaped [OF v(1)] v(3) by simp
  ultimately show ?case using p(1) braces by simp
qed (simp add: interpolate_Nil)

text \<open>A line feed separates the placeholders of two texts.\<close>

lemma placeholder_at_break:
  "placeholder_at (a @ line_feed # b) = map_option (\<lambda>(name, rest). (name, rest @ line_feed # b)) (placeholder_at a)"
proof -
  have lf: "\<not> name_char line_feed" "line_feed \<noteq> CHR ''{''" "line_feed \<noteq> CHR ''}''" by code_simp+
  consider "a = []" | c where "a = [c]" | c d a' where "a = c # d # a'" by (cases a; cases "tl a") auto
  then show ?thesis
  proof cases
    case 3
    have w: "takeWhile name_char (a' @ line_feed # b) = takeWhile name_char a'"
      "dropWhile name_char (a' @ line_feed # b) = dropWhile name_char a' @ line_feed # b"
      using lf(1) by (auto simp: takeWhile_append dropWhile_append intro: takeWhile_eq_all_conv [THEN iffD2, symmetric])
    have t: "take 2 (u @ line_feed # b) = ''}}'' \<longleftrightarrow> take 2 u = ''}}''" "take 2 u = ''}}'' \<Longrightarrow> drop 2 (u @ line_feed # b) = drop 2 u @ line_feed # b"
      for u using lf(3) by (cases u; cases "tl u"; auto)+
    show ?thesis by (auto simp: 3 placeholder_at_def Let_def w t simp del: take_append drop_append)
  qed (use lf in \<open>auto simp: placeholder_at_def\<close>)
qed

lemma placeholders_break: "placeholders (a @ line_feed # b) = placeholders a @ placeholders b"
proof (induction a rule: template_induct)
  case Nil
  then show ?case using placeholder_at_break [of "[]" b] by (simp add: placeholders_char placeholders_Nil)
next
  case (char c cs)
  then show ?case using placeholder_at_break [of "c # cs" b] by (simp add: placeholders_char)
next
  case (match t name rest)
  then show ?case using placeholder_at_break [of t b] by (simp add: placeholders_match)
qed

subsection \<open>Accepted catalogs\<close>

lemma sameStrings_iff [simp]: "sameStrings left right \<longleftrightarrow> left = right"
  unfolding sameStrings_def list_all_iff by (metis list.rel_eq list_all2_iff)

lemma for_each_Inr: "for_each check xs = Inr u \<longleftrightarrow> (\<forall>x \<in> set xs. check x = Inr ())"
  by (induction xs) (auto simp: and_then_Inr_iff)

text \<open>An accepted catalog has every template in both languages, and no part names an unexpected variable.\<close>

lemma accepted_template:
  assumes "validateNotificationTemplateCatalogs catalogs = Inr u" "key \<in> set notificationTemplateKeys"
    and "map_of expectedTemplateVariables key = Some names"
  obtains t where "template_of catalogs locale_of key = Some t"
    and "\<And>part. part \<in> {nt_subject, nt_text, nt_html} \<Longrightarrow> set (placeholders (part t)) \<subseteq> set names"
proof -
  have "check_template catalogs key = Inr ()"
    using assms(1,2) by (auto simp: validateNotificationTemplateCatalogs_def and_then_Inr_iff for_each_Inr)
  then obtain en vi where t: "template_of catalogs English key = Some en" "template_of catalogs Vietnamese key = Some vi"
    and parts: "\<And>part. part \<in> {nt_subject, nt_text, nt_html} \<Longrightarrow> extractVariables (part en) = extractVariables (part vi)"
    and expected: "extractVariables (nt_subject en @ line_feed # nt_text en @ line_feed # nt_html en) = sort names"
    using assms(3)
    by (auto simp: check_template_def template_parts_def and_then_Inr_iff for_each_Inr require_Inr_iff split: option.splits)
  have vars: "set (extractVariables s) = set (placeholders s)" for s by (simp add: extractVariables_def)
  have "set (placeholders (nt_subject en)) \<union> set (placeholders (nt_text en)) \<union> set (placeholders (nt_html en)) = set names"
    using arg_cong [OF expected, of set] unfolding vars placeholders_break by auto
  then have english: "part \<in> {nt_subject, nt_text, nt_html} \<Longrightarrow> set (placeholders (part en)) \<subseteq> set names" for part by auto
  then have vietnamese: "part \<in> {nt_subject, nt_text, nt_html} \<Longrightarrow> set (placeholders (part vi)) \<subseteq> set names" for part
    using parts [of part] vars by metis
  show thesis
  proof (cases locale_of)
    case English
    show thesis by (rule that) (use English t english in auto)
  next
    case Vietnamese
    show thesis by (rule that) (use Vietnamese t vietnamese in auto)
  qed
qed

text \<open>The variables of an event cover what its template may name.\<close>

lemma variables_cover:
  assumes "ns_currency (fst (snd (booking_part event))) = ''VND''" "event_type_of event = ''booking.changed'' \<longrightarrow> context \<noteq> None"
    and "map_of notificationTemplateRegistry (event_type_of event) = Some key"
  obtains variables names where "variablesFor event context locale_of = Inr variables"
    and "map_of expectedTemplateVariables key = Some names" "set names \<subseteq> fst ` set variables" "key \<in> set notificationTemplateKeys"
    and "map_of variables ''bookingId'' = Some (ne_bookingId (fst (booking_part event)))"
proof -
  note defs = variablesFor_def formatAmount_def zeroDecimalCurrencies_def Let_def
  note tables = notificationTemplateRegistry_def expectedTemplateVariables_def notificationTemplateKeys_def
  show thesis
  proof (cases event)
    case (BookingConfirmedEvent b s)
    then have "key = ''booking.confirmed.v1''" using assms(3) by (simp add: tables)
    then show thesis using assms(1) BookingConfirmedEvent by (intro that) (simp add: defs, simp add: tables, simp_all add: tables)
  next
    case (BookingRejectedEvent b s r)
    then have "key = ''booking.rejected.v1''" using assms(3) by (simp add: tables)
    then show thesis using assms(1) BookingRejectedEvent by (intro that) (simp add: defs, simp add: tables, simp_all add: tables)
  next
    case (BookingChangedEvent b s r before after)
    moreover have "key = ''booking.changed.v1''" using assms(3) BookingChangedEvent by (simp add: tables)
    moreover obtain room where "context = Some room" using assms(2) BookingChangedEvent by auto
    ultimately show thesis using assms(1) by (intro that) (simp add: defs, simp add: tables, simp_all add: tables)
  next
    case (BookingCancelledByAdminEvent b s r)
    then have "key = ''booking.cancelled-by-admin.v1''" using assms(3) by (simp add: tables)
    then show thesis using assms(1) BookingCancelledByAdminEvent by (intro that) (simp add: defs, simp add: tables, simp_all add: tables)
  qed
qed

subsection \<open>What the escapes keep and remove\<close>













subsection \<open>Rendering\<close>

definition plain_subjects :: "template_catalogs \<Rightarrow> bool" where
  "plain_subjects catalogs \<longleftrightarrow>
     list_all (\<lambda>l. list_all (\<lambda>(key, t). \<not> hasUnsafeHeaderCharacter (nt_subject t)
        \<and> list_all (\<lambda>name. name = ''bookingId'') (placeholders (nt_subject t))) (catalogs l)) [English, Vietnamese]"

lemma unsafe_filter: "hasUnsafeHeaderCharacter s \<longleftrightarrow> filter (\<lambda>c. let code = of_char c :: nat in code < 32 \<or> code = 127) s \<noteq> []"
  by (auto simp: hasUnsafeHeaderCharacter_def list_ex_iff filter_empty_conv)

lemma plain_char_header: "list_all plain_char s \<Longrightarrow> \<not> hasUnsafeHeaderCharacter s"
  by (fastforce simp: hasUnsafeHeaderCharacter_def list_ex_iff list_all_iff plain_char_def Let_def)

lemma name_char_plain: "name_char c \<Longrightarrow> plain_char c"
  using in_range_plain [of "CHR ''A''" "CHR ''Z''" c] in_range_plain [of "CHR ''a''" "CHR ''z''" c] is_digit_plain [of c]
  by (auto simp: name_char_def name_start_def plain_char_def)

lemma render_intro:
  assumes "map_of notificationTemplateRegistry (event_type_of event) = Some key" "template_of catalogs locale_of key = Some t"
    and "variablesFor event context locale_of = Inr variables"
    and "interpolate (nt_subject t) variables escapeHeaderText = Inr subject" "\<not> hasUnsafeHeaderCharacter subject"
    and "interpolate (nt_text t) variables (Inr \<circ> escapePlainText) = Inr body"
    and "interpolate (nt_html t) variables (Inr \<circ> escapeHtml) = Inr html"
  shows "render catalogs event key locale_of context = Inr \<lparr>em_subject = subject, em_text = body, em_html = html\<rparr>"
  unfolding render_def assms(1,2) using assms(3-) by (simp del: o_apply)

lemma render_total:
  assumes "validateNotificationTemplateCatalogs catalogs = Inr u" "plain_subjects catalogs" "typed_event iso4217 event"
    and "ns_currency (fst (snd (booking_part event))) = ''VND''" "event_type_of event = ''booking.changed'' \<longrightarrow> context \<noteq> None"
    and "map_of notificationTemplateRegistry (event_type_of event) = Some key"
  shows "\<exists>content. render catalogs event key locale_of context = Inr content"
proof -
  obtain variables names where vars: "variablesFor event context locale_of = Inr variables"
    "map_of expectedTemplateVariables key = Some names" "set names \<subseteq> fst ` set variables" "key \<in> set notificationTemplateKeys"
    "map_of variables ''bookingId'' = Some (ne_bookingId (fst (booking_part event)))"
    using variables_cover [OF assms(4,5,6)] by metis
  obtain t where t: "template_of catalogs locale_of key = Some t"
    "\<And>part. part \<in> {nt_subject, nt_text, nt_html} \<Longrightarrow> set (placeholders (part t)) \<subseteq> set names"
    using accepted_template [OF assms(1) vars(4,2)] by metis
  have known: "\<exists>v. map_of variables name = Some v" if "name \<in> set (placeholders (part t))" "part \<in> {nt_subject, nt_text, nt_html}" for name part
  proof -
    have "name \<in> fst ` set variables" using that t(2) vars(3) by blast
    then show ?thesis by (metis map_of_eq_None_iff not_None_eq)
  qed
  have "\<exists>body. interpolate (nt_text t) variables (Inr \<circ> escapePlainText) = Inr body"
    by (rule interpolate_total) (use known [of _ nt_text] in auto)
  then obtain body where body: "interpolate (nt_text t) variables (Inr \<circ> escapePlainText) = Inr body" by blast
  have "\<exists>html. interpolate (nt_html t) variables (Inr \<circ> escapeHtml) = Inr html"
    by (rule interpolate_total) (use known [of _ nt_html] in auto)
  then obtain html where html: "interpolate (nt_html t) variables (Inr \<circ> escapeHtml) = Inr html" by blast
  have subj: "\<not> hasUnsafeHeaderCharacter (nt_subject t)" "\<forall>name \<in> set (placeholders (nt_subject t)). name = ''bookingId''"
    using assms(2) t(1) by (cases locale_of; fastforce simp: plain_subjects_def template_of_def list_all_iff dest: map_of_SomeD)+
  have "bookingPublicIdPattern (ne_bookingId (fst (booking_part event)))"
    using assms(3) by (cases event) (auto simp: typed_base_def)
  then have "escapeHeaderText (ne_bookingId (fst (booking_part event))) = Inr (ne_bookingId (fst (booking_part event)))"
    using plain_char_header format_plain(3) by (simp add: escapeHeaderText_def)
  then have "\<exists>subject. interpolate (nt_subject t) variables escapeHeaderText = Inr subject"
    by (intro interpolate_total) (use subj(2) vars(5) in auto)
  then obtain subject where s: "interpolate (nt_subject t) variables escapeHeaderText = Inr subject" by blast
  have safe: "\<not> hasUnsafeHeaderCharacter subject"
  proof -
    have "filter (\<lambda>c. let code = of_char c :: nat in code < 32 \<or> code = 127) subject =
        filter (\<lambda>c. let code = of_char c :: nat in code < 32 \<or> code = 127) (nt_subject t)"
    proof (rule interpolate_filter [OF s])
      show "filter (\<lambda>c. let code = of_char c :: nat in code < 32 \<or> code = 127) v' = []" if "escapeHeaderText v = Inr v'" for v v'
        using that unsafe_filter [of v] by (auto simp: escapeHeaderText_def split: if_splits)
      show "\<not> (let code = of_char c :: nat in code < 32 \<or> code = 127)" if "name_char c" for c
        using name_char_plain [OF that] by (auto simp: plain_char_def Let_def)
    qed simp_all
    then show ?thesis using subj(1) unsafe_filter [of subject] unsafe_filter [of "nt_subject t"] by simp
  qed
  have "render catalogs event key locale_of context = Inr \<lparr>em_subject = subject, em_text = body, em_html = html\<rparr>"
    by (rule render_intro [OF assms(6) t(1) vars(1) s safe body html])
  then show ?thesis by blast
qed


text \<open>Rendering does not fail on what the parser accepts. With catalogs that the constructor accepted and whose
  subjects name nothing but the booking, every well-typed event in VND is rendered in both languages, given
  the previous room number when it is a change.\<close>

theorem mail_renders:
  assumes "validateNotificationTemplateCatalogs catalogs = Inr u" "plain_subjects catalogs" "typed_event iso4217 event"
    and "ns_currency (fst (snd (booking_part event))) = ''VND''" "event_type_of event = ''booking.changed'' \<longrightarrow> context \<noteq> None"
    and "map_of notificationTemplateRegistry (event_type_of event) = Some key"
  shows "\<exists>content. render catalogs event key locale_of context = Inr content"
  by (rule render_total [OF assms])


end
