(* ===== verification/Mail_Failure.thy ===== *)
theory Mail_Failure
  imports Prelude
begin

text \<open>
  What a failed attempt means and when the next one is due: the classification of a transport error
  (notifications/smtp-error.ts), the translation of an answer of the Gmail API into the fields it reads
  (gmail-api-error.ts), and the delay before a retry (notification-backoff.ts). The draw of the jitter,
  \<open>Math.floor(random() * base * 0.2)\<close>, is a parameter.
\<close>

subsection \<open>Transport errors\<close>

record smtp_error_fields =
  ef_code :: "string option"
  ef_responseCode :: "int option"

record SmtpFailure =
  sm_retryable :: bool
  sm_code :: string

definition smtp_unavailable :: string where "smtp_unavailable = ''MAIL_PROVIDER_UNAVAILABLE''"
definition smtp_timeout :: string where "smtp_timeout = ''MAIL_PROVIDER_TIMEOUT''"
definition smtp_rejected :: string where "smtp_rejected = ''MAIL_PROVIDER_REJECTED''"
definition smtp_recipientInvalid :: string where "smtp_recipientInvalid = ''MAIL_RECIPIENT_INVALID''"
definition smtp_authentication :: string where "smtp_authentication = ''MAIL_PROVIDER_AUTHENTICATION''"

definition retryableTransportCodes :: "string list" where
  "retryableTransportCodes =
     [''ECONNECTION'', ''ECONNREFUSED'', ''ECONNRESET'', ''EDNS'', ''EHOSTUNREACH'', ''ENETUNREACH'', ''EPIPE'', ''ESOCKET'']"

definition timeoutTransportCodes :: "string list" where
  "timeoutTransportCodes = [''ETIMEDOUT'', ''ETIME'', ''EENVELOPE_TIMEOUT'']"

definition code_or_empty :: "smtp_error_fields \<Rightarrow> string" where
  "code_or_empty e = (case ef_code e of None \<Rightarrow> [] | Some c \<Rightarrow> c)"

definition classifySmtpFailure :: "smtp_error_fields \<Rightarrow> SmtpFailure" where
  "classifySmtpFailure e =
     (if (case ef_responseCode e of None \<Rightarrow> False | Some r \<Rightarrow> r \<ge> 400 \<and> r < 500)
      then \<lparr>sm_retryable = True, sm_code = (if ef_code e = Some ''EAUTH'' then smtp_authentication else smtp_unavailable)\<rparr>
      else if ef_code e = Some ''EAUTH'' \<or> ef_responseCode e = Some 530 \<or> ef_responseCode e = Some 535
      then \<lparr>sm_retryable = False, sm_code = smtp_authentication\<rparr>
      else if code_or_empty e \<in> set timeoutTransportCodes then \<lparr>sm_retryable = True, sm_code = smtp_timeout\<rparr>
      else if code_or_empty e \<in> set retryableTransportCodes then \<lparr>sm_retryable = True, sm_code = smtp_unavailable\<rparr>
      else if (case ef_responseCode e of None \<Rightarrow> False | Some r \<Rightarrow> r \<ge> 500)
      then \<lparr>sm_retryable = False, sm_code = (if ef_code e = Some ''EENVELOPE'' then smtp_recipientInvalid else smtp_rejected)\<rparr>
      else \<lparr>sm_retryable = True, sm_code = smtp_unavailable\<rparr>)"

subsection \<open>Answers of the Gmail API\<close>

datatype GmailApiPhase = PhaseToken | PhaseSend

definition throttledReasons :: "string list" where
  "throttledReasons = [''rateLimitExceeded'', ''userRateLimitExceeded'', ''backendError'', ''RESOURCE_EXHAUSTED'']"

definition configurationReasons :: "string list" where
  "configurationReasons = [''accessNotConfigured'', ''insufficientPermissions'', ''forbidden'', ''PERMISSION_DENIED'']"

definition smtpTryLaterReply :: int where "smtpTryLaterReply = 421"
definition smtpTemporaryAuthReply :: int where "smtpTemporaryAuthReply = 454"
definition smtpCredentialsRefusedReply :: int where "smtpCredentialsRefusedReply = 535"
definition smtpMessageRefusedReply :: int where "smtpMessageRefusedReply = 554"
definition httpTooManyRequests :: int where "httpTooManyRequests = 429"
definition httpUnauthorized :: int where "httpUnauthorized = 401"
definition httpForbidden :: int where "httpForbidden = 403"
definition httpServerErrorFloor :: int where "httpServerErrorFloor = 500"

definition reason_in :: "string option \<Rightarrow> string list \<Rightarrow> bool" where
  "reason_in reason reasons \<longleftrightarrow> (case reason of None \<Rightarrow> False | Some r \<Rightarrow> r \<in> set reasons)"

definition gmail_fields :: "GmailApiPhase \<Rightarrow> int \<Rightarrow> string option \<Rightarrow> smtp_error_fields" where
  "gmail_fields phase status reason =
     (if status = httpTooManyRequests \<or> reason_in reason throttledReasons
      then \<lparr>ef_code = Some ''ECONNECTION'', ef_responseCode = Some smtpTryLaterReply\<rparr>
      else if status \<ge> httpServerErrorFloor then \<lparr>ef_code = Some ''ECONNECTION'', ef_responseCode = None\<rparr>
      else if phase = PhaseToken then \<lparr>ef_code = Some ''EAUTH'', ef_responseCode = Some smtpCredentialsRefusedReply\<rparr>
      else if status = httpUnauthorized then \<lparr>ef_code = Some ''EAUTH'', ef_responseCode = Some smtpTemporaryAuthReply\<rparr>
      else if status = httpForbidden \<and> reason_in reason configurationReasons
      then \<lparr>ef_code = Some ''EAUTH'', ef_responseCode = Some smtpCredentialsRefusedReply\<rparr>
      else \<lparr>ef_code = Some ''EMESSAGE'', ef_responseCode = Some smtpMessageRefusedReply\<rparr>)"

subsection \<open>The delay before a retry\<close>

record NotificationBackoffBounds =
  nb_initialMs :: nat
  nb_maxMs :: nat

definition maximumExponent :: nat where
  "maximumExponent = 30"

definition notificationBackoffMs :: "nat \<Rightarrow> NotificationBackoffBounds \<Rightarrow> (nat \<Rightarrow> nat) \<Rightarrow> nat" where
  "notificationBackoffMs attempt bounds jitter =
     (let exponent = min (attempt - 1) maximumExponent;
          base = min (nb_initialMs bounds * 2 ^ exponent) (nb_maxMs bounds);
          jittered = base + jitter base in
      min jittered (nb_maxMs bounds))"

subsection \<open>Lemmas\<close>

lemma backoff_bounds:
  "min (nb_initialMs bounds) (nb_maxMs bounds) \<le> notificationBackoffMs attempt bounds jitter"
  "notificationBackoffMs attempt bounds jitter \<le> nb_maxMs bounds"
proof -
  have "nb_initialMs bounds * 1 \<le> nb_initialMs bounds * 2 ^ min (attempt - 1) maximumExponent"
    by (rule mult_le_mono2) simp
  then show "min (nb_initialMs bounds) (nb_maxMs bounds) \<le> notificationBackoffMs attempt bounds jitter"
    unfolding notificationBackoffMs_def Let_def by linarith
qed (simp add: notificationBackoffMs_def Let_def)

text \<open>Without jitter the delays grow with the attempts.\<close>

lemma backoff_grows:
  assumes "attempt \<le> attempt'"
  shows "notificationBackoffMs attempt bounds (\<lambda>_. 0) \<le> notificationBackoffMs attempt' bounds (\<lambda>_. 0)"
proof -
  have "(2::nat) ^ min (attempt - 1) maximumExponent \<le> 2 ^ min (attempt' - 1) maximumExponent"
    using assms by (intro power_increasing) auto
  then have "nb_initialMs bounds * 2 ^ min (attempt - 1) maximumExponent \<le> nb_initialMs bounds * 2 ^ min (attempt' - 1) maximumExponent"
    by simp
  then show ?thesis unfolding notificationBackoffMs_def Let_def by linarith
qed

text \<open>An unknown error is worth another attempt, and a permanent verdict always has one of three codes.\<close>

lemma permanent_code:
  "\<not> sm_retryable (classifySmtpFailure e) \<Longrightarrow>
    sm_code (classifySmtpFailure e) \<in> {smtp_authentication, smtp_recipientInvalid, smtp_rejected}"
  by (auto simp: classifySmtpFailure_def split: if_splits)

lemma gmail_retryable:
  "sm_retryable (classifySmtpFailure (gmail_fields phase status reason)) \<longleftrightarrow>
     status = 429 \<or> reason_in reason throttledReasons \<or> status \<ge> 500 \<or> phase = PhaseSend \<and> status = 401"
  by (cases phase)
    (simp_all add: gmail_fields_def classifySmtpFailure_def code_or_empty_def timeoutTransportCodes_def retryableTransportCodes_def
      smtpTryLaterReply_def smtpTemporaryAuthReply_def smtpCredentialsRefusedReply_def smtpMessageRefusedReply_def
      httpTooManyRequests_def httpUnauthorized_def httpForbidden_def httpServerErrorFloor_def)

text \<open>The answers of the Gmail API are classified by what they mean: another attempt is made exactly for a
  throttle, a server error and an access token refused on sending; a refused token request and a refused
  message are final. The delay before another attempt is never below the configured initial delay, unless
  the ceiling is, and never above the ceiling, jitter included.\<close>

theorem mail_failures_classified:
  "(sm_retryable (classifySmtpFailure (gmail_fields phase status reason)) \<longleftrightarrow>
      status = 429 \<or> reason_in reason throttledReasons \<or> status \<ge> 500 \<or> phase = PhaseSend \<and> status = 401)
   \<and> min (nb_initialMs bounds) (nb_maxMs bounds) \<le> notificationBackoffMs attempt bounds jitter
   \<and> notificationBackoffMs attempt bounds jitter \<le> nb_maxMs bounds"
  using gmail_retryable backoff_bounds by blast

end
