(* ===== verification/Mail_Delivery.thy ===== *)
theory Mail_Delivery
  imports Mail_Template Mail_Failure Outbox
begin

text \<open>
  The delivery of mail: the preparation of an attempt (notifications/delivery-preparation.service.ts), the
  job of the worker (delivery-worker.service.ts) with its two transactions around the call of the provider,
  the record of the outcome (delivery-result.repository.ts), the evidence of an acceptance
  (send-attempt.repository.ts), the dispatcher that moves events onto the queue
  (outbox-dispatcher.service.ts) and the command that returns a failed event (notification-redrive.repository.ts).
  The mail tables extend the database of the hotel. \<open>isEmail\<close> of class-validator, the ISO 4217 table and the
  answers of the provider and of the queue are parameters. An error of a transaction leaves the database
  as it was.
\<close>

subsection \<open>Tables\<close>

datatype EmailDeliveryStatus = DeliveryPending | DeliverySent | DeliveryFailed

record email_delivery =
  ed_id :: nat
  ed_outboxEventId :: string
  ed_recipient :: string
  ed_templateKey :: string
  ed_locale :: EmailDeliveryLocale
  ed_status :: EmailDeliveryStatus
  ed_attempts :: nat
  ed_providerMessageId :: "string option"
  ed_lastErrorCode :: "string option"
  ed_sentAt :: "instant option"
  ed_failedAt :: "instant option"
  ed_createdAt :: instant
  ed_updatedAt :: instant

record email_send_attempt =
  sa_outboxEventId :: string
  sa_templateKey :: string
  sa_providerMessageId :: "string option"
  sa_claimToken :: string
  sa_attempt :: nat
  sa_acceptedAt :: instant

record mail_db = hotel_db +
  emailDeliveries :: "email_delivery list"
  sendAttempts :: "email_send_attempt list"

definition chk_email_deliveries_state :: "email_delivery \<Rightarrow> bool" where
  "chk_email_deliveries_state d \<longleftrightarrow>
     (case ed_status d of
        DeliveryPending \<Rightarrow> ed_sentAt d = None \<and> ed_failedAt d = None \<and> ed_providerMessageId d = None
      | DeliverySent \<Rightarrow> ed_sentAt d \<noteq> None \<and> ed_failedAt d = None \<and> ed_lastErrorCode d = None
      | DeliveryFailed \<Rightarrow> ed_sentAt d = None \<and> ed_failedAt d \<noteq> None \<and> ed_lastErrorCode d \<noteq> None)"

record mail_config =
  mc_service :: template_service
  mc_claimBatchSize :: nat
  mc_claimLeaseMs :: int
  mc_maxAttempts :: nat
  mc_backoff :: NotificationBackoffBounds

definition mailFamily :: "outbox_row \<Rightarrow> bool" where
  "mailFamily row \<longleftrightarrow> o_eventType row \<in> set notificationEventTypes"

subsection \<open>Preparing an attempt\<close>

record PreparedNotification =
  pn_deliveryId :: nat
  pn_eventType :: string
  pn_templateKey :: string
  pn_locale :: EmailDeliveryLocale
  pn_recipient :: string
  pn_message :: PreparedEmailMessage

definition maximumEmailAddressLength :: nat where
  "maximumEmailAddressLength = 254"

definition requireRecipient :: "(string \<Rightarrow> bool) \<Rightarrow> string \<Rightarrow> mail_error + string" where
  "requireRecipient isEmail v =
     (if length v > maximumEmailAddressLength \<or> v \<noteq> toLowerCase (trim v) \<or> \<not> isEmail v
      then Inl (DeliveryPreparationError ''MAIL_RECIPIENT_INVALID'') else Inr v)"

definition resolveOwnerEmail :: "(string \<Rightarrow> bool) \<Rightarrow> user_row list \<Rightarrow> string \<Rightarrow> mail_error + string" where
  "resolveOwnerEmail isEmail owners ownerUserId =
     and_then (or_throw (List.find (\<lambda>owner. u_id owner = decimal_value ownerUserId) owners)
        (DeliveryPreparationError ''NOTIFICATION_OWNER_NOT_FOUND'')) (\<lambda>owner.
     requireRecipient isEmail (toLowerCase (trim (u_email owner))))"

fun resolveRenderContext :: "room_row list \<Rightarrow> NotificationEvent \<Rightarrow> mail_error + string option" where
  "resolveRenderContext roomList (BookingChangedEvent b s r before after) =
     (case List.find (\<lambda>room. r_id room = decimal_value (nc_roomId before)) roomList of
        None \<Rightarrow> Inl (DeliveryPreparationError ''NOTIFICATION_ROOM_NOT_FOUND'')
      | Some room \<Rightarrow> if r_roomNumber room = [] then Inl (DeliveryPreparationError ''NOTIFICATION_ROOM_NOT_FOUND'')
                     else Inr (Some (r_roomNumber room)))"
| "resolveRenderContext roomList event = Inr None"

definition template_key :: "NotificationEvent \<Rightarrow> string" where
  "template_key event = (case map_of notificationTemplateRegistry (event_type_of event) of None \<Rightarrow> [] | Some key \<Rightarrow> key)"

definition find_delivery :: "mail_db \<Rightarrow> string \<Rightarrow> string \<Rightarrow> email_delivery option" where
  "find_delivery db eventId key = List.find (\<lambda>d. ed_outboxEventId d = eventId \<and> ed_templateKey d = key) (emailDeliveries db)"

text \<open>The delivery of an event, created on the first attempt and counted on every other one.\<close>

definition lock_or_create_delivery ::
  "(string \<Rightarrow> bool) \<Rightarrow> template_service \<Rightarrow> instant \<Rightarrow> string \<Rightarrow> NotificationEvent \<Rightarrow> mail_db \<Rightarrow> mail_error + email_delivery \<times> mail_db" where
  "lock_or_create_delivery isEmail svc now eventId event db =
     (case find_delivery db eventId (template_key event) of
        None \<Rightarrow>
          (let owner = (case booking_part event of (b, s, r) \<Rightarrow> ne_ownerUserId b) in
           and_then (resolveOwnerEmail isEmail (users db) owner) (\<lambda>recipient.
           let delivery = \<lparr>ed_id = nextId db, ed_outboxEventId = eventId, ed_recipient = recipient,
                 ed_templateKey = template_key event, ed_locale = defaultLocale svc, ed_status = DeliveryPending, ed_attempts = 1,
                 ed_providerMessageId = None, ed_lastErrorCode = None, ed_sentAt = None, ed_failedAt = None,
                 ed_createdAt = now, ed_updatedAt = now\<rparr> in
           Inr (delivery, db\<lparr>emailDeliveries := emailDeliveries db @ [delivery], nextId := nextId db + 1\<rparr>)))
      | Some delivery \<Rightarrow>
          if ed_status delivery = DeliveryPending then
            let counted = delivery\<lparr>ed_attempts := ed_attempts delivery + 1, ed_updatedAt := now\<rparr> in
            Inr (counted, db\<lparr>emailDeliveries := update_where (\<lambda>d. ed_id d = ed_id delivery) (\<lambda>_. counted) (emailDeliveries db)\<rparr>)
          else Inr (delivery, db))"

definition prepare_delivery ::
  "(string \<Rightarrow> bool) \<Rightarrow> (string \<Rightarrow> bool) \<Rightarrow> template_service \<Rightarrow> bool \<Rightarrow> instant \<Rightarrow> outbox_row \<Rightarrow> mail_db
   \<Rightarrow> mail_error + PreparedNotification \<times> mail_db" where
  "prepare_delivery isEmail iso4217 svc inTransaction now row db =
     and_then (require inTransaction (DeliveryPreparationError ''NOTIFICATION_PREPARATION_TRANSACTION_REQUIRED'')) (\<lambda>_.
     and_then (parseNotificationEvent iso4217 (o_eventType row) (o_payload row)) (\<lambda>event.
     and_then (lock_or_create_delivery isEmail svc now (o_id row) event db) (\<lambda>(delivery, db').
     and_then (require (ed_status delivery = DeliveryPending) (DeliveryPreparationError ''NOTIFICATION_DELIVERY_NOT_PENDING'')) (\<lambda>_.
     and_then (requireRecipient isEmail (ed_recipient delivery)) (\<lambda>recipient.
     and_then (resolveRenderContext (rooms db') event) (\<lambda>context.
     and_then (buildMessage svc (o_id row) recipient event (template_key event) (ed_locale delivery) context) (\<lambda>message.
     Inr (\<lparr>pn_deliveryId = ed_id delivery, pn_eventType = event_type_of event, pn_templateKey = template_key event,
           pn_locale = ed_locale delivery, pn_recipient = recipient, pn_message = message\<rparr>, db'))))))))"

subsection \<open>Recording the outcome\<close>

record NotificationJobData =
  jd_outboxEventId :: string
  jd_claimToken :: string
  jd_attempt :: nat

definition holds_mail :: "NotificationJobData \<Rightarrow> outbox_row \<Rightarrow> bool" where
  "holds_mail key row \<longleftrightarrow> o_id row = jd_outboxEventId key \<and> mailFamily row \<and> holds_claim (jd_claimToken key) (jd_attempt key) row"

definition finishEvent ::
  "NotificationJobData \<Rightarrow> OutboxEventStatus \<Rightarrow> (outbox_row \<Rightarrow> outbox_row) \<Rightarrow> instant \<Rightarrow> mail_db \<Rightarrow> bool \<times> mail_db" where
  "finishEvent key status assign now db =
     (0 < affected (holds_mail key) (outboxEvents db),
      db\<lparr>outboxEvents := update_where (holds_mail key)
           (\<lambda>row. assign (row\<lparr>o_status := status, o_lockedAt := None, o_lockExpiresAt := None, o_lockedBy := None, o_updatedAt := now\<rparr>))
           (outboxEvents db)\<rparr>)"

text \<open>Addressed by the delivery when one was prepared, by the event otherwise; only a pending delivery changes.\<close>

definition updateDelivery ::
  "NotificationJobData \<Rightarrow> nat option \<Rightarrow> (email_delivery \<Rightarrow> email_delivery) \<Rightarrow> instant \<Rightarrow> mail_db \<Rightarrow> mail_db" where
  "updateDelivery key deliveryId assign now db =
     db\<lparr>emailDeliveries := update_where
          (\<lambda>d. (case deliveryId of Some i \<Rightarrow> ed_id d = i | None \<Rightarrow> ed_outboxEventId d = jd_outboxEventId key)
               \<and> ed_status d = DeliveryPending)
          (\<lambda>d. assign (d\<lparr>ed_updatedAt := now\<rparr>)) (emailDeliveries db)\<rparr>"

definition markSent_mail ::
  "NotificationJobData \<Rightarrow> nat option \<Rightarrow> string option \<Rightarrow> instant \<Rightarrow> mail_db \<Rightarrow> bool \<times> mail_db" where
  "markSent_mail key deliveryId providerMessageId now db =
     (case finishEvent key OutProcessed (\<lambda>row. row\<lparr>o_processedAt := Some now, o_lastErrorCode := None\<rparr>) now db of
        (held, db') \<Rightarrow>
          if \<not> held then (False, db')
          else (True, updateDelivery key deliveryId
                 (\<lambda>d. d\<lparr>ed_status := DeliverySent, ed_sentAt := Some now, ed_providerMessageId := providerMessageId,
                        ed_lastErrorCode := None\<rparr>) now db'))"

definition markRetry_mail ::
  "NotificationJobData \<Rightarrow> nat option \<Rightarrow> int \<Rightarrow> string \<Rightarrow> instant \<Rightarrow> mail_db \<Rightarrow> bool \<times> mail_db" where
  "markRetry_mail key deliveryId retryInMs errorCode now db =
     (case finishEvent key OutPending
             (\<lambda>row. row\<lparr>o_availableAt := now + retryInMs * 1000, o_lastErrorCode := Some errorCode\<rparr>) now db of
        (held, db') \<Rightarrow>
          if \<not> held then (False, db')
          else (True, updateDelivery key deliveryId (\<lambda>d. d\<lparr>ed_lastErrorCode := Some errorCode\<rparr>) now db'))"

definition markFailed_mail ::
  "NotificationJobData \<Rightarrow> nat option \<Rightarrow> string \<Rightarrow> instant \<Rightarrow> mail_db \<Rightarrow> bool \<times> mail_db" where
  "markFailed_mail key deliveryId errorCode now db =
     (case finishEvent key OutFailed (\<lambda>row. row\<lparr>o_failedAt := Some now, o_lastErrorCode := Some errorCode\<rparr>) now db of
        (held, db') \<Rightarrow>
          if \<not> held then (False, db')
          else (True, updateDelivery key deliveryId
                 (\<lambda>d. d\<lparr>ed_status := DeliveryFailed, ed_failedAt := Some now, ed_lastErrorCode := Some errorCode\<rparr>) now db'))"

definition matchResolvedDelivery :: "NotificationJobData \<Rightarrow> instant \<Rightarrow> mail_db \<Rightarrow> bool \<times> mail_db" where
  "matchResolvedDelivery key now db =
     (case List.find (\<lambda>d. ed_outboxEventId d = jd_outboxEventId key) (emailDeliveries db) of
        None \<Rightarrow> (False, db)
      | Some d \<Rightarrow>
          (case ed_status d of
             DeliverySent \<Rightarrow> finishEvent key OutProcessed (\<lambda>row. row\<lparr>o_processedAt := Some now, o_lastErrorCode := None\<rparr>) now db
           | DeliveryFailed \<Rightarrow>
               finishEvent key OutFailed (\<lambda>row. row\<lparr>o_failedAt := Some now,
                 o_lastErrorCode := Some (case ed_lastErrorCode d of None \<Rightarrow> ''MAIL_PROVIDER_REJECTED'' | Some c \<Rightarrow> c)\<rparr>) now db
           | DeliveryPending \<Rightarrow> (False, db)))"

definition recordAccepted ::
  "NotificationJobData \<Rightarrow> PreparedNotification \<Rightarrow> string option \<Rightarrow> instant \<Rightarrow> mail_db \<Rightarrow> mail_db" where
  "recordAccepted key prepared providerMessageId now db =
     db\<lparr>sendAttempts := sendAttempts db @ [\<lparr>sa_outboxEventId = jd_outboxEventId key, sa_templateKey = pn_templateKey prepared,
          sa_providerMessageId = providerMessageId, sa_claimToken = jd_claimToken key, sa_attempt = jd_attempt key,
          sa_acceptedAt = now\<rparr>]\<rparr>"

definition countAccepted :: "string \<Rightarrow> mail_db \<Rightarrow> nat" where
  "countAccepted eventId db = affected (\<lambda>a. sa_outboxEventId a = eventId) (sendAttempts db)"

subsection \<open>The job of the worker\<close>

datatype DeliveryOutcome = OutcomeSent | OutcomeRetry | OutcomeFailed | OutcomeSkipped

text \<open>The first transaction: the claim is checked again, the attempt prepared and the lease renewed.\<close>

definition claimWork ::
  "(string \<Rightarrow> bool) \<Rightarrow> (string \<Rightarrow> bool) \<Rightarrow> mail_config \<Rightarrow> instant \<Rightarrow> NotificationJobData \<Rightarrow> mail_db
   \<Rightarrow> mail_error + (PreparedNotification option \<times> mail_db)" where
  "claimWork isEmail iso4217 cfg now data db =
     (case List.find (\<lambda>row. holds_mail data row \<and> (case o_lockExpiresAt row of None \<Rightarrow> False | Some t \<Rightarrow> t > now)) (outboxEvents db) of
        None \<Rightarrow> Inr (None, db)
      | Some row \<Rightarrow>
          and_then (prepare_delivery isEmail iso4217 (mc_service cfg) True now row db) (\<lambda>(prepared, db').
          Inr (Some prepared, db'\<lparr>outboxEvents := update_where
                 (\<lambda>r. o_id r = jd_outboxEventId data \<and> mailFamily r \<and> o_lockedBy r = Some (jd_claimToken data))
                 (\<lambda>r. r\<lparr>o_lockExpiresAt := Some (now + mc_claimLeaseMs cfg * 1000), o_updatedAt := now\<rparr>) (outboxEvents db')\<rparr>)))"

text \<open>
  What the worker does when the first transaction failed: a delivery resolved elsewhere settles the event, a
  permanent error fails it, and anything else is thrown on.
\<close>

definition finishWithoutSending ::
  "NotificationJobData \<Rightarrow> mail_error \<Rightarrow> instant \<Rightarrow> mail_db \<Rightarrow> (mail_error + DeliveryOutcome \<times> string) \<times> mail_db" where
  "finishWithoutSending data e now db =
     (if e = DeliveryPreparationError ''NOTIFICATION_DELIVERY_NOT_PENDING''
      then (Inr (OutcomeSkipped, ''delivery_resolved''), snd (matchResolvedDelivery data now db))
      else
      case (case e of NotificationEventError code message \<Rightarrow> Some code | DeliveryPreparationError code \<Rightarrow> Some code
            | UnexpectedError _ \<Rightarrow> None) of
        None \<Rightarrow> (Inl e, db)
      | Some permanent \<Rightarrow> (Inr (OutcomeFailed, permanent), snd (markFailed_mail data None permanent now db)))"

definition recordProviderFailure ::
  "mail_config \<Rightarrow> (nat \<Rightarrow> nat) \<Rightarrow> NotificationJobData \<Rightarrow> PreparedNotification \<Rightarrow> smtp_error_fields \<Rightarrow> instant \<Rightarrow> mail_db
   \<Rightarrow> (DeliveryOutcome \<times> string) \<times> mail_db" where
  "recordProviderFailure cfg jitter data prepared e now db =
     (let failure = classifySmtpFailure e; exhausted = jd_attempt data \<ge> mc_maxAttempts cfg in
      if \<not> sm_retryable failure \<or> exhausted then
        (case markFailed_mail data (Some (pn_deliveryId prepared)) (sm_code failure) now db of
           (held, db') \<Rightarrow>
             (if \<not> held then (OutcomeSkipped, ''claim_lost_after_send'')
              else (OutcomeFailed, if exhausted \<and> sm_retryable failure then ''retries_exhausted'' else sm_code failure), db'))
      else
        (case markRetry_mail data (Some (pn_deliveryId prepared))
                (int (notificationBackoffMs (jd_attempt data) (mc_backoff cfg) jitter)) (sm_code failure) now db of
           (held, db') \<Rightarrow>
             (if \<not> held then (OutcomeSkipped, ''claim_lost_after_send'') else (OutcomeRetry, sm_code failure), db')))"

text \<open>What a job meets: the times of its statements, the answer of the provider, the jitter, and whether the
  evidence can be written.\<close>

record job_env =
  je_claimAt :: instant
  je_finishAt :: instant
  je_recordFails :: bool
  je_jitter :: "nat \<Rightarrow> nat"
  je_send :: "PreparedEmailMessage \<Rightarrow> smtp_error_fields + string option"

definition process_job ::
  "(string \<Rightarrow> bool) \<Rightarrow> (string \<Rightarrow> bool) \<Rightarrow> mail_config \<Rightarrow> job_env \<Rightarrow> NotificationJobData \<Rightarrow> mail_db
   \<Rightarrow> (mail_error + DeliveryOutcome \<times> string) \<times> mail_db" where
  "process_job isEmail iso4217 cfg env data db =
     (case claimWork isEmail iso4217 cfg (je_claimAt env) data db of
        Inl e \<Rightarrow> finishWithoutSending data e (je_finishAt env) db
      | Inr (None, db1) \<Rightarrow> (Inr (OutcomeSkipped, ''stale_claim''), db1)
      | Inr (Some prepared, db1) \<Rightarrow>
          (case je_send env (pn_message prepared) of
             Inl e \<Rightarrow>
               (case recordProviderFailure cfg (je_jitter env) data prepared e (je_finishAt env) db1 of
                  (answer, db2) \<Rightarrow> (Inr answer, db2))
           | Inr providerMessageId \<Rightarrow>
               let db2 = (if je_recordFails env then db1 else recordAccepted data prepared providerMessageId (je_finishAt env) db1) in
               (case markSent_mail data (Some (pn_deliveryId prepared)) providerMessageId (je_finishAt env) db2 of
                  (held, db3) \<Rightarrow>
                    (Inr (if \<not> held then (OutcomeSkipped, ''claim_lost_after_send'') else (OutcomeSent, pn_templateKey prepared)), db3))))"

subsection \<open>The dispatcher\<close>

record DispatchResult =
  dr_claimed :: nat
  dr_queued :: nat
  dr_released :: nat

definition mail_claim :: "mail_config \<Rightarrow> string \<Rightarrow> OutboxClaimInput" where
  "mail_claim cfg token = \<lparr>oi_eventTypes = notificationEventTypes, oi_batchSize = mc_claimBatchSize cfg,
     oi_leaseMs = mc_claimLeaseMs cfg, oi_claimToken = token\<rparr>"

definition mail_release :: "mail_config \<Rightarrow> (nat \<Rightarrow> nat) \<Rightarrow> NotificationJobData \<Rightarrow> OutboxReleaseInput" where
  "mail_release cfg jitter data = \<lparr>rl_eventTypes = notificationEventTypes, rl_id = jd_outboxEventId data,
     rl_claimToken = jd_claimToken data, rl_attempt = jd_attempt data,
     rl_retryInMs = int (notificationBackoffMs (jd_attempt data) (mc_backoff cfg) jitter),
     rl_errorCode = ''NOTIFICATION_QUEUE_UNAVAILABLE''\<rparr>"

definition job_of :: "string \<Rightarrow> OutboxClaim \<Rightarrow> NotificationJobData" where
  "job_of token claimed = \<lparr>jd_outboxEventId = oc_id claimed, jd_claimToken = token, jd_attempt = oc_attempt claimed\<rparr>"

definition releaseClaim ::
  "mail_config \<Rightarrow> (nat \<Rightarrow> nat) \<Rightarrow> instant \<Rightarrow> NotificationJobData \<Rightarrow> mail_db \<Rightarrow> bool \<times> mail_db" where
  "releaseClaim cfg jitter now data db =
     (case release (mail_release cfg jitter data) now (outboxEvents db) of
        Inl _ \<Rightarrow> (False, db)
      | Inr (ok, table) \<Rightarrow> (ok, db\<lparr>outboxEvents := table\<rparr>))"

text \<open>The claims one by one: handed to the queue, which may refuse, or given back. \<open>enqueued job\<close> is the answer of the queue.\<close>

fun hand_over ::
  "mail_config \<Rightarrow> (nat \<Rightarrow> nat) \<Rightarrow> instant \<Rightarrow> (NotificationJobData \<Rightarrow> bool) \<Rightarrow> string \<Rightarrow> OutboxClaim list
   \<Rightarrow> nat \<times> nat \<times> mail_db \<Rightarrow> nat \<times> nat \<times> mail_db" where
  "hand_over cfg jitter now enqueued token [] acc = acc"
| "hand_over cfg jitter now enqueued token (c # remaining) (queued, given, db) =
     (if enqueued (job_of token c) then hand_over cfg jitter now enqueued token remaining (queued + 1, given, db)
      else
      case releaseClaim cfg jitter now (job_of token c) db of
        (ok, db') \<Rightarrow> hand_over cfg jitter now enqueued token remaining (queued, if ok then given + 1 else given, db'))"

definition dispatch_once ::
  "mail_config \<Rightarrow> (nat \<Rightarrow> nat) \<Rightarrow> instant \<Rightarrow> instant \<Rightarrow> (string \<Rightarrow> bool) \<Rightarrow> (NotificationJobData \<Rightarrow> bool) \<Rightarrow> string \<Rightarrow> mail_db
   \<Rightarrow> error + DispatchResult \<times> mail_db" where
  "dispatch_once cfg jitter claimAt releaseAt lockedElsewhere enqueued token db =
     and_then (claimBatch (mail_claim cfg token) claimAt lockedElsewhere (outboxEvents db)) (\<lambda>(claimed, table).
     if claimed = [] then Inr (\<lparr>dr_claimed = 0, dr_queued = 0, dr_released = 0\<rparr>, db\<lparr>outboxEvents := table\<rparr>)
     else
       case hand_over cfg jitter releaseAt enqueued token claimed (0, 0, db\<lparr>outboxEvents := table\<rparr>) of
         (queued, given, db') \<Rightarrow>
           Inr (\<lparr>dr_claimed = length claimed, dr_queued = queued, dr_released = given\<rparr>, db'))"

subsection \<open>The redrive\<close>

record RedriveRequest =
  rq_outboxEventId :: string
  rq_reason :: string
  rq_allowDuplicate :: bool

record RedriveResult =
  rr_applied :: bool
  rr_code :: string
  rr_outboxEventId :: string
  rr_observedEventStatus :: "OutboxEventStatus option"
  rr_deliveriesReset :: nat

definition refuse :: "RedriveRequest \<Rightarrow> string \<Rightarrow> OutboxEventStatus option \<Rightarrow> RedriveResult" where
  "refuse request code observed =
     \<lparr>rr_applied = False, rr_code = code, rr_outboxEventId = rq_outboxEventId request,
      rr_observedEventStatus = observed, rr_deliveriesReset = 0\<rparr>"

definition failed_event :: "string \<Rightarrow> outbox_row \<Rightarrow> bool" where
  "failed_event i row \<longleftrightarrow> o_id row = i \<and> mailFamily row \<and> o_status row = OutFailed"

definition resetEvent :: "string \<Rightarrow> instant \<Rightarrow> mail_db \<Rightarrow> nat \<times> mail_db" where
  "resetEvent i now db =
     (affected (failed_event i) (outboxEvents db),
      db\<lparr>outboxEvents := update_where (failed_event i)
           (\<lambda>row. row\<lparr>o_status := OutPending, o_availableAt := now, o_failedAt := None, o_lockedAt := None,
                      o_lockExpiresAt := None, o_lockedBy := None, o_attempts := 0, o_updatedAt := now\<rparr>) (outboxEvents db)\<rparr>)"

definition failed_delivery :: "string \<Rightarrow> email_delivery \<Rightarrow> bool" where
  "failed_delivery i d \<longleftrightarrow> ed_outboxEventId d = i \<and> ed_status d = DeliveryFailed"

definition resetDeliveries :: "string \<Rightarrow> instant \<Rightarrow> mail_db \<Rightarrow> nat \<times> mail_db" where
  "resetDeliveries i now db =
     (affected (failed_delivery i) (emailDeliveries db),
      db\<lparr>emailDeliveries := update_where (failed_delivery i)
           (\<lambda>d. d\<lparr>ed_status := DeliveryPending, ed_failedAt := None, ed_providerMessageId := None, ed_updatedAt := now\<rparr>)
           (emailDeliveries db)\<rparr>)"

definition redrive :: "RedriveRequest \<Rightarrow> instant \<Rightarrow> mail_db \<Rightarrow> RedriveResult \<times> mail_db" where
  "redrive request now db =
     (let i = rq_outboxEventId request in
      case List.find (\<lambda>row. o_id row = i \<and> mailFamily row) (outboxEvents db) of
        None \<Rightarrow> (refuse request ''NOTIFICATION_REDRIVE_EVENT_NOT_FOUND'' None, db)
      | Some event \<Rightarrow>
          let observed = Some (o_status event) in
          if o_status event \<noteq> OutFailed then (refuse request ''NOTIFICATION_REDRIVE_EVENT_NOT_FAILED'' observed, db)
          else if \<exists>d \<in> set (emailDeliveries db). ed_outboxEventId d = i \<and> ed_status d = DeliverySent
          then (refuse request ''NOTIFICATION_REDRIVE_DELIVERY_ALREADY_SENT'' observed, db)
          else if \<not> rq_allowDuplicate request \<and> countAccepted i db > 0
          then (refuse request ''NOTIFICATION_REDRIVE_PROVIDER_ALREADY_ACCEPTED'' observed, db)
          else
            case resetEvent i now db of (eventsReset, db1) \<Rightarrow>
              if eventsReset = 0 then (refuse request ''NOTIFICATION_REDRIVE_EVENT_NOT_FAILED'' observed, db1)
              else
                case resetDeliveries i now db1 of (deliveriesReset, db2) \<Rightarrow>
                  (\<lparr>rr_applied = True, rr_code = ''NOTIFICATION_REDRIVE_APPLIED'', rr_outboxEventId = i,
                    rr_observedEventStatus = observed, rr_deliveriesReset = deliveriesReset\<rparr>, db2))"

text \<open>The retention of mail: the attempts, the deliveries and the events of a batch, in one transaction.\<close>

definition collectNotificationEvents :: "string list \<Rightarrow> mail_db \<Rightarrow> mail_db" where
  "collectNotificationEvents ids db =
     db\<lparr>sendAttempts := delete_where (\<lambda>a. sa_outboxEventId a \<in> set ids) (sendAttempts db),
        emailDeliveries := delete_where (\<lambda>d. ed_outboxEventId d \<in> set ids) (emailDeliveries db),
        outboxEvents := delete_where (\<lambda>row. o_id row \<in> set ids) (outboxEvents db)\<rparr>"

end
