(* ===== verification/Mail_System.thy ===== *)
theory Mail_System
  imports Mail_Delivery Transition_Systems
begin

text \<open>
  The mail system as a whole: dispatchers that claim events and hand them to the queue or give them back,
  a queue that may deliver a job any number of times, jobs of the worker between two of their statements,
  the provider with everything it accepted, the command that redrives an event, the retention of delivered
  events, and everything else the program does to the shared tables. A job that stops for good is dropped;
  the provider may have accepted a message whose sending is reported as failed. The invariant gives that
  the status of an event and of its delivery agree and that an event is processed only when the
  provider accepted its message for the recipient on record.
\<close>

subsection \<open>The system\<close>

datatype mail_flight =
    Refusing NotificationJobData mail_error
  | Sending NotificationJobData PreparedNotification
  | Accepted NotificationJobData PreparedNotification "string option"
  | Recorded NotificationJobData PreparedNotification "string option"
  | Bounced NotificationJobData PreparedNotification smtp_error_fields

record mail_world =
  mw_db :: mail_db
  mw_claims :: "NotificationJobData list"
  mw_queue :: "NotificationJobData list"
  mw_flight :: "mail_flight list"
  mw_provider :: "PreparedEmailMessage list"
  mw_known :: "string set"

text \<open>
  What the rest of the program may do: keep the mail events, write new pending ones under identifiers never
  used, and do as it likes with the rows of other families, with users and with rooms.
\<close>

definition foreign_mail :: "string set \<Rightarrow> mail_db \<Rightarrow> mail_db \<Rightarrow> bool" where
  "foreign_mail known db db' \<longleftrightarrow>
     wf_outbox (outboxEvents db') \<and> emailDeliveries db' = emailDeliveries db \<and> sendAttempts db' = sendAttempts db
     \<and> nextId db \<le> nextId db'
     \<and> (\<forall>row \<in> set (outboxEvents db). mailFamily row \<longrightarrow> row \<in> set (outboxEvents db'))
     \<and> (\<forall>row \<in> set (outboxEvents db'). mailFamily row \<longrightarrow>
          row \<in> set (outboxEvents db) \<or> o_status row = OutPending \<and> o_id row \<notin> known)"

definition with_flight :: "mail_flight \<Rightarrow> mail_flight list \<Rightarrow> mail_world \<Rightarrow> mail_world" where
  "with_flight f next_flights w = w\<lparr>mw_flight := remove1 f (mw_flight w) @ next_flights\<rparr>"

inductive mail_step :: "(string \<Rightarrow> bool) \<Rightarrow> (string \<Rightarrow> bool) \<Rightarrow> mail_config \<Rightarrow> mail_world \<Rightarrow> mail_world \<Rightarrow> bool"
  for isEmail iso4217 cfg where
  foreign: "foreign_mail (mw_known w) (mw_db w) db \<Longrightarrow>
    mail_step isEmail iso4217 cfg w (w\<lparr>mw_db := db, mw_known := mw_known w \<union> o_id ` set (outboxEvents db)\<rparr>)"
| claimed: "claimBatch (mail_claim cfg token) now lockedElsewhere (outboxEvents (mw_db w)) = Inr (taken, table) \<Longrightarrow>
    mail_step isEmail iso4217 cfg w
      (w\<lparr>mw_db := (mw_db w)\<lparr>outboxEvents := table\<rparr>, mw_claims := mw_claims w @ map (job_of token) taken\<rparr>)"
| handed: "data \<in> set (mw_claims w) \<Longrightarrow>
    mail_step isEmail iso4217 cfg w (w\<lparr>mw_claims := remove1 data (mw_claims w), mw_queue := mw_queue w @ [data]\<rparr>)"
| given_back: "data \<in> set (mw_claims w) \<Longrightarrow> releaseClaim cfg jitter now data (mw_db w) = (ok, db) \<Longrightarrow>
    mail_step isEmail iso4217 cfg w (w\<lparr>mw_claims := remove1 data (mw_claims w), mw_db := db\<rparr>)"
| started: "data \<in> set (mw_queue w) \<Longrightarrow> claimWork isEmail iso4217 cfg now data (mw_db w) = Inr (Some prepared, db) \<Longrightarrow>
    mail_step isEmail iso4217 cfg w (w\<lparr>mw_db := db, mw_flight := mw_flight w @ [Sending data prepared]\<rparr>)"
| refused: "data \<in> set (mw_queue w) \<Longrightarrow> claimWork isEmail iso4217 cfg now data (mw_db w) = Inl e \<Longrightarrow>
    mail_step isEmail iso4217 cfg w (w\<lparr>mw_flight := mw_flight w @ [Refusing data e]\<rparr>)"
| finished_unsent: "Refusing data e \<in> set (mw_flight w) \<Longrightarrow> finishWithoutSending data e now (mw_db w) = (answer, db) \<Longrightarrow>
    mail_step isEmail iso4217 cfg w (with_flight (Refusing data e) [] (w\<lparr>mw_db := db\<rparr>))"
| accepted: "Sending data prepared \<in> set (mw_flight w) \<Longrightarrow>
    mail_step isEmail iso4217 cfg w
      (with_flight (Sending data prepared) [Accepted data prepared mid] (w\<lparr>mw_provider := mw_provider w @ [pn_message prepared]\<rparr>))"
| bounced: "Sending data prepared \<in> set (mw_flight w) \<Longrightarrow> set taken \<subseteq> {pn_message prepared} \<Longrightarrow>
    mail_step isEmail iso4217 cfg w
      (with_flight (Sending data prepared) [Bounced data prepared e] (w\<lparr>mw_provider := mw_provider w @ taken\<rparr>))"
| evidence: "Accepted data prepared mid \<in> set (mw_flight w) \<Longrightarrow>
    mail_step isEmail iso4217 cfg w
      (with_flight (Accepted data prepared mid) [Recorded data prepared mid] (w\<lparr>mw_db := recordAccepted data prepared mid now (mw_db w)\<rparr>))"
| evidence_lost: "Accepted data prepared mid \<in> set (mw_flight w) \<Longrightarrow>
    mail_step isEmail iso4217 cfg w (with_flight (Accepted data prepared mid) [Recorded data prepared mid] w)"
| marked: "Recorded data prepared mid \<in> set (mw_flight w) \<Longrightarrow>
    markSent_mail data (Some (pn_deliveryId prepared)) mid now (mw_db w) = (held, db) \<Longrightarrow>
    mail_step isEmail iso4217 cfg w (with_flight (Recorded data prepared mid) [] (w\<lparr>mw_db := db\<rparr>))"
| bounce_recorded: "Bounced data prepared e \<in> set (mw_flight w) \<Longrightarrow>
    recordProviderFailure cfg jitter data prepared e now (mw_db w) = (answer, db) \<Longrightarrow>
    mail_step isEmail iso4217 cfg w (with_flight (Bounced data prepared e) [] (w\<lparr>mw_db := db\<rparr>))"
| crashed: "mail_step isEmail iso4217 cfg w (with_flight f [] w)"
| redriven: "redrive request now (mw_db w) = (result, db) \<Longrightarrow> mail_step isEmail iso4217 cfg w (w\<lparr>mw_db := db\<rparr>)"
| collected: "(\<And>row. row \<in> set (outboxEvents (mw_db w)) \<Longrightarrow> o_id row \<in> set ids \<Longrightarrow> mailFamily row \<and> o_status row = OutProcessed) \<Longrightarrow>
    mail_step isEmail iso4217 cfg w (w\<lparr>mw_db := collectNotificationEvents ids (mw_db w)\<rparr>)"

definition empty_mail_db :: mail_db where
  "empty_mail_db = hotel_db.extend empty_db \<lparr>emailDeliveries = [], sendAttempts = []\<rparr>"

definition mail_init :: mail_world where
  "mail_init = \<lparr>mw_db = empty_mail_db, mw_claims = [], mw_queue = [], mw_flight = [], mw_provider = [], mw_known = {}\<rparr>"

definition mail_reachable :: "(string \<Rightarrow> bool) \<Rightarrow> (string \<Rightarrow> bool) \<Rightarrow> mail_config \<Rightarrow> mail_world \<Rightarrow> bool" where
  "mail_reachable isEmail iso4217 cfg w \<longleftrightarrow> (mail_step isEmail iso4217 cfg)\<^sup>*\<^sup>* mail_init w"

subsection \<open>Events and their deliveries\<close>

text \<open>The status a delivery has when it agrees with its event.\<close>

fun delivery_status_of :: "OutboxEventStatus \<Rightarrow> EmailDeliveryStatus" where
  "delivery_status_of OutPending = DeliveryPending"
| "delivery_status_of OutProcessing = DeliveryPending"
| "delivery_status_of OutProcessed = DeliverySent"
| "delivery_status_of OutFailed = DeliveryFailed"

text \<open>What the mail invariant reads of the outbox.\<close>

type_synonym event_view = "string \<times> string \<times> EmailDeliveryStatus"

definition view :: "outbox_row \<Rightarrow> event_view" where
  "view row = (o_id row, o_eventType row, delivery_status_of (o_status row))"

definition views :: "outbox_row list \<Rightarrow> event_view set" where
  "views table = view ` set table"

definition accepted_for :: "PreparedEmailMessage list \<Rightarrow> string \<Rightarrow> string \<Rightarrow> bool" where
  "accepted_for provider eventId recipient \<longleftrightarrow>
     (\<exists>m \<in> set provider. pm_notificationId m = toLowerCase eventId \<and> pm_to m = recipient)"

definition delivery_ok :: "(string \<Rightarrow> bool) \<Rightarrow> event_view set \<Rightarrow> PreparedEmailMessage list \<Rightarrow> email_delivery \<Rightarrow> bool" where
  "delivery_ok isEmail V provider d \<longleftrightarrow>
     chk_email_deliveries_state d \<and> requireRecipient isEmail (ed_recipient d) = Inr (ed_recipient d)
     \<and> (\<exists>t. (ed_outboxEventId d, t, ed_status d) \<in> V \<and> map_of notificationTemplateRegistry t = Some (ed_templateKey d))
     \<and> (ed_status d = DeliverySent \<longrightarrow> accepted_for provider (ed_outboxEventId d) (ed_recipient d))"

definition deliveries_ok :: "(string \<Rightarrow> bool) \<Rightarrow> event_view set \<Rightarrow> PreparedEmailMessage list \<Rightarrow> nat \<Rightarrow> email_delivery list \<Rightarrow> bool" where
  "deliveries_ok isEmail V provider n D \<longleftrightarrow>
     distinct (map ed_id D) \<and> distinct (map ed_outboxEventId D) \<and> (\<forall>d \<in> set D. ed_id d < n \<and> delivery_ok isEmail V provider d)
     \<and> (\<forall>i t. (i, t, DeliverySent) \<in> V \<and> t \<in> set notificationEventTypes \<longrightarrow> (\<exists>d \<in> set D. ed_outboxEventId d = i))"

definition prepared_ok ::
  "event_view set \<Rightarrow> email_delivery list \<Rightarrow> string set \<Rightarrow> NotificationJobData \<Rightarrow> PreparedNotification \<Rightarrow> bool" where
  "prepared_ok V D known data p \<longleftrightarrow>
     jd_outboxEventId data \<in> known \<and> pm_to (pn_message p) = pn_recipient p
     \<and> pm_notificationId (pn_message p) = toLowerCase (jd_outboxEventId data)
     \<and> (\<forall>t s. (jd_outboxEventId data, t, s) \<in> V \<and> t \<in> set notificationEventTypes \<longrightarrow>
          (\<exists>d \<in> set D. ed_id d = pn_deliveryId p \<and> ed_outboxEventId d = jd_outboxEventId data \<and> ed_recipient d = pn_recipient p))"

fun flight_ok :: "event_view set \<Rightarrow> email_delivery list \<Rightarrow> string set \<Rightarrow> PreparedEmailMessage list \<Rightarrow> mail_flight \<Rightarrow> bool" where
  "flight_ok V D known provider (Refusing data e) \<longleftrightarrow> True"
| "flight_ok V D known provider (Sending data p) \<longleftrightarrow> prepared_ok V D known data p"
| "flight_ok V D known provider (Accepted data p mid) \<longleftrightarrow> prepared_ok V D known data p \<and> pn_message p \<in> set provider"
| "flight_ok V D known provider (Recorded data p mid) \<longleftrightarrow> prepared_ok V D known data p \<and> pn_message p \<in> set provider"
| "flight_ok V D known provider (Bounced data p e) \<longleftrightarrow> prepared_ok V D known data p"

definition attempts_ok :: "PreparedEmailMessage list \<Rightarrow> email_send_attempt list \<Rightarrow> bool" where
  "attempts_ok provider A \<longleftrightarrow> (\<forall>a \<in> set A. \<exists>m \<in> set provider. pm_notificationId m = toLowerCase (sa_outboxEventId a))"

definition mail_inv :: "(string \<Rightarrow> bool) \<Rightarrow> mail_world \<Rightarrow> bool" where
  "mail_inv isEmail w \<longleftrightarrow>
     wf_outbox (outboxEvents (mw_db w))
     \<and> deliveries_ok isEmail (views (outboxEvents (mw_db w))) (mw_provider w) (nextId (mw_db w)) (emailDeliveries (mw_db w))
     \<and> o_id ` set (outboxEvents (mw_db w)) \<subseteq> mw_known w
     \<and> (\<forall>f \<in> set (mw_flight w). flight_ok (views (outboxEvents (mw_db w))) (emailDeliveries (mw_db w)) (mw_known w) (mw_provider w) f)
     \<and> attempts_ok (mw_provider w) (sendAttempts (mw_db w))"

subsection \<open>Views of the outbox\<close>

lemma view_simps: "view row = (i, t, s) \<longleftrightarrow> o_id row = i \<and> o_eventType row = t \<and> delivery_status_of (o_status row) = s"
  by (auto simp: view_def)

lemma in_views: "(i, t, s) \<in> views table \<longleftrightarrow>
    (\<exists>row \<in> set table. o_id row = i \<and> o_eventType row = t \<and> delivery_status_of (o_status row) = s)"
  by (auto simp: views_def view_def image_iff)

lemma views_unique:
  "wf_outbox table \<Longrightarrow> (i, t, s) \<in> views table \<Longrightarrow> (i, t', s') \<in> views table \<Longrightarrow> t = t' \<and> s = s'"
  by (auto simp: in_views wf_outbox_def dest: distinct_key_eq)

lemma mailFamily_type: "row \<in> set table \<Longrightarrow> mailFamily row \<Longrightarrow>
    (o_id row, o_eventType row, delivery_status_of (o_status row)) \<in> views table \<and> o_eventType row \<in> set notificationEventTypes"
  by (auto simp: in_views mailFamily_def)

lemma views_update:
  assumes "\<And>row. row \<in> set table \<Longrightarrow> P row \<Longrightarrow> view (f row) = view row"
  shows "views (update_where P f table) = views table"
proof -
  have "map view (update_where P f table) = map view table" using assms by (auto simp: update_where_def)
  then show ?thesis unfolding views_def by (metis set_map)
qed

lemma claim_views:
  assumes "wf_outbox table" "claimBatch input now locked table = Inr (taken, table')"
  shows "views table' = views table"
proof -
  have d: "distinct (map o_id table)" using assms(1) by (simp add: wf_outbox_def)
  show ?thesis
    unfolding claimBatch_Inr(2) [OF d assms(2)]
  proof (rule views_update)
    fix row assume r: "row \<in> set table" "o_id row \<in> o_id ` set (eligible_rows input now locked table)"
    then obtain e where e: "e \<in> set (eligible_rows input now locked table)" "o_id e = o_id row" by auto
    then have "e = row" using eligible_row(1) distinct_key_eq [OF d _ r(1)] by blast
    then show "view (leased input now row) = view row"
      using eligible_row(3) [OF e(1)] by (auto simp: view_def leased_def expired_lease_def due_row_def)
  qed
qed

lemma release_views:
  assumes "release input now table = Inr (ok, table')"
  shows "views table' = views table"
proof -
  from assms obtain family where t: "table' = update_where (\<lambda>row. o_id row = rl_id input \<and> family row
      \<and> holds_claim (rl_claimToken input) (rl_attempt input) row) (released input now) table"
    by (auto simp: release_def and_then_Inr_iff Let_def split: if_splits)
  show ?thesis unfolding t by (rule views_update) (auto simp: holds_claim_def view_def released_def)
qed

text \<open>One event is rewritten.\<close>

lemma change_event:
  assumes "wf_outbox table" "r \<in> set table" "P r" "\<And>row. row \<in> set table \<Longrightarrow> P row \<Longrightarrow> o_id row = o_id r"
    and "event_of (f r) = event_of r" "lease_state (f r)"
  shows "wf_outbox (update_where P f table)"
    and "views (update_where P f table) = {v \<in> views table. fst v \<noteq> o_id r} \<union> {view (f r)}"
proof -
  have d: "distinct (map o_id table)" using assms(1) by (simp add: wf_outbox_def)
  have only: "row = r" if "row \<in> set table" "P row" for row
    using distinct_key_eq [OF d that(1) assms(2)] assms(4) that by blast
  have eq: "update_where P f table = map (\<lambda>row. if row = r then f r else row) table"
    unfolding update_where_def
  proof (rule map_cong [OF refl])
    fix row assume "row \<in> set table"
    then have "P row \<longleftrightarrow> row = r" using only assms(3) by blast
    then show "(if P row then f row else row) = (if row = r then f r else row)" by simp
  qed
  have "map event_of (update_where P f table) = map event_of table" unfolding eq using assms(5) by auto
  moreover have "lease_state row" if "row \<in> set (update_where P f table)" for row
    using that assms(1,6) by (auto simp: eq wf_outbox_def)
  ultimately show "wf_outbox (update_where P f table)" using wf_outbox_update [OF assms(1)] by blast
  have fi: "o_id (f r) = o_id r" using assms(5) by (simp add: event_of_def)
  have other: "o_id row \<noteq> o_id r" if "row \<in> set table" "row \<noteq> r" for row
    using distinct_key_eq [OF d that(1) assms(2)] that(2) by blast
  have "set (map (\<lambda>row. if row = r then f r else row) table) = (set table - {r}) \<union> {f r}" using assms(2) by auto
  then have "views (update_where P f table) = view ` (set table - {r}) \<union> {view (f r)}"
    unfolding views_def eq by auto
  moreover have "view ` (set table - {r}) = {v \<in> views table. fst v \<noteq> o_id r}"
  proof -
    have "set table - {r} = {row \<in> set table. fst (view row) \<noteq> o_id r}" using other by (auto simp: view_def)
    then show ?thesis unfolding views_def by blast
  qed
  ultimately show "views (update_where P f table) = {v \<in> views table. fst v \<noteq> o_id r} \<union> {view (f r)}" by simp
qed

subsection \<open>Lemmas on the invariant\<close>

lemma accepted_for_mono: "accepted_for P i a \<Longrightarrow> set P \<subseteq> set P' \<Longrightarrow> accepted_for P' i a"
  by (auto simp: accepted_for_def)

lemma registry_type: "map_of notificationTemplateRegistry t = Some key \<Longrightarrow> t \<in> set notificationEventTypes"
  by (auto simp: notificationTemplateRegistry_def notificationEventTypes_def split: if_splits)

lemma delivery_ok_mono:
  "delivery_ok isEmail V P d \<Longrightarrow> (\<And>t s. (ed_outboxEventId d, t, s) \<in> V \<Longrightarrow> t \<in> set notificationEventTypes \<Longrightarrow> (ed_outboxEventId d, t, s) \<in> V') \<Longrightarrow>
    set P \<subseteq> set P' \<Longrightarrow> delivery_ok isEmail V' P' d"
  unfolding delivery_ok_def using accepted_for_mono registry_type by blast

definition delivery_key :: "email_delivery \<Rightarrow> nat \<times> string \<times> string \<times> string" where
  "delivery_key d = (ed_id d, ed_outboxEventId d, ed_recipient d, ed_templateKey d)"

lemma map_delivery_key:
  assumes "map delivery_key D' = map delivery_key D"
  shows "map ed_id D' = map ed_id D \<and> map ed_outboxEventId D' = map ed_outboxEventId D"
proof -
  have "map ed_id X = map fst (map delivery_key X)" "map ed_outboxEventId X = map (fst \<circ> snd) (map delivery_key X)" for X
    by (simp_all add: delivery_key_def)
  then show ?thesis using assms by metis
qed

lemma deliveries_ok_update:
  assumes "deliveries_ok isEmail V P n D" "\<And>d. d \<in> set D \<Longrightarrow> delivery_key (g d) = delivery_key d"
    and "\<And>d. d \<in> set D \<Longrightarrow> chk_email_deliveries_state d \<Longrightarrow> chk_email_deliveries_state (g d)"
    and "\<And>d t. d \<in> set D \<Longrightarrow> (ed_outboxEventId d, t, ed_status d) \<in> V \<Longrightarrow> (ed_outboxEventId d, t, ed_status (g d)) \<in> V'"
    and "\<And>d. d \<in> set D \<Longrightarrow> ed_status (g d) = DeliverySent \<Longrightarrow> ed_status d \<noteq> DeliverySent \<Longrightarrow> accepted_for P (ed_outboxEventId d) (ed_recipient d)"
    and "\<And>i t. (i, t, DeliverySent) \<in> V' \<Longrightarrow> t \<in> set notificationEventTypes \<Longrightarrow> \<exists>d \<in> set D. ed_outboxEventId d = i"
  shows "deliveries_ok isEmail V' P n (map g D)"
proof -
  have key: "ed_id (g d) = ed_id d" "ed_outboxEventId (g d) = ed_outboxEventId d" "ed_recipient (g d) = ed_recipient d"
    "ed_templateKey (g d) = ed_templateKey d" if "d \<in> set D" for d
    using assms(2) [OF that] by (simp_all add: delivery_key_def)
  have "delivery_ok isEmail V' P (g d)" if d: "d \<in> set D" for d
  proof -
    have old: "delivery_ok isEmail V P d" using assms(1) d by (auto simp: deliveries_ok_def)
    then have "accepted_for P (ed_outboxEventId d) (ed_recipient d)" if "ed_status (g d) = DeliverySent"
      using assms(5) [OF d that] by (auto simp: delivery_ok_def)
    then show ?thesis using old assms(3,4) [OF d] by (auto simp: delivery_ok_def key [OF d])
  qed
  moreover have "map ed_id (map g D) = map ed_id D" "map ed_outboxEventId (map g D) = map ed_outboxEventId D"
    using key by simp_all
  ultimately show ?thesis
    using assms(1,6) key unfolding deliveries_ok_def by (auto simp del: map_map)
qed

lemma prepared_ok_mono:
  assumes "prepared_ok V D known data p" "known \<subseteq> known'"
    and "\<And>i t s. i \<in> known \<Longrightarrow> (i, t, s) \<in> V' \<Longrightarrow> t \<in> set notificationEventTypes \<Longrightarrow> \<exists>s'. (i, t, s') \<in> V"
    and "\<And>d t s. d \<in> set D \<Longrightarrow> (ed_outboxEventId d, t, s) \<in> V' \<Longrightarrow>
      \<exists>d' \<in> set D'. ed_id d' = ed_id d \<and> ed_outboxEventId d' = ed_outboxEventId d \<and> ed_recipient d' = ed_recipient d"
  shows "prepared_ok V' D' known' data p"
  unfolding prepared_ok_def
proof (intro conjI allI impI)
  show "jd_outboxEventId data \<in> known'" "pm_to (pn_message p) = pn_recipient p"
    "pm_notificationId (pn_message p) = toLowerCase (jd_outboxEventId data)"
    using assms(1,2) by (auto simp: prepared_ok_def)
  fix t s assume v: "(jd_outboxEventId data, t, s) \<in> V' \<and> t \<in> set notificationEventTypes"
  moreover have "jd_outboxEventId data \<in> known" using assms(1) by (simp add: prepared_ok_def)
  ultimately obtain s' where "(jd_outboxEventId data, t, s') \<in> V" using assms(3) by blast
  then obtain d where "d \<in> set D" "ed_id d = pn_deliveryId p" "ed_outboxEventId d = jd_outboxEventId data" "ed_recipient d = pn_recipient p"
    using assms(1) v by (auto simp: prepared_ok_def)
  then show "\<exists>d \<in> set D'. ed_id d = pn_deliveryId p \<and> ed_outboxEventId d = jd_outboxEventId data \<and> ed_recipient d = pn_recipient p"
    using assms(4) [of d t s] v by metis
qed

lemma flight_ok_mono:
  assumes "flight_ok V D known P f" "known \<subseteq> known'" "set P \<subseteq> set P'"
    and "\<And>i t s. i \<in> known \<Longrightarrow> (i, t, s) \<in> V' \<Longrightarrow> t \<in> set notificationEventTypes \<Longrightarrow> \<exists>s'. (i, t, s') \<in> V"
    and "\<And>d t s. d \<in> set D \<Longrightarrow> (ed_outboxEventId d, t, s) \<in> V' \<Longrightarrow>
      \<exists>d' \<in> set D'. ed_id d' = ed_id d \<and> ed_outboxEventId d' = ed_outboxEventId d \<and> ed_recipient d' = ed_recipient d"
  shows "flight_ok V' D' known' P' f"
proof -
  have "prepared_ok V D known data p \<Longrightarrow> prepared_ok V' D' known' data p" for data p
    using prepared_ok_mono [OF _ assms(2)] assms(4,5) by blast
  then show ?thesis using assms(1,3) by (cases f) auto
qed

end
