(* ===== verification/Mail_Runs.thy ===== *)
theory Mail_Runs
  imports Mail_System
begin

text \<open>
  The runs of the mail system: every step of \<open>mail_step\<close> keeps \<open>mail_inv\<close>, operation by operation, and so
  every reachable world has it (the interpretation \<open>mail\<close> of the interface \<open>transition_system\<close>).
\<close>

subsection \<open>The parts of the invariant\<close>

lemma mail_invI:
  assumes "wf_outbox (outboxEvents (mw_db w))"
    and "deliveries_ok isEmail (views (outboxEvents (mw_db w))) (mw_provider w) (nextId (mw_db w)) (emailDeliveries (mw_db w))"
    and "o_id ` set (outboxEvents (mw_db w)) \<subseteq> mw_known w"
    and "\<And>f. f \<in> set (mw_flight w) \<Longrightarrow> flight_ok (views (outboxEvents (mw_db w))) (emailDeliveries (mw_db w)) (mw_known w) (mw_provider w) f"
    and "attempts_ok (mw_provider w) (sendAttempts (mw_db w))"
  shows "mail_inv isEmail w"
  using assms by (simp add: mail_inv_def)

lemma mail_invD:
  assumes "mail_inv isEmail w"
  shows "wf_outbox (outboxEvents (mw_db w))"
    and "deliveries_ok isEmail (views (outboxEvents (mw_db w))) (mw_provider w) (nextId (mw_db w)) (emailDeliveries (mw_db w))"
    and "o_id ` set (outboxEvents (mw_db w)) \<subseteq> mw_known w"
    and "f \<in> set (mw_flight w) \<Longrightarrow> flight_ok (views (outboxEvents (mw_db w))) (emailDeliveries (mw_db w)) (mw_known w) (mw_provider w) f"
    and "attempts_ok (mw_provider w) (sendAttempts (mw_db w))"
  using assms by (simp_all add: mail_inv_def)

text \<open>Steps that leave the views and the deliveries alone.\<close>

lemma mail_inv_frame:
  assumes "mail_inv isEmail w" "wf_outbox (outboxEvents db)" "views (outboxEvents db) = views (outboxEvents (mw_db w))"
    and "emailDeliveries db = emailDeliveries (mw_db w)" "sendAttempts db = sendAttempts (mw_db w)" "nextId db = nextId (mw_db w)"
  shows "mail_inv isEmail (w\<lparr>mw_db := db\<rparr>)"
proof -
  have "o_id ` set (outboxEvents db) = fst ` views (outboxEvents db)" for db :: mail_db
    by (force simp: views_def view_def image_iff)
  then have "o_id ` set (outboxEvents db) = o_id ` set (outboxEvents (mw_db w))" using assms(3) by metis
  then show ?thesis using assms by (auto simp: mail_inv_def)
qed

text \<open>Jobs come and go; the jobs waiting and the claims are no part of the invariant.\<close>

lemma mail_inv_with_flight:
  assumes "mail_inv isEmail w"
    and "\<And>g. g \<in> set fs \<Longrightarrow> flight_ok (views (outboxEvents (mw_db w))) (emailDeliveries (mw_db w)) (mw_known w) (mw_provider w) g"
  shows "mail_inv isEmail (with_flight f fs w)"
proof -
  have "set (remove1 f (mw_flight w)) \<subseteq> set (mw_flight w)" by (rule set_remove1_subset)
  then show ?thesis using assms unfolding mail_inv_def with_flight_def by auto
qed

lemma mail_inv_queues [simp]:
  "mail_inv isEmail (w\<lparr>mw_claims := c\<rparr>) = mail_inv isEmail w" "mail_inv isEmail (w\<lparr>mw_queue := q\<rparr>) = mail_inv isEmail w"
  by (simp_all add: mail_inv_def)

lemma mail_inv_provider:
  assumes "mail_inv isEmail w" "set (mw_provider w) \<subseteq> set P"
  shows "mail_inv isEmail (w\<lparr>mw_provider := P\<rparr>)"
proof (rule mail_invI; simp)
  note inv = mail_invD [OF assms(1)]
  show "wf_outbox (outboxEvents (mw_db w))" "o_id ` set (outboxEvents (mw_db w)) \<subseteq> mw_known w" by (rule inv)+
  show "deliveries_ok isEmail (views (outboxEvents (mw_db w))) P (nextId (mw_db w)) (emailDeliveries (mw_db w))"
    using inv(2) delivery_ok_mono [OF _ _ assms(2)] unfolding deliveries_ok_def by blast
  show "flight_ok (views (outboxEvents (mw_db w))) (emailDeliveries (mw_db w)) (mw_known w) P f" if "f \<in> set (mw_flight w)" for f
    by (rule flight_ok_mono [OF inv(4) [OF that]]) (use assms(2) in auto)
  show "attempts_ok P (sendAttempts (mw_db w))" using inv(5) assms(2) by (auto simp: attempts_ok_def)
qed

lemma deliveries_okD:
  assumes "deliveries_ok isEmail V P n D"
  shows "d \<in> set D \<Longrightarrow> delivery_ok isEmail V P d" "d \<in> set D \<Longrightarrow> ed_id d < n"
    and "d \<in> set D \<Longrightarrow> e \<in> set D \<Longrightarrow> ed_outboxEventId d = ed_outboxEventId e \<Longrightarrow> d = e"
    and "d \<in> set D \<Longrightarrow> e \<in> set D \<Longrightarrow> ed_id d = ed_id e \<Longrightarrow> d = e"
    and "(i, t, DeliverySent) \<in> V \<Longrightarrow> t \<in> set notificationEventTypes \<Longrightarrow> \<exists>d \<in> set D. ed_outboxEventId d = i"
proof -
  note ok = assms [unfolded deliveries_ok_def]
  show "d \<in> set D \<Longrightarrow> delivery_ok isEmail V P d" "d \<in> set D \<Longrightarrow> ed_id d < n" using ok by simp_all
  show "d \<in> set D \<Longrightarrow> e \<in> set D \<Longrightarrow> ed_outboxEventId d = ed_outboxEventId e \<Longrightarrow> d = e"
    using distinct_key_eq [of ed_outboxEventId D d e] ok by simp
  show "d \<in> set D \<Longrightarrow> e \<in> set D \<Longrightarrow> ed_id d = ed_id e \<Longrightarrow> d = e"
    using distinct_key_eq [of ed_id D d e] ok by simp
  show "(i, t, DeliverySent) \<in> V \<Longrightarrow> t \<in> set notificationEventTypes \<Longrightarrow> \<exists>d \<in> set D. ed_outboxEventId d = i"
    using ok by blast
qed

lemma delivery_okD:
  assumes "delivery_ok isEmail V P d"
  shows "chk_email_deliveries_state d" "requireRecipient isEmail (ed_recipient d) = Inr (ed_recipient d)"
    and "\<exists>t. (ed_outboxEventId d, t, ed_status d) \<in> V \<and> map_of notificationTemplateRegistry t = Some (ed_templateKey d)"
    and "ed_status d = DeliverySent \<Longrightarrow> accepted_for P (ed_outboxEventId d) (ed_recipient d)"
  using assms by (simp_all add: delivery_ok_def)

text \<open>One event and the deliveries of that event move together.\<close>

lemma mail_inv_move:
  assumes inv: "mail_inv isEmail w" and r: "r \<in> set (outboxEvents (mw_db w))" "P r"
    and only: "\<And>row. row \<in> set (outboxEvents (mw_db w)) \<Longrightarrow> P row \<Longrightarrow> o_id row = o_id r"
    and f: "event_of (f r) = event_of r" "lease_state (f r)"
    and g: "\<And>d. delivery_key (g d) = delivery_key d"
    and Q: "\<And>d. d \<in> set (emailDeliveries (mw_db w)) \<Longrightarrow> Q d \<longleftrightarrow> ed_outboxEventId d = o_id r"
    and chk: "\<And>d. ed_status d = delivery_status_of (o_status r) \<Longrightarrow> chk_email_deliveries_state d \<Longrightarrow>
      chk_email_deliveries_state (g d) \<and> ed_status (g d) = delivery_status_of (o_status (f r))"
    and sent: "delivery_status_of (o_status (f r)) = DeliverySent \<Longrightarrow>
      \<exists>d \<in> set (emailDeliveries (mw_db w)). ed_outboxEventId d = o_id r \<and> accepted_for (mw_provider w) (o_id r) (ed_recipient d)"
  shows "mail_inv isEmail (w\<lparr>mw_db := (mw_db w)\<lparr>outboxEvents := update_where P f (outboxEvents (mw_db w)),
           emailDeliveries := update_where Q g (emailDeliveries (mw_db w))\<rparr>\<rparr>)"
proof -
  let ?T = "outboxEvents (mw_db w)" and ?D = "emailDeliveries (mw_db w)"
  let ?V = "views ?T" and ?T' = "update_where P f ?T"
  let ?g = "\<lambda>d. if Q d then g d else d"
  note parts = mail_invD [OF inv]
  note change = change_event [where P = P and f = f and r = r, OF parts(1) r only f]
  have fr: "o_id (f r) = o_id r" "o_eventType (f r) = o_eventType r" using f(1) by (simp_all add: event_of_def)
  have D': "update_where Q g ?D = map ?g ?D" by (simp add: update_where_def)
  have status: "ed_status d = delivery_status_of (o_status r)" if d: "d \<in> set ?D" "ed_outboxEventId d = o_id r" for d
  proof -
    obtain t where "(ed_outboxEventId d, t, ed_status d) \<in> ?V"
      using delivery_okD(3) [OF deliveries_okD(1) [OF parts(2) d(1)]] by blast
    moreover have "(o_id r, o_eventType r, delivery_status_of (o_status r)) \<in> ?V" using r(1) by (auto simp: in_views)
    ultimately show ?thesis using views_unique [OF parts(1)] d(2) by metis
  qed
  have one: "d = e" if "d \<in> set ?D" "e \<in> set ?D" "ed_outboxEventId d = ed_outboxEventId e" for d e
    by (rule deliveries_okD(3) [OF parts(2) that])
  have chk': "chk_email_deliveries_state (g d) \<and> ed_status (g d) = delivery_status_of (o_status (f r))"
    if "d \<in> set ?D" "Q d" for d
  proof -
    have "ed_outboxEventId d = o_id r" using Q that by blast
    then show ?thesis
      using chk [of d] status [of d] that(1) delivery_okD(1) [OF deliveries_okD(1) [OF parts(2) that(1)]] by blast
  qed
  have known: "o_id ` set ?T' \<subseteq> mw_known w"
  proof -
    have "map o_id ?T' = map o_id ?T"
      using distinct_key_eq [of o_id ?T _ r] parts(1) only r(1) fr(1)
      by (auto simp: update_where_def wf_outbox_def)
    then show ?thesis using parts(3) by (metis set_map)
  qed
  show ?thesis
  proof (rule mail_invI; simp)
    show "wf_outbox ?T'" by (rule change(1))
    show "o_id ` set ?T' \<subseteq> mw_known w" by (rule known)
    show "deliveries_ok isEmail (views ?T') (mw_provider w) (nextId (mw_db w)) (update_where Q g ?D)"
      unfolding D'
    proof (rule deliveries_ok_update [OF parts(2)])
      show "delivery_key (?g d) = delivery_key d" for d using g by simp
      show "chk_email_deliveries_state (?g d)" if "d \<in> set ?D" "chk_email_deliveries_state d" for d
        using chk' that by simp
      show "(ed_outboxEventId d, t, ed_status (?g d)) \<in> views ?T'" if d: "d \<in> set ?D" "(ed_outboxEventId d, t, ed_status d) \<in> ?V" for d t
      proof (cases "Q d")
        case True
        then have i: "ed_outboxEventId d = o_id r" using Q d(1) by blast
        have "(o_id r, o_eventType r, delivery_status_of (o_status r)) \<in> ?V" using r(1) by (auto simp: in_views)
        then have "t = o_eventType r" using views_unique [OF parts(1)] d(2) i by metis
        then show ?thesis using True chk' [OF d(1)] i fr by (simp add: change(2) view_def)
      next
        case False
        then have "ed_outboxEventId d \<noteq> o_id r" using Q d(1) by blast
        then show ?thesis using False d(2) by (simp add: change(2))
      qed
      show "accepted_for (mw_provider w) (ed_outboxEventId d) (ed_recipient d)"
        if d: "d \<in> set ?D" "ed_status (?g d) = DeliverySent" "ed_status d \<noteq> DeliverySent" for d
      proof -
        have q: "Q d" using d by (auto split: if_splits)
        then have "delivery_status_of (o_status (f r)) = DeliverySent" using chk' [OF d(1)] d(2) by simp
        then obtain e where e: "e \<in> set ?D" "ed_outboxEventId e = o_id r" "accepted_for (mw_provider w) (o_id r) (ed_recipient e)"
          using sent by blast
        moreover have "e = d" using one e(1,2) d(1) Q q by metis
        ultimately show ?thesis by simp
      qed
      show "\<exists>d \<in> set ?D. ed_outboxEventId d = i" if v: "(i, t, DeliverySent) \<in> views ?T'" "t \<in> set notificationEventTypes" for i t
      proof (cases "i = o_id r")
        case True
        then have "delivery_status_of (o_status (f r)) = DeliverySent" using v(1) fr by (auto simp: change(2) view_def)
        then show ?thesis using sent True by blast
      next
        case False
        then have "(i, t, DeliverySent) \<in> ?V" using v(1) fr by (auto simp: change(2) view_def)
        then show ?thesis using deliveries_okD(5) [OF parts(2) _ v(2)] by blast
      qed
    qed
    show "flight_ok (views ?T') (update_where Q g ?D) (mw_known w) (mw_provider w) h" if "h \<in> set (mw_flight w)" for h
    proof (rule flight_ok_mono [OF parts(4) [OF that]])
      show "\<exists>s'. (i, t, s') \<in> ?V" if "(i, t, s) \<in> views ?T'" for i t s
        using that r(1) fr by (auto simp: change(2) view_def in_views)
      show "\<exists>d' \<in> set (update_where Q g ?D). ed_id d' = ed_id d \<and> ed_outboxEventId d' = ed_outboxEventId d \<and> ed_recipient d' = ed_recipient d"
        if "d \<in> set ?D" for d
        using that g [of d] unfolding D' by (intro bexI [of _ "?g d"]) (auto simp: delivery_key_def)
    qed simp_all
    show "attempts_ok (mw_provider w) (sendAttempts (mw_db w))" by (rule parts(5))
  qed
qed

subsection \<open>The operations keep the invariant\<close>

lemma holds_mailD: "holds_mail key row \<Longrightarrow> o_id row = jd_outboxEventId key \<and> mailFamily row \<and> o_status row = OutProcessing"
  by (simp add: holds_mail_def holds_claim_def)

lemma chk_updatedAt [simp]: "chk_email_deliveries_state (d\<lparr>ed_updatedAt := t\<rparr>) = chk_email_deliveries_state d"
  by (cases "ed_status d") (simp_all add: chk_email_deliveries_state_def)

text \<open>The delivery addressed by a job is the one of its event.\<close>

definition addresses :: "mail_world \<Rightarrow> NotificationJobData \<Rightarrow> nat option \<Rightarrow> bool" where
  "addresses w key deliveryId \<longleftrightarrow>
     (case deliveryId of None \<Rightarrow> True
      | Some i \<Rightarrow> \<forall>t s. (jd_outboxEventId key, t, s) \<in> views (outboxEvents (mw_db w)) \<and> t \<in> set notificationEventTypes \<longrightarrow>
          (\<exists>d \<in> set (emailDeliveries (mw_db w)). ed_id d = i \<and> ed_outboxEventId d = jd_outboxEventId key))"

lemma mail_inv_finish:
  assumes inv: "mail_inv isEmail w" and did: "addresses w key deliveryId"
    and assign: "\<And>row. event_of (assign row) = event_of row" "\<And>row. o_status (assign row) = o_status row"
    and lease: "\<And>row. lease_state row \<Longrightarrow> o_status row = OutProcessing \<Longrightarrow>
      lease_state (assign (row\<lparr>o_status := status, o_lockedAt := None, o_lockExpiresAt := None, o_lockedBy := None, o_updatedAt := now\<rparr>))"
    and g: "\<And>d. delivery_key (g d) = delivery_key d"
    and chk: "\<And>d. ed_status d = DeliveryPending \<Longrightarrow> chk_email_deliveries_state d \<Longrightarrow>
      chk_email_deliveries_state (g d) \<and> ed_status (g d) = delivery_status_of status"
    and sent: "status = OutProcessed \<Longrightarrow> (\<And>t s. (jd_outboxEventId key, t, s) \<in> views (outboxEvents (mw_db w)) \<Longrightarrow>
      t \<in> set notificationEventTypes \<Longrightarrow> \<exists>d \<in> set (emailDeliveries (mw_db w)).
        ed_outboxEventId d = jd_outboxEventId key \<and> accepted_for (mw_provider w) (jd_outboxEventId key) (ed_recipient d))"
  shows "mail_inv isEmail (w\<lparr>mw_db := (case finishEvent key status assign now (mw_db w) of
      (held, db) \<Rightarrow> if \<not> held then db else updateDelivery key deliveryId g now db)\<rparr>)"
proof (cases "\<exists>row \<in> set (outboxEvents (mw_db w)). holds_mail key row")
  case False
  then have "finishEvent key status assign now (mw_db w) = (False, mw_db w)"
    by (simp add: finishEvent_def affected_pos_iff update_where_id)
  then show ?thesis using inv by simp
next
  case True
  then obtain r where r: "r \<in> set (outboxEvents (mw_db w))" "holds_mail key r" by blast
  let ?f = "\<lambda>row. assign (row\<lparr>o_status := status, o_lockedAt := None, o_lockExpiresAt := None, o_lockedBy := None, o_updatedAt := now\<rparr>)"
  let ?g = "\<lambda>d. g (d\<lparr>ed_updatedAt := now\<rparr>)"
  let ?Q = "\<lambda>d. (case deliveryId of Some i \<Rightarrow> ed_id d = i | None \<Rightarrow> ed_outboxEventId d = jd_outboxEventId key) \<and> ed_status d = DeliveryPending"
  note h = holds_mailD [OF r(2)]
  note parts = mail_invD [OF inv]
  have v: "(jd_outboxEventId key, o_eventType r, DeliveryPending) \<in> views (outboxEvents (mw_db w))" "o_eventType r \<in> set notificationEventTypes"
    using mailFamily_type [OF r(1)] h by simp_all
  have pending: "ed_status d = DeliveryPending" if d: "d \<in> set (emailDeliveries (mw_db w))" "ed_outboxEventId d = jd_outboxEventId key" for d
    using delivery_okD(3) [OF deliveries_okD(1) [OF parts(2) d(1)]] views_unique [OF parts(1) v(1)] d(2) by metis
  have "mail_inv isEmail (w\<lparr>mw_db := (mw_db w)\<lparr>outboxEvents := update_where (holds_mail key) ?f (outboxEvents (mw_db w)),
          emailDeliveries := update_where ?Q ?g (emailDeliveries (mw_db w))\<rparr>\<rparr>)"
  proof (rule mail_inv_move [where r = r and P = "holds_mail key" and f = ?f and g = ?g and Q = ?Q, OF inv r])
    show "o_id row = o_id r" if "holds_mail key row" for row using holds_mailD [OF that] h by simp
    show "event_of (?f r) = event_of r" using assign(1) by (simp add: event_of_def)
    show "lease_state (?f r)" using lease h r(1) parts(1) by (simp add: wf_outbox_def)
    show "delivery_key (?g d) = delivery_key d" for d using g [of "d\<lparr>ed_updatedAt := now\<rparr>"] by (simp add: delivery_key_def)
    show "?Q d \<longleftrightarrow> ed_outboxEventId d = o_id r" if d: "d \<in> set (emailDeliveries (mw_db w))" for d
    proof (cases deliveryId)
      case None
      then show ?thesis using pending [OF d] h by auto
    next
      case (Some i)
      then obtain e where e: "e \<in> set (emailDeliveries (mw_db w))" "ed_id e = i" "ed_outboxEventId e = jd_outboxEventId key"
        using did v by (auto simp: addresses_def)
      then have "ed_id d = i \<longleftrightarrow> ed_outboxEventId d = jd_outboxEventId key"
        using deliveries_okD(3) [OF parts(2) d e(1)] deliveries_okD(4) [OF parts(2) d e(1)] by auto
      then show ?thesis using Some pending [OF d] h by auto
    qed
    show "chk_email_deliveries_state (?g d) \<and> ed_status (?g d) = delivery_status_of (o_status (?f r))"
      if "ed_status d = delivery_status_of (o_status r)" "chk_email_deliveries_state d" for d
      using chk [of "d\<lparr>ed_updatedAt := now\<rparr>"] that h assign(2) by simp
    show "\<exists>d \<in> set (emailDeliveries (mw_db w)). ed_outboxEventId d = o_id r \<and> accepted_for (mw_provider w) (o_id r) (ed_recipient d)"
      if s: "delivery_status_of (o_status (?f r)) = DeliverySent"
    proof -
      have "status = OutProcessed" using s assign(2) by (cases status) auto
      then show ?thesis using sent v h by auto
    qed
  qed
  moreover have "finishEvent key status assign now (mw_db w) =
      (True, (mw_db w)\<lparr>outboxEvents := update_where (holds_mail key) ?f (outboxEvents (mw_db w))\<rparr>)"
    using True by (simp add: finishEvent_def affected_pos_iff)
  ultimately show ?thesis by (simp add: updateDelivery_def)
qed

lemma mail_inv_markSent:
  assumes "mail_inv isEmail w" "addresses w key (Some i)" "markSent_mail key (Some i) mid now (mw_db w) = (held, db)"
    and "\<And>t s. (jd_outboxEventId key, t, s) \<in> views (outboxEvents (mw_db w)) \<Longrightarrow>
      t \<in> set notificationEventTypes \<Longrightarrow> \<exists>d \<in> set (emailDeliveries (mw_db w)).
        ed_outboxEventId d = jd_outboxEventId key \<and> accepted_for (mw_provider w) (jd_outboxEventId key) (ed_recipient d)"
  shows "mail_inv isEmail (w\<lparr>mw_db := db\<rparr>)"
proof -
  have "db = snd (markSent_mail key (Some i) mid now (mw_db w))" using assms(3) by simp
  also have "\<dots> = (case finishEvent key OutProcessed (\<lambda>row. row\<lparr>o_processedAt := Some now, o_lastErrorCode := None\<rparr>) now (mw_db w) of
      (held, db) \<Rightarrow> if \<not> held then db else updateDelivery key (Some i)
        (\<lambda>d. d\<lparr>ed_status := DeliverySent, ed_sentAt := Some now, ed_providerMessageId := mid, ed_lastErrorCode := None\<rparr>) now db)"
    by (simp add: markSent_mail_def split: prod.split)
  finally show ?thesis
    using mail_inv_finish [OF assms(1,2), where status = OutProcessed] assms(4)
    by (simp add: event_of_def lease_state_def delivery_key_def chk_email_deliveries_state_def)
qed

lemma mail_inv_markFailed:
  assumes "mail_inv isEmail w" "addresses w key did" "markFailed_mail key did code now (mw_db w) = (held, db)"
  shows "mail_inv isEmail (w\<lparr>mw_db := db\<rparr>)"
proof -
  have "db = snd (markFailed_mail key did code now (mw_db w))" using assms(3) by simp
  also have "\<dots> = (case finishEvent key OutFailed (\<lambda>row. row\<lparr>o_failedAt := Some now, o_lastErrorCode := Some code\<rparr>) now (mw_db w) of
      (held, db) \<Rightarrow> if \<not> held then db else updateDelivery key did
        (\<lambda>d. d\<lparr>ed_status := DeliveryFailed, ed_failedAt := Some now, ed_lastErrorCode := Some code\<rparr>) now db)"
    by (simp add: markFailed_mail_def split: prod.split)
  finally show ?thesis
    using mail_inv_finish [OF assms(1,2), where status = OutFailed]
    by (simp add: event_of_def lease_state_def delivery_key_def chk_email_deliveries_state_def)
qed

lemma mail_inv_markRetry:
  assumes "mail_inv isEmail w" "addresses w key did" "markRetry_mail key did ms code now (mw_db w) = (held, db)"
  shows "mail_inv isEmail (w\<lparr>mw_db := db\<rparr>)"
proof -
  have "db = snd (markRetry_mail key did ms code now (mw_db w))" using assms(3) by simp
  also have "\<dots> = (case finishEvent key OutPending (\<lambda>row. row\<lparr>o_availableAt := now + ms * 1000, o_lastErrorCode := Some code\<rparr>) now (mw_db w) of
      (held, db) \<Rightarrow> if \<not> held then db else updateDelivery key did (\<lambda>d. d\<lparr>ed_lastErrorCode := Some code\<rparr>) now db)"
    by (simp add: markRetry_mail_def split: prod.split)
  finally show ?thesis
    using mail_inv_finish [OF assms(1,2), where status = OutPending]
    by (simp add: event_of_def lease_state_def delivery_key_def chk_email_deliveries_state_def)
qed

text \<open>A delivery that is resolved while its event is still held does not occur.\<close>

lemma matchResolved_idle:
  assumes inv: "mail_inv isEmail w"
  shows "matchResolvedDelivery key now (mw_db w) = (False, mw_db w)"
proof -
  note parts = mail_invD [OF inv]
  have none: "finishEvent key status assign now (mw_db w) = (False, mw_db w)"
    if d: "d \<in> set (emailDeliveries (mw_db w))" "ed_outboxEventId d = jd_outboxEventId key" "ed_status d \<noteq> DeliveryPending" for d status assign
  proof -
    have "\<not> holds_mail key row" if row: "row \<in> set (outboxEvents (mw_db w))" for row
    proof
      assume "holds_mail key row"
      then have "(jd_outboxEventId key, o_eventType row, DeliveryPending) \<in> views (outboxEvents (mw_db w))"
        using mailFamily_type [OF row] holds_mailD by fastforce
      then show False
        using delivery_okD(3) [OF deliveries_okD(1) [OF parts(2) d(1)]] views_unique [OF parts(1)] d(2,3) by metis
    qed
    then show ?thesis by (simp add: finishEvent_def affected_pos_iff update_where_id)
  qed
  show ?thesis
    unfolding matchResolvedDelivery_def
    by (auto split: option.split EmailDeliveryStatus.split dest!: find_SomeD intro!: none)
qed

lemma mail_inv_finishWithoutSending:
  assumes "mail_inv isEmail w" "finishWithoutSending key e now (mw_db w) = (answer, db)"
  shows "mail_inv isEmail (w\<lparr>mw_db := db\<rparr>)"
proof -
  have failed: "mail_inv isEmail (w\<lparr>mw_db := snd (markFailed_mail key None code now (mw_db w))\<rparr>)" for code
    by (rule mail_inv_markFailed [OF assms(1), where did = None]) (simp add: addresses_def, rule surjective_pairing)
  show ?thesis
    using assms failed matchResolved_idle [OF assms(1)]
    by (auto simp: finishWithoutSending_def split: if_splits mail_error.splits)
qed

lemma mail_inv_providerFailure:
  assumes "mail_inv isEmail w" "addresses w key (Some (pn_deliveryId p))"
    and "recordProviderFailure cfg jitter key p e now (mw_db w) = (answer, db)"
  shows "mail_inv isEmail (w\<lparr>mw_db := db\<rparr>)"
proof -
  have "(\<exists>held code. markFailed_mail key (Some (pn_deliveryId p)) code now (mw_db w) = (held, db))
      \<or> (\<exists>held ms code. markRetry_mail key (Some (pn_deliveryId p)) ms code now (mw_db w) = (held, db))"
    using assms(3) by (auto simp: recordProviderFailure_def Let_def split: if_splits prod.splits)
  then show ?thesis using mail_inv_markFailed mail_inv_markRetry assms(1,2) by blast
qed

lemma requireRecipient_Inr: "requireRecipient isEmail v = Inr r \<Longrightarrow> r = v \<and> requireRecipient isEmail r = Inr r"
  by (auto simp: requireRecipient_def split: if_splits)

lemma template_key_registry: "map_of notificationTemplateRegistry (event_type_of e) = Some (template_key e)"
  by (cases e) (simp_all add: template_key_def notificationTemplateRegistry_def)

lemma lock_or_create_cases:
  assumes "lock_or_create_delivery isEmail svc now i e db = Inr (d, db')"
  obtains (created) recipient where "find_delivery db i (template_key e) = None" "requireRecipient isEmail recipient = Inr recipient"
      "d = \<lparr>ed_id = nextId db, ed_outboxEventId = i, ed_recipient = recipient,
         ed_templateKey = template_key e, ed_locale = defaultLocale svc, ed_status = DeliveryPending, ed_attempts = 1,
         ed_providerMessageId = None, ed_lastErrorCode = None, ed_sentAt = None, ed_failedAt = None,
         ed_createdAt = now, ed_updatedAt = now\<rparr>"
      "db' = db\<lparr>emailDeliveries := emailDeliveries db @ [d], nextId := nextId db + 1\<rparr>"
  | (counted) stored where "find_delivery db i (template_key e) = Some stored" "ed_status stored = DeliveryPending"
      "d = stored\<lparr>ed_attempts := ed_attempts stored + 1, ed_updatedAt := now\<rparr>"
      "db' = db\<lparr>emailDeliveries := update_where (\<lambda>d. ed_id d = ed_id stored) (\<lambda>_. d) (emailDeliveries db)\<rparr>"
  | (resolved) "find_delivery db i (template_key e) = Some d" "ed_status d \<noteq> DeliveryPending" "db' = db"
proof (cases "find_delivery db i (template_key e)")
  case None
  obtain b s r where part: "booking_part e = (b, s, r)" by (cases "booking_part e")
  from assms None obtain recipient where res: "resolveOwnerEmail isEmail (users db) (ne_ownerUserId b) = Inr recipient"
    and d: "d = \<lparr>ed_id = nextId db, ed_outboxEventId = i, ed_recipient = recipient,
         ed_templateKey = template_key e, ed_locale = defaultLocale svc, ed_status = DeliveryPending, ed_attempts = 1,
         ed_providerMessageId = None, ed_lastErrorCode = None, ed_sentAt = None, ed_failedAt = None,
         ed_createdAt = now, ed_updatedAt = now\<rparr>"
      "db' = db\<lparr>emailDeliveries := emailDeliveries db @ [d], nextId := nextId db + 1\<rparr>"
    by (auto simp: lock_or_create_delivery_def part and_then_Inr_iff Let_def)
  have "requireRecipient isEmail recipient = Inr recipient"
    using res requireRecipient_Inr by (auto simp: resolveOwnerEmail_def step_simps)
  then show thesis using created None d by blast
next
  case (Some stored)
  show thesis
  proof (cases "ed_status stored = DeliveryPending")
    case True
    define c where "c = stored\<lparr>ed_attempts := ed_attempts stored + 1, ed_updatedAt := now\<rparr>"
    have "(c, db\<lparr>emailDeliveries := update_where (\<lambda>d. ed_id d = ed_id stored) (\<lambda>_. c) (emailDeliveries db)\<rparr>) = (d, db')"
      using assms unfolding lock_or_create_delivery_def Some option.case if_P [OF True] Let_def c_def [symmetric] by (rule sum.inject(2) [THEN iffD1])
    then have "d = c" "db' = db\<lparr>emailDeliveries := update_where (\<lambda>d. ed_id d = ed_id stored) (\<lambda>_. d) (emailDeliveries db)\<rparr>" by auto
    then show thesis using counted [OF Some True] unfolding c_def by blast
  next
    case False
    have "(stored, db) = (d, db')"
      using assms unfolding lock_or_create_delivery_def Some option.case if_not_P [OF False] by (rule sum.inject(2) [THEN iffD1])
    then have "stored = d" "db' = db" by auto
    with Some False show thesis by (intro resolved) simp_all
  qed
qed

lemma prepare_Inr:
  assumes "prepare_delivery isEmail iso4217 svc inTx now row db = Inr (p, db')"
  obtains e d where "parseNotificationEvent iso4217 (o_eventType row) (o_payload row) = Inr e"
    and "lock_or_create_delivery isEmail svc now (o_id row) e db = Inr (d, db')" "ed_status d = DeliveryPending"
    and "pn_deliveryId p = ed_id d" "pn_recipient p = ed_recipient d" "pm_to (pn_message p) = ed_recipient d"
    and "pm_notificationId (pn_message p) = toLowerCase (o_id row)"
proof -
  from assms obtain e d ctx message where "parseNotificationEvent iso4217 (o_eventType row) (o_payload row) = Inr e"
    "lock_or_create_delivery isEmail svc now (o_id row) e db = Inr (d, db')" "ed_status d = DeliveryPending"
    and r: "requireRecipient isEmail (ed_recipient d) = Inr (pn_recipient p)" "pn_deliveryId p = ed_id d"
    and m: "buildMessage svc (o_id row) (pn_recipient p) e (template_key e) (ed_locale d) ctx = Inr message" "pn_message p = message"
    unfolding prepare_delivery_def by (auto simp: step_simps split: prod.splits)
  moreover have "pn_recipient p = ed_recipient d" using requireRecipient_Inr [OF r(1)] by simp
  moreover have "pm_to message = pn_recipient p" "pm_notificationId message = toLowerCase (o_id row)"
    using m(1) by (auto simp: buildMessage_def Let_def and_then_Inr_iff split: if_splits)
  ultimately show thesis using that r(2) m(2) by simp
qed

lemma mail_inv_prepare:
  assumes inv: "mail_inv isEmail w" and row: "row \<in> set (outboxEvents (mw_db w))" "holds_mail data row"
    and prep: "prepare_delivery isEmail iso4217 svc inTx now row (mw_db w) = Inr (p, db)"
  shows "mail_inv isEmail (w\<lparr>mw_db := db\<rparr>)"
    and "prepared_ok (views (outboxEvents db)) (emailDeliveries db) (mw_known w) data p"
    and "outboxEvents db = outboxEvents (mw_db w)"
proof -
  let ?D = "emailDeliveries (mw_db w)" and ?V = "views (outboxEvents (mw_db w))"
  note parts = mail_invD [OF inv]
  note h = holds_mailD [OF row(2)]
  obtain e d where parsed: "parseNotificationEvent iso4217 (o_eventType row) (o_payload row) = Inr e"
    and loc: "lock_or_create_delivery isEmail svc now (o_id row) e (mw_db w) = Inr (d, db)" "ed_status d = DeliveryPending"
    and p: "pn_deliveryId p = ed_id d" "pn_recipient p = ed_recipient d" "pm_to (pn_message p) = ed_recipient d"
      "pm_notificationId (pn_message p) = toLowerCase (o_id row)"
    using prepare_Inr [OF prep] by blast
  have v: "(jd_outboxEventId data, o_eventType row, DeliveryPending) \<in> ?V" "o_eventType row \<in> set notificationEventTypes"
    using mailFamily_type [OF row(1)] h by simp_all
  have reg: "map_of notificationTemplateRegistry (o_eventType row) = Some (template_key e)"
    using template_key_registry [of e] event_typed [OF parsed] by simp
  have key: "ed_templateKey x = template_key e" if x: "x \<in> set ?D" "ed_outboxEventId x = o_id row" for x
    using delivery_okD(3) [OF deliveries_okD(1) [OF parts(2) x(1)]] views_unique [OF parts(1) v(1)] x(2) h reg by (metis option.inject)
  have known: "jd_outboxEventId data \<in> mw_known w" using parts(3) row(1) h by auto
  have "mail_inv isEmail (w\<lparr>mw_db := db\<rparr>) \<and> outboxEvents db = outboxEvents (mw_db w)
      \<and> (\<exists>x \<in> set (emailDeliveries db). ed_id x = ed_id d \<and> ed_outboxEventId x = o_id row \<and> ed_recipient x = ed_recipient d)"
    using loc(1)
  proof (cases rule: lock_or_create_cases)
    case (created recipient)
    have fresh: "ed_outboxEventId x \<noteq> o_id row" if x: "x \<in> set ?D" for x
    proof
      assume i: "ed_outboxEventId x = o_id row"
      then have "ed_templateKey x = template_key e" using key x by blast
      then show False using created(1) x i by (auto simp: find_delivery_def dest: find_NoneD)
    qed
    have "deliveries_ok isEmail ?V (mw_provider w) (nextId (mw_db w) + 1) (?D @ [d])"
    proof -
      have "delivery_ok isEmail ?V (mw_provider w) d"
        using created(2) v(1) reg h by (auto simp: delivery_ok_def created(3) chk_email_deliveries_state_def)
      moreover have "ed_id x \<noteq> ed_id d" if "x \<in> set ?D" for x
        using deliveries_okD(2) [OF parts(2) that] created(3) by simp
      ultimately show ?thesis
        using parts(2) fresh created(3) unfolding deliveries_ok_def by (fastforce simp: less_Suc_eq)
    qed
    moreover have "flight_ok ?V (?D @ [d]) (mw_known w) (mw_provider w) f" if "f \<in> set (mw_flight w)" for f
      by (rule flight_ok_mono [OF parts(4) [OF that]]) auto
    ultimately have "mail_inv isEmail (w\<lparr>mw_db := db\<rparr>)"
      using parts(1,3,5) by (intro mail_invI) (simp_all add: created(4))
    then show ?thesis using created(3,4) by simp
  next
    case (counted stored)
    have s: "stored \<in> set ?D" "ed_outboxEventId stored = o_id row"
      using counted(1) by (auto simp: find_delivery_def dest!: find_SomeD)
    let ?g = "\<lambda>x. if ed_id x = ed_id stored then d else x"
    have same: "?g x = (if x = stored then d else x)" if "x \<in> set ?D" for x
      using deliveries_okD(4) [OF parts(2) that s(1)] by auto
    have dk: "delivery_key d = delivery_key stored" "ed_status d = ed_status stored"
      "chk_email_deliveries_state d = chk_email_deliveries_state stored"
      using counted(2,3) by (simp_all add: delivery_key_def chk_email_deliveries_state_def)
    have "deliveries_ok isEmail ?V (mw_provider w) (nextId (mw_db w)) (map ?g ?D)"
    proof (rule deliveries_ok_update [OF parts(2)])
      show "delivery_key (?g x) = delivery_key x" if "x \<in> set ?D" for x unfolding same [OF that] using dk by simp
      show "chk_email_deliveries_state (?g x)" if "x \<in> set ?D" "chk_email_deliveries_state x" for x
        unfolding same [OF that(1)] using dk(3) that by (cases "x = stored") simp_all
      show "(ed_outboxEventId x, t, ed_status (?g x)) \<in> ?V" if "x \<in> set ?D" "(ed_outboxEventId x, t, ed_status x) \<in> ?V" for x t
        unfolding same [OF that(1)] using dk(2) that by (cases "x = stored") simp_all
      show "accepted_for (mw_provider w) (ed_outboxEventId x) (ed_recipient x)"
        if "x \<in> set ?D" "ed_status (?g x) = DeliverySent" "ed_status x \<noteq> DeliverySent" for x
        using that dk unfolding same [OF that(1)] by (auto split: if_splits)
      show "\<exists>x \<in> set ?D. ed_outboxEventId x = i" if "(i, t, DeliverySent) \<in> ?V" "t \<in> set notificationEventTypes" for i t
        by (rule deliveries_okD(5) [OF parts(2) that])
    qed
    moreover have mp: "update_where (\<lambda>d. ed_id d = ed_id stored) (\<lambda>_. d) ?D = map ?g ?D" by (simp add: update_where_def)
    moreover have "flight_ok ?V (map ?g ?D) (mw_known w) (mw_provider w) f" if "f \<in> set (mw_flight w)" for f
    proof (rule flight_ok_mono [OF parts(4) [OF that]])
      show "\<exists>x' \<in> set (map ?g ?D). ed_id x' = ed_id x \<and> ed_outboxEventId x' = ed_outboxEventId x \<and> ed_recipient x' = ed_recipient x"
        if x: "x \<in> set ?D" for x
        using x same [OF x] dk(1) by (intro bexI [of _ "?g x"]) (auto simp: delivery_key_def)
    qed auto
    ultimately have "mail_inv isEmail (w\<lparr>mw_db := db\<rparr>)"
      using parts(1,3,5) by (intro mail_invI) (simp_all add: counted(4))
    moreover have "d \<in> set (emailDeliveries db)" using s(1) by (auto simp: counted(4) row_simps)
    ultimately show ?thesis using dk(1) s(2) counted(4) by (auto simp: delivery_key_def)
  next
    case resolved
    then show ?thesis using loc(2) by simp
  qed
  then show "mail_inv isEmail (w\<lparr>mw_db := db\<rparr>)" "outboxEvents db = outboxEvents (mw_db w)"
    "prepared_ok (views (outboxEvents db)) (emailDeliveries db) (mw_known w) data p"
    using p known h by (auto simp: prepared_ok_def)
qed

lemma mail_inv_claimWork:
  assumes inv: "mail_inv isEmail w" and work: "claimWork isEmail iso4217 cfg now data (mw_db w) = Inr (Some p, db)"
  shows "mail_inv isEmail (w\<lparr>mw_db := db, mw_flight := mw_flight w @ [Sending data p]\<rparr>)"
proof -
  from work obtain row db1 where row: "row \<in> set (outboxEvents (mw_db w))" "holds_mail data row"
    and prep: "prepare_delivery isEmail iso4217 (mc_service cfg) True now row (mw_db w) = Inr (p, db1)"
    and db: "db = db1\<lparr>outboxEvents := update_where
        (\<lambda>r. o_id r = jd_outboxEventId data \<and> mailFamily r \<and> o_lockedBy r = Some (jd_claimToken data))
        (\<lambda>r. r\<lparr>o_lockExpiresAt := Some (now + mc_claimLeaseMs cfg * 1000), o_updatedAt := now\<rparr>) (outboxEvents db1)\<rparr>"
    by (auto simp: claimWork_def and_then_Inr_iff split: option.splits dest!: find_SomeD)
  note p = mail_inv_prepare [OF inv row prep]
  note parts = mail_invD [OF p(1), simplified]
  have v: "views (outboxEvents db) = views (outboxEvents db1)" unfolding db by simp (rule views_update, simp add: view_def)
  have wf: "wf_outbox (outboxEvents db)"
  proof (rule wf_outbox_update [OF parts(1)])
    show "map event_of (outboxEvents db) = map event_of (outboxEvents db1)"
      unfolding db by simp (rule update_where_map, simp add: event_of_def)
    fix r assume r: "r \<in> set (outboxEvents db)"
    have "lease_state x \<Longrightarrow> o_lockedBy x \<noteq> None \<Longrightarrow>
        lease_state (x\<lparr>o_lockExpiresAt := Some (now + mc_claimLeaseMs cfg * 1000), o_updatedAt := now\<rparr>)" for x
      by (cases "o_status x") (auto simp: lease_state_def)
    then show "lease_state r" using r parts(1) unfolding db by (auto simp: row_simps wf_outbox_def)
  qed
  have "mail_inv isEmail (w\<lparr>mw_db := db\<rparr>)"
    using mail_inv_frame [OF p(1), of db] wf v by (simp add: db)
  then show ?thesis
    using p(2,3) v by (auto simp: mail_inv_def db)
qed

lemma redrive_applied:
  assumes "redrive request now db = (result, db')" "rr_applied result"
  obtains r where "r \<in> set (outboxEvents db)" "failed_event (rq_outboxEventId request) r"
    and "db' = db\<lparr>outboxEvents := update_where (failed_event (rq_outboxEventId request))
           (\<lambda>row. row\<lparr>o_status := OutPending, o_availableAt := now, o_failedAt := None, o_lockedAt := None,
                      o_lockExpiresAt := None, o_lockedBy := None, o_attempts := 0, o_updatedAt := now\<rparr>) (outboxEvents db),
         emailDeliveries := update_where (failed_delivery (rq_outboxEventId request))
           (\<lambda>d. d\<lparr>ed_status := DeliveryPending, ed_failedAt := None, ed_providerMessageId := None, ed_updatedAt := now\<rparr>)
           (emailDeliveries db)\<rparr>"
proof -
  let ?i = "rq_outboxEventId request"
  from assms obtain event where e: "List.find (\<lambda>row. o_id row = ?i \<and> mailFamily row) (outboxEvents db) = Some event" "o_status event = OutFailed"
    by (auto simp: redrive_def Let_def refuse_def split: option.splits if_splits)
  have r: "event \<in> set (outboxEvents db)" "failed_event ?i event" using find_SomeD [OF e(1)] e(2) by (simp_all add: failed_event_def)
  show thesis
    using assms e r by (intro that) (auto simp: redrive_def Let_def refuse_def resetEvent_def resetDeliveries_def split: if_splits)
qed

lemma mail_inv_redrive:
  assumes inv: "mail_inv isEmail w" and run: "redrive request now (mw_db w) = (result, db)"
  shows "mail_inv isEmail (w\<lparr>mw_db := db\<rparr>)"
proof (cases "rr_applied result")
  case False
  have "db = mw_db w"
    using run False by (auto simp: redrive_def Let_def refuse_def resetEvent_def affected_zero_iff update_where_id split: option.splits if_splits prod.splits)
  then show ?thesis using inv by simp
next
  case True
  let ?i = "rq_outboxEventId request"
  let ?f = "\<lambda>row. row\<lparr>o_status := OutPending, o_availableAt := now, o_failedAt := None, o_lockedAt := None,
                      o_lockExpiresAt := None, o_lockedBy := None, o_attempts := 0, o_updatedAt := now\<rparr>"
  let ?g = "\<lambda>d. d\<lparr>ed_status := DeliveryPending, ed_failedAt := None, ed_providerMessageId := None, ed_updatedAt := now\<rparr>"
  from run True obtain r where r: "r \<in> set (outboxEvents (mw_db w))" "failed_event ?i r"
    and db: "db = (mw_db w)\<lparr>outboxEvents := update_where (failed_event ?i) ?f (outboxEvents (mw_db w)),
               emailDeliveries := update_where (failed_delivery ?i) ?g (emailDeliveries (mw_db w))\<rparr>"
    by (rule redrive_applied)
  note parts = mail_invD [OF inv]
  have ri: "o_id r = ?i" "mailFamily r" "o_status r = OutFailed" using r(2) by (simp_all add: failed_event_def)
  have v: "(?i, o_eventType r, DeliveryFailed) \<in> views (outboxEvents (mw_db w))"
    using mailFamily_type [OF r(1) ri(2)] ri by simp
  show ?thesis
    unfolding db
  proof (rule mail_inv_move [where r = r and P = "failed_event ?i" and f = ?f and g = ?g and Q = "failed_delivery ?i", OF inv r])
    show "o_id row = o_id r" if "failed_event ?i row" for row using that ri by (simp add: failed_event_def)
    show "event_of (?f r) = event_of r" by (simp add: event_of_def)
    show "lease_state (?f r)" using parts(1) r(1) ri by (auto simp: wf_outbox_def lease_state_def)
    show "delivery_key (?g d) = delivery_key d" for d by (simp add: delivery_key_def)
    show "failed_delivery ?i d \<longleftrightarrow> ed_outboxEventId d = o_id r" if d: "d \<in> set (emailDeliveries (mw_db w))" for d
    proof -
      obtain t where "(ed_outboxEventId d, t, ed_status d) \<in> views (outboxEvents (mw_db w))"
        using delivery_okD(3) [OF deliveries_okD(1) [OF parts(2) d]] by blast
      then have "ed_status d = DeliveryFailed" if "ed_outboxEventId d = ?i"
        using views_unique [OF parts(1) v, of t "ed_status d"] that by simp
      then show ?thesis using ri(1) by (auto simp: failed_delivery_def)
    qed
    show "chk_email_deliveries_state (?g d) \<and> ed_status (?g d) = delivery_status_of (o_status (?f r))"
      if "ed_status d = delivery_status_of (o_status r)" "chk_email_deliveries_state d" for d
      using that ri by (simp add: chk_email_deliveries_state_def)
  qed simp
qed

lemma mail_inv_foreign:
  assumes inv: "mail_inv isEmail w" and change: "foreign_mail (mw_known w) (mw_db w) db"
  shows "mail_inv isEmail (w\<lparr>mw_db := db, mw_known := mw_known w \<union> o_id ` set (outboxEvents db)\<rparr>)"
proof -
  let ?V = "views (outboxEvents (mw_db w))" and ?V' = "views (outboxEvents db)"
  note parts = mail_invD [OF inv]
  have kept: "(i, t, s) \<in> ?V'" if "(i, t, s) \<in> ?V" "t \<in> set notificationEventTypes" for i t s
    using that change by (force simp: in_views foreign_mail_def mailFamily_def)
  have old: "(i, t, s) \<in> ?V \<or> s = DeliveryPending \<and> i \<notin> mw_known w" if "(i, t, s) \<in> ?V'" "t \<in> set notificationEventTypes" for i t s
    using that change by (force simp: in_views foreign_mail_def mailFamily_def)
  have same: "emailDeliveries db = emailDeliveries (mw_db w)" "sendAttempts db = sendAttempts (mw_db w)" "nextId (mw_db w) \<le> nextId db"
    "wf_outbox (outboxEvents db)"
    using change by (simp_all add: foreign_mail_def)
  show ?thesis
  proof (rule mail_invI; simp add: same)
    show "deliveries_ok isEmail ?V' (mw_provider w) (nextId db) (emailDeliveries (mw_db w))"
      unfolding deliveries_ok_def
    proof (intro conjI ballI allI impI)
      show "distinct (map ed_id (emailDeliveries (mw_db w)))" "distinct (map ed_outboxEventId (emailDeliveries (mw_db w)))"
        using parts(2) by (simp_all add: deliveries_ok_def)
      show "ed_id d < nextId db" if "d \<in> set (emailDeliveries (mw_db w))" for d
        using deliveries_okD(2) [OF parts(2) that] same(3) by simp
      show "delivery_ok isEmail ?V' (mw_provider w) d" if "d \<in> set (emailDeliveries (mw_db w))" for d
        by (rule delivery_ok_mono [OF deliveries_okD(1) [OF parts(2) that]]) (use kept in auto)
      show "\<exists>d \<in> set (emailDeliveries (mw_db w)). ed_outboxEventId d = i"
        if "(i, t, DeliverySent) \<in> ?V' \<and> t \<in> set notificationEventTypes" for i t
        using old [of i t DeliverySent] deliveries_okD(5) [OF parts(2), of i t] that by auto
    qed
    show "flight_ok ?V' (emailDeliveries (mw_db w)) (mw_known w \<union> o_id ` set (outboxEvents db)) (mw_provider w) f"
      if "f \<in> set (mw_flight w)" for f
      by (rule flight_ok_mono [OF parts(4) [OF that]]) (use old in auto)
    show "attempts_ok (mw_provider w) (sendAttempts (mw_db w))" by (rule parts(5))
  qed
qed

lemma mail_inv_collected:
  assumes inv: "mail_inv isEmail w"
  shows "mail_inv isEmail (w\<lparr>mw_db := collectNotificationEvents ids (mw_db w)\<rparr>)"
proof -
  let ?db = "collectNotificationEvents ids (mw_db w)"
  let ?V = "views (outboxEvents (mw_db w))" and ?V' = "views (outboxEvents ?db)"
  note parts = mail_invD [OF inv]
  have V': "(i, t, s) \<in> ?V' \<longleftrightarrow> (i, t, s) \<in> ?V \<and> i \<notin> set ids" for i t s
    by (auto simp: in_views collectNotificationEvents_def row_simps)
  have D': "emailDeliveries ?db = filter (\<lambda>d. ed_outboxEventId d \<notin> set ids) (emailDeliveries (mw_db w))"
    by (simp add: collectNotificationEvents_def delete_where_def)
  show ?thesis
  proof (rule mail_invI; simp)
    show "wf_outbox (outboxEvents ?db)"
      using parts(1) by (auto simp: wf_outbox_def collectNotificationEvents_def delete_where_def distinct_map_filter)
    show "o_id ` set (outboxEvents ?db) \<subseteq> mw_known w"
      using parts(3) by (auto simp: collectNotificationEvents_def row_simps)
    show "deliveries_ok isEmail ?V' (mw_provider w) (nextId ?db) (emailDeliveries ?db)"
      unfolding deliveries_ok_def D'
    proof (intro conjI ballI allI impI)
      show "distinct (map ed_id (filter (\<lambda>d. ed_outboxEventId d \<notin> set ids) (emailDeliveries (mw_db w))))"
        "distinct (map ed_outboxEventId (filter (\<lambda>d. ed_outboxEventId d \<notin> set ids) (emailDeliveries (mw_db w))))"
        using parts(2) by (simp_all add: deliveries_ok_def distinct_map_filter)
      fix d assume "d \<in> set (filter (\<lambda>d. ed_outboxEventId d \<notin> set ids) (emailDeliveries (mw_db w)))"
      then have d: "d \<in> set (emailDeliveries (mw_db w))" "ed_outboxEventId d \<notin> set ids" by simp_all
      show "ed_id d < nextId ?db" using deliveries_okD(2) [OF parts(2) d(1)] by (simp add: collectNotificationEvents_def)
      show "delivery_ok isEmail ?V' (mw_provider w) d"
        by (rule delivery_ok_mono [OF deliveries_okD(1) [OF parts(2) d(1)]]) (use d(2) V' in auto)
    next
      fix i t assume v: "(i, t, DeliverySent) \<in> ?V' \<and> t \<in> set notificationEventTypes"
      then obtain d where "d \<in> set (emailDeliveries (mw_db w))" "ed_outboxEventId d = i"
        using deliveries_okD(5) [OF parts(2), of i t] V' by blast
      then show "\<exists>d \<in> set (filter (\<lambda>d. ed_outboxEventId d \<notin> set ids) (emailDeliveries (mw_db w))). ed_outboxEventId d = i"
        using v V' by auto
    qed
    show "flight_ok ?V' (emailDeliveries ?db) (mw_known w) (mw_provider w) f" if "f \<in> set (mw_flight w)" for f
    proof (rule flight_ok_mono [OF parts(4) [OF that]])
      show "\<exists>d' \<in> set (emailDeliveries ?db). ed_id d' = ed_id d \<and> ed_outboxEventId d' = ed_outboxEventId d \<and> ed_recipient d' = ed_recipient d"
        if "d \<in> set (emailDeliveries (mw_db w))" "(ed_outboxEventId d, t, s) \<in> ?V'" for d t s
        using that V' unfolding D' by auto
    qed (use V' in auto)
    show "attempts_ok (mw_provider w) (sendAttempts ?db)"
      using parts(5) by (auto simp: attempts_ok_def collectNotificationEvents_def row_simps)
  qed
qed

lemma prepared_addresses: "prepared_ok (views (outboxEvents (mw_db w))) (emailDeliveries (mw_db w)) known data p \<Longrightarrow>
    addresses w data (Some (pn_deliveryId p))"
  by (fastforce simp: prepared_ok_def addresses_def)

lemma prepared_accepted:
  assumes "prepared_ok V D known data p" "pn_message p \<in> set P" "(jd_outboxEventId data, t, s) \<in> V" "t \<in> set notificationEventTypes"
  shows "\<exists>d \<in> set D. ed_outboxEventId d = jd_outboxEventId data \<and> accepted_for P (jd_outboxEventId data) (ed_recipient d)"
  using assms unfolding prepared_ok_def accepted_for_def by metis

lemma mail_step_inv:
  assumes "mail_step isEmail iso4217 cfg w w'" "mail_inv isEmail w"
  shows "mail_inv isEmail w'"
  using assms
proof (induction rule: mail_step.induct)
  case (foreign w db)
  then show ?case by (intro mail_inv_foreign)
next
  case (claimed token now lockedElsewhere w taken table)
  note parts = mail_invD [OF claimed(2)]
  have "mail_inv isEmail (w\<lparr>mw_db := (mw_db w)\<lparr>outboxEvents := table\<rparr>\<rparr>)"
    by (rule mail_inv_frame [OF claimed(2)])
      (use claimBatch_wf [OF parts(1) claimed(1)] claim_views [OF parts(1) claimed(1)] in simp_all)
  then show ?case by (simp add: mail_inv_def)
next
  case (handed data w)
  then show ?case by (simp add: mail_inv_def)
next
  case (given_back data w jitter now ok db)
  have "mail_inv isEmail (w\<lparr>mw_db := db\<rparr>)"
  proof (cases "release (mail_release cfg jitter data) now (outboxEvents (mw_db w))")
    case (Inl e)
    then have "db = mw_db w" using given_back(2) by (simp add: releaseClaim_def)
    then have "w\<lparr>mw_db := db\<rparr> = w" by simp
    then show ?thesis by (simp only: given_back(3))
  next
    case (Inr r)
    then obtain table where t: "release (mail_release cfg jitter data) now (outboxEvents (mw_db w)) = Inr (ok, table)"
      "db = (mw_db w)\<lparr>outboxEvents := table\<rparr>"
      using given_back(2) by (cases r) (simp add: releaseClaim_def)
    note parts = mail_invD [OF given_back(3)]
    show ?thesis
      by (rule mail_inv_frame [OF given_back(3)]) (use release_wf [OF parts(1) t(1)] release_views [OF t(1)] t(2) in simp_all)
  qed
  then show ?case by (simp add: mail_inv_def)
next
  case (started data w now prepared db)
  then show ?case by (intro mail_inv_claimWork)
next
  case (refused data w now e)
  then show ?case by (simp add: mail_inv_def)
next
  case (finished_unsent data e w now answer db)
  then show ?case by (intro mail_inv_with_flight mail_inv_finishWithoutSending) simp_all
next
  case (accepted data prepared w mid)
  have "mail_inv isEmail (w\<lparr>mw_provider := mw_provider w @ [pn_message prepared]\<rparr>)" by (rule mail_inv_provider [OF accepted(2)]) auto
  then show ?case
    using mail_invD(4) [OF accepted(2,1)] by (intro mail_inv_with_flight) auto
next
  case (bounced data prepared w taken e)
  have "mail_inv isEmail (w\<lparr>mw_provider := mw_provider w @ taken\<rparr>)" by (rule mail_inv_provider [OF bounced(3)]) auto
  then show ?case
    using mail_invD(4) [OF bounced(3,1)] by (intro mail_inv_with_flight) auto
next
  case (evidence data prepared mid w now)
  let ?db = "recordAccepted data prepared mid now (mw_db w)"
  note parts = mail_invD [OF evidence(2)]
  have f: "prepared_ok (views (outboxEvents (mw_db w))) (emailDeliveries (mw_db w)) (mw_known w) data prepared"
    "pn_message prepared \<in> set (mw_provider w)" using parts(4) [OF evidence(1)] by simp_all
  have "mail_inv isEmail (w\<lparr>mw_db := ?db\<rparr>)"
    using evidence(2) f by (auto simp: mail_inv_def recordAccepted_def attempts_ok_def prepared_ok_def)
  then show ?case by (rule mail_inv_with_flight) (use f in \<open>simp add: recordAccepted_def\<close>)
next
  case (evidence_lost data prepared mid w)
  then show ?case using mail_invD(4) [OF evidence_lost(2,1)] by (intro mail_inv_with_flight) auto
next
  case (marked data prepared mid w now held db)
  have f: "prepared_ok (views (outboxEvents (mw_db w))) (emailDeliveries (mw_db w)) (mw_known w) data prepared"
    "pn_message prepared \<in> set (mw_provider w)" using mail_invD(4) [OF marked(3,1)] by simp_all
  have "mail_inv isEmail (w\<lparr>mw_db := db\<rparr>)"
    by (rule mail_inv_markSent [OF marked(3) prepared_addresses [OF f(1)] marked(2)]) (rule prepared_accepted [OF f])
  then show ?case by (intro mail_inv_with_flight) simp_all
next
  case (bounce_recorded data prepared e w jitter now answer db)
  have "prepared_ok (views (outboxEvents (mw_db w))) (emailDeliveries (mw_db w)) (mw_known w) data prepared"
    using mail_invD(4) [OF bounce_recorded(3,1)] by simp
  then have "mail_inv isEmail (w\<lparr>mw_db := db\<rparr>)"
    using mail_inv_providerFailure [OF bounce_recorded(3) prepared_addresses bounce_recorded(2)] by blast
  then show ?case by (intro mail_inv_with_flight) simp_all
next
  case (crashed w f)
  then show ?case by (intro mail_inv_with_flight) simp_all
next
  case (redriven request now w result db)
  then show ?case by (intro mail_inv_redrive)
next
  case (collected w ids)
  show ?case by (rule mail_inv_collected [OF collected(2)])
qed

lemma mail_init_inv: "mail_inv isEmail mail_init"
  by (simp add: mail_inv_def mail_init_def empty_mail_db_def hotel_db.extend_def empty_db_def wf_outbox_def deliveries_ok_def views_def attempts_ok_def)

interpretation mail: transition_system "mail_step isEmail iso4217 cfg" "mail_inv isEmail" mail_init
  for isEmail iso4217 :: "string \<Rightarrow> bool" and cfg :: mail_config
  by unfold_locales (rule mail_init_inv, rule mail_step_inv)

end
