(* ===== verification/Mail_Demo.thy ===== *)
theory Mail_Demo
  imports Demo_Run Mail_Template Mail_Failure
begin

text \<open>
  Witnesses of the mail theories: the confirmation mail of the booking of \<open>Demo_Run\<close>.
\<close>

definition demo_confirmation :: NotificationEvent where
  "demo_confirmation = BookingConfirmedEvent (base_of demo_confirmed_booking) (snapshot_of demo_confirmed_booking demo_room)"

lemma demo_confirmation_typed: "typed_event (\<lambda>c. c = ''VND'') demo_confirmation"
proof -
  have days: "parseHotelDate ''2024-02-28'' \<noteq> None" "parseHotelDate ''2024-03-01'' \<noteq> None"
  proof -
    have iso: "''2024-02-28'' = iso_date 2024 2 28" "''2024-03-01'' = iso_date 2024 3 1" by code_simp+
    have v: "valid_date 2024 2 28" "valid_date 2024 3 1" by code_simp+
    show "parseHotelDate ''2024-02-28'' \<noteq> None" "parseHotelDate ''2024-03-01'' \<noteq> None"
      unfolding iso using parseHotelDate_iso [of 2024] v by simp_all
  qed
  have formats: "hotelDatePattern ''2024-02-28''" "hotelDatePattern ''2024-03-01''" "bookingPublicIdPattern demo_public_id"
    "currencyPattern ''VND''" "clean_text 50 ''101''" "decimalIdPattern (show_nat 2)" "decimalIdPattern (show_nat 8)" "''2024-02-28'' < ''2024-03-01''"
    by code_simp+
  show ?thesis
    using days formats
    by (simp add: demo_confirmation_def typed_base_def typed_snapshot_def typed_stay_def strict_hotel_date_def base_of_def snapshot_of_def
        demo_confirmed_booking_def demo_booking_def demo_room_def isSafeInteger_def number_max_safe_integer_def
        del: sort_key_simps)
qed

theorem mail_intent_read_witness:
  "parseNotificationEvent (\<lambda>c. c = ''VND'') ''booking.confirmed'' (mail_payload demo_confirmed_booking demo_room None None)
   = Inr demo_confirmation"
  using mail_intent_read [of demo_confirmed_booking demo_room None None demo_confirmation, OF _ demo_confirmation_typed]
  by (simp add: demo_confirmation_def)

lemma demo_mail_read:
  "parseNotificationEvent (\<lambda>c. c = ''VND'') ''booking.confirmed'' (mail_payload demo_confirmed_booking demo_room None None)
   = Inr demo_confirmation"
  using intended_read [of demo_confirmed_booking demo_room None None demo_confirmation, OF _ demo_confirmation_typed]
  by (simp add: demo_confirmation_def)

theorem mail_events_typed_witness:
  "typed_event (\<lambda>c. c = ''VND'') demo_confirmation \<and> event_type_of demo_confirmation = ''booking.confirmed''"
  by (rule mail_events_typed [OF demo_mail_read])

subsection \<open>The catalog\<close>

lemma placeholders_plain: "c \<noteq> CHR ''{'' \<Longrightarrow> placeholders (c # cs) = placeholders cs"
  by (rule placeholders_char) (simp add: placeholder_at_def)

lemma placeholders_open:
  "takeWhile name_char r = name \<Longrightarrow> name \<noteq> [] \<Longrightarrow> name_start (hd name) \<Longrightarrow> dropWhile name_char r = CHR ''}'' # CHR ''}'' # rest \<Longrightarrow>
    placeholders (CHR ''{'' # CHR ''{'' # r) = name # placeholders rest"
  by (rule placeholders_match) (simp add: placeholder_at_def)

lemma name_chars:
  "list_all name_start ''abcdefghijklmnopqrstuvwxyzABCDEFGHIJKLMNOPQRSTUVWXYZ'' \<and> \<not> name_char CHR ''}''"
  by code_simp

lemmas name_char_literals = name_chars [simplified]

lemma start_name_char: "name_start c \<Longrightarrow> name_char c"
  by (simp add: name_char_def)

lemmas read_template = placeholders_plain placeholders_open placeholders_Nil name_char_literals start_name_char

text \<open>The English catalog is accepted, here in both languages.\<close>

lemma english_keys: "map fst english_catalog = notificationTemplateKeys"
  by (simp add: english_catalog_def notificationTemplateKeys_def notificationTemplateRegistry_def)

lemma english_sorted:
  "sort (set_spread [''bookingId'', ''bookingId'', ''roomNumber'', ''checkIn'', ''checkOut'', ''status'', ''priceAmount'', ''currency'',
      ''bookingId'', ''roomNumber'', ''checkIn'', ''checkOut'', ''status'', ''priceAmount'', ''currency'']) =
    sort [''bookingId'', ''roomNumber'', ''checkIn'', ''checkOut'', ''status'', ''priceAmount'', ''currency'']"
  "sort (set_spread [''bookingId'', ''bookingId'', ''roomNumber'', ''checkIn'', ''checkOut'', ''status'', ''reason'',
      ''bookingId'', ''roomNumber'', ''checkIn'', ''checkOut'', ''status'', ''reason'']) =
    sort [''bookingId'', ''roomNumber'', ''checkIn'', ''checkOut'', ''status'', ''reason'']"
  "sort (set_spread [''bookingId'', ''bookingId'', ''beforeRoom'', ''beforeCheckIn'', ''beforeCheckOut'', ''roomNumber'', ''afterCheckIn'',
      ''afterCheckOut'', ''status'', ''priceAmount'', ''currency'', ''reason'', ''bookingId'', ''beforeRoom'', ''beforeCheckIn'',
      ''beforeCheckOut'', ''roomNumber'', ''afterCheckIn'', ''afterCheckOut'', ''status'', ''priceAmount'', ''currency'', ''reason'']) =
    sort [''bookingId'', ''beforeRoom'', ''beforeCheckIn'', ''beforeCheckOut'', ''roomNumber'', ''afterCheckIn'', ''afterCheckOut'',
      ''status'', ''priceAmount'', ''currency'', ''reason'']"
  by (simp_all del: sort_key_simps)

lemma demo_catalogs: "validateNotificationTemplateCatalogs (\<lambda>_. english_catalog) = Inr ()"
proof -
  have same: "check_template (\<lambda>_. english_catalog) key = Inr ()"
    if "map_of english_catalog key = Some t" "map_of expectedTemplateVariables key = Some names"
      "sort (set_spread (placeholders (nt_subject t) @ placeholders (nt_text t) @ placeholders (nt_html t))) = sort names" for key t names
    using that by (simp add: check_template_def template_of_def template_parts_def extractVariables_def placeholders_break)
  have "check_template (\<lambda>_. english_catalog) key = Inr ()" if "key \<in> set notificationTemplateKeys" for key
  proof -
    note tables = english_catalog_def expectedTemplateVariables_def
    note reading = read_template line_feed_def
    from that consider "key = ''booking.confirmed.v1''" | "key = ''booking.rejected.v1''" | "key = ''booking.changed.v1''"
      | "key = ''booking.cancelled-by-admin.v1''"
      by (auto simp: notificationTemplateKeys_def notificationTemplateRegistry_def)
    then show ?thesis
    proof cases
      case 1
      show ?thesis unfolding 1
        by (rule same, simp add: tables, simp add: tables, use english_sorted(1) in \<open>simp add: reading del: sort_key_simps set_spread.simps\<close>)
    next
      case 2
      show ?thesis unfolding 2
        by (rule same, simp add: tables, simp add: tables, use english_sorted(2) in \<open>simp add: reading del: sort_key_simps set_spread.simps\<close>)
    next
      case 3
      show ?thesis unfolding 3
        by (rule same, simp add: tables, simp add: tables, use english_sorted(3) in \<open>simp add: reading del: sort_key_simps set_spread.simps\<close>)
    next
      case 4
      show ?thesis unfolding 4
        by (rule same, simp add: tables, simp add: tables, use english_sorted(2) in \<open>simp add: reading del: sort_key_simps set_spread.simps\<close>)
    qed
  qed
  then show ?thesis
    by (simp add: validateNotificationTemplateCatalogs_def and_then_Inr_iff for_each_Inr english_keys)
qed

lemma demo_plain_subjects: "plain_subjects (\<lambda>_. english_catalog)"
  by (simp add: plain_subjects_def english_catalog_def read_template hasUnsafeHeaderCharacter_def)

theorem mail_renders_witness:
  "\<exists>content. render (\<lambda>_. english_catalog) demo_confirmation ''booking.confirmed.v1'' Vietnamese None = Inr content"
  by (rule mail_renders [OF demo_catalogs demo_plain_subjects demo_confirmation_typed])
    (simp_all add: demo_confirmation_def snapshot_of_def demo_confirmed_booking_def demo_booking_def notificationTemplateRegistry_def)


end
