(* ===== verification/Mail_Progress.thy ===== *)
theory Mail_Progress
  imports Mail_Runs Mail_Demo
begin

text \<open>
  What follows for the mail system of its invariant: the records of mail are true, the redrive command decides
  on them as it should, a mail that can be sent has a run that sends it, and a currency that the templates cannot
  format leaves its event unsettled. The last part is a concrete delivery.
\<close>

subsection \<open>What the records say\<close>

lemma mail_reachable_inv: "mail_reachable isEmail iso4217 cfg w \<Longrightarrow> mail_inv isEmail w"
  unfolding mail_reachable_def by (rule mail.reachable_inv)

lemma delivery_status:
  assumes "mail_inv isEmail w" "row \<in> set (outboxEvents (mw_db w))" "mailFamily row"
    and "d \<in> set (emailDeliveries (mw_db w))" "ed_outboxEventId d = o_id row"
  shows "ed_status d = delivery_status_of (o_status row)"
proof -
  note parts = mail_invD [OF assms(1)]
  obtain t where "(ed_outboxEventId d, t, ed_status d) \<in> views (outboxEvents (mw_db w))"
    using delivery_okD(3) [OF deliveries_okD(1) [OF parts(2) assms(4)]] by blast
  then show ?thesis using mailFamily_type [OF assms(2,3)] views_unique [OF parts(1)] assms(5) by metis
qed

text \<open>C30. The records of mail are true, whatever the interleaving of dispatchers, jobs delivered any number of times,
  crashes, expired leases, failures of the provider, redrives and retention. The delivery of an event
  has the status of the event; an event that is processed has a delivery, and the provider accepted a message of that event
  for exactly the recipient on record; and every recorded attempt is of an event for which the
  provider accepted a message.\<close>

theorem mail_records_agree:
  assumes "mail_reachable isEmail iso4217 cfg w" "row \<in> set (outboxEvents (mw_db w))" "mailFamily row"
  shows "(\<forall>d \<in> set (emailDeliveries (mw_db w)). ed_outboxEventId d = o_id row \<longrightarrow>
         ed_status d = (case o_status row of OutProcessed \<Rightarrow> DeliverySent | OutFailed \<Rightarrow> DeliveryFailed | _ \<Rightarrow> DeliveryPending))
    \<and> (o_status row = OutProcessed \<longrightarrow>
         (\<exists>d \<in> set (emailDeliveries (mw_db w)). ed_outboxEventId d = o_id row
            \<and> (\<exists>m \<in> set (mw_provider w). pm_notificationId m = toLowerCase (o_id row) \<and> pm_to m = ed_recipient d)))
    \<and> (\<forall>a \<in> set (sendAttempts (mw_db w)). \<exists>m \<in> set (mw_provider w). pm_notificationId m = toLowerCase (sa_outboxEventId a))"
proof -
  have inv: "mail_inv isEmail w" by (rule mail_reachable_inv [OF assms(1)])
  note parts = mail_invD [OF inv]
  have same: "delivery_status_of s = (case s of OutProcessed \<Rightarrow> DeliverySent | OutFailed \<Rightarrow> DeliveryFailed | _ \<Rightarrow> DeliveryPending)" for s
    by (cases s) simp_all
  have "\<exists>d \<in> set (emailDeliveries (mw_db w)). ed_outboxEventId d = o_id row
      \<and> (\<exists>m \<in> set (mw_provider w). pm_notificationId m = toLowerCase (o_id row) \<and> pm_to m = ed_recipient d)"
    if s: "o_status row = OutProcessed"
  proof -
    have v: "(o_id row, o_eventType row, DeliverySent) \<in> views (outboxEvents (mw_db w))" "o_eventType row \<in> set notificationEventTypes"
      using mailFamily_type [OF assms(2,3)] s by simp_all
    then obtain d where d: "d \<in> set (emailDeliveries (mw_db w))" "ed_outboxEventId d = o_id row"
      using deliveries_okD(5) [OF parts(2)] by blast
    then have "ed_status d = DeliverySent" using delivery_status [OF inv assms(2,3)] s by simp
    then have "accepted_for (mw_provider w) (ed_outboxEventId d) (ed_recipient d)"
      using delivery_okD(4) [OF deliveries_okD(1) [OF parts(2) d(1)]] by blast
    then show ?thesis using d by (auto simp: accepted_for_def)
  qed
  then show ?thesis
    using delivery_status [OF inv assms(2,3)] parts(5) same by (simp add: attempts_ok_def)
qed

text \<open>C32. What the redrive command decides, in every state the system reaches. It returns an event exactly when the event
  is there, is of the mail family and has failed, and, unless a duplicate is allowed, nothing recorded says that the provider
  accepted it. The event is then pending, due at once and with its attempts back, and so is its delivery, still for
  the same recipient; a refusal changes nothing, and is never that of a delivery sent before its event.\<close>

theorem redrive_decides:
  assumes "mail_reachable isEmail iso4217 cfg w" "redrive request now (mw_db w) = (result, db)"
  shows "(rr_applied result \<longleftrightarrow>
        (\<exists>row \<in> set (outboxEvents (mw_db w)). o_id row = rq_outboxEventId request \<and> mailFamily row \<and> o_status row = OutFailed)
        \<and> (rq_allowDuplicate request \<or> (\<forall>a \<in> set (sendAttempts (mw_db w)). sa_outboxEventId a \<noteq> rq_outboxEventId request)))
    \<and> (\<not> rr_applied result \<longrightarrow> db = mw_db w)
    \<and> (rr_applied result \<longrightarrow>
         (\<forall>row \<in> set (outboxEvents db). o_id row = rq_outboxEventId request \<longrightarrow>
            o_status row = OutPending \<and> o_availableAt row = now \<and> o_attempts row = 0)
         \<and> (\<forall>d \<in> set (emailDeliveries db). ed_outboxEventId d = rq_outboxEventId request \<longrightarrow> ed_status d = DeliveryPending)
         \<and> map ed_recipient (emailDeliveries db) = map ed_recipient (emailDeliveries (mw_db w)))
    \<and> rr_code result \<noteq> ''NOTIFICATION_REDRIVE_DELIVERY_ALREADY_SENT''"
proof -
  let ?i = "rq_outboxEventId request" and ?db = "mw_db w"
  have inv: "mail_inv isEmail w" by (rule mail_reachable_inv [OF assms(1)])
  note parts = mail_invD [OF inv]
  have d: "distinct (map o_id (outboxEvents ?db))" using parts(1) by (simp add: wf_outbox_def)
  have accepted: "0 < countAccepted ?i ?db \<longleftrightarrow> (\<exists>a \<in> set (sendAttempts ?db). sa_outboxEventId a = ?i)"
    by (simp add: countAccepted_def affected_pos_iff)
  show ?thesis
  proof (cases "List.find (\<lambda>row. o_id row = ?i \<and> mailFamily row) (outboxEvents ?db)")
    case None
    then have "\<not> (\<exists>row \<in> set (outboxEvents ?db). o_id row = ?i \<and> mailFamily row)" by (auto simp: find_None_iff)
    then show ?thesis using assms(2) None by (auto simp: redrive_def refuse_def)
  next
    case (Some event)
    have e: "event \<in> set (outboxEvents ?db)" "o_id event = ?i" "mailFamily event" using find_SomeD [OF Some] by simp_all
    have only: "row = event" if "row \<in> set (outboxEvents ?db)" "o_id row = ?i" for row
      using distinct_key_eq [OF d that(1) e(1)] that(2) e(2) by simp
    have failed: "(\<exists>row \<in> set (outboxEvents ?db). o_id row = ?i \<and> mailFamily row \<and> o_status row = OutFailed) \<longleftrightarrow> o_status event = OutFailed"
      using e only by blast
    have status: "ed_status x = delivery_status_of (o_status event)" if "x \<in> set (emailDeliveries ?db)" "ed_outboxEventId x = ?i" for x
      using delivery_status [OF inv e(1,3) that(1)] that(2) e(2) by simp
    consider "o_status event \<noteq> OutFailed"
      | "o_status event = OutFailed" "\<not> rq_allowDuplicate request" "0 < countAccepted ?i ?db"
      | "o_status event = OutFailed" "rq_allowDuplicate request \<or> countAccepted ?i ?db = 0" by blast
    then show ?thesis
    proof cases
      case 1
      then show ?thesis using assms(2) Some failed by (auto simp: redrive_def refuse_def)
    next
      case 2
      then have "\<not> (\<exists>x \<in> set (emailDeliveries ?db). ed_outboxEventId x = ?i \<and> ed_status x = DeliverySent)" using status by auto
      with assms(2) Some 2 have "result = refuse request ''NOTIFICATION_REDRIVE_PROVIDER_ALREADY_ACCEPTED'' (Some OutFailed)" "db = ?db"
        by (simp_all add: redrive_def Let_def)
      then show ?thesis using failed 2 accepted by (auto simp: refuse_def)
    next
      case 3
      then have none: "\<not> (\<exists>x \<in> set (emailDeliveries ?db). ed_outboxEventId x = ?i \<and> ed_status x = DeliverySent)" using status by auto
      have hit: "failed_event ?i event" using e 3 by (simp add: failed_event_def)
      then have "0 < affected (failed_event ?i) (outboxEvents ?db)" using e(1) by (auto simp: affected_pos_iff)
      then have r: "rr_applied result" "rr_code result = ''NOTIFICATION_REDRIVE_APPLIED''"
        using assms(2) Some 3 none by (auto simp: redrive_def Let_def resetEvent_def resetDeliveries_def)
      obtain row where db: "db = ?db\<lparr>outboxEvents := update_where (failed_event ?i)
           (\<lambda>row. row\<lparr>o_status := OutPending, o_availableAt := now, o_failedAt := None, o_lockedAt := None,
                      o_lockExpiresAt := None, o_lockedBy := None, o_attempts := 0, o_updatedAt := now\<rparr>) (outboxEvents ?db),
         emailDeliveries := update_where (failed_delivery ?i)
           (\<lambda>d. d\<lparr>ed_status := DeliveryPending, ed_failedAt := None, ed_providerMessageId := None, ed_updatedAt := now\<rparr>)
           (emailDeliveries ?db)\<rparr>"
        using redrive_applied [OF assms(2) r(1)] by blast
      have "\<forall>row \<in> set (outboxEvents db). o_id row = ?i \<longrightarrow> o_status row = OutPending \<and> o_availableAt row = now \<and> o_attempts row = 0"
        using only hit by (auto simp: db update_where_def)
      moreover have "\<forall>x \<in> set (emailDeliveries db). ed_outboxEventId x = ?i \<longrightarrow> ed_status x = DeliveryPending"
        using status 3(1) by (auto simp: db update_where_def failed_delivery_def)
      moreover have "map ed_recipient (emailDeliveries db) = map ed_recipient (emailDeliveries ?db)"
        by (simp add: db update_where_def)
      ultimately show ?thesis using r failed 3 accepted by auto
    qed
  qed
qed

subsection \<open>A mail that can be sent is sent\<close>

text \<open>What the preparation needs of an event, beside what the parser checks.\<close>

definition mailable :: "(string \<Rightarrow> bool) \<Rightarrow> (string \<Rightarrow> bool) \<Rightarrow> mail_db \<Rightarrow> outbox_row \<Rightarrow> NotificationEvent \<Rightarrow> bool" where
  "mailable isEmail iso4217 db row e \<longleftrightarrow>
     canonicalUuidPattern (o_id row) \<and> parseNotificationEvent iso4217 (o_eventType row) (o_payload row) = Inr e
     \<and> \<not> is_error (resolveOwnerEmail isEmail (users db) (ne_ownerUserId (fst (booking_part e))))
     \<and> \<not> is_error (resolveRenderContext (rooms db) e)"

lemma not_error: "\<not> is_error x \<longleftrightarrow> (\<exists>v. x = Inr v)"
  by (cases x) (simp_all add: is_error_def)

lemma locked_delivery:
  assumes inv: "mail_inv isEmail w" and row: "row \<in> set (outboxEvents (mw_db w))" "mailFamily row" "o_status row = OutProcessing"
    and "mailable isEmail iso4217 (mw_db w) row e"
  obtains d db where "lock_or_create_delivery isEmail svc now (o_id row) e (mw_db w) = Inr (d, db)" "ed_status d = DeliveryPending"
    and "requireRecipient isEmail (ed_recipient d) = Inr (ed_recipient d)" "rooms db = rooms (mw_db w)"
proof -
  have stored: "ed_status x = DeliveryPending \<and> requireRecipient isEmail (ed_recipient x) = Inr (ed_recipient x)"
    if "find_delivery (mw_db w) (o_id row) (template_key e) = Some x" for x
  proof -
    have x: "x \<in> set (emailDeliveries (mw_db w))" "ed_outboxEventId x = o_id row"
      using that by (auto simp: find_delivery_def dest!: find_SomeD)
    show ?thesis
      using delivery_status [OF inv row(1,2) x] row(3) delivery_okD(2) [OF deliveries_okD(1) [OF mail_invD(2) [OF inv] x(1)]] by simp
  qed
  obtain r where r: "resolveOwnerEmail isEmail (users (mw_db w)) (ne_ownerUserId (fst (booking_part e))) = Inr r"
    using assms(5) by (auto simp: mailable_def not_error)
  obtain b s x where "booking_part e = (b, s, x)" by (cases "booking_part e")
  with r stored have "\<exists>v. lock_or_create_delivery isEmail svc now (o_id row) e (mw_db w) = Inr v"
    by (cases "find_delivery (mw_db w) (o_id row) (template_key e)") (simp_all add: lock_or_create_delivery_def Let_def)
  then obtain d db where l: "lock_or_create_delivery isEmail svc now (o_id row) e (mw_db w) = Inr (d, db)" by fastforce
  then show thesis
  proof (cases rule: lock_or_create_cases)
    case (created recipient)
    have "ed_status d = DeliveryPending" "ed_recipient d = recipient" by (simp_all add: created(3))
    moreover have "rooms db = rooms (mw_db w)" by (simp add: created(4))
    ultimately show thesis using that l created(2) by simp
  next
    case (counted old)
    have "ed_status d = DeliveryPending" "ed_recipient d = ed_recipient old" using counted(2) by (simp_all add: counted(3))
    moreover have "rooms db = rooms (mw_db w)" by (simp add: counted(4))
    ultimately show thesis using that l stored [OF counted(1)] by simp
  next
    case resolved
    then show thesis using stored [OF resolved(1)] by simp
  qed
qed

lemma context_given:
  "\<not> is_error (resolveRenderContext roomList e) \<Longrightarrow> \<exists>ctx. resolveRenderContext roomList e = Inr ctx
     \<and> (event_type_of e = ''booking.changed'' \<longrightarrow> ctx \<noteq> None)"
  by (cases e) (auto simp: is_error_def split: option.splits if_splits)

lemma prepare_ready:
  assumes inv: "mail_inv isEmail w" and row: "row \<in> set (outboxEvents (mw_db w))" "mailFamily row" "o_status row = OutProcessing"
    and m: "mailable isEmail iso4217 (mw_db w) row e" "ns_currency (fst (snd (booking_part e))) = ''VND''"
    and svc: "validateNotificationTemplateCatalogs (tp_catalogs svc) = Inr u" "plain_subjects (tp_catalogs svc)"
  shows "\<exists>p db. prepare_delivery isEmail iso4217 svc True now row (mw_db w) = Inr (p, db)"
proof -
  obtain d db where d: "lock_or_create_delivery isEmail svc now (o_id row) e (mw_db w) = Inr (d, db)" "ed_status d = DeliveryPending"
    "requireRecipient isEmail (ed_recipient d) = Inr (ed_recipient d)" "rooms db = rooms (mw_db w)"
    using locked_delivery [OF inv row m(1)] by blast
  have parsed: "parseNotificationEvent iso4217 (o_eventType row) (o_payload row) = Inr e" "canonicalUuidPattern (o_id row)"
    using m(1) by (simp_all add: mailable_def)
  obtain ctx where c: "resolveRenderContext (rooms db) e = Inr ctx" "event_type_of e = ''booking.changed'' \<longrightarrow> ctx \<noteq> None"
    using context_given [of "rooms db" e] m(1) d(4) by (auto simp: mailable_def)
  obtain content where "render (tp_catalogs svc) e (template_key e) (ed_locale d) ctx = Inr content"
    using render_total [OF svc conjunct1 [OF event_typed [OF parsed(1)]] m(2) c(2) template_key_registry] by blast
  then show ?thesis
    using d parsed c(1) by (simp add: prepare_delivery_def buildMessage_def Let_def)
qed

text \<open>A claim that finds every other event locked takes the one that is due.\<close>

lemma claimBatch_total:
  assumes "oi_eventTypes input \<noteq> []"
  shows "\<exists>claims table'. claimBatch input now locked table = Inr (claims, table')"
proof -
  have "\<exists>v. claimBatch input now locked table = Inr v"
    using assms by (simp add: claimBatch_def eventTypePredicate_def Let_def)
  then show ?thesis by auto
qed

lemma lone_claim:
  assumes wf: "wf_outbox table" and row: "row \<in> set table" "mailFamily row" "due_row now row" and "0 < mc_claimBatchSize cfg"
  shows "claimBatch (mail_claim cfg token) now (\<lambda>i. i \<noteq> o_id row) table =
    Inr ([\<lparr>oc_id = o_id row, oc_attempt = o_attempts row + 1\<rparr>],
         update_where (\<lambda>r. o_id r = o_id row) (leased (mail_claim cfg token) now) table)"
proof -
  let ?input = "mail_claim cfg token" and ?locked = "\<lambda>i. i \<noteq> o_id row"
  have d: "distinct (map o_id table)" using wf by (simp add: wf_outbox_def)
  have types: "oi_eventTypes ?input = notificationEventTypes" "oi_eventTypes ?input \<noteq> []" "oi_batchSize ?input = mc_claimBatchSize cfg"
    by (simp_all add: mail_claim_def notificationEventTypes_def)
  obtain claims table' where run: "claimBatch ?input now ?locked table = Inr (claims, table')"
    using claimBatch_total [OF types(2)] by blast
  have only: "r = row" if "r \<in> set (eligible_rows ?input now ?locked table)" for r
    using eligible_row [OF that] distinct_key_eq [OF d _ row(1), of r] by simp
  have "0 < length (filter (\<lambda>r. o_eventType r \<in> set (oi_eventTypes ?input)
      \<and> (expired_lease now r \<or> due_row now r) \<and> \<not> ?locked (o_id r)) table)"
    using row by (auto simp: filter_empty_conv types mailFamily_def)
  then have "0 < length (eligible_rows ?input now ?locked table)"
    unfolding length_eligible types(3) min_less_iff_conj using assms(5) by blast
  then have "eligible_rows ?input now ?locked table \<noteq> []" by simp
  moreover have "distinct (eligible_rows ?input now ?locked table)" using distinct_eligible [OF d] by (simp add: distinct_map)
  ultimately have rows: "eligible_rows ?input now ?locked table = [row]"
    using only by (cases "eligible_rows ?input now ?locked table") (auto, metis distinct.simps(2) list.set_intros(1) neq_Nil_conv)
  show ?thesis
    using claimBatch_Inr [OF d run] run by (simp add: rows)
qed

text \<open>Nothing but a renewed lease happens to a row that is prepared.\<close>

lemma prepare_outbox: "prepare_delivery isEmail iso4217 svc inTx now row db = Inr (p, db') \<Longrightarrow>
    outboxEvents db' = outboxEvents db \<and> users db' = users db \<and> rooms db' = rooms db"
proof (elim prepare_Inr)
  fix e d assume "lock_or_create_delivery isEmail svc now (o_id row) e db = Inr (d, db')"
  then show ?thesis by (cases rule: lock_or_create_cases) simp_all
qed

lemma leased_state:
  assumes wf: "wf_outbox table" and row: "row \<in> set table" "mailFamily row"
  shows "leased (mail_claim cfg token) now row \<in> set (update_where (\<lambda>r. o_id r = o_id row) (leased (mail_claim cfg token) now) table)"
    and "holds_mail \<lparr>jd_outboxEventId = o_id row, jd_claimToken = token, jd_attempt = o_attempts row + 1\<rparr> (leased (mail_claim cfg token) now row)"
    and "o_lockExpiresAt (leased (mail_claim cfg token) now row) = Some (now + mc_claimLeaseMs cfg * 1000)"
  using assms by (auto simp: update_where_def leased_def holds_mail_def holds_claim_def mailFamily_def mail_claim_def)

lemma markSent_processes:
  assumes "\<exists>r \<in> set (outboxEvents db). holds_mail data r" "markSent_mail data did mid now db = (held, db')"
  shows "\<exists>r \<in> set (outboxEvents db'). o_id r = jd_outboxEventId data \<and> mailFamily r \<and> o_status r = OutProcessed"
proof -
  obtain r where r: "r \<in> set (outboxEvents db)" "holds_mail data r" using assms(1) by blast
  let ?f = "\<lambda>row. row\<lparr>o_status := OutProcessed, o_lockedAt := None, o_lockExpiresAt := None, o_lockedBy := None, o_updatedAt := now,
      o_processedAt := Some now, o_lastErrorCode := None\<rparr>"
  have "0 < affected (holds_mail data) (outboxEvents db)" using r by (auto simp: affected_pos_iff)
  then have "outboxEvents db' = update_where (holds_mail data) ?f (outboxEvents db)"
    using assms(2) by (auto simp: markSent_mail_def finishEvent_def updateDelivery_def)
  then have "?f r \<in> set (outboxEvents db')" using r by (auto simp: update_where_def)
  then show ?thesis using holds_mailD [OF r(2)] by (intro bexI [of _ "?f r"]) (simp_all add: mailFamily_def)
qed

lemma claimWork_ready:
  assumes inv: "mail_inv isEmail w" and row: "row \<in> set (outboxEvents (mw_db w))" "holds_mail data row" "o_lockExpiresAt row = Some t" "now < t"
    and m: "mailable isEmail iso4217 (mw_db w) row e" "ns_currency (fst (snd (booking_part e))) = ''VND''"
    and svc: "validateNotificationTemplateCatalogs (tp_catalogs (mc_service cfg)) = Inr u" "plain_subjects (tp_catalogs (mc_service cfg))"
  obtains p db where "claimWork isEmail iso4217 cfg now data (mw_db w) = Inr (Some p, db)" "\<exists>r \<in> set (outboxEvents db). holds_mail data r"
proof -
  let ?P = "\<lambda>row. holds_mail data row \<and> (case o_lockExpiresAt row of None \<Rightarrow> False | Some t \<Rightarrow> t > now)"
  note h = holds_mailD [OF row(2)]
  have d: "distinct (map o_id (outboxEvents (mw_db w)))" using mail_invD(1) [OF inv] by (simp add: wf_outbox_def)
  obtain r where r: "List.find ?P (outboxEvents (mw_db w)) = Some r"
    using row by (cases "List.find ?P (outboxEvents (mw_db w))") (auto simp: find_None_iff)
  have "r = row" using find_SomeD [OF r] holds_mailD h distinct_key_eq [OF d _ row(1), of r] by simp
  then have found: "List.find ?P (outboxEvents (mw_db w)) = Some row" using r by simp
  obtain p db1 where p: "prepare_delivery isEmail iso4217 (mc_service cfg) True now row (mw_db w) = Inr (p, db1)"
    using prepare_ready [OF inv row(1) _ _ m svc] h by blast
  let ?renew = "\<lambda>r. r\<lparr>o_lockExpiresAt := Some (now + mc_claimLeaseMs cfg * 1000), o_updatedAt := now\<rparr>"
  let ?mine = "\<lambda>r. o_id r = jd_outboxEventId data \<and> mailFamily r \<and> o_lockedBy r = Some (jd_claimToken data)"
  have "?renew row \<in> set (update_where ?mine ?renew (outboxEvents db1))"
    using row(1,2) prepare_outbox [OF p] by (auto simp: update_where_def holds_mail_def holds_claim_def)
  moreover have "holds_mail data (?renew row)" using row(2) by (simp add: holds_mail_def holds_claim_def mailFamily_def)
  ultimately show thesis
    using found p by (intro that) (auto simp: claimWork_def)
qed

lemma mail_delivery_run:
  assumes "mail_reachable isEmail iso4217 cfg w" "row \<in> set (outboxEvents (mw_db w))" "mailFamily row" "o_status row = OutPending"
    and "mailable isEmail iso4217 (mw_db w) row e" "ns_currency (fst (snd (booking_part e))) = ''VND''"
    and "validateNotificationTemplateCatalogs (tp_catalogs (mc_service cfg)) = Inr u" "plain_subjects (tp_catalogs (mc_service cfg))"
    and "0 < mc_claimBatchSize cfg" "0 < mc_claimLeaseMs cfg"
  shows "\<exists>w'. mail_reachable isEmail iso4217 cfg w' \<and> (mail_step isEmail iso4217 cfg)\<^sup>*\<^sup>* w w'
    \<and> (\<exists>row' \<in> set (outboxEvents (mw_db w')). o_id row' = o_id row \<and> mailFamily row' \<and> o_status row' = OutProcessed)"
proof -
  let ?step = "mail_step isEmail iso4217 cfg" and ?now = "o_availableAt row" and ?token = "''claim''"
  define data where "data = \<lparr>jd_outboxEventId = o_id row, jd_claimToken = ?token, jd_attempt = o_attempts row + 1\<rparr>"
  have inv: "mail_inv isEmail w" by (rule mail_reachable_inv [OF assms(1)])
  note wf = mail_invD(1) [OF inv]
  let ?held = "leased (mail_claim cfg ?token) ?now row"
  let ?table = "update_where (\<lambda>r. o_id r = o_id row) (leased (mail_claim cfg ?token) ?now) (outboxEvents (mw_db w))"
  have "due_row ?now row" using assms(4) by (simp add: due_row_def)
  note claim = lone_claim [OF wf assms(2,3) this assms(9), of ?token]
  define w1 where "w1 = w\<lparr>mw_db := (mw_db w)\<lparr>outboxEvents := ?table\<rparr>, mw_claims := mw_claims w @ [data]\<rparr>"
  have s1: "?step w w1" using mail_step.claimed [OF claim] by (simp add: w1_def data_def job_of_def)
  define w2 where "w2 = w1\<lparr>mw_claims := remove1 data (mw_claims w1), mw_queue := mw_queue w1 @ [data]\<rparr>"
  have s2: "?step w1 w2" unfolding w2_def by (rule mail_step.handed) (simp add: w1_def)
  have db2: "mw_db w2 = (mw_db w)\<lparr>outboxEvents := ?table\<rparr>" by (simp add: w2_def w1_def)
  have inv2: "mail_inv isEmail w2" using mail_step_inv [OF s2 mail_step_inv [OF s1 inv]] .
  note held = leased_state [OF wf assms(2,3), where cfg = cfg and token = ?token and now = ?now, folded data_def]
  have ready: "?held \<in> set (outboxEvents (mw_db w2))" "?now < ?now + mc_claimLeaseMs cfg * 1000" "mailable isEmail iso4217 (mw_db w2) ?held e"
    using held(1) assms(5,10) by (simp_all add: mailable_def db2 leased_def)
  obtain p db where work: "claimWork isEmail iso4217 cfg ?now data (mw_db w2) = Inr (Some p, db)"
    and mine: "\<exists>r \<in> set (outboxEvents db). holds_mail data r"
    by (rule claimWork_ready [OF inv2 ready(1) held(2,3) ready(2,3) assms(6-8)])
  define w3 where "w3 = w2\<lparr>mw_db := db, mw_flight := mw_flight w2 @ [Sending data p]\<rparr>"
  have s3: "?step w2 w3" unfolding w3_def by (rule mail_step.started [OF _ work]) (simp add: w2_def)
  define w4 where "w4 = with_flight (Sending data p) [Accepted data p None] (w3\<lparr>mw_provider := mw_provider w3 @ [pn_message p]\<rparr>)"
  have s4: "?step w3 w4" unfolding w4_def by (rule mail_step.accepted) (simp add: w3_def)
  define w5 where "w5 = with_flight (Accepted data p None) [Recorded data p None] (w4\<lparr>mw_db := recordAccepted data p None ?now (mw_db w4)\<rparr>)"
  have s5: "?step w4 w5" unfolding w5_def by (rule mail_step.evidence) (simp add: w4_def with_flight_def)
  obtain h db' where mark: "markSent_mail data (Some (pn_deliveryId p)) None ?now (mw_db w5) = (h, db')" by fastforce
  define w6 where "w6 = with_flight (Recorded data p None) [] (w5\<lparr>mw_db := db'\<rparr>)"
  have s6: "?step w5 w6" unfolding w6_def by (rule mail_step.marked [OF _ mark]) (simp add: w5_def with_flight_def)
  have "outboxEvents (mw_db w5) = outboxEvents db" by (simp add: w5_def w4_def w3_def with_flight_def recordAccepted_def)
  then have "\<exists>r \<in> set (outboxEvents db'). o_id r = jd_outboxEventId data \<and> mailFamily r \<and> o_status r = OutProcessed"
    using markSent_processes [OF _ mark] mine by simp
  then have done6: "\<exists>row' \<in> set (outboxEvents (mw_db w6)). o_id row' = o_id row \<and> mailFamily row' \<and> o_status row' = OutProcessed"
    by (simp add: w6_def with_flight_def data_def)
  have run: "?step\<^sup>*\<^sup>* w w6" using s1 s2 s3 s4 s5 s6 by (meson rtranclp.rtrancl_into_rtrancl rtranclp.rtrancl_refl)
  then have "mail_reachable isEmail iso4217 cfg w6" using assms(1) unfolding mail_reachable_def by (rule rtranclp_trans [rotated])
  then show ?thesis using run done6 by blast
qed

text \<open>C31. A mail that can be sent is sent: from every state the system reaches, a pending event of the mail family that
  the parser reads, in VND, whose owner has an address and whose room exists, has a run to the state where it is processed;
  by what the records say, the provider has then accepted its message. The configuration claims at least one event for
  some time, and the catalogs are those the constructor accepts with subjects that name nothing but the booking.\<close>

theorem mail_delivers:
  assumes "mail_reachable isEmail iso4217 cfg w" "row \<in> set (outboxEvents (mw_db w))" "mailFamily row" "o_status row = OutPending"
    and "mailable isEmail iso4217 (mw_db w) row e" "ns_currency (fst (snd (booking_part e))) = ''VND''"
    and "validateNotificationTemplateCatalogs (tp_catalogs (mc_service cfg)) = Inr u" "plain_subjects (tp_catalogs (mc_service cfg))"
    and "0 < mc_claimBatchSize cfg" "0 < mc_claimLeaseMs cfg"
  shows "\<exists>w'. mail_reachable isEmail iso4217 cfg w' \<and> (mail_step isEmail iso4217 cfg)\<^sup>*\<^sup>* w w'
    \<and> (\<exists>row' \<in> set (outboxEvents (mw_db w')). o_id row' = o_id row \<and> mailFamily row' \<and> o_status row' = OutProcessed)"
  by (rule mail_delivery_run [OF assms])

subsection \<open>A currency that mail cannot format\<close>

lemma render_currency:
  assumes "validateNotificationTemplateCatalogs catalogs = Inr u" "ns_currency (fst (snd (booking_part e))) \<noteq> ''VND''"
  shows "render catalogs e (template_key e) locale_of ctx =
    Inl (UnexpectedError (PlainError ''Notification price currency is unsupported.''))"
proof -
  have "\<exists>names. template_key e \<in> set notificationTemplateKeys \<and> map_of expectedTemplateVariables (template_key e) = Some names"
    by (cases e) (simp_all add: template_key_def notificationTemplateRegistry_def notificationTemplateKeys_def expectedTemplateVariables_def)
  then obtain t where "template_of catalogs locale_of (template_key e) = Some t"
    using accepted_template [OF assms(1), of "template_key e" _ locale_of] by metis
  moreover have "variablesFor e ctx locale_of = Inl (UnexpectedError (PlainError ''Notification price currency is unsupported.''))"
    using assms(2) by (cases "booking_part e") (simp add: variablesFor_def formatAmount_def zeroDecimalCurrencies_def)
  ultimately show ?thesis by (simp add: render_def template_key_registry)
qed

text \<open>C34. A mail of a booking priced in another currency than VND is never settled by the worker: its job throws and leaves
  the database as it was, whatever the attempt it is at and whatever the provider would answer, so the event is
  neither retried later nor recorded as failed, and is claimed again whenever its lease has expired.\<close>

theorem mail_currency_unsettled:
  assumes "mail_reachable isEmail iso4217 cfg w" "row \<in> set (outboxEvents (mw_db w))" "holds_mail data row"
    and "o_lockExpiresAt row = Some t" "je_claimAt env < t"
    and "mailable isEmail iso4217 (mw_db w) row e" "ns_currency (fst (snd (booking_part e))) \<noteq> ''VND''"
    and "validateNotificationTemplateCatalogs (tp_catalogs (mc_service cfg)) = Inr u"
  shows "process_job isEmail iso4217 cfg env data (mw_db w) =
    (Inl (UnexpectedError (PlainError ''Notification price currency is unsupported.'')), mw_db w)"
proof -
  let ?P = "\<lambda>row. holds_mail data row \<and> (case o_lockExpiresAt row of None \<Rightarrow> False | Some t \<Rightarrow> t > je_claimAt env)"
  have inv: "mail_inv isEmail w" by (rule mail_reachable_inv [OF assms(1)])
  note h = holds_mailD [OF assms(3)]
  have d: "distinct (map o_id (outboxEvents (mw_db w)))" using mail_invD(1) [OF inv] by (simp add: wf_outbox_def)
  obtain r where r: "List.find ?P (outboxEvents (mw_db w)) = Some r"
    using assms(2-5) by (cases "List.find ?P (outboxEvents (mw_db w))") (auto simp: find_None_iff)
  have "r = row" using find_SomeD [OF r] holds_mailD h distinct_key_eq [OF d _ assms(2), of r] by simp
  then have found: "List.find ?P (outboxEvents (mw_db w)) = Some row" using r by simp
  obtain del db where l: "lock_or_create_delivery isEmail (mc_service cfg) (je_claimAt env) (o_id row) e (mw_db w) = Inr (del, db)"
    "ed_status del = DeliveryPending" "requireRecipient isEmail (ed_recipient del) = Inr (ed_recipient del)" "rooms db = rooms (mw_db w)"
    using locked_delivery [OF inv assms(2) _ _ assms(6)] h by blast
  obtain ctx where c: "resolveRenderContext (rooms db) e = Inr ctx"
    using context_given [of "rooms db" e] assms(6) l(4) by (auto simp: mailable_def)
  have parsed: "parseNotificationEvent iso4217 (o_eventType row) (o_payload row) = Inr e" "canonicalUuidPattern (o_id row)"
    using assms(6) by (simp_all add: mailable_def)
  have "prepare_delivery isEmail iso4217 (mc_service cfg) True (je_claimAt env) row (mw_db w) =
      Inl (UnexpectedError (PlainError ''Notification price currency is unsupported.''))"
    using l c parsed render_currency [OF assms(8,7)] by (simp add: prepare_delivery_def buildMessage_def Let_def)
  then show ?thesis
    using found by (simp add: process_job_def claimWork_def finishWithoutSending_def)
qed

subsection \<open>A concrete delivery\<close>

definition demo_mail_booking :: "string \<Rightarrow> booking_row" where
  "demo_mail_booking currency = demo_confirmed_booking\<lparr>b_currency := currency\<rparr>"

definition demo_mail_event :: "string \<Rightarrow> NotificationEvent" where
  "demo_mail_event currency =
     BookingConfirmedEvent (base_of (demo_mail_booking currency)) (snapshot_of (demo_mail_booking currency) demo_room)"

definition demo_mail_row :: "string \<Rightarrow> outbox_row" where
  "demo_mail_row currency = \<lparr>o_id = ''0f8fad5b-d9cb-469f-a165-70867728950e'', o_eventType = ''booking.confirmed'',
     o_payload = mail_payload (demo_mail_booking currency) demo_room None None, o_availableAt = 5, o_status = OutPending,
     o_idempotencyKey = ''k'', o_lockedAt = None, o_lockExpiresAt = None, o_lockedBy = None, o_processedAt = None,
     o_attempts = 0, o_lastErrorCode = None, o_failedAt = None, o_createdAt = 5, o_updatedAt = 5\<rparr>"

definition demo_mail_world :: "string \<Rightarrow> mail_world" where
  "demo_mail_world currency = mail_init\<lparr>mw_db := empty_mail_db\<lparr>
       users := [\<lparr>u_id = 8, u_email = ''guest@example.org'', u_displayName = ''Guest'', u_role = RoleUser, u_status = UserActive\<rparr>],
       rooms := [demo_room], outboxEvents := [demo_mail_row currency]\<rparr>,
     mw_known := {''0f8fad5b-d9cb-469f-a165-70867728950e''}\<rparr>"

definition demo_mail_config :: mail_config where
  "demo_mail_config = \<lparr>mc_service = \<lparr>tp_catalogs = (\<lambda>_. english_catalog), tp_sender = \<lparr>ms_name = ''Hotel'', ms_address = ''hotel@example.org''\<rparr>,
       tp_defaultLocale = ''en'', tp_senderDomain = ''example.org''\<rparr>,
     mc_claimBatchSize = 10, mc_claimLeaseMs = 60000, mc_maxAttempts = 5, mc_backoff = \<lparr>nb_initialMs = 1000, nb_maxMs = 60000\<rparr>\<rparr>"

abbreviation demo_isEmail :: "string \<Rightarrow> bool" where
  "demo_isEmail s \<equiv> CHR ''@'' \<in> set s"

abbreviation demo_iso :: "string \<Rightarrow> bool" where
  "demo_iso c \<equiv> c = ''VND'' \<or> c = ''EUR''"

lemma demo_mail_parsed:
  assumes "currency = ''VND'' \<or> currency = ''EUR''"
  shows "parseNotificationEvent demo_iso ''booking.confirmed'' (mail_payload (demo_mail_booking currency) demo_room None None)
    = Inr (demo_mail_event currency)"
proof -
  have days: "parseHotelDate ''2024-02-28'' \<noteq> None" "parseHotelDate ''2024-03-01'' \<noteq> None"
    using demo_confirmation_typed
    by (simp_all add: demo_confirmation_def typed_snapshot_def typed_stay_def strict_hotel_date_def snapshot_of_def
        demo_confirmed_booking_def demo_booking_def)
  have formats: "hotelDatePattern ''2024-02-28''" "hotelDatePattern ''2024-03-01''" "bookingPublicIdPattern demo_public_id"
    "currencyPattern ''VND''" "currencyPattern ''EUR''" "clean_text 50 ''101''" "decimalIdPattern (show_nat 2)" "decimalIdPattern (show_nat 8)"
    "''2024-02-28'' < ''2024-03-01''"
    by code_simp+
  have "typed_event demo_iso (demo_mail_event currency)"
    using days formats assms
    by (auto simp: demo_mail_event_def demo_mail_booking_def typed_base_def typed_snapshot_def typed_stay_def strict_hotel_date_def
        base_of_def snapshot_of_def demo_confirmed_booking_def demo_booking_def demo_room_def isSafeInteger_def number_max_safe_integer_def
        simp del: sort_key_simps)
  from intended_read [of "demo_mail_booking currency" demo_room None None "demo_mail_event currency", OF _ this] show ?thesis
    by (simp add: demo_mail_event_def)
qed

lemma demo_mailable:
  assumes "currency = ''VND'' \<or> currency = ''EUR''"
  shows "mailable demo_isEmail demo_iso (mw_db (demo_mail_world currency)) (demo_mail_row currency) (demo_mail_event currency)"
proof -
  have texts: "canonicalUuidPattern ''0f8fad5b-d9cb-469f-a165-70867728950e''" "decimal_value (show_nat 8) = 8"
    "toLowerCase (trim ''guest@example.org'') = ''guest@example.org''" "trim ''guest@example.org'' = ''guest@example.org''"
    by code_simp+
  have "ne_ownerUserId (fst (booking_part (demo_mail_event currency))) = show_nat 8"
    by (simp add: demo_mail_event_def base_of_def demo_mail_booking_def demo_confirmed_booking_def demo_booking_def)
  then have "resolveOwnerEmail demo_isEmail (users (mw_db (demo_mail_world currency))) (ne_ownerUserId (fst (booking_part (demo_mail_event currency))))
      = Inr ''guest@example.org''"
    using texts by (simp add: resolveOwnerEmail_def demo_mail_world_def requireRecipient_def maximumEmailAddressLength_def)
  then show ?thesis
    using texts demo_mail_parsed [OF assms]
    by (simp add: mailable_def demo_mail_row_def is_error_def) (simp add: demo_mail_event_def)
qed

lemma demo_mail_family: "mailFamily (demo_mail_row currency)"
  by (simp add: mailFamily_def demo_mail_row_def notificationEventTypes_def)

lemma demo_mail_wf: "wf_outbox [demo_mail_row currency]"
  by (simp add: wf_outbox_def lease_state_def demo_mail_row_def)

lemma demo_mail_reachable: "mail_reachable isEmail iso4217 cfg (demo_mail_world currency)"
proof -
  let ?db = "empty_mail_db\<lparr>users := [\<lparr>u_id = 8, u_email = ''guest@example.org'', u_displayName = ''Guest'', u_role = RoleUser,
    u_status = UserActive\<rparr>], rooms := [demo_room], outboxEvents := [demo_mail_row currency]\<rparr>"
  have "foreign_mail (mw_known mail_init) (mw_db mail_init) ?db"
    using demo_mail_wf by (simp add: foreign_mail_def mail_init_def empty_mail_db_def hotel_db.extend_def empty_db_def)
      (simp add: demo_mail_row_def)
  from mail_step.foreign [OF this] have "mail_step isEmail iso4217 cfg mail_init (demo_mail_world currency)"
    by (simp add: demo_mail_world_def mail_init_def) (simp add: demo_mail_row_def)
  then show ?thesis unfolding mail_reachable_def by (rule r_into_rtranclp)
qed

lemma demo_mail_facts:
  "demo_mail_row currency \<in> set (outboxEvents (mw_db (demo_mail_world currency)))" "o_status (demo_mail_row currency) = OutPending"
  "ns_currency (fst (snd (booking_part (demo_mail_event currency)))) = currency"
  "validateNotificationTemplateCatalogs (tp_catalogs (mc_service demo_mail_config)) = Inr ()"
  "plain_subjects (tp_catalogs (mc_service demo_mail_config))" "0 < mc_claimBatchSize demo_mail_config" "0 < mc_claimLeaseMs demo_mail_config"
  using demo_catalogs demo_plain_subjects
  by (simp_all add: demo_mail_world_def demo_mail_row_def demo_mail_event_def snapshot_of_def demo_mail_booking_def demo_mail_config_def)

theorem mail_delivers_witness:
  "\<exists>w. mail_reachable demo_isEmail demo_iso demo_mail_config w
     \<and> (\<exists>row \<in> set (outboxEvents (mw_db w)). o_id row = ''0f8fad5b-d9cb-469f-a165-70867728950e'' \<and> o_status row = OutProcessed)"
  using mail_delivers [OF demo_mail_reachable demo_mail_facts(1) demo_mail_family demo_mail_facts(2) demo_mailable _ demo_mail_facts(4-7),
      where currency2 = "''VND''"] demo_mail_facts(3)
  by (auto simp: demo_mail_row_def)

lemma demo_mail_sent:
  "\<exists>w. mail_reachable demo_isEmail demo_iso demo_mail_config w
     \<and> (\<exists>row \<in> set (outboxEvents (mw_db w)). o_id row = ''0f8fad5b-d9cb-469f-a165-70867728950e'' \<and> mailFamily row \<and> o_status row = OutProcessed)"
proof -
  obtain w where w: "mail_reachable demo_isEmail demo_iso demo_mail_config w"
    "\<exists>row \<in> set (outboxEvents (mw_db w)). o_id row = ''0f8fad5b-d9cb-469f-a165-70867728950e'' \<and> mailFamily row \<and> o_status row = OutProcessed"
    using mail_delivery_run [OF demo_mail_reachable demo_mail_facts(1) demo_mail_family demo_mail_facts(2) demo_mailable _ demo_mail_facts(4-7),
        where currency2 = "''VND''"] demo_mail_facts(3)
    by (auto simp: demo_mail_row_def)
  then show ?thesis by blast
qed

theorem mail_records_agree_witness:
  "\<exists>w. mail_reachable demo_isEmail demo_iso demo_mail_config w
     \<and> (\<exists>d \<in> set (emailDeliveries (mw_db w)). ed_status d = DeliverySent
          \<and> (\<exists>m \<in> set (mw_provider w). pm_notificationId m = toLowerCase ''0f8fad5b-d9cb-469f-a165-70867728950e'' \<and> pm_to m = ed_recipient d))"
proof -
  obtain w row where w: "mail_reachable demo_isEmail demo_iso demo_mail_config w" "row \<in> set (outboxEvents (mw_db w))" "mailFamily row"
    and row: "o_id row = ''0f8fad5b-d9cb-469f-a165-70867728950e''" "o_status row = OutProcessed"
    using demo_mail_sent by blast
  from mail_records_agree [OF w] row obtain d m where "d \<in> set (emailDeliveries (mw_db w))" "ed_status d = DeliverySent"
    "m \<in> set (mw_provider w)" "pm_notificationId m = toLowerCase ''0f8fad5b-d9cb-469f-a165-70867728950e''" "pm_to m = ed_recipient d"
    by auto
  then show ?thesis using w(1) by blast
qed

theorem redrive_decides_witness:
  "fst (redrive \<lparr>rq_outboxEventId = ''0f8fad5b-d9cb-469f-a165-70867728950e'', rq_reason = ''r'', rq_allowDuplicate = True\<rparr> 9
      (mw_db (demo_mail_world ''VND''))) = refuse \<lparr>rq_outboxEventId = ''0f8fad5b-d9cb-469f-a165-70867728950e'', rq_reason = ''r'',
      rq_allowDuplicate = True\<rparr> ''NOTIFICATION_REDRIVE_EVENT_NOT_FAILED'' (Some OutPending)
   \<and> snd (redrive \<lparr>rq_outboxEventId = ''0f8fad5b-d9cb-469f-a165-70867728950e'', rq_reason = ''r'', rq_allowDuplicate = True\<rparr> 9
      (mw_db (demo_mail_world ''VND''))) = mw_db (demo_mail_world ''VND'')"
proof -
  let ?rq = "\<lparr>rq_outboxEventId = ''0f8fad5b-d9cb-469f-a165-70867728950e'', rq_reason = ''r'', rq_allowDuplicate = True\<rparr>"
  obtain result db where r: "redrive ?rq 9 (mw_db (demo_mail_world ''VND'')) = (result, db)" by fastforce
  have "result = refuse ?rq ''NOTIFICATION_REDRIVE_EVENT_NOT_FAILED'' (Some OutPending)"
    using r demo_mail_family by (simp add: redrive_def demo_mail_world_def Let_def) (simp add: demo_mail_row_def)
  moreover have "db = mw_db (demo_mail_world ''VND'')"
    using redrive_decides [OF demo_mail_reachable r] calculation by (simp add: refuse_def)
  ultimately show ?thesis using r by simp
qed

theorem mail_currency_unsettled_witness:
  "\<exists>w data env. mail_reachable demo_isEmail demo_iso demo_mail_config w \<and> process_job demo_isEmail demo_iso demo_mail_config env data (mw_db w) =
     (Inl (UnexpectedError (PlainError ''Notification price currency is unsupported.'')), mw_db w)"
proof -
  let ?w = "demo_mail_world ''EUR''" and ?row = "demo_mail_row ''EUR''"
  let ?held = "leased (mail_claim demo_mail_config ''t'') 5 ?row"
  let ?w' = "?w\<lparr>mw_db := (mw_db ?w)\<lparr>outboxEvents := [?held]\<rparr>,
    mw_claims := [\<lparr>jd_outboxEventId = o_id ?row, jd_claimToken = ''t'', jd_attempt = 1\<rparr>]\<rparr>"
  let ?env = "\<lparr>je_claimAt = 6, je_finishAt = 7, je_recordFails = False, je_jitter = id, je_send = (\<lambda>_. Inr None)\<rparr>"
  have wf: "wf_outbox (outboxEvents (mw_db ?w))" using demo_mail_wf by (simp add: demo_mail_world_def)
  have "due_row 5 ?row" by (simp add: due_row_def demo_mail_row_def)
  from mail_step.claimed [OF lone_claim [OF wf demo_mail_facts(1) demo_mail_family this demo_mail_facts(6)]]
  have "mail_step demo_isEmail demo_iso demo_mail_config ?w ?w'"
    by (simp add: demo_mail_world_def mail_init_def job_of_def) (simp add: demo_mail_row_def)
  then have reach: "mail_reachable demo_isEmail demo_iso demo_mail_config ?w'"
    using demo_mail_reachable unfolding mail_reachable_def by (rule rtranclp.rtrancl_into_rtrancl [rotated])
  note held = leased_state [OF wf demo_mail_facts(1) demo_mail_family, where cfg = demo_mail_config and token = "''t''" and now = 5]
  have "mailable demo_isEmail demo_iso (mw_db ?w') ?held (demo_mail_event ''EUR'')"
    using demo_mailable [of "''EUR''"] by (simp add: mailable_def leased_def)
  moreover have "ns_currency (fst (snd (booking_part (demo_mail_event ''EUR'')))) \<noteq> ''VND''" by (simp add: demo_mail_facts(3))
  moreover have "je_claimAt ?env < 5 + mc_claimLeaseMs demo_mail_config * 1000" by (simp add: demo_mail_config_def)
  moreover have "?held \<in> set (outboxEvents (mw_db ?w'))" by simp
  ultimately show ?thesis
    using mail_currency_unsettled [OF reach _ held(2,3) _ _ _ demo_mail_facts(4), where env = ?env] reach by blast
qed

end
