(* ===== verification/Spec2Isabelle.thy ===== *)
theory Spec2Isabelle
  imports Fingerprint Hotel_Progress Auth_Demo Relay_System Poll_Loop Retention_Purge Stats_System Stats_Report Mail_Progress
begin

text \<open>
  A verification of the backend of a hotel booking service: a NestJS program over MySQL and Redis, with a
  Kafka topic for booking events and a worker that relays them, keeps statistics over them, sends mail and
  applies the retention.

  \<^bold>\<open>The parts and how they interact.\<close> Guests request, list and cancel bookings and administrators
  approve, reject, change and cancel them (bookings/bookings.service.ts). A booking refers to an
  availability window of a room (rooms/room-times.service.ts), which belongs to the catalogue of rooms,
  types and amenities (rooms/rooms.service.ts, rooms/reference-catalog.service.ts). A create is retried
  under an idempotency key (common/idempotency). Every transaction of a booking also writes an event
  (bookings/booking-lifecycle-recorder.ts) and, for some transitions, a mail intent into
  \<open>outbox_events\<close>; relays claim the events there (common/outbox), publish them and mark the rows
  (bookings/booking-lifecycle-relay.*). A consumer of the topic keeps a table of facts for the statistics
  reports (reports/booking-stats-*), and the mail worker claims, renders and sends the mail intents and
  records what became of them (notifications). Nightly runs elect one replica per task and window in
  \<open>scheduled_runs\<close> and purge what is past its retention (retention). Users log in with Google
  (auth/auth.service.ts, auth/google), which gives them a session with a rotating refresh token
  (auth/session.service.ts); every request is authenticated by a guard over that session, a revocation
  cache in Redis and the status of the user, which administrators change (users/users.service.ts).

  \<^bold>\<open>Theories and sources.\<close>
  \<^item> \<open>Prelude\<close>: tables as lists of rows, the SQL shapes on them, results as sums (\<open>Inl\<close> is the error).
  \<^item> \<open>Hotel_Date\<close> and \<open>Identifiers\<close>: the calendar behind Date.UTC, Date.parse and toISOString with the
    strict date parser and the stay check; public identifiers (a ULID generator with its process state),
    surrogate keys, version headers and the lock order of rooms.
  \<^item> \<open>Schema\<close>: the rows of all tables, their checks, unique and foreign keys, one record \<open>hotel_db\<close> of all
    tables, and \<open>tx_env\<close>, what a transaction reads from its surroundings (clocks, UUIDs, random bytes,
    today in the hotel's timezone).
  \<^item> \<open>Idempotency\<close>, \<open>Fingerprint\<close>: the retry contract and the text that is hashed into a fingerprint.
  \<^item> \<open>Lifecycle\<close>: the event payload, its strict parser and the recorder.
  \<^item> \<open>Bookings\<close>: every operation of the bookings service, the transaction of each apart from the read it
    does before (\<open>approve\<close> reads a snapshot, \<open>approve_tx\<close> locks and decides), so that other transactions
    may run in between. \<open>Booking_Effects\<close> says what each transaction changes.
  \<^item> \<open>Room_Times\<close>, \<open>Room_Catalog\<close>: windows and catalogue. How bookings use a window is asked through a
    port, the locale \<open>usage_port\<close>, interpreted on bookings/room-time-usage.repository.ts.
  \<^item> \<open>Inventory\<close>, \<open>Ledger\<close>, \<open>Hotel_System\<close>, \<open>Hotel_Progress\<close>: the invariant every transaction keeps; the
    booking contract without tables; the whole hotel as one step relation \<open>hotel_step\<close> whose steps are the
    transactions, with its invariant and the simulation of the ledger; and which transitions always commit.
  \<^item> \<open>Outbox\<close>, \<open>Lifecycle_Relay\<close>, \<open>Relay_System\<close>, \<open>Poll_Loop\<close>: the claim protocol, envelope and relay cycle,
    many interleaved cycles as the step relation \<open>relay_step\<close>, and the timer of the dispatchers.
  \<^item> \<open>Scheduled_Runs\<close>, \<open>Run_Ledger\<close>, \<open>Retention_Run\<close>, \<open>Retention_Purge\<close>: the ledger of runs, many replicas
    over it as the step relation \<open>run_step\<close>, the loop of a run, and the bounded purges.
  \<^item> \<open>Text_Search\<close>: the free-text conditions of the lists (trim, lower case, escaped LIKE patterns).
  \<^item> \<open>Accounts\<close>, \<open>Sessions\<close>, \<open>Rate_Limit\<close>, \<open>Google_Login\<close>, \<open>Auth_Routes\<close>: users and their administration,
    sessions with their tokens and guards, the shared fixed-window limiter, the login, and the routes with
    their cookies. \<open>Auth_System\<close> makes their transactions the step relation \<open>auth_step\<close>; \<open>Auth_Runs\<close> shows
    what survives every run of it. The purge of sessions is a step that removes any set of sessions.
  \<^item> \<open>Booking_Stats\<close>, \<open>Stats_System\<close>, \<open>Stats_Report\<close>: facts, the guarded upsert with its assignments in order,
    a batch of the consumer and the statements of a rebuild; the consumer with its topic, its group and any
    number of rebuilds as the step relation \<open>stats_step\<close>; and the report over the facts.
  \<^item> \<open>Mail_Event\<close>, \<open>Mail_Template\<close>, \<open>Mail_Failure\<close>, \<open>Mail_Delivery\<close>: the mail intents with their strict parser
    (notifications/notification-event.ts), templates with placeholders and escapes
    (email-template.service.ts), what an error of a provider means (smtp-error.ts, gmail-api-error.ts,
    notification-backoff.ts), and the operations of the dispatcher, the worker and the redrive
    (outbox-dispatcher.service.ts, delivery-*.ts, notification-redrive.repository.ts). \<open>Mail_System\<close> makes them
    the step relation \<open>mail_step\<close>, in which a job may run any number of times and stop between any two of its
    statements; \<open>Mail_Runs\<close> has its invariant, \<open>Mail_Progress\<close> what follows and the run that delivers a mail.
  \<^item> \<open>Transition_Systems\<close>: the locales of step relations, interpreted on the ledger, the hotel, authentication,
    the relays, the poll loop, the runs, the statistics and the mail. \<open>Demo_Run\<close>, \<open>Auth_Demo\<close> and \<open>Mail_Demo\<close>:
    concrete runs that the witnesses evaluate.

  \<^bold>\<open>What the theorems show.\<close> Of every reachable database, in any interleaving: no room is
  booked twice, bookings lie in their windows, the tables implement the ledger, settled bookings are final,
  versions count the audit rows. Of the requests: retries replay, keys are not reused, what
  a create writes and how it is refused, approvals succeed exactly when the room is free, cancellation is
  always possible, no update is lost, pages partition a list. Of the components: the event
  contract, the window policy, the accepted dates, identifiers and version headers. Of the
  stream: delivery under crashes and expired leases, round trip of the envelope, accounting of a cycle, what
  a claim takes, fencing, the bounds of the backoff, serial polling. Of the retention:
  the election of a window, finality, the bound on the grants (counted by ghosts of \<open>run_state\<close> that record what
  ended an attempt and when it last removed rows, not by the predicate of the code), the counts of the ledger,
  that a run returns and when it rejects, when a window may be called done, and that purges delete exactly what
  is due and no event that was not delivered. Of authentication, in any interleaving: a refresh token and an OAuth state work once, a
  deactivation ends every session for good, an issued token authenticates its user, a login returns to the
  account it created, some administrator stays active, the audit rows replay to the state of an account, a
  status change takes a verified token of an open session of an active administrator; and the budget of a rate
  limit is kept. Of the statistics: a batch absorbs events in any order, the facts cover what was committed
  unless a member joined during a rebuild, and a report counts every fact once. Of mail: what a booking
  writes is read back, values inject nothing, the records of events, deliveries and attempts agree
  with each other and with what the provider accepted, a redrive is decided by them, a mail that can be sent
  has a run that sends it, and one in a currency without a format is never settled.

  \<^bold>\<open>Bounds, time and loops.\<close> Instants are microseconds, dates of the process milliseconds, both unbounded
  integers; numbers that the code checks against Number.MAX_SAFE_INTEGER or BIGINT UNSIGNED keep that bound.
  Loops are structural recursions or recursions with a measure, except the batches of a run: they are a partial
  function in the option type, whose value \<open>None\<close> is a run that never stops, and it is shown that it stops once the clock passes
  the deadline. There is no fuel.

  \<^bold>\<open>Parameters.\<close> SHA-256, the collation of the unique text columns, the ISO 4217 table and the UUID test of
  their packages, the timezone database (today, zone offsets), the random draws, the rows that other
  transactions hold locked, and the publisher, of which only its documented contract is used: an
  acknowledged publish has stored the batch, a rejected one any part of it. Also the signer and verifier of
  JSON Web Tokens, the OAuth client of Google, the JSON codec and the Redis commands, each with the laws of
  its documentation as hypotheses where a theorem needs them. For the statistics, the offsets Kafka
  answers and the sort keys of localeCompare; for mail, isEmail of class-validator, the pair of catalogs (the
  English one is also written out), the jitter and the answers of the provider and of the queue. A transaction
  is one step, which the row locks of the code justify; reads outside of a transaction are separate. Where
  statements commit on their own they are separate steps (the rebuild, the job of the mail worker, the cycle
  of a relay), except the four of a recover of a scheduled run, which are one. Connections and statements that
  fail, before or after they took effect, are answers of the environment.

  \<^bold>\<open>Not modelled.\<close> The HTTP layer (controllers, pipes, DTO decorators) outside of authentication,
  configuration and wiring, log lines, and the textual form of JSON: values are trees. Also not: a
  publish that succeeds after its rejection was handled, a malformed answer of the rate-limit script, the
  range of SMALLINT counters of attempts, and the moving clock between the batches of one purge. Of the
  components, room search, room exports, attachments and object storage, the SMTP and Gmail adapters, the
  backlog reports, and the tasks of the retention on sessions, storage and exports are not modelled.

  \<^bold>\<open>Plan.\<close> Next in order: room search, room exports, attachments.
\<close>

section \<open>Properties of the whole system\<close>

text \<open>C1. In every database the system can reach, two confirmed bookings of one physical room never
  share a night: whatever the interleaving of requests, approvals, changes and catalogue edits, one of
  the two stays ends on or before the day the other begins.\<close>

theorem no_overbooking:
  assumes "hotel_reachable cfg collate db"
  shows "no_double_booking db"
  using reachable_inventory [OF assms] by (simp add: inventory_def)

theorem no_overbooking_witness: "hotel_reachable demo_config id demo_confirmed \<and> no_double_booking demo_confirmed"
  using no_overbooking [OF demo_confirmed_reachable] demo_confirmed_reachable by blast

text \<open>C2. In every reachable database the active windows of a room do not overlap, and every pending or
  confirmed booking lies inside the active window it refers to.\<close>

theorem windows_sound:
  assumes "hotel_reachable cfg collate db"
  shows "windows_disjoint db \<and> live_in_window db"
  using reachable_inventory [OF assms] by (simp add: inventory_def)

theorem windows_sound_witness: "windows_disjoint demo_requested \<and> live_in_window demo_requested"
  by (rule windows_sound [OF demo_requested_reachable])

text \<open>C3. The detailed transactions refine the booking ledger: each step of a reachable system either
  leaves the ledger of the database as it is or makes one of its steps (a request, a settlement, a
  confirmation without clash, a move).\<close>

theorem ledger_refinement:
  assumes "hotel_reachable cfg collate db" "hotel_step cfg collate db db'"
  shows "ledger_of db' = ledger_of db \<or> ledger_step (ledger_of db) (ledger_of db')"
  using hotel_step_simulated [OF reachable_system_inv [OF assms(1)] assms(2)] .

theorem ledger_refinement_witness:
  "ledger_of demo_confirmed = ledger_of demo_requested
   \<or> ledger_step (ledger_of demo_requested) (ledger_of demo_confirmed)"
  by (rule ledger_refinement [OF demo_requested_reachable demo_approve_step])

text \<open>C4. A booking never disappears and what it was made for never changes: along any run the owner,
  the price and the currency stay, and unless the booking is untouched its version grew, it had been
  pending or confirmed, and a confirmed one is still confirmed or was cancelled by an administrator. So
  rejected and cancelled bookings are final.\<close>

theorem bookings_evolve:
  assumes "hotel_reachable cfg collate db" "(hotel_step cfg collate)\<^sup>*\<^sup>* db db'" "ledger_of db publicId = Some a"
  shows "\<exists>b. ledger_of db' publicId = Some b
    \<and> lb_owner b = lb_owner a \<and> lb_price b = lb_price a \<and> lb_currency b = lb_currency a
    \<and> (b = a \<or> lb_version a < lb_version b \<and> lb_status a \<in> {Pending, Confirmed}
         \<and> (lb_status a = Confirmed \<longrightarrow> lb_status b \<in> {Confirmed, CancelledByAdmin}))"
  using hotel_steps_evolve [OF assms(1,2)] assms(3) unfolding evolves_def evolved_def by blast

theorem bookings_evolve_witness:
  "\<exists>b. ledger_of demo_confirmed demo_public_id = Some b \<and> lb_owner b = 8 \<and> lb_price b = 1000"
proof -
  have a: "ledger_of demo_requested demo_public_id = Some (ledger_row demo_booking 2)"
    by (simp add: demo_defs demo_requested_def ledger_of_def find_booking_def booking_room_def find_room_time_def)
  have run: "(hotel_step demo_config id)\<^sup>*\<^sup>* demo_requested demo_confirmed" using demo_approve_step by blast
  show ?thesis
    using bookings_evolve [OF demo_requested_reachable run a] by (auto simp: demo_booking_def)
qed

text \<open>C5. The version of a booking is the number of rows of its two histories, so it counts every
  change and no change goes without an audit row.\<close>

theorem versions_audited:
  assumes "hotel_reachable cfg collate db" "b \<in> set (bookings db)"
  shows "b_version b =
    length (filter (\<lambda>h. sh_bookingId h = b_id b) (statusHistories db))
    + length (filter (\<lambda>c. ch_bookingId c = b_id b) (changeHistories db))"
  using reachable_system_inv [OF assms(1)] assms(2) by (simp add: system_inv_def versions_counted_def changes_of_def)

theorem versions_audited_witness:
  "b_version demo_confirmed_booking =
    length (filter (\<lambda>h. sh_bookingId h = 5) (statusHistories demo_confirmed))
    + length (filter (\<lambda>c. ch_bookingId c = 5) (changeHistories demo_confirmed))"
  using versions_audited [OF demo_confirmed_reachable, of demo_confirmed_booking]
  by (simp add: demo_confirmed_def demo_confirmed_booking_def demo_booking_def)

text \<open>C6. Retrying a request is safe: once a create has committed, the same actor and key with the same
  fingerprint gets the stored response back and changes nothing, at any later moment at which its key has
  not been purged, whatever was committed in between and whatever the body of the retry is.\<close>

theorem create_replays:
  assumes "hotel_reachable cfg collate db"
    and "createInTransaction cfg actor key fingerprint input env db = Inr ((response, replayed), db1)"
    and "(hotel_step cfg collate)\<^sup>*\<^sup>* db1 db2"
    and "{row \<in> set (idempotencyKeys db1). ik_actorUserId row = actor \<and> ik_operation row = bookingCreateOperation
           \<and> ik_idempotencyKey row = key} \<subseteq> set (idempotencyKeys db2)"
  shows "createInTransaction cfg actor key fingerprint input' env' db2 = Inr ((response, True), db2)"
proof -
  let ?li = "\<lparr>il_actorUserId = actor, il_operation = bookingCreateOperation, il_idempotencyKey = key,
              il_fingerprint = fingerprint\<rparr>"
  have keys: "wf_keys db" using reachable_system_inv [OF assms(1)] by (simp add: system_inv_def)
  obtain row where row: "row \<in> set (idempotencyKeys db1)" "claims ?li row" "ik_requestFingerprint row = fingerprint"
    "ik_status row = KeyCompleted" "ik_responseBody row = Some response"
    using create_stored [OF keys assms(2)] .
  have "hotel_reachable cfg collate db1"
    using assms(1) hotel_step.create [OF assms(2)] unfolding hotel_reachable_def by (rule rtranclp.rtrancl_into_rtrancl)
  then have "system_inv db2"
    using hotel.steps_inv [OF assms(3)] reachable_system_inv by blast
  then have "wf_keys db2" by (simp add: system_inv_def)
  moreover have "row \<in> set (idempotencyKeys db2)" using assms(4) row by (auto simp: claims_def)
  ultimately have "lock_key (retentionHours cfg) ?li env' db2 = Inr (row, db2)"
    using lock_key_replays [OF _ _ row(2)] row(3) by simp
  then show ?thesis using row by (simp add: createInTransaction_def)
qed


theorem create_replays_witness:
  "createInTransaction demo_config 8 ''demo-key'' ''print'' demo_input (demo_env ''z'') demo_confirmed =
     Inr ((demo_response, True), demo_confirmed)"
proof -
  have run: "(hotel_step demo_config id)\<^sup>*\<^sup>* demo_requested demo_confirmed" using demo_approve_step by blast
  show ?thesis
    by (rule create_replays [OF demo_catalogue_reachable demo_created run]) (auto simp: demo_confirmed_def)
qed

text \<open>A key answers one request only: once a create has committed under a key, the same actor sending
  another room or other dates under that key gets the 409 of a reused key, as long as the key has not been
  purged and the hash tells the two request texts apart. So two requests never share a stored response.\<close>

theorem key_reuse_refused:
  assumes "hotel_reachable cfg collate db"
    and "create_booking cfg sha256 actor (Some key) input env db = Inr ((response, replayed), db1)"
    and "(hotel_step cfg collate)\<^sup>*\<^sup>* db1 db2"
    and "{row \<in> set (idempotencyKeys db1). ik_actorUserId row = actor \<and> ik_operation row = bookingCreateOperation
           \<and> ik_idempotencyKey row = key} \<subseteq> set (idempotencyKeys db2)"
    and "input' \<noteq> input"
    and "sha256 (fingerprint_text actor input') = sha256 (fingerprint_text actor input) \<Longrightarrow>
      fingerprint_text actor input' = fingerprint_text actor input"
  shows "create_booking cfg sha256 actor (Some key) input' env' db2 = Inl idempotencyErrors_keyReused"
proof -
  let ?fp = "bookingCreateFingerprint sha256 actor"
  let ?li = "\<lambda>fp. \<lparr>il_actorUserId = actor, il_operation = bookingCreateOperation, il_idempotencyKey = key,
              il_fingerprint = fp\<rparr>"
  have pat: "idempotencyKeyPattern key"
    and create: "createInTransaction cfg actor key (?fp input) input env db = Inr ((response, replayed), db1)"
    using assms(2) by (auto simp: create_booking_def split: if_splits)
  have keys: "wf_keys db" using reachable_system_inv [OF assms(1)] by (simp add: system_inv_def)
  obtain row where row: "row \<in> set (idempotencyKeys db1)" "claims (?li (?fp input)) row"
    "ik_requestFingerprint row = ?fp input"
    by (rule create_stored [OF keys create])
  have "hotel_reachable cfg collate db1"
    using assms(1) hotel_step.create [OF create] unfolding hotel_reachable_def by (rule rtranclp.rtrancl_into_rtrancl)
  then have "wf_keys db2" using hotel.steps_inv [OF assms(3)] reachable_system_inv by (auto simp: system_inv_def)
  moreover have "row \<in> set (idempotencyKeys db2)" "claims (?li (?fp input')) row"
    using assms(4) row by (auto simp: claims_def)
  moreover have "?fp input \<noteq> ?fp input'"
    using assms(5,6) by (auto simp: bookingCreateFingerprint_def fingerprint_text_inj)
  ultimately have "lock_key (retentionHours cfg) (?li (?fp input')) env' db2 = Inl idempotencyErrors_keyReused"
    using lock_key_replays row(3) by simp
  then show ?thesis using pat by (simp add: create_booking_def createInTransaction_def)
qed

theorem key_reuse_refused_witness:
  "create_booking demo_config (\<lambda>t. if t = fingerprint_text 8 demo_input then ''print'' else ''other'') 8 (Some ''demo-key'')
     (demo_input\<lparr>ci_roomId := 3\<rparr>) (demo_env ''z'') demo_confirmed = Inl idempotencyErrors_keyReused"
proof -
  let ?sha = "\<lambda>t. if t = fingerprint_text 8 demo_input then ''print'' else ''other''"
  have pat: "idempotencyKeyPattern ''demo-key''" by code_simp
  have create: "create_booking demo_config ?sha 8 (Some ''demo-key'') demo_input (demo_env ''a'') demo_catalogue =
      Inr ((demo_response, False), demo_requested)"
    using demo_created pat by (simp add: create_booking_def bookingCreateFingerprint_def)
  have run: "(hotel_step demo_config id)\<^sup>*\<^sup>* demo_requested demo_confirmed" using demo_approve_step by blast
  show ?thesis
    by (rule key_reuse_refused [OF demo_catalogue_reachable create run])
      (auto simp: demo_confirmed_def demo_input_def split: if_splits)
qed

text \<open>C7. What a fresh create does: it appends one pending booking at version 1 for an active room and an
  active window that contains the stay, at the room's price per night times the nights of the stay, for the
  caller; it appends the first status row and, when the stream is enabled, one lifecycle event; it answers
  with that booking and touches neither other bookings nor the catalogue.\<close>

theorem create_outcome:
  assumes "hotel_reachable cfg collate db"
    and "createInTransaction cfg actor key fingerprint input env db = Inr ((response, False), db')"
  shows "\<exists>b room w roomType nights.
    find_room db (ci_roomId input) = Some room \<and> r_status room = RoomActive
    \<and> find_window db (ci_roomId input) (ci_checkIn input) (ci_checkOut input) = Some w
    \<and> nights = assertBookingDates (hotelToday env) (ci_checkIn input) (ci_checkOut input) \<and> 0 < nights
    \<and> bookings db' = bookings db @ [b] \<and> b_status b = Pending \<and> b_version b = 1 \<and> b_userId b = actor
    \<and> b_roomTimeId b = w_id w \<and> b_checkIn b = ci_checkIn input \<and> b_checkOut b = ci_checkOut input
    \<and> b_priceAmount b = r_basePriceAmount room * nat nights \<and> b_currency b = r_currency room
    \<and> same_catalogue db db' \<and> history_appended db (b_id b) None Pending ActorUser actor None env db'
    \<and> outboxEvents db' = outboxEvents db @ stream_events cfg b room None None env
    \<and> response = toCreateResponse b room roomType nights"
proof -
  have "wf_keys db" using reachable_system_inv [OF assms(1)] by (simp add: system_inv_def)
  from this assms(2) show ?thesis
  proof (cases rule: create_effect)
    case (2 row d0 room w nights b roomType)
    then show ?thesis
      by (intro exI [of _ b] exI [of _ room] exI [of _ w] exI [of _ roomType] exI [of _ nights])
        (auto simp: new_booking_def)
  qed simp
qed

theorem create_outcome_witness: "\<exists>b. bookings demo_requested = bookings demo_catalogue @ [b] \<and> b_version b = 1"
  using create_outcome [OF demo_catalogue_reachable demo_created] by blast

text \<open>C8. The refusals of a create under a key not used before: a stay that is malformed, empty or in the
  past is 400, a room that is missing or inactive is 404, dates no active window of the room contains are
  409, and a price beyond the safe integers is 422, in this order; the transaction then leaves nothing
  behind.\<close>

theorem create_refusals:
  assumes "user_exists db actor"
    and "\<forall>row \<in> set (idempotencyKeys db). \<not> (ik_actorUserId row = actor \<and> ik_operation row = bookingCreateOperation
           \<and> ik_idempotencyKey row = key)"
    and "create_refusal env input db = Some e"
  shows "createInTransaction cfg actor key fp input env db = Inl e"
proof -
  let ?li = "\<lparr>il_actorUserId = actor, il_operation = bookingCreateOperation, il_idempotencyKey = key, il_fingerprint = fp\<rparr>"
  obtain row d where lock: "lock_key (retentionHours cfg) ?li env db = Inr (row, d)" and row: "ik_status row \<noteq> KeyCompleted"
    and d: "rooms d = rooms db" "roomTimes d = roomTimes db"
    by (rule lock_key_unclaimed [of db ?li]) (use assms(1,2) in \<open>auto simp: claims_def\<close>)
  have look: "find_room d i = find_room db i" "find_window d i a b = find_window db i a b" for i a b
    using d by (simp_all add: find_room_def find_window_def)
  show ?thesis
    using assms(3)
    by (auto simp: createInTransaction_def lock row lockBookingTarget_def look lockRoom_def or_throw_def
        create_refusal_def roomsErrors_roomNotFound_def bookingsErrors_roomNotFound_def Let_def
        split: option.splits if_splits)
qed

theorem create_refusals_witness:
  "createInTransaction demo_config 8 ''other-key'' ''print'' (demo_input\<lparr>ci_roomId := 3\<rparr>) (demo_env ''z'') demo_confirmed =
     Inl bookingsErrors_roomNotFound"
proof (rule create_refusals)
  have "hotelToday (demo_env ''z'') = ''2024-02-28''" "ci_checkIn (demo_input\<lparr>ci_roomId := 3\<rparr>) = ''2024-02-28''"
    "ci_checkOut (demo_input\<lparr>ci_roomId := 3\<rparr>) = ''2024-03-01''" "ci_roomId (demo_input\<lparr>ci_roomId := 3\<rparr>) = 3"
    by (simp_all add: demo_defs)
  moreover have "find_room demo_confirmed 3 = None" by (simp add: demo_defs demo_confirmed_def demo_requested_def find_room_def)
  ultimately show "create_refusal (demo_env ''z'') (demo_input\<lparr>ci_roomId := 3\<rparr>) demo_confirmed = Some bookingsErrors_roomNotFound"
    using demo_nights by (simp add: create_refusal_def)
qed (simp_all add: demo_defs demo_confirmed_def demo_requested_def user_exists_def demo_key_def)

text \<open>C9. Approval: with a snapshot that is still current, a pending booking is confirmed exactly when no
  confirmed stay of its room meets it; otherwise the answer is the 409 of a booked room. No other refusal
  is possible, in particular neither the window check nor a duplicate event key can fail.\<close>

theorem approve_iff_free:
  assumes "hotel_reachable cfg collate db" "bookingSourceSnapshot publicId db = Inr snapshot"
    and "find_booking db publicId = Some b" "b_status b = Pending" "user_exists db actor" "fresh_uuids env db"
  shows "if (\<exists>x \<in> set (bookings db). b_id x \<noteq> b_id b \<and> b_status x = Confirmed
            \<and> booking_room db x = booking_room db b \<and> \<not> stays_disjoint x b)
    then approve_tx cfg snapshot actor publicId env db = Inl bookingsErrors_roomAlreadyBooked
    else \<exists>db'. approve_tx cfg snapshot actor publicId env db = Inr (False, db')"
proof -
  note inv = reachable_system_inv [OF assms(1)]
  obtain w where w: "find_room_time db (b_roomTimeId b) = Some w"
    by (rule booking_place [OF reachable_inventory [OF assms(1)] find_booking_Some(1) [OF assms(3)]])
  then have "booking_room db b = Some (sn_roomId snapshot)"
    using assms(2,3) by (auto simp: bookingSourceSnapshot_def or_throw_def booking_room_def)
  then have "assertNoConfirmedOverlap db (sn_roomId snapshot) (b_id b) (b_checkIn b) (b_checkOut b) = Inr () \<longleftrightarrow>
    \<not> (\<exists>x \<in> set (bookings db). b_id x \<noteq> b_id b \<and> b_status x = Confirmed
        \<and> booking_room db x = booking_room db b \<and> \<not> stays_disjoint x b)"
    by (auto simp: assertNoConfirmedOverlap_def require_Inr_iff confirmedOverlapCondition_def stays_disjoint_def not_le)
  then show ?thesis using approve_progress [OF inv assms(2-6)] by auto
qed

theorem approve_iff_free_witness:
  "\<exists>db'. approve_tx demo_config demo_snapshot 9 demo_public_id (demo_env ''c'') demo_requested = Inr (False, db')"
proof -
  have "bookingSourceSnapshot demo_public_id demo_requested = Inr demo_snapshot"
    "find_booking demo_requested demo_public_id = Some demo_booking" "b_status demo_booking = Pending"
    "user_exists demo_requested 9" "fresh_uuids (demo_env ''c'') demo_requested"
    by (simp_all add: demo_defs demo_requested_def demo_snapshot_def bookingSourceSnapshot_def find_booking_def or_throw_def
        find_room_time_def user_exists_def fresh_uuids_def stream_events_def lifecycle_event_def pending_event_def)
  from approve_iff_free [OF demo_requested_reachable this] show ?thesis
    by (simp add: demo_requested_def demo_booking_def)
qed

text \<open>C10. An administrator can always cancel a pending or confirmed booking: in every reachable database the
  transaction commits and replays nothing.\<close>

theorem cancelAdmin_always:
  assumes "hotel_reachable cfg collate db" "find_booking db publicId = Some b" "b_status b \<in> {Pending, Confirmed}"
    and "user_exists db actor" "fresh_uuids env db"
  shows "\<exists>db' b'. cancelAdmin_tx cfg actor publicId reason env db = Inr (False, db')
    \<and> find_booking db' publicId = Some b' \<and> b_status b' = CancelledByAdmin"
proof -
  have live: "live b" using assms(3) by (simp add: live_def)
  obtain db' where c: "cancelAdmin_tx cfg actor publicId reason env db = Inr (False, db')"
    using cancelAdmin_progress [OF reachable_system_inv [OF assms(1)] assms(2) live assms(4,5)] by blast
  note I = reachable_inventory [OF assms(1)]
  have I': "inventory db'" by (rule cancelAdmin_inventory [OF I c])
  from inventoryD(1) [OF I] c show ?thesis
  proof (cases rule: cancelAdmin_effect)
    case (2 b0 s room)
    have "s \<in> set (bookings db')" "b_publicId s = publicId"
      using 2 assms(2) find_booking_Some [of db publicId] by (auto simp: booking_saved_def row_simps saved_row_def)
    then have "find_booking db' publicId = Some s" using find_booking_iff [OF I'] by simp
    then show ?thesis using c 2 by (auto simp: saved_row_def)
  qed simp
qed

theorem cancelAdmin_always_witness:
  "\<exists>db' b'. cancelAdmin_tx demo_config 9 demo_public_id ''closed'' (demo_env ''d'') demo_confirmed = Inr (False, db')
    \<and> find_booking db' demo_public_id = Some b' \<and> b_status b' = CancelledByAdmin"
  by (rule cancelAdmin_always [OF demo_confirmed_reachable, of _ demo_confirmed_booking])
    (simp_all add: demo_defs demo_confirmed_def demo_requested_def demo_confirmed_booking_def find_booking_def
      user_exists_def fresh_uuids_def stream_events_def lifecycle_event_def pending_event_def mail_event_def mail_uuid_def)

text \<open>C11. A change with a stale version never goes through: once a change of a booking has committed under
  a version, no later change of that booking under the same version succeeds, whatever happened in between
  and whatever snapshot it read. No update is lost.\<close>

theorem change_not_lost:
  assumes "hotel_reachable cfg collate db"
    and "updateAdmin_tx cfg snapshot actor publicId version body env db = Inr ((), db1)"
    and "(hotel_step cfg collate)\<^sup>*\<^sup>* db1 db2"
  shows "is_error (updateAdmin_tx cfg snapshot' actor' publicId version body' env' db2)"
proof (rule ccontr)
  assume "\<not> is_error (updateAdmin_tx cfg snapshot' actor' publicId version body' env' db2)"
  then obtain db3 where again: "updateAdmin_tx cfg snapshot' actor' publicId version body' env' db2 = Inr ((), db3)"
    by (auto simp: is_error_def split: sum.splits)
  note step = hotel_step.change [OF assms(2)]
  have r1: "hotel_reachable cfg collate db1"
    using assms(1) step unfolding hotel_reachable_def by (rule rtranclp.rtrancl_into_rtrancl)
  then have r2: "hotel_reachable cfg collate db2" using assms(3) unfolding hotel_reachable_def by (rule rtranclp_trans)
  note I = reachable_inventory [OF assms(1)] and I1 = reachable_inventory [OF r1] and I2 = reachable_inventory [OF r2]
  obtain b s where b: "find_booking db publicId = Some b" "show_nat (b_version b) = version"
    and s: "b_version s = Suc (b_version b)" "b_publicId s = publicId" "s \<in> set (bookings db1)"
    using inventoryD(1) [OF I] assms(2)
  proof (cases rule: updateAdmin_effect)
    case (1 b s dest source w dest_id)
    then show ?thesis
      using that [of b s] find_booking_Some [OF 1(1)] by (auto simp: booking_saved_def row_simps saved_row_def)
  qed
  obtain room where "booking_room db1 s = Some room" using booking_room_Some [OF I1 s(3)] by blast
  then have "ledger_of db1 publicId = Some (ledger_row s room)" using ledger_of_iff [OF I1] s by blast
  then obtain a where a: "ledger_of db2 publicId = Some a" "evolved (ledger_row s room) a"
    using hotel_steps_evolve [OF r1 assms(3)] unfolding evolves_def by blast
  then obtain x where x: "x \<in> set (bookings db2)" "b_publicId x = publicId" "b_version x = lb_version a"
    using ledger_of_iff [OF I2] by auto
  then have "find_booking db2 publicId = Some x" using find_booking_iff [OF I2] by blast
  moreover obtain y where "find_booking db2 publicId = Some y" "show_nat (b_version y) = version"
    using inventoryD(1) [OF I2] again by (cases rule: updateAdmin_effect) auto
  ultimately have "show_nat (b_version x) = version" by simp
  moreover have "Suc (b_version b) \<le> lb_version a" using a(2) s(1) by (auto simp: evolved_def)
  ultimately show False using b(2) x(3) by (metis show_nat_inj Suc_n_not_le_n)
qed

theorem change_not_lost_witness:
  "\<exists>db1. updateAdmin_tx demo_config (demo_snapshot\<lparr>sn_version := 2\<rparr>) 9 demo_public_id (show_nat (Suc (Suc 0))) demo_change
     (demo_env ''e'') demo_confirmed = Inr ((), db1)
   \<and> is_error (updateAdmin_tx demo_config (demo_snapshot\<lparr>sn_version := 2\<rparr>) 9 demo_public_id (show_nat (Suc (Suc 0)))
        demo_change (demo_env ''g'') db1)"
  using demo_changed change_not_lost [OF demo_confirmed_reachable] by blast

text \<open>Rooms have the same protection: after an update under a version has committed, another update
  under that version is answered with the 412 of a version conflict.\<close>

theorem room_update_not_lost:
  assumes "hotel_reachable cfg collate db" "update_room collate roomId version body env db = Inr (result, db')"
    and "hasDefinedUpdate body'"
  shows "update_room collate roomId version body' env' db' = Inl roomsErrors_roomVersionConflict"
proof -
  obtain saved roomType ams where r: "result = (saved, roomType, ams)" by (cases result) auto
  show ?thesis
  proof (rule update_room_Inr [OF assms(2) [unfolded r]])
    fix room rows
    assume f: "find_room db roomId = Some room" "show_nat (r_version room) = version"
      and saved: "saved = (patched_room body room)\<lparr>r_version := Suc (r_version room), r_updatedAt := dbNow env\<rparr>"
      and db': "db' = db\<lparr>roomAmenities := rows, rooms := update_where (\<lambda>r. r_id r = roomId) (\<lambda>_. saved) (rooms db)\<rparr>"
    have room: "room \<in> set (rooms db)" "r_id room = roomId" using find_room_Some [OF f(1)] by simp_all
    have id: "r_id saved = roomId" using room(2) by (simp add: saved patched_room_def)
    have "saved \<in> set (rooms db')" using room by (auto simp: db' row_simps)
    moreover have "distinct (map r_id (rooms db'))"
      using inventoryD(5) [OF reachable_inventory [OF assms(1)]] id by (simp add: db' map_update_key)
    ultimately have "find_room db' roomId = Some saved" using find_unique [of r_id "rooms db'" saved] id by (simp add: find_room_def)
    moreover have "show_nat (r_version saved) \<noteq> version" using f(2) by (auto simp: saved)
    ultimately show ?thesis
      using assms(3) by (simp add: update_room_def lockRoom_def or_throw_def catch_database_def isDatabaseError_def
          roomsErrors_roomVersionConflict_def ER_DUP_ENTRY_def)
  qed
qed

theorem room_update_not_lost_witness:
  "\<exists>db'. update_room id 2 (show_nat (Suc 0)) demo_patch (demo_env ''h'') db' = Inl roomsErrors_roomVersionConflict"
proof -
  obtain result db' where u: "update_room id 2 (show_nat (Suc 0)) demo_patch (demo_env ''f'') demo_catalogue = Inr (result, db')"
    using demo_room_updated by blast
  have "hasDefinedUpdate demo_patch" by (simp add: demo_patch_def hasDefinedUpdate_def)
  from room_update_not_lost [OF demo_catalogue_reachable u this] show ?thesis by blast
qed

text \<open>A guest's list is complete and private: reading all pages in order gives exactly the guest's own
  bookings that match the filter, newest first, each once, and the reported total is their number.\<close>

theorem listOwn_pages:
  assumes "assertBookingFilterRange query = Inr ()"
    and "own = newest_first (filter (\<lambda>b. b_userId b = actor \<and> bookingSummaryQuery db b \<noteq> None
           \<and> matches_stay_filter query b) (bookings db))"
    and "length own \<le> n * q_pageSize query"
  shows "concat (map (\<lambda>page. fst (projr (listOwn db actor (query\<lparr>q_page := page\<rparr>)))) [1..<Suc n]) =
      map (\<lambda>b. JObj (toUserBookingResponse b (the (bookingSummaryQuery db b)))) own
    \<and> (\<forall>page. snd (projr (listOwn db actor (query\<lparr>q_page := page\<rparr>))) = length own)"
proof -
  let ?f = "\<lambda>b. map_option (\<lambda>place. JObj (toUserBookingResponse b place)) (bookingSummaryQuery db b)"
  have same: "matches_stay_filter (query\<lparr>q_page := page\<rparr>) = matches_stay_filter query"
    "assertBookingFilterRange (query\<lparr>q_page := page\<rparr>) = assertBookingFilterRange query" for page
    by (simp add: matches_stay_filter_def fun_eq_iff)
      (cases "q_from query"; cases "q_to query"; simp add: assertBookingFilterRange_def)
  have list: "listOwn db actor (query\<lparr>q_page := page\<rparr>) =
      Inr (List.map_filter ?f (page_of page (q_pageSize query) own), length own)" for page
    using assms(1,2) by (simp add: listOwn_def same Let_def)
  have "\<forall>b \<in> set own. bookingSummaryQuery db b \<noteq> None" using assms(2) by (auto simp: newest_first_def)
  then have all: "List.map_filter ?f own = map (\<lambda>b. JObj (toUserBookingResponse b (the (bookingSummaryQuery db b)))) own"
    by (induction own) (auto simp: List.map_filter_def)
  have "concat (map (\<lambda>page. List.map_filter ?f (page_of page (q_pageSize query) own)) [1..<Suc n]) = List.map_filter ?f own"
    using map_filter_concat [of ?f "map (\<lambda>page. page_of page (q_pageSize query) own) [1..<Suc n]"]
      pages_partition [OF assms(3)] by (simp add: comp_def)
  then show ?thesis by (simp add: list all)
qed

theorem listOwn_pages_witness:
  "concat (map (\<lambda>page. fst (projr (listOwn demo_confirmed 8 (demo_query\<lparr>q_page := page\<rparr>)))) [1..<Suc 1]) =
     [JObj (toUserBookingResponse demo_confirmed_booking (demo_room, demo_type))]"
proof -
  have range: "assertBookingFilterRange demo_query = Inr ()" by (simp add: demo_query_def assertBookingFilterRange_def)
  have place: "bookingSummaryQuery demo_confirmed demo_confirmed_booking = Some (demo_room, demo_type)"
    by (simp add: bookingSummaryQuery_def demo_defs demo_confirmed_def demo_requested_def demo_confirmed_booking_def
        find_room_time_def find_room_def find_room_type_def)
  have own: "[demo_confirmed_booking] = newest_first (filter (\<lambda>b. b_userId b = 8
      \<and> bookingSummaryQuery demo_confirmed b \<noteq> None \<and> matches_stay_filter demo_query b) (bookings demo_confirmed))"
    using place by (simp add: demo_confirmed_def newest_first_def matches_stay_filter_def demo_query_def)
      (simp add: demo_confirmed_booking_def demo_booking_def)
  show ?thesis using listOwn_pages [OF range own, of 1] place by (simp add: demo_query_def)
qed

section \<open>Properties of the components\<close>

text \<open>C12. The event contract is a round trip: the consumer's parser accepts the JSON of a payload and
  returns that payload exactly when the payload satisfies the contract (identifiers, version, amounts,
  currency, dates, an allowed transition, and a previous stay exactly for a change in place).\<close>

theorem payload_round_trip:
  "parseBookingLifecyclePayload iso4217 (payload_json p) = Inr p \<longleftrightarrow> valid_payload iso4217 p"
  using parse_payload_json parse_payload_valid by blast

text \<open>C13. A window can be deleted exactly when it belongs to the existing room named in the path and no
  booking or change row refers to it; then only that window goes.\<close>

theorem delete_window_iff:
  "delete_room_time findByRoomTimeIds roomId roomTimeId db = Inr ((), db') \<longleftrightarrow>
   find_room db roomId \<noteq> None \<and> find_room_window db roomTimeId roomId \<noteq> None
   \<and> \<not> (\<exists>b \<in> set (bookings db). b_roomTimeId b = roomTimeId)
   \<and> \<not> (\<exists>c \<in> set (changeHistories db). ch_fromRoomTimeId c = roomTimeId \<or> ch_toRoomTimeId c = roomTimeId)
   \<and> db' = db\<lparr>roomTimes := filter (\<lambda>w. w_id w \<noteq> roomTimeId) (roomTimes db)\<rparr>"
  by (auto simp: booking_usage.delete_room_time_Inr window_referenced_def delete_where_def)

text \<open>A window update that commits keeps the dates of a window that any booking or change row refers
  to, keeps a window active while a pending or confirmed booking uses it, and leaves a proper range that
  overlaps no other active window of the room.\<close>

theorem update_window_policy:
  assumes "update_room_time findByRoomTimeIds roomId roomTimeId body env db = Inr (response, db')"
  shows "\<exists>w s. find_room_window db roomTimeId roomId = Some w
    \<and> w_availableFrom s = (case uw_availableFrom body of None \<Rightarrow> w_availableFrom w | Some d \<Rightarrow> d)
    \<and> w_availableTo s = (case uw_availableTo body of None \<Rightarrow> w_availableTo w | Some d \<Rightarrow> d)
    \<and> w_status s = (case uw_status body of None \<Rightarrow> w_status w | Some st \<Rightarrow> st)
    \<and> w_availableFrom s < w_availableTo s
    \<and> (window_referenced db roomTimeId \<longrightarrow>
         w_availableFrom s = w_availableFrom w \<and> w_availableTo s = w_availableTo w)
    \<and> ((\<exists>b \<in> set (bookings db). b_roomTimeId b = roomTimeId \<and> b_status b \<in> {Pending, Confirmed})
         \<and> w_status w = TimeActive \<longrightarrow> w_status s = TimeActive)
    \<and> (w_status s = TimeActive \<longrightarrow> (\<forall>v \<in> set (roomTimes db). w_id v \<noteq> roomTimeId \<and> w_roomId v = roomId
         \<and> w_status v = TimeActive \<longrightarrow>
         w_availableTo v \<le> w_availableFrom s \<or> w_availableTo s \<le> w_availableFrom v))
    \<and> (\<exists>s'. save_room_time s env db = Inr (s', db'))"
proof (rule booking_usage.update_room_time_Inr [OF assms])
  fix w s
  assume h: "find_room_window db roomTimeId roomId = Some w"
    "s = w\<lparr>w_availableFrom := (case uw_availableFrom body of None \<Rightarrow> w_availableFrom w | Some d \<Rightarrow> d),
          w_availableTo := (case uw_availableTo body of None \<Rightarrow> w_availableTo w | Some d \<Rightarrow> d),
          w_status := (case uw_status body of None \<Rightarrow> w_status w | Some s \<Rightarrow> s)\<rparr>"
    "w_availableFrom s < w_availableTo s"
    "window_referenced db roomTimeId \<Longrightarrow> w_availableFrom s = w_availableFrom w \<and> w_availableTo s = w_availableTo w"
    "(\<exists>b \<in> set (bookings db). b_roomTimeId b = roomTimeId \<and> b_status b \<in> {Pending, Confirmed}) \<Longrightarrow>
      w_status w = TimeActive \<Longrightarrow> w_status s = TimeActive"
    "assertNoActiveOverlap db roomId (room_time_state s) (Some roomTimeId) = Inr ()"
    "\<exists>s'. save_room_time s env db = Inr (s', db')"
  have "\<forall>v \<in> set (roomTimes db). w_id v \<noteq> roomTimeId \<and> w_roomId v = roomId \<and> w_status v = TimeActive \<longrightarrow>
      w_availableTo v \<le> w_availableFrom s \<or> w_availableTo s \<le> w_availableFrom v" if "w_status s = TimeActive"
    using h(6) that by (auto simp: assertNoActiveOverlap_def room_time_state_def require_Inr_iff not_less split: if_splits)
  moreover have "w_availableFrom s = (case uw_availableFrom body of None \<Rightarrow> w_availableFrom w | Some d \<Rightarrow> d)"
    "w_availableTo s = (case uw_availableTo body of None \<Rightarrow> w_availableTo w | Some d \<Rightarrow> d)"
    "w_status s = (case uw_status body of None \<Rightarrow> w_status w | Some st \<Rightarrow> st)"
    by (simp_all add: h(2))
  ultimately show ?thesis using h(1,3-5,7) by blast
qed

theorem update_window_policy_witness:
  "\<exists>response db'. update_room_time findByRoomTimeIds 2 3 \<lparr>uw_availableFrom = None, uw_availableTo = None,
      uw_status = Some TimeInactive\<rparr> (demo_env ''w'') demo_catalogue = Inr (response, db')
    \<and> (\<exists>w s s'. find_room_window demo_catalogue 3 2 = Some w \<and> w_status s = TimeInactive
         \<and> w_availableFrom s < w_availableTo s \<and> save_room_time s (demo_env ''w'') demo_catalogue = Inr (s', db'))"
proof -
  obtain response db' where u: "update_room_time findByRoomTimeIds 2 3 \<lparr>uw_availableFrom = None, uw_availableTo = None,
      uw_status = Some TimeInactive\<rparr> (demo_env ''w'') demo_catalogue = Inr (response, db')"
    using demo_window_closed by blast
  then show ?thesis using update_window_policy [OF u] by auto
qed

text \<open>C14. The date parser accepts exactly the ISO dates of the proleptic Gregorian calendar from year 100 to
  9999 and returns their midnight in milliseconds.\<close>

theorem hotel_date_accepted:
  "parseHotelDate v = Some ms \<longleftrightarrow>
   (\<exists>y m d. 100 \<le> y \<and> y \<le> 9999 \<and> valid_date y m d \<and> v = iso_date y m d
      \<and> ms = make_day y (m - 1) d * millisecondsPerDay)"
  by (rule parseHotelDate_iff)

text \<open>A stay is accepted exactly when both dates are real, it has at least one night and it does not
  start before today, all comparisons being those of the strings; the nights are then the span of the two
  dates in days.\<close>

theorem booking_dates_accepted:
  "assertBookingDates today checkIn checkOut =
     (if parseHotelDate checkIn \<noteq> None \<and> parseHotelDate checkOut \<noteq> None \<and> checkIn < checkOut \<and> today \<le> checkIn
      then the (hotelDateSpanDays checkIn checkOut) else 0)"
proof (cases "0 < assertBookingDates today checkIn checkOut")
  case True
  then show ?thesis using assertBookingDates_iff [of today checkIn checkOut] assertBookingDates_span [OF True] by simp
next
  case False
  then have "assertBookingDates today checkIn checkOut = 0" using assertBookingDates_nonneg [of today checkIn checkOut] by simp
  then show ?thesis using False assertBookingDates_iff [of today checkIn checkOut] by auto
qed

text \<open>Public identifiers: whatever the clock does between calls, forwards, backwards or not at all, the
  identifiers of one process are strictly increasing, hence unique, and each has the form the API accepts.\<close>

theorem public_ids_increase:
  assumes "\<forall>(now, random) \<in> set calls. 0 \<le> now \<and> now < 2 ^ 48 \<and> 0 \<le> random \<and> random \<le> ulidRandomMaximum"
  shows "sorted_wrt (<) (ulid_run calls ulid_initial) \<and> (\<forall>i \<in> set (ulid_run calls ulid_initial). bookingPublicIdPattern i)"
proof -
  have "ulid_inv ulid_initial" by (simp add: ulid_inv_def ulid_initial_def ulidRandomMaximum_def)
  then show ?thesis using ulid_run_sorted ulid_run_pattern assms by blast
qed

theorem public_ids_increase_witness:
  "sorted_wrt (<) (ulid_run [(5, 9), (5, 1), (3, 4)] ulid_initial)"
  using public_ids_increase [of "[(5, 9), (5, 1), (3, 4)]"] by (simp add: ulidRandomMaximum_def)

text \<open>The version header of a change is accepted exactly when it is the quoted decimal notation, without
  leading zeros, of a positive number of at most twenty digits, and the parser returns that notation.\<close>

theorem version_header_accepted:
  "parseBookingVersionHeader header = Inr version \<longleftrightarrow>
   (\<exists>n. 0 < n \<and> n < 10 ^ 20 \<and> version = show_nat n
      \<and> header = Some ([char_of (34::nat)] @ show_nat n @ [char_of (34::nat)]))"
  by (rule parseBookingVersionHeader_iff)

end
